(* ===== verification/Sertos_Prelude.thy ===== *)
theory Sertos_Prelude
  imports Main "HOL-Library.Word" "HOL-Library.Monad_Syntax"
begin

text \<open>
  Shared vocabulary of the SertOS development: the widths of the C types on the 32-bit
  targets the kernel is written for (Cortex-M and RV32), the named collections of simplification
  rules the component theories fill, and a small total-correctness calculus for kernel operations.

  A kernel operation that can loop forever, never be resumed by the port or dereference a
  pointer of the wrong kind is modelled as a function into \<open>option\<close>: \<open>None\<close> is "does not return".
  \<open>returns m P\<close> states that \<open>m\<close> does return and that its result satisfies \<open>P\<close>.
\<close>

unbundle bit_operations_syntax

section \<open>Machine types\<close>

type_synonym size_t = "32 word"
type_synonym addr = "32 word"
type_synonym byte = "8 word"
type_synonym SertosPriority = "8 word"
type_synonym SertosTick = "32 word"
type_synonym SertosRunCount = "64 word"

abbreviation NULL :: addr where
  "NULL \<equiv> 0"

section \<open>Collections of rules\<close>

named_theorems kernel_simps "selectors and effects of the kernel's state primitives"
named_theorems returns_intros "rules that establish that an operation returns"

section \<open>Operations that return\<close>

definition returns :: "'a option \<Rightarrow> ('a \<Rightarrow> bool) \<Rightarrow> bool" where
  "returns m P \<longleftrightarrow> (case m of None \<Rightarrow> False | Some x \<Rightarrow> P x)"

lemma returns_Some [simp]: "returns (Some x) P = P x"
  by (simp add: returns_def)

lemma returns_None [simp]: "\<not> returns None P"
  by (simp add: returns_def)

lemma returns_iff: "returns m P \<longleftrightarrow> (\<exists>x. m = Some x \<and> P x)"
  by (cases m) auto

lemma returns_bind [simp]:
  "returns (Option.bind m f) P = returns m (\<lambda>x. returns (f x) P)"
  by (cases m) auto

lemma returns_mono: "returns m P \<Longrightarrow> (\<And>x. P x \<Longrightarrow> Q x) \<Longrightarrow> returns m Q"
  by (cases m) auto

lemma returns_conj: "returns m P \<Longrightarrow> returns m Q \<Longrightarrow> returns m (\<lambda>x. P x \<and> Q x)"
  by (cases m) auto

lemma returns_if [simp]:
  "returns (if b then m else n) P = (if b then returns m P else returns n P)"
  by simp

lemma returnsE:
  assumes "returns m P"
  obtains x where "m = Some x" and "P x"
  using assms by (cases m) auto

section \<open>Lists\<close>

lemma remove1_split: "n \<notin> set xs \<Longrightarrow> remove1 n (xs @ n # ys) = xs @ ys"
  by (induction xs) auto

lemma in_set_remove1_distinct:
  "distinct xs \<Longrightarrow> x \<in> set (remove1 y xs) \<longleftrightarrow> x \<in> set xs \<and> x \<noteq> y"
  by auto

lemma inj_map_remove1: "inj f \<Longrightarrow> map f (remove1 x xs) = remove1 (f x) (map f xs)"
  by (induction xs) (auto dest: injD)

section \<open>Words\<close>

lemma word_pos_iff_unat: "0 < (w :: 'a::len word) \<longleftrightarrow> 0 < unat w"
  by (simp add: word_less_nat_alt)

lemma unat_minus_one_pos: "0 < (w :: 'a::len word) \<Longrightarrow> unat (w - 1) = unat w - 1"
  by (metis unat_minus_one word_neq_0_conv)

lemma unat_Suc_less:
  assumes "(f :: 'a::len word) < n" shows "unat (f + 1) = Suc (unat f)"
proof -
  have "unat f < unat n" using assms by (simp add: word_less_nat_alt)
  moreover have "unat n < 2 ^ LENGTH('a)" by (rule unsigned_less)
  ultimately have "unat f + 1 < 2 ^ LENGTH('a)" by linarith
  then show ?thesis by (simp add: unat_word_ariths)
qed

lemma unat_and_not_mask:
  "unat ((a::'a::len word) AND NOT (mask n)) = unat a - unat a mod 2 ^ n"
proof -
  have "a AND NOT (mask n) = push_bit n (drop_bit n a)"
    by (rule bit_eqI) (auto simp: bit_simps)
  then have "a AND NOT (mask n) = a - take_bit n a"
    using bits_ident [of n a] by (simp add: eq_diff_eq)
  moreover have "unat (take_bit n a) = unat a mod 2 ^ n"
    by (simp only: unsigned_take_bit_eq take_bit_nat_eq take_bit_eq_mod [of n "unat a"])
  moreover have "take_bit n a \<le> a"
    by (metis calculation(2) mod_less_eq_dividend word_le_nat_alt)
  ultimately show ?thesis by (simp add: unat_sub)
qed

end
