(* ===== verification/Sertos_Lists.thy ===== *)
theory Sertos_Lists
  imports Sertos_Prelude
begin

text \<open>
  The intrusive doubly linked lists of the kernel. The \<open>linked_list\<close> submodule is not part of the
  sources, so its operations are parameters of the model. What the sources do show is the layout:
  a \<open>LinkedList\<close> has a sentinel node \<open>root\<close> and a \<open>count\<close>, a \<open>LinkedListNode\<close> has \<open>next\<close> and \<open>prev\<close>,
  both possibly NULL, and the lists are circular through the sentinel (the kernel compares
  \<open>next\<close> with \<open>&list.root\<close>). The theory models that memory (\<open>lheap\<close>), defines when a list of
  the heap holds a given sequence of nodes (\<open>dll\<close>), and states the contract of the submodule as
  the locale \<open>linked_list\<close>. Its lemmas lift the contract of one list to the whole heap: the
  abstraction \<open>heap_ok h L\<close> relates the pointers of every live list to the sequences of \<open>L\<close>, which
  are pairwise disjoint.
\<close>

section \<open>Nodes, lists and the pointer memory\<close>

text \<open>Every \<open>LinkedList\<close> object of the kernel. Addresses name the IPC objects that embed one.\<close>

datatype lst =
    ReadyQ nat            \<comment> \<open>\<open>s_ready_queues[i]\<close>\<close>
  | DelayList             \<comment> \<open>\<open>s_delay_list\<close>\<close>
  | SuspendedList         \<comment> \<open>\<open>s_suspended_list\<close>\<close>
  | TaskRegistry          \<comment> \<open>\<open>s_task_registry\<close>\<close>
  | ActiveTimers          \<comment> \<open>\<open>s_active_timers\<close>\<close>
  | SemWait addr          \<comment> \<open>\<open>sem->wait_list\<close>\<close>
  | MutexWait addr        \<comment> \<open>\<open>mutex->wait_list\<close>\<close>
  | QueueSend addr        \<comment> \<open>\<open>queue->wait_send\<close>\<close>
  | QueueRecv addr        \<comment> \<open>\<open>queue->wait_recv\<close>\<close>
  | StreamSend addr       \<comment> \<open>\<open>stream_buf->wait_send\<close>\<close>
  | StreamRecv addr       \<comment> \<open>\<open>stream_buf->wait_recv\<close>\<close>

text \<open>Every \<open>LinkedListNode\<close>: the sentinel of a list or a node embedded in a control block.\<close>

datatype lnode =
    Root lst
  | StateNode addr        \<comment> \<open>\<open>tcb->state_node\<close>\<close>
  | EventNode addr        \<comment> \<open>\<open>tcb->event_node\<close>\<close>
  | RegistryNode addr     \<comment> \<open>\<open>tcb->registry_node\<close>\<close>
  | TimerNode addr        \<comment> \<open>\<open>timer->node\<close>\<close>

record lheap =
  nxt :: "lnode \<Rightarrow> lnode option"
  prv :: "lnode \<Rightarrow> lnode option"
  cnt :: "lst \<Rightarrow> size_t"

fun is_Root :: "lnode \<Rightarrow> bool" where
  "is_Root (Root l) = True"
| "is_Root _ = False"

definition set_nxt :: "lnode \<Rightarrow> lnode option \<Rightarrow> lheap \<Rightarrow> lheap" where
  "set_nxt n v h = h\<lparr>nxt := (nxt h)(n := v)\<rparr>"

definition set_prv :: "lnode \<Rightarrow> lnode option \<Rightarrow> lheap \<Rightarrow> lheap" where
  "set_prv n v h = h\<lparr>prv := (prv h)(n := v)\<rparr>"

definition set_cnt :: "lst \<Rightarrow> size_t \<Rightarrow> lheap \<Rightarrow> lheap" where
  "set_cnt l c h = h\<lparr>cnt := (cnt h)(l := c)\<rparr>"

definition clear_node :: "lnode \<Rightarrow> lheap \<Rightarrow> lheap" where
  "clear_node n h = set_prv n None (set_nxt n None h)"

text \<open>\<open>LINKED_LIST_CONTAINER_OF\<close>: the control block around a node; \<open>None\<close> for a node of another kind,
  where the pointer arithmetic of the macro would leave the object.\<close>

fun container_of_state :: "lnode \<Rightarrow> addr option" where
  "container_of_state (StateNode a) = Some a"
| "container_of_state _ = None"

fun container_of_event :: "lnode \<Rightarrow> addr option" where
  "container_of_event (EventNode a) = Some a"
| "container_of_event _ = None"

fun container_of_registry :: "lnode \<Rightarrow> addr option" where
  "container_of_registry (RegistryNode a) = Some a"
| "container_of_registry _ = None"

fun container_of_timer :: "lnode \<Rightarrow> addr option" where
  "container_of_timer (TimerNode a) = Some a"
| "container_of_timer _ = None"

section \<open>Circular lists in the heap\<close>

fun chain :: "lheap \<Rightarrow> lnode \<Rightarrow> lnode list \<Rightarrow> lnode \<Rightarrow> bool" where
  "chain h a [] b \<longleftrightarrow> nxt h a = Some b \<and> prv h b = Some a"
| "chain h a (x # xs) b \<longleftrightarrow> nxt h a = Some x \<and> prv h x = Some a \<and> chain h x xs b"

definition dll :: "lheap \<Rightarrow> lst \<Rightarrow> lnode list \<Rightarrow> bool" where
  "dll h l ns \<longleftrightarrow> chain h (Root l) ns (Root l) \<and> distinct ns \<and> (\<forall>n \<in> set ns. \<not> is_Root n) \<and>
     cnt h l = of_nat (length ns)"

definition same_links :: "lnode set \<Rightarrow> lheap \<Rightarrow> lheap \<Rightarrow> bool" where
  "same_links X h h' \<longleftrightarrow> (\<forall>x. x \<notin> X \<longrightarrow> nxt h' x = nxt h x \<and> prv h' x = prv h x)"

definition same_counts :: "lst \<Rightarrow> lheap \<Rightarrow> lheap \<Rightarrow> bool" where
  "same_counts l h h' \<longleftrightarrow> (\<forall>k. k \<noteq> l \<longrightarrow> cnt h' k = cnt h k)"

text \<open>The abstract state of all lists: the node sequence of every list that is initialised.\<close>

type_synonym lmap = "lst \<rightharpoonup> lnode list"

definition nodes :: "lmap \<Rightarrow> lnode set" where
  "nodes L = (\<Union>ns \<in> ran L. set ns)"

definition heap_ok :: "lheap \<Rightarrow> lmap \<Rightarrow> bool" where
  "heap_ok h L \<longleftrightarrow>
     (\<forall>l ns. L l = Some ns \<longrightarrow> dll h l ns) \<and>
     (\<forall>l k ns ms. l \<noteq> k \<longrightarrow> L l = Some ns \<longrightarrow> L k = Some ms \<longrightarrow> set ns \<inter> set ms = {})"

section \<open>The submodule's contract\<close>

locale linked_list =
  fixes init :: "lst \<Rightarrow> lheap \<Rightarrow> lheap"
    and insert_tail :: "lst \<Rightarrow> lnode \<Rightarrow> lheap \<Rightarrow> lheap"
    and remove :: "lst \<Rightarrow> lnode \<Rightarrow> lheap \<Rightarrow> lheap"
    and peek_head :: "lst \<Rightarrow> lheap \<Rightarrow> lnode option"
    and is_empty :: "lst \<Rightarrow> lheap \<Rightarrow> bool"
  assumes init_dll: "dll (init l h) l []"
    and init_frame: "same_links {Root l} h (init l h) \<and> same_counts l h (init l h)"
    and insert_dll: "dll h l ns \<Longrightarrow> n \<notin> set ns \<Longrightarrow> \<not> is_Root n \<Longrightarrow>
      dll (insert_tail l n h) l (ns @ [n])"
    and insert_frame: "dll h l ns \<Longrightarrow>
      same_links (insert n (insert (Root l) (set ns))) h (insert_tail l n h) \<and>
      same_counts l h (insert_tail l n h)"
    and remove_dll: "dll h l ns \<Longrightarrow> n \<in> set ns \<Longrightarrow> dll (remove l n h) l (remove1 n ns)"
    and remove_frame: "dll h l ns \<Longrightarrow> n \<in> set ns \<Longrightarrow>
      same_links (insert (Root l) (set ns)) h (remove l n h) \<and>
      same_counts l h (remove l n h)"
    and peek_head_dll: "dll h l ns \<Longrightarrow>
      peek_head l h = (case ns of [] \<Rightarrow> None | n # _ \<Rightarrow> Some n)"
    and is_empty_dll: "dll h l ns \<Longrightarrow> is_empty l h \<longleftrightarrow> ns = []"

section \<open>Facts about chains and the abstraction\<close>

lemma link_simps [simp]:
  "nxt (set_nxt n v h) = (nxt h)(n := v)" "prv (set_nxt n v h) = prv h" "cnt (set_nxt n v h) = cnt h"
  "nxt (set_prv n v h) = nxt h" "prv (set_prv n v h) = (prv h)(n := v)" "cnt (set_prv n v h) = cnt h"
  "nxt (set_cnt l c h) = nxt h" "prv (set_cnt l c h) = prv h" "cnt (set_cnt l c h) = (cnt h)(l := c)"
  "nxt (clear_node n h) = (nxt h)(n := None)" "prv (clear_node n h) = (prv h)(n := None)"
  "cnt (clear_node n h) = cnt h"
  by (simp_all add: set_nxt_def set_prv_def set_cnt_def clear_node_def)

lemma chain_append:
  "chain h a (xs @ y # ys) b \<longleftrightarrow> chain h a xs y \<and> chain h y ys b"
  by (induction xs arbitrary: a) auto

lemma chain_cong:
  assumes "\<And>x. x \<in> set (a # xs) \<Longrightarrow> nxt h' x = nxt h x"
    and "\<And>x. x \<in> set (xs @ [b]) \<Longrightarrow> prv h' x = prv h x"
  shows "chain h' a xs b = chain h a xs b"
  using assms by (induction xs arbitrary: a) auto

lemma chain_nxt_hd: "chain h a xs b \<Longrightarrow> nxt h a = Some (hd (xs @ [b]))"
  by (cases xs) auto

lemma chain_prv_last: "chain h a xs b \<Longrightarrow> prv h b = Some (last (a # xs))"
  by (induction xs arbitrary: a) auto

lemma dll_nxt:
  assumes "dll h l (xs @ x # ys)"
  shows "nxt h x = Some (hd (ys @ [Root l]))"
  using assms chain_nxt_hd by (auto simp: dll_def chain_append)

lemma dll_prv:
  assumes "dll h l (xs @ x # ys)"
  shows "prv h x = Some (last (Root l # xs))"
  using assms chain_prv_last by (auto simp: dll_def chain_append)

lemma dll_linked: "dll h l ns \<Longrightarrow> n \<in> set ns \<Longrightarrow> nxt h n \<noteq> None \<and> prv h n \<noteq> None"
  by (metis dll_nxt dll_prv in_set_conv_decomp option.distinct(1))

lemma dll_Nil: "dll h l [] \<longleftrightarrow> nxt h (Root l) = Some (Root l) \<and> prv h (Root l) = Some (Root l) \<and> cnt h l = 0"
  by (auto simp: dll_def)

lemma dll_frame:
  assumes "dll h l ns" and "same_links X h h'" and "same_counts k h h'" and "k \<noteq> l"
    and "Root l \<notin> X" and "set ns \<inter> X = {}"
  shows "dll h' l ns"
proof -
  have "chain h' (Root l) ns (Root l) = chain h (Root l) ns (Root l)"
    by (rule chain_cong) (use assms in \<open>auto simp: same_links_def\<close>)
  with assms show ?thesis by (auto simp: dll_def same_counts_def)
qed

lemma nodes_iff: "n \<in> nodes L \<longleftrightarrow> (\<exists>l ns. L l = Some ns \<and> n \<in> set ns)"
  by (auto simp: nodes_def ran_def)

lemma nodesI: "L l = Some ns \<Longrightarrow> n \<in> set ns \<Longrightarrow> n \<in> nodes L"
  by (auto simp: nodes_iff)

lemma Root_in_nodes: "\<forall>n \<in> A. \<not> is_Root n \<Longrightarrow> Root l \<notin> A"
  by auto

lemma heap_ok_dll: "heap_ok h L \<Longrightarrow> L l = Some ns \<Longrightarrow> dll h l ns"
  by (auto simp: heap_ok_def)

lemma heap_ok_distinct: "heap_ok h L \<Longrightarrow> L l = Some ns \<Longrightarrow> distinct ns"
  by (auto simp: heap_ok_def dll_def)

lemma heap_ok_no_Root: "heap_ok h L \<Longrightarrow> L l = Some ns \<Longrightarrow> n \<in> set ns \<Longrightarrow> \<not> is_Root n"
  by (auto simp: heap_ok_def dll_def)

lemma heap_ok_unique:
  "heap_ok h L \<Longrightarrow> L l = Some ns \<Longrightarrow> n \<in> set ns \<Longrightarrow> L k = Some ms \<Longrightarrow> n \<in> set ms \<Longrightarrow> k = l"
  unfolding heap_ok_def by blast

lemma heap_ok_linked: "heap_ok h L \<Longrightarrow> n \<in> nodes L \<Longrightarrow> nxt h n \<noteq> None \<and> prv h n \<noteq> None"
  by (metis dll_linked heap_ok_dll nodes_iff)

text \<open>One list changes, everything outside the listed nodes is framed: the shape of every update.\<close>

lemma heap_ok_update:
  assumes ok: "heap_ok h L" and l: "L l = Some ns"
    and new: "dll h' l ns'" and links: "same_links X h h'" and counts: "same_counts l h h'"
    and X: "X \<subseteq> insert (Root l) (set ns \<union> set ns')" and fresh: "set ns' \<subseteq> set ns \<union> - nodes L"
  shows "heap_ok h' (L(l \<mapsto> ns'))"
proof -
  have disj: "set ms \<inter> (set ns \<union> set ns') = {}" if "k \<noteq> l" "L k = Some ms" for k ms
  proof -
    have "set ms \<inter> set ns = {}" using ok that l by (auto simp: heap_ok_def)
    moreover have "set ms \<subseteq> nodes L" using that(2) nodesI [of L k] by blast
    ultimately show ?thesis using fresh by auto
  qed
  have "dll h' k ms" if "k \<noteq> l" "L k = Some ms" for k ms
  proof (rule dll_frame [OF heap_ok_dll [OF ok that(2)] links counts])
    have "\<not> is_Root n" if "n \<in> set ns'" for n using new that by (auto simp: dll_def)
    moreover have "\<not> is_Root n" if "n \<in> set ns" for n using heap_ok_no_Root [OF ok l that] .
    ultimately show "Root k \<notin> X" using X that by fastforce
    have "Root l \<notin> set ms" using heap_ok_no_Root [OF ok that(2), of "Root l"] by auto
    then show "set ms \<inter> X = {}" using X disj [OF that] by auto
  qed (use that in auto)
  with ok new disj show ?thesis
    unfolding heap_ok_def by (fastforce split: if_splits)
qed

lemma heap_ok_init_new:
  assumes ok: "heap_ok h L" and new: "dll h' l []"
    and links: "same_links {Root l} h h'" and counts: "same_counts l h h'"
  shows "heap_ok h' (L(l \<mapsto> []))"
proof -
  have "dll h' k ms" if "k \<noteq> l" "L k = Some ms" for k ms
  proof (rule dll_frame [OF heap_ok_dll [OF ok that(2)] links counts])
    show "set ms \<inter> {Root l} = {}" using heap_ok_no_Root [OF ok that(2), of "Root l"] by auto
  qed (use that in auto)
  with ok new show ?thesis unfolding heap_ok_def by (fastforce split: if_splits)
qed

lemma heap_ok_clear_node:
  assumes "heap_ok h L" and "n \<notin> nodes L" and "\<not> is_Root n"
  shows "heap_ok (clear_node n h) L"
proof -
  have "dll (clear_node n h) l ns" if l: "L l = Some ns" for l ns
  proof -
    have n: "n \<noteq> Root l" "n \<notin> set ns" using assms(2,3) nodesI [of L l, OF l] by auto
    have "chain (clear_node n h) (Root l) ns (Root l) = chain h (Root l) ns (Root l)"
      by (rule chain_cong) (use n in auto)
    with heap_ok_dll [OF assms(1) l] show ?thesis by (simp add: dll_def)
  qed
  with assms(1) show ?thesis by (auto simp: heap_ok_def)
qed

text \<open>
  The pointer surgery of \<open>insert_wait_list_priority\<close>: linking a node in front of another one
  inside a circular list.
\<close>

definition link_before :: "lst \<Rightarrow> lnode \<Rightarrow> lnode \<Rightarrow> lnode \<Rightarrow> lheap \<Rightarrow> lheap" where
  "link_before l n c p h =
     set_cnt l (cnt h l + 1) (set_prv c (Some n) (set_nxt p (Some n)
       (set_prv n (Some p) (set_nxt n (Some c) h))))"

lemma link_before_dll:
  assumes d: "dll h l (xs @ c # ys)" and n: "n \<notin> set (xs @ c # ys)" "\<not> is_Root n"
  shows "dll (link_before l n c (last (Root l # xs)) h) l (xs @ n # c # ys)"
proof -
  let ?p = "last (Root l # xs)" and ?h = "link_before l n c (last (Root l # xs)) h"
  have ch: "chain h (Root l) xs c" "chain h c ys (Root l)" and dist: "distinct (xs @ c # ys)"
    and nr: "\<forall>m \<in> set (xs @ c # ys). \<not> is_Root m"
    using d by (auto simp: dll_def chain_append)
  have r: "n \<noteq> Root l" "c \<noteq> Root l" "Root l \<notin> set xs" "Root l \<notin> set ys"
    using n nr Root_in_nodes [OF nr] by auto
  have pys: "last (Root l # xs) \<notin> set (c # ys)" using r dist by (auto dest: last_in_set)
  have "chain ?h c ys (Root l) = chain h c ys (Root l)"
    by (rule chain_cong) (use r n dist pys in \<open>auto simp: link_before_def\<close>)
  moreover have "chain ?h (Root l) xs n"
  proof (cases xs rule: rev_cases)
    case Nil
    then show ?thesis using r n by (auto simp: link_before_def)
  next
    case (snoc zs z)
    have "chain h (Root l) zs z" using ch(1) snoc by (simp add: chain_append)
    moreover have "chain ?h (Root l) zs z = chain h (Root l) zs z"
      by (rule chain_cong) (use r n dist snoc in \<open>auto simp: link_before_def\<close>)
    ultimately show ?thesis using snoc r n dist by (auto simp: link_before_def chain_append)
  qed
  moreover have "nxt ?h n = Some c" "prv ?h c = Some n"
    using r n dist by (auto simp: link_before_def split: if_splits dest: last_in_set)
  moreover have "cnt ?h l = of_nat (length (xs @ n # c # ys))"
    using d by (simp add: link_before_def dll_def)
  ultimately show ?thesis using ch dist n nr by (auto simp: dll_def chain_append)
qed

lemma link_before_heap_ok:
  assumes ok: "heap_ok h L" and l: "L l = Some (xs @ c # ys)" and n: "n \<notin> nodes L" "\<not> is_Root n"
  shows "heap_ok (link_before l n c (last (Root l # xs)) h) (L(l \<mapsto> xs @ n # c # ys))"
proof (rule heap_ok_update [OF ok l])
  have "n \<notin> set (xs @ c # ys)" using n(1) nodesI [of L l, OF l] by blast
  then show "dll (link_before l n c (last (Root l # xs)) h) l (xs @ n # c # ys)"
    using link_before_dll [OF heap_ok_dll [OF ok l]] n(2) by blast
  show "same_links (insert n (insert (Root l) (set (xs @ c # ys)))) h
      (link_before l n c (last (Root l # xs)) h)"
    by (auto simp: same_links_def link_before_def)
  show "same_counts l h (link_before l n c (last (Root l # xs)) h)"
    by (auto simp: same_counts_def link_before_def)
qed (use n nodesI [of L l, OF l] in auto)

context linked_list
begin

lemma heap_ok_insert_tail:
  assumes ok: "heap_ok h L" and l: "L l = Some ns" and n: "n \<notin> nodes L" "\<not> is_Root n"
  shows "heap_ok (insert_tail l n h) (L(l \<mapsto> ns @ [n]))"
proof (rule heap_ok_update [OF ok l])
  note d = heap_ok_dll [OF ok l]
  have "n \<notin> set ns" using n(1) nodesI [of L l, OF l] by blast
  then show "dll (insert_tail l n h) l (ns @ [n])" using insert_dll [OF d] n(2) by blast
  show "same_links (insert n (insert (Root l) (set ns))) h (insert_tail l n h)"
    "same_counts l h (insert_tail l n h)" using insert_frame [OF d] by auto
qed (use n in auto)

lemma heap_ok_remove:
  assumes ok: "heap_ok h L" and l: "L l = Some ns" and n: "n \<in> set ns"
  shows "heap_ok (remove l n h) (L(l \<mapsto> remove1 n ns))"
proof (rule heap_ok_update [OF ok l])
  note d = heap_ok_dll [OF ok l]
  show "dll (remove l n h) l (remove1 n ns)" by (rule remove_dll [OF d n])
  show "same_links (insert (Root l) (set ns)) h (remove l n h)"
    "same_counts l h (remove l n h)" using remove_frame [OF d n] by auto
qed (use set_remove1_subset in auto)

lemma heap_ok_init: "heap_ok h L \<Longrightarrow> heap_ok (init l h) (L(l \<mapsto> []))"
  using init_dll init_frame by (auto intro: heap_ok_init_new)

lemma heap_ok_peek_head:
  "heap_ok h L \<Longrightarrow> L l = Some ns \<Longrightarrow> peek_head l h = (case ns of [] \<Rightarrow> None | n # _ \<Rightarrow> Some n)"
  by (rule peek_head_dll [OF heap_ok_dll])

lemma heap_ok_is_empty: "heap_ok h L \<Longrightarrow> L l = Some ns \<Longrightarrow> is_empty l h \<longleftrightarrow> ns = []"
  by (rule is_empty_dll [OF heap_ok_dll])

end

end
