(* ===== verification/Sertos_State.thy ===== *)
theory Sertos_State
  imports Sertos_Lists
begin

text \<open>
  The data of the kernel: status codes and task states (\<open>inc/sertos_types.h\<close>, \<open>inc/sertos_task.h\<close>),
  the control blocks of tasks, semaphores, mutexes, queues, stream buffers and timers, and the
  record \<open>kstate\<close> with every static variable of the eight kernel source files.

  Objects live in one typed memory per kind, indexed by their address; \<open>NULL\<close> is address 0. The
  list nodes embedded in the objects live in the pointer memory \<open>list_heap\<close> of Sertos_Lists. Cells
  that the application passes by reference (\<open>out_handle\<close>, \<open>out_higher_prio_woken\<close>,
  \<open>last_wake_time\<close>) are in \<open>ptr_cells\<close>, \<open>bool_cells\<close> and \<open>tick_cells\<close>.

  \<open>env\<close> collects what the kernel calls and this repository does not define or leaves to the
  target: the submodules (linked lists, bitmap, memory pool, ring buffer, atomics, crc), the port
  layer of \<open>port/sertos_port.h\<close>, user callbacks and link-time constants.
  The type variables are the private states of the bitmap (\<open>'b\<close>), a ring buffer (\<open>'r\<close>), the
  memory pool (\<open>'m\<close>) and the port (\<open>'p\<close>).
\<close>

section \<open>Status codes and task states\<close>

datatype SertosStatus =
    SERTOS_STATUS_OK
  | SERTOS_STATUS_ERROR_NULL_PTR
  | SERTOS_STATUS_ERROR_INVALID_PARAM
  | SERTOS_STATUS_ERROR_NO_MEMORY
  | SERTOS_STATUS_ERROR_TIMEOUT
  | SERTOS_STATUS_ERROR_RESOURCE_BUSY
  | SERTOS_STATUS_ERROR_NOT_INITIALIZED
  | SERTOS_STATUS_ERROR_ISR_CONTEXT
  | SERTOS_STATUS_ERROR_STACK_OVERFLOW

datatype SertosTaskState =
    SERTOS_TASK_STATE_READY
  | SERTOS_TASK_STATE_RUNNING
  | SERTOS_TASK_STATE_BLOCKED
  | SERTOS_TASK_STATE_SUSPENDED
  | SERTOS_TASK_STATE_TERMINATED

section \<open>Configuration constants\<close>

definition SERTOS_CONFIG_MAX_PRIORITIES :: nat where
  "SERTOS_CONFIG_MAX_PRIORITIES = 32"

definition SERTOS_CONFIG_TICK_RATE_HZ :: "32 word" where
  "SERTOS_CONFIG_TICK_RATE_HZ = 1000"

definition SERTOS_CONFIG_STACK_ALIGNMENT_BYTES :: "32 word" where
  "SERTOS_CONFIG_STACK_ALIGNMENT_BYTES = 8"

definition SERTOS_CONFIG_MINIMAL_STACK_SIZE :: size_t where
  "SERTOS_CONFIG_MINIMAL_STACK_SIZE = 256"

definition SERTOS_CONFIG_IDLE_TASK_STACK_SIZE :: size_t where
  "SERTOS_CONFIG_IDLE_TASK_STACK_SIZE = 512"

definition SERTOS_CONFIG_TIME_SLICING :: "32 word" where
  "SERTOS_CONFIG_TIME_SLICING = 1"

definition SERTOS_NO_WAIT :: SertosTick where
  "SERTOS_NO_WAIT = 0"

definition SERTOS_WAIT_FOREVER :: SertosTick where
  "SERTOS_WAIT_FOREVER = 0xFFFFFFFF"

definition SERTOS_TASK_MAGIC_WORD :: "32 word" where
  "SERTOS_TASK_MAGIC_WORD = 0x54434221"

definition SERTOS_TASK_STACK_FILL_BYTE :: byte where
  "SERTOS_TASK_STACK_FILL_BYTE = 0xA5"

definition SERTOS_SEM_MAGIC_WORD :: "32 word" where
  "SERTOS_SEM_MAGIC_WORD = 0x53454D41"

definition SERTOS_MUTEX_MAGIC_WORD :: "32 word" where
  "SERTOS_MUTEX_MAGIC_WORD = 0x4D555458"

definition SERTOS_QUEUE_MAGIC_WORD :: "32 word" where
  "SERTOS_QUEUE_MAGIC_WORD = 0x51554555"

definition SERTOS_STREAM_BUFFER_MAGIC_WORD :: "32 word" where
  "SERTOS_STREAM_BUFFER_MAGIC_WORD = 0x53545242"

definition SERTOS_TIMER_MAGIC_WORD :: "32 word" where
  "SERTOS_TIMER_MAGIC_WORD = 0x54494D52"

section \<open>Control blocks\<close>

record tcb =
  tcb_stack_ptr :: addr
  tcb_stack_base :: addr
  tcb_stack_size :: size_t
  tcb_stack_limit :: addr
  tcb_state :: SertosTaskState
  tcb_priority :: SertosPriority
  tcb_base_priority :: SertosPriority
  tcb_delay_ticks :: SertosTick
  tcb_entry_func :: addr
  tcb_param :: addr
  tcb_name :: "string option"
  tcb_wait_list :: "lst option"
  tcb_is_statically_allocated :: bool
  tcb_magic :: "32 word"
  tcb_port_context :: addr
  tcb_run_time_total :: SertosRunCount
  tcb_run_time_last_entry :: "32 word"
  tcb_switch_in_count :: "32 word"

record task_config =
  cfg_name :: "string option"
  cfg_entry_func :: addr
  cfg_param :: addr
  cfg_priority :: SertosPriority
  cfg_stack_buffer :: addr
  cfg_stack_size :: size_t

record kernel_config =
  kc_tick_rate_hz :: "32 word"
  kc_enable_time_slicing :: bool
  kc_idle_task_stack :: addr
  kc_idle_task_stack_size :: size_t
  kc_tick_hook :: addr
  kc_idle_hook :: addr
  kc_enable_runtime_stats :: bool

record semaphore =
  sem_count :: size_t
  sem_max_count :: size_t
  sem_is_statically_allocated :: bool
  sem_magic :: "32 word"

record mutex =
  mtx_owner :: addr
  mtx_lock_count :: "32 word"
  mtx_original_owner_priority :: SertosPriority
  mtx_is_statically_allocated :: bool
  mtx_magic :: "32 word"

record 'r queue =
  q_ring_buf :: 'r
  q_item_size :: size_t
  q_max_items :: size_t
  q_storage_buffer :: addr
  q_is_statically_allocated :: bool
  q_magic :: "32 word"

record 'r stream_buffer =
  sb_ring_buf :: 'r
  sb_trigger_level_bytes :: size_t
  sb_storage_buffer :: addr
  sb_is_statically_allocated :: bool
  sb_magic :: "32 word"

record timer =
  tmr_name :: "string option"
  tmr_period_ticks :: SertosTick
  tmr_remaining_ticks :: SertosTick
  tmr_is_periodic :: bool
  tmr_is_active :: bool
  tmr_callback :: addr
  tmr_param :: addr
  tmr_is_statically_allocated :: bool
  tmr_magic :: "32 word"

record timer_config =
  tc_name :: "string option"
  tc_period :: SertosTick
  tc_is_periodic :: bool
  tc_callback :: addr
  tc_param :: addr

section \<open>The kernel state\<close>

record ('b, 'r, 'm, 'p) kstate =
  s_ready_bitmap :: 'b
  list_heap :: lheap
  sertos_current_tcb :: addr
  s_is_running :: bool
  s_lock_nesting :: "32 word"
  s_reschedule_pending :: bool
  s_system_ticks :: size_t
  s_tick_rate_hz :: "32 word"
  s_time_slicing_enabled :: bool
  s_tick_hook :: addr
  s_idle_hook :: addr
  tcbs :: "addr \<Rightarrow> tcb"
  sems :: "addr \<Rightarrow> semaphore"
  mutexes :: "addr \<Rightarrow> mutex"
  queues :: "addr \<Rightarrow> 'r queue"
  streams :: "addr \<Rightarrow> 'r stream_buffer"
  timers :: "addr \<Rightarrow> timer"
  s_timer_subsystem_initialized :: bool
  s_stats_enabled :: bool
  s_total_switches :: "32 word"
  mem :: "addr \<Rightarrow> byte"
  ptr_cells :: "addr \<Rightarrow> addr"
  bool_cells :: "addr \<Rightarrow> bool"
  tick_cells :: "addr \<Rightarrow> SertosTick"
  pool :: 'm
  port :: 'p

section \<open>What the kernel calls and the repository leaves open\<close>

record ('b, 'r, 'm, 'p) env =
  linked_list_init :: "lst \<Rightarrow> lheap \<Rightarrow> lheap"
  linked_list_insert_tail_direct :: "lst \<Rightarrow> lnode \<Rightarrow> lheap \<Rightarrow> lheap"
  linked_list_remove_direct :: "lst \<Rightarrow> lnode \<Rightarrow> lheap \<Rightarrow> lheap"
  linked_list_peek_head :: "lst \<Rightarrow> lheap \<Rightarrow> lnode option"
  linked_list_is_empty :: "lst \<Rightarrow> lheap \<Rightarrow> bool"
  bitmap_init :: "nat \<Rightarrow> 'b \<Rightarrow> bool \<times> 'b"
  bitmap_set_bit :: "nat \<Rightarrow> 'b \<Rightarrow> 'b"
  bitmap_clear_bit :: "nat \<Rightarrow> 'b \<Rightarrow> 'b"
  bitmap_find_last_set :: "'b \<Rightarrow> nat option"
  atomic_init_size_t :: "size_t \<Rightarrow> size_t"
  atomic_load_relaxed :: "size_t \<Rightarrow> size_t"
  atomic_load_acquire :: "size_t \<Rightarrow> size_t"
  atomic_store_relaxed :: "size_t \<Rightarrow> size_t \<Rightarrow> size_t"
  memory_pool_malloc :: "size_t \<Rightarrow> 'm \<Rightarrow> addr \<times> 'm"
  memory_pool_free :: "addr \<Rightarrow> 'm \<Rightarrow> 'm"
  ring_buffer_init :: "addr \<Rightarrow> size_t \<Rightarrow> 'r \<Rightarrow> bool \<times> 'r"
  ring_buffer_capacity :: "'r \<Rightarrow> size_t"
  ring_buffer_count :: "'r \<Rightarrow> size_t"
  ring_buffer_write :: "addr \<Rightarrow> size_t \<Rightarrow> 'r \<Rightarrow> (addr \<Rightarrow> byte) \<Rightarrow> size_t \<times> 'r \<times> (addr \<Rightarrow> byte)"
  ring_buffer_read :: "addr \<Rightarrow> size_t \<Rightarrow> 'r \<Rightarrow> (addr \<Rightarrow> byte) \<Rightarrow> size_t \<times> 'r \<times> (addr \<Rightarrow> byte)"
  ring_buffer_clear :: "'r \<Rightarrow> 'r"
  ring_buffer_is_empty :: "'r \<Rightarrow> bool"
  ring_buffer_is_full :: "'r \<Rightarrow> bool"
  ring_buffer_tail :: "'r \<Rightarrow> size_t"
  ring_buffer_data :: "'r \<Rightarrow> addr"
  ring_buffer_mask :: "'r \<Rightarrow> size_t"
  crc_32_calculate :: "byte list \<Rightarrow> 32 word"
  tcb_bytes_up_to_magic :: "addr \<Rightarrow> tcb \<Rightarrow> lheap \<Rightarrow> byte list"
  sertos_port_enter_critical :: "'p \<Rightarrow> 32 word \<times> 'p"
  sertos_port_exit_critical :: "32 word \<Rightarrow> 'p \<Rightarrow> 'p"
  sertos_port_stack_init :: "addr \<Rightarrow> addr \<Rightarrow> addr \<Rightarrow> addr \<Rightarrow> (addr \<Rightarrow> byte) \<Rightarrow> addr \<times> (addr \<Rightarrow> byte)"
  sertos_port_task_create_hook :: "addr \<Rightarrow> addr \<Rightarrow> 'p \<Rightarrow> addr \<times> 'p"
  sertos_port_task_delete_hook :: "addr \<Rightarrow> addr \<Rightarrow> 'p \<Rightarrow> addr \<times> 'p"
  sertos_port_tick_init :: "32 word \<Rightarrow> 'p \<Rightarrow> SertosStatus \<times> 'p"
  sertos_port_runtime_counter_init :: "'p \<Rightarrow> 'p"
  sertos_port_runtime_counter :: "('b, 'r, 'm, 'p) kstate \<Rightarrow> 32 word"
  sertos_port_yield :: "('b, 'r, 'm, 'p) kstate \<Rightarrow> ('b, 'r, 'm, 'p) kstate option"
  sertos_port_start_first_task :: "('b, 'r, 'm, 'p) kstate \<Rightarrow> ('b, 'r, 'm, 'p) kstate option"
  sertos_port_stop_scheduler :: "('b, 'r, 'm, 'p) kstate \<Rightarrow> ('b, 'r, 'm, 'p) kstate option"
  call_hook :: "addr \<Rightarrow> ('b, 'r, 'm, 'p) kstate \<Rightarrow> ('b, 'r, 'm, 'p) kstate option"
  call_timer_callback :: "addr \<Rightarrow> addr \<Rightarrow> addr \<Rightarrow> ('b, 'r, 'm, 'p) kstate \<Rightarrow> ('b, 'r, 'm, 'p) kstate option"
  port_is_host :: bool
  s_idle_tcb :: addr
  s_idle_stack :: addr
  idle_task_entry_addr :: addr
  sizeof_tcb :: size_t
  sizeof_semaphore :: size_t
  sizeof_mutex :: size_t
  sizeof_queue :: size_t
  sizeof_stream_buffer :: size_t
  sizeof_timer :: size_t

section \<open>State primitives\<close>

definition upd_tcb :: "addr \<Rightarrow> (tcb \<Rightarrow> tcb) \<Rightarrow> ('b, 'r, 'm, 'p) kstate \<Rightarrow> ('b, 'r, 'm, 'p) kstate" where
  "upd_tcb a f s = s\<lparr>tcbs := (tcbs s)(a := f (tcbs s a))\<rparr>"

definition upd_heap :: "(lheap \<Rightarrow> lheap) \<Rightarrow> ('b, 'r, 'm, 'p) kstate \<Rightarrow> ('b, 'r, 'm, 'p) kstate" where
  "upd_heap f s = s\<lparr>list_heap := f (list_heap s)\<rparr>"

definition enter_critical ::
  "('b, 'r, 'm, 'p) env \<Rightarrow> ('b, 'r, 'm, 'p) kstate \<Rightarrow> 32 word \<times> ('b, 'r, 'm, 'p) kstate" where
  "enter_critical E s = (case sertos_port_enter_critical E (port s) of (st, p) \<Rightarrow> (st, s\<lparr>port := p\<rparr>))"

definition exit_critical ::
  "('b, 'r, 'm, 'p) env \<Rightarrow> 32 word \<Rightarrow> ('b, 'r, 'm, 'p) kstate \<Rightarrow> ('b, 'r, 'm, 'p) kstate" where
  "exit_critical E st s = s\<lparr>port := sertos_port_exit_critical E st (port s)\<rparr>"

lemma upd_tcb_simps [simp]:
  "s_ready_bitmap (upd_tcb a f s) = s_ready_bitmap s" "list_heap (upd_tcb a f s) = list_heap s"
  "sertos_current_tcb (upd_tcb a f s) = sertos_current_tcb s" "s_is_running (upd_tcb a f s) = s_is_running s"
  "s_lock_nesting (upd_tcb a f s) = s_lock_nesting s" "s_reschedule_pending (upd_tcb a f s) = s_reschedule_pending s"
  "s_system_ticks (upd_tcb a f s) = s_system_ticks s" "s_tick_rate_hz (upd_tcb a f s) = s_tick_rate_hz s"
  "s_time_slicing_enabled (upd_tcb a f s) = s_time_slicing_enabled s" "s_tick_hook (upd_tcb a f s) = s_tick_hook s"
  "s_idle_hook (upd_tcb a f s) = s_idle_hook s" "sems (upd_tcb a f s) = sems s"
  "mutexes (upd_tcb a f s) = mutexes s" "queues (upd_tcb a f s) = queues s" "streams (upd_tcb a f s) = streams s"
  "timers (upd_tcb a f s) = timers s" "s_timer_subsystem_initialized (upd_tcb a f s) = s_timer_subsystem_initialized s"
  "s_stats_enabled (upd_tcb a f s) = s_stats_enabled s" "s_total_switches (upd_tcb a f s) = s_total_switches s"
  "mem (upd_tcb a f s) = mem s" "ptr_cells (upd_tcb a f s) = ptr_cells s" "bool_cells (upd_tcb a f s) = bool_cells s"
  "tick_cells (upd_tcb a f s) = tick_cells s" "pool (upd_tcb a f s) = pool s" "port (upd_tcb a f s) = port s"
  "tcbs (upd_tcb a f s) = (tcbs s)(a := f (tcbs s a))"
  by (simp_all add: upd_tcb_def)

lemma upd_heap_simps [simp]:
  "s_ready_bitmap (upd_heap g s) = s_ready_bitmap s" "list_heap (upd_heap g s) = g (list_heap s)"
  "sertos_current_tcb (upd_heap g s) = sertos_current_tcb s" "s_is_running (upd_heap g s) = s_is_running s"
  "s_lock_nesting (upd_heap g s) = s_lock_nesting s" "s_reschedule_pending (upd_heap g s) = s_reschedule_pending s"
  "s_system_ticks (upd_heap g s) = s_system_ticks s" "s_tick_rate_hz (upd_heap g s) = s_tick_rate_hz s"
  "s_time_slicing_enabled (upd_heap g s) = s_time_slicing_enabled s" "s_tick_hook (upd_heap g s) = s_tick_hook s"
  "s_idle_hook (upd_heap g s) = s_idle_hook s" "sems (upd_heap g s) = sems s"
  "mutexes (upd_heap g s) = mutexes s" "queues (upd_heap g s) = queues s" "streams (upd_heap g s) = streams s"
  "timers (upd_heap g s) = timers s" "s_timer_subsystem_initialized (upd_heap g s) = s_timer_subsystem_initialized s"
  "s_stats_enabled (upd_heap g s) = s_stats_enabled s" "s_total_switches (upd_heap g s) = s_total_switches s"
  "mem (upd_heap g s) = mem s" "ptr_cells (upd_heap g s) = ptr_cells s" "bool_cells (upd_heap g s) = bool_cells s"
  "tick_cells (upd_heap g s) = tick_cells s" "pool (upd_heap g s) = pool s" "port (upd_heap g s) = port s"
  "tcbs (upd_heap g s) = tcbs s"
  by (simp_all add: upd_heap_def)

lemma exit_enter_critical:
  assumes "enter_critical E s = (st, s')"
  shows "s' = s\<lparr>port := snd (sertos_port_enter_critical E (port s))\<rparr>"
    and "st = fst (sertos_port_enter_critical E (port s))"
  using assms by (auto simp: enter_critical_def split: prod.splits)

end
