(* ===== verification/Sertos_Modules.thy ===== *)
theory Sertos_Modules
  imports Sertos_State
begin

text \<open>
  Contracts of the submodules the scheduler calls, as locales over the operations of \<open>env\<close>.
  \<open>bitmap\<close> is the ready bitmap: \<open>bits\<close> abstracts it to the set of priorities whose bit is set.
  \<open>atomic_cell\<close> is the tick counter's cell. \<open>kernel_env\<close> joins them with the list contract of
  Sertos_Lists into the one assumption that the kernel's properties make of an environment.
\<close>

locale bitmap =
  fixes init :: "nat \<Rightarrow> 'b \<Rightarrow> bool \<times> 'b"
    and set_bit :: "nat \<Rightarrow> 'b \<Rightarrow> 'b"
    and clear_bit :: "nat \<Rightarrow> 'b \<Rightarrow> 'b"
    and find_last_set :: "'b \<Rightarrow> nat option"
    and bits :: "'b \<Rightarrow> nat set"
  assumes init_bits: "fst (init SERTOS_CONFIG_MAX_PRIORITIES b) \<and> bits (snd (init SERTOS_CONFIG_MAX_PRIORITIES b)) = {}"
    and set_bit_bits: "p < SERTOS_CONFIG_MAX_PRIORITIES \<Longrightarrow> bits (set_bit p b) = insert p (bits b)"
    and clear_bit_bits: "p < SERTOS_CONFIG_MAX_PRIORITIES \<Longrightarrow> bits (clear_bit p b) = bits b - {p}"
    and find_last_set_None: "bits b = {} \<Longrightarrow> find_last_set b = None"
    and find_last_set_Some: "bits b \<subseteq> {..<SERTOS_CONFIG_MAX_PRIORITIES} \<Longrightarrow> p \<in> bits b \<Longrightarrow>
      (\<And>q. q \<in> bits b \<Longrightarrow> q \<le> p) \<Longrightarrow> find_last_set b = Some p"

locale atomic_cell =
  fixes init :: "size_t \<Rightarrow> size_t"
    and load_relaxed :: "size_t \<Rightarrow> size_t"
    and load_acquire :: "size_t \<Rightarrow> size_t"
    and store_relaxed :: "size_t \<Rightarrow> size_t \<Rightarrow> size_t"
  assumes load_acquire_store: "load_acquire (store_relaxed c v) = v"
    and load_relaxed_store: "load_relaxed (store_relaxed c v) = v"
    and load_acquire_init: "load_acquire (init v) = v"
    and load_relaxed_acquire: "load_relaxed c = load_acquire c"

locale kernel_env =
  ll: linked_list "linked_list_init E" "linked_list_insert_tail_direct E" "linked_list_remove_direct E"
    "linked_list_peek_head E" "linked_list_is_empty E" +
  bm: bitmap "bitmap_init E" "bitmap_set_bit E" "bitmap_clear_bit E" "bitmap_find_last_set E" bits +
  at: atomic_cell "atomic_init_size_t E" "atomic_load_relaxed E" "atomic_load_acquire E"
    "atomic_store_relaxed E"
  for E :: "('b, 'r, 'm, 'p) env" and bits :: "'b \<Rightarrow> nat set"

context bitmap
begin

lemma find_last_set_Max:
  assumes "bits b \<subseteq> {..<SERTOS_CONFIG_MAX_PRIORITIES}" "bits b \<noteq> {}"
  shows "find_last_set b = Some (Max (bits b))"
proof -
  have fin: "finite (bits b)" using assms(1) finite_subset by blast
  show ?thesis
    by (rule find_last_set_Some [OF assms(1) Max_in [OF fin assms(2)]]) (simp add: fin)
qed

end

end
