(* ===== verification/Sertos_Ready.thy ===== *)
theory Sertos_Ready
  imports Sertos_Modules
begin

text \<open>
  The data-structure layer of \<open>src/sertos_scheduler.c\<close>: ready queues with their priority bitmap, task
  registry, IPC wait lists, the delay list and round-robin rotation. Definitions follow the C
  functions statement by statement over the pointer memory; loops over list nodes are partial
  functions, and the lemmas show that they return.

  \<open>kinv\<close> is the representation invariant: it relates the pointers, the bitmap and the fields of
  the control blocks to an abstract map \<open>L\<close> from lists to node sequences. Each operation is shown
  to act on \<open>L\<close> as its abstract counterpart (append, remove, take the head, insert by priority,
  expire), which is the refinement the rest of the development rests on.
\<close>

section \<open>Ready queues\<close>

definition sertos_scheduler_add_ready ::
  "('b, 'r, 'm, 'p) env \<Rightarrow> addr \<Rightarrow> ('b, 'r, 'm, 'p) kstate \<Rightarrow> SertosStatus \<times> ('b, 'r, 'm, 'p) kstate" where
  "sertos_scheduler_add_ready E tcb s =
     (if tcb = NULL \<or> SERTOS_CONFIG_MAX_PRIORITIES \<le> unat (tcb_priority (tcbs s tcb))
      then (SERTOS_STATUS_ERROR_INVALID_PARAM, s)
      else let p = unat (tcb_priority (tcbs s tcb));
               s1 = upd_heap (linked_list_insert_tail_direct E (ReadyQ p) (StateNode tcb)) s;
               s2 = s1\<lparr>s_ready_bitmap := bitmap_set_bit E p (s_ready_bitmap s1)\<rparr>;
               s3 = upd_tcb tcb (\<lambda>t. t\<lparr>tcb_state := SERTOS_TASK_STATE_READY\<rparr>) s2
           in (SERTOS_STATUS_OK, s3))"

definition sertos_scheduler_remove_ready ::
  "('b, 'r, 'm, 'p) env \<Rightarrow> addr \<Rightarrow> ('b, 'r, 'm, 'p) kstate \<Rightarrow> SertosStatus \<times> ('b, 'r, 'm, 'p) kstate" where
  "sertos_scheduler_remove_ready E tcb s =
     (if tcb = NULL \<or> SERTOS_CONFIG_MAX_PRIORITIES \<le> unat (tcb_priority (tcbs s tcb))
      then (SERTOS_STATUS_ERROR_INVALID_PARAM, s)
      else if prv (list_heap s) (StateNode tcb) \<noteq> None \<and> nxt (list_heap s) (StateNode tcb) \<noteq> None
      then let p = unat (tcb_priority (tcbs s tcb));
               s1 = upd_heap (linked_list_remove_direct E (ReadyQ p) (StateNode tcb)) s;
               s2 = (if linked_list_is_empty E (ReadyQ p) (list_heap s1)
                     then s1\<lparr>s_ready_bitmap := bitmap_clear_bit E p (s_ready_bitmap s1)\<rparr>
                     else s1)
           in (SERTOS_STATUS_OK, s2)
      else (SERTOS_STATUS_OK, s))"

definition sertos_scheduler_select_next_task ::
  "('b, 'r, 'm, 'p) env \<Rightarrow> ('b, 'r, 'm, 'p) kstate \<Rightarrow> addr option" where
  "sertos_scheduler_select_next_task E s =
     (case bitmap_find_last_set E (s_ready_bitmap s) of
        None \<Rightarrow> Some NULL
      | Some highest_prio \<Rightarrow>
          (case linked_list_peek_head E (ReadyQ highest_prio) (list_heap s) of
             None \<Rightarrow> Some NULL
           | Some head_node \<Rightarrow> container_of_state head_node))"

section \<open>Task registry\<close>

definition sertos_scheduler_register_task ::
  "('b, 'r, 'm, 'p) env \<Rightarrow> addr \<Rightarrow> ('b, 'r, 'm, 'p) kstate \<Rightarrow> ('b, 'r, 'm, 'p) kstate" where
  "sertos_scheduler_register_task E tcb s =
     (if tcb = NULL then s
      else upd_heap (linked_list_insert_tail_direct E TaskRegistry (RegistryNode tcb)) s)"

definition sertos_scheduler_unregister_task ::
  "('b, 'r, 'm, 'p) env \<Rightarrow> addr \<Rightarrow> ('b, 'r, 'm, 'p) kstate \<Rightarrow> ('b, 'r, 'm, 'p) kstate" where
  "sertos_scheduler_unregister_task E tcb s =
     (if tcb = NULL then s
      else if nxt (list_heap s) (RegistryNode tcb) \<noteq> None
      then upd_heap (clear_node (RegistryNode tcb))
             (upd_heap (linked_list_remove_direct E TaskRegistry (RegistryNode tcb)) s)
      else s)"

section \<open>Wait lists\<close>

partial_function (option) insert_wait_list_loop ::
  "('b, 'r, 'm, 'p) env \<Rightarrow> lst \<Rightarrow> addr \<Rightarrow> lnode option \<Rightarrow> ('b, 'r, 'm, 'p) kstate \<Rightarrow> ('b, 'r, 'm, 'p) kstate option" where
  "insert_wait_list_loop E wl tcb curr_node s =
     (case curr_node of
        None \<Rightarrow> Some (upd_heap (linked_list_insert_tail_direct E wl (EventNode tcb)) s)
      | Some c \<Rightarrow> do {
          iter_task \<leftarrow> container_of_event c;
          if tcb_priority (tcbs s iter_task) < tcb_priority (tcbs s tcb)
          then do {
            p \<leftarrow> prv (list_heap s) c;
            Some (upd_heap (link_before wl (EventNode tcb) c p) s)
          }
          else insert_wait_list_loop E wl tcb
                 (if nxt (list_heap s) c = Some (Root wl) then None else nxt (list_heap s) c) s
        })"

definition insert_wait_list_priority ::
  "('b, 'r, 'm, 'p) env \<Rightarrow> lst \<Rightarrow> addr \<Rightarrow> ('b, 'r, 'm, 'p) kstate \<Rightarrow> ('b, 'r, 'm, 'p) kstate option" where
  "insert_wait_list_priority E wl tcb s =
     insert_wait_list_loop E wl tcb (linked_list_peek_head E wl (list_heap s)) s"

definition sertos_scheduler_wait_list_remove ::
  "('b, 'r, 'm, 'p) env \<Rightarrow> lst option \<Rightarrow> addr \<Rightarrow> ('b, 'r, 'm, 'p) kstate \<Rightarrow> ('b, 'r, 'm, 'p) kstate" where
  "sertos_scheduler_wait_list_remove E wait_list tcb s =
     (case wait_list of
        None \<Rightarrow> s
      | Some wl \<Rightarrow>
          if tcb = NULL \<or> nxt (list_heap s) (EventNode tcb) = None then s
          else upd_heap (clear_node (EventNode tcb))
                 (upd_heap (linked_list_remove_direct E wl (EventNode tcb)) s))"

definition sertos_scheduler_wait_list_unblock_highest ::
  "('b, 'r, 'm, 'p) env \<Rightarrow> lst option \<Rightarrow> ('b, 'r, 'm, 'p) kstate \<Rightarrow> (addr \<times> ('b, 'r, 'm, 'p) kstate) option" where
  "sertos_scheduler_wait_list_unblock_highest E wait_list s =
     (case wait_list of
        None \<Rightarrow> Some (NULL, s)
      | Some wl \<Rightarrow>
          (case linked_list_peek_head E wl (list_heap s) of
             None \<Rightarrow> Some (NULL, s)
           | Some head \<Rightarrow> do {
               task \<leftarrow> container_of_event head;
               let s1 = sertos_scheduler_wait_list_remove E wait_list task s;
               let s2 = (if 0 < tcb_delay_ticks (tcbs s1 task)
                         then upd_tcb task (\<lambda>t. t\<lparr>tcb_delay_ticks := 0\<rparr>)
                                (upd_heap (linked_list_remove_direct E DelayList (StateNode task)) s1)
                         else s1);
               let s3 = upd_tcb task (\<lambda>t. t\<lparr>tcb_wait_list := None\<rparr>) s2;
               Some (task, snd (sertos_scheduler_add_ready E task s3))
             }))"

text \<open>\<open>do { unblocked = unblock_highest(list); } while (unblocked != NULL);\<close> of the delete functions.\<close>

partial_function (option) unblock_all ::
  "('b, 'r, 'm, 'p) env \<Rightarrow> lst \<Rightarrow> ('b, 'r, 'm, 'p) kstate \<Rightarrow> ('b, 'r, 'm, 'p) kstate option" where
  "unblock_all E wl s = do {
     (unblocked, s') \<leftarrow> sertos_scheduler_wait_list_unblock_highest E (Some wl) s;
     if unblocked \<noteq> NULL then unblock_all E wl s' else Some s'
   }"

section \<open>Tick processing\<close>

text \<open>One task of the delay list: \<open>task->delay_ticks--\<close> and, at zero, the move to the ready queue.\<close>

definition process_delayed_task ::
  "('b, 'r, 'm, 'p) env \<Rightarrow> lnode \<Rightarrow> addr \<Rightarrow> bool \<Rightarrow> ('b, 'r, 'm, 'p) kstate \<Rightarrow> bool \<times> ('b, 'r, 'm, 'p) kstate" where
  "process_delayed_task E curr_node task task_unblocked s =
     (let s1 = (if 0 < tcb_delay_ticks (tcbs s task)
                then upd_tcb task (\<lambda>t. t\<lparr>tcb_delay_ticks := tcb_delay_ticks t - 1\<rparr>) s else s)
      in if tcb_delay_ticks (tcbs s1 task) = 0
         then let s2 = upd_heap (linked_list_remove_direct E DelayList curr_node) s1;
                  s3 = (if tcb_wait_list (tcbs s2 task) \<noteq> None
                        then upd_tcb task (\<lambda>t. t\<lparr>tcb_wait_list := None\<rparr>)
                               (sertos_scheduler_wait_list_remove E (tcb_wait_list (tcbs s2 task)) task s2)
                        else s2)
              in (True, snd (sertos_scheduler_add_ready E task s3))
         else (task_unblocked, s1))"

partial_function (option) process_delayed_loop ::
  "('b, 'r, 'm, 'p) env \<Rightarrow> lnode option \<Rightarrow> bool \<Rightarrow> ('b, 'r, 'm, 'p) kstate \<Rightarrow> (bool \<times> ('b, 'r, 'm, 'p) kstate) option" where
  "process_delayed_loop E curr_node task_unblocked s =
     (case curr_node of
        None \<Rightarrow> Some (task_unblocked, s)
      | Some c \<Rightarrow> do {
          let next_node = (if nxt (list_heap s) c = Some (Root DelayList) then None
                           else nxt (list_heap s) c);
          task \<leftarrow> container_of_state c;
          let r = process_delayed_task E c task task_unblocked s;
          process_delayed_loop E next_node (fst r) (snd r)
        })"

definition process_delayed_tasks ::
  "('b, 'r, 'm, 'p) env \<Rightarrow> ('b, 'r, 'm, 'p) kstate \<Rightarrow> (bool \<times> ('b, 'r, 'm, 'p) kstate) option" where
  "process_delayed_tasks E s =
     process_delayed_loop E (linked_list_peek_head E DelayList (list_heap s)) False s"

definition process_time_slicing ::
  "('b, 'r, 'm, 'p) env \<Rightarrow> ('b, 'r, 'm, 'p) kstate \<Rightarrow> ('b, 'r, 'm, 'p) kstate" where
  "process_time_slicing E s =
     (if \<not> s_time_slicing_enabled s \<or> sertos_current_tcb s = NULL then s
      else let cur = sertos_current_tcb s;
               q = ReadyQ (unat (tcb_priority (tcbs s cur)))
           in if 1 < cnt (list_heap s) q
              then upd_heap (linked_list_insert_tail_direct E q (StateNode cur))
                     (upd_heap (linked_list_remove_direct E q (StateNode cur)) s)
              else s)"

section \<open>Plain accessors\<close>

definition sertos_scheduler_is_running :: "('b, 'r, 'm, 'p) kstate \<Rightarrow> bool" where
  "sertos_scheduler_is_running s = s_is_running s"

definition sertos_scheduler_get_current_tcb :: "('b, 'r, 'm, 'p) kstate \<Rightarrow> addr" where
  "sertos_scheduler_get_current_tcb s = sertos_current_tcb s"

definition sertos_scheduler_set_current_tcb ::
  "addr \<Rightarrow> ('b, 'r, 'm, 'p) kstate \<Rightarrow> ('b, 'r, 'm, 'p) kstate" where
  "sertos_scheduler_set_current_tcb tcb s = s\<lparr>sertos_current_tcb := tcb\<rparr>"

definition sertos_scheduler_get_idle_tcb :: "('b, 'r, 'm, 'p) env \<Rightarrow> addr" where
  "sertos_scheduler_get_idle_tcb E = s_idle_tcb E"

definition sertos_scheduler_get_tick_count ::
  "('b, 'r, 'm, 'p) env \<Rightarrow> ('b, 'r, 'm, 'p) kstate \<Rightarrow> SertosTick" where
  "sertos_scheduler_get_tick_count E s = atomic_load_acquire E (s_system_ticks s)"

section \<open>The representation invariant\<close>

text \<open>Node \<open>n\<close> is linked into list \<open>l\<close>.\<close>

definition on_list :: "lmap \<Rightarrow> lst \<Rightarrow> lnode \<Rightarrow> bool" where
  "on_list L l n \<longleftrightarrow> (case L l of None \<Rightarrow> False | Some ns \<Rightarrow> n \<in> set ns)"

fun is_wait_list :: "lst \<Rightarrow> bool" where
  "is_wait_list (SemWait a) = True"
| "is_wait_list (MutexWait a) = True"
| "is_wait_list (QueueSend a) = True"
| "is_wait_list (QueueRecv a) = True"
| "is_wait_list (StreamSend a) = True"
| "is_wait_list (StreamRecv a) = True"
| "is_wait_list _ = False"

text \<open>Which embedded node each list links: state nodes in the scheduler's lists, event nodes in wait lists.\<close>

fun list_typed :: "lst \<Rightarrow> lnode \<Rightarrow> bool" where
  "list_typed (ReadyQ p) n = (case n of StateNode a \<Rightarrow> a \<noteq> NULL | _ \<Rightarrow> False)"
| "list_typed DelayList n = (case n of StateNode a \<Rightarrow> a \<noteq> NULL | _ \<Rightarrow> False)"
| "list_typed SuspendedList n = (case n of StateNode a \<Rightarrow> a \<noteq> NULL | _ \<Rightarrow> False)"
| "list_typed TaskRegistry n = (case n of RegistryNode a \<Rightarrow> a \<noteq> NULL | _ \<Rightarrow> False)"
| "list_typed ActiveTimers n = (case n of TimerNode a \<Rightarrow> a \<noteq> NULL | _ \<Rightarrow> False)"
| "list_typed _ n = (case n of EventNode a \<Rightarrow> a \<noteq> NULL | _ \<Rightarrow> False)"

definition base_lists :: "lmap \<Rightarrow> bool" where
  "base_lists L \<longleftrightarrow> (\<forall>p < SERTOS_CONFIG_MAX_PRIORITIES. L (ReadyQ p) \<noteq> None) \<and>
     L DelayList \<noteq> None \<and> L TaskRegistry \<noteq> None"

definition typed_lists :: "lmap \<Rightarrow> bool" where
  "typed_lists L \<longleftrightarrow> (\<forall>l n. on_list L l n \<longrightarrow> list_typed l n)"

definition ready_ok :: "(addr \<Rightarrow> tcb) \<Rightarrow> lmap \<Rightarrow> bool" where
  "ready_ok T L \<longleftrightarrow> (\<forall>p a. on_list L (ReadyQ p) (StateNode a) \<longrightarrow>
     p < SERTOS_CONFIG_MAX_PRIORITIES \<and> unat (tcb_priority (T a)) = p \<and> tcb_wait_list (T a) = None)"

definition delay_ok :: "(addr \<Rightarrow> tcb) \<Rightarrow> lmap \<Rightarrow> bool" where
  "delay_ok T L \<longleftrightarrow> (\<forall>a. on_list L DelayList (StateNode a) \<longrightarrow>
     unat (tcb_priority (T a)) < SERTOS_CONFIG_MAX_PRIORITIES \<and>
     (\<forall>wl. tcb_wait_list (T a) = Some wl \<longrightarrow> is_wait_list wl \<and> on_list L wl (EventNode a)))"

definition wait_ok :: "(addr \<Rightarrow> tcb) \<Rightarrow> lmap \<Rightarrow> bool" where
  "wait_ok T L \<longleftrightarrow> (\<forall>wl a. on_list L wl (EventNode a) \<longrightarrow>
     tcb_wait_list (T a) = Some wl \<and> unat (tcb_priority (T a)) < SERTOS_CONFIG_MAX_PRIORITIES \<and>
     (if 0 < tcb_delay_ticks (T a) then on_list L DelayList (StateNode a)
      else \<forall>l. \<not> on_list L l (StateNode a)))"

definition bitmap_ok :: "('b \<Rightarrow> nat set) \<Rightarrow> 'b \<Rightarrow> lmap \<Rightarrow> bool" where
  "bitmap_ok bits b L \<longleftrightarrow> bits b = {p. p < SERTOS_CONFIG_MAX_PRIORITIES \<and> L (ReadyQ p) \<noteq> Some []}"

definition kinv :: "('b \<Rightarrow> nat set) \<Rightarrow> ('b, 'r, 'm, 'p) kstate \<Rightarrow> lmap \<Rightarrow> bool" where
  "kinv bits s L \<longleftrightarrow> heap_ok (list_heap s) L \<and> base_lists L \<and> typed_lists L \<and>
     ready_ok (tcbs s) L \<and> delay_ok (tcbs s) L \<and> wait_ok (tcbs s) L \<and>
     bitmap_ok bits (s_ready_bitmap s) L"

section \<open>Facts about the invariant\<close>

lemma on_listI: "L l = Some ns \<Longrightarrow> n \<in> set ns \<Longrightarrow> on_list L l n"
  by (simp add: on_list_def)

lemma on_listE:
  assumes "on_list L l n" obtains ns where "L l = Some ns" and "n \<in> set ns"
  using assms by (auto simp: on_list_def split: option.splits)

lemma on_list_Some: "L l = Some ns \<Longrightarrow> on_list L l n \<longleftrightarrow> n \<in> set ns"
  by (simp add: on_list_def)

lemma nodes_on_list: "n \<in> nodes L \<longleftrightarrow> (\<exists>l. on_list L l n)"
  by (auto simp: nodes_iff on_list_def split: option.splits)

text \<open>How membership changes when one list gains or loses a node.\<close>

lemma on_list_gain:
  assumes "L l = Some ns" and "set ns' = insert n (set ns)"
  shows "on_list (L(l \<mapsto> ns')) k x \<longleftrightarrow> on_list L k x \<or> (k = l \<and> x = n)"
  using assms by (auto simp: on_list_def)

lemma on_list_lose:
  assumes "L l = Some ns" and "distinct ns"
  shows "on_list (L(l \<mapsto> remove1 n ns)) k x \<longleftrightarrow> on_list L k x \<and> \<not> (k = l \<and> x = n)"
  using assms by (auto simp: on_list_def)

lemma list_typed_wait [simp]:
  "is_wait_list wl \<Longrightarrow> list_typed wl n \<longleftrightarrow> (\<exists>a. n = EventNode a \<and> a \<noteq> NULL)"
  by (cases wl; cases n) auto

lemma list_typed_StateNode:
  "list_typed l (StateNode a) \<longleftrightarrow> a \<noteq> NULL \<and> (l = DelayList \<or> l = SuspendedList \<or> (\<exists>p. l = ReadyQ p))"
  by (cases l) auto

lemma list_typed_EventNode: "list_typed l (EventNode a) \<longleftrightarrow> a \<noteq> NULL \<and> is_wait_list l"
  by (cases l) auto

lemma kinv_heap: "kinv bits s L \<Longrightarrow> heap_ok (list_heap s) L"
  by (simp add: kinv_def)

lemma kinv_ready_list:
  assumes "kinv bits s L" "p < SERTOS_CONFIG_MAX_PRIORITIES"
  obtains ns where "L (ReadyQ p) = Some ns"
  using assms unfolding kinv_def base_lists_def by blast

lemma kinv_delay_list:
  assumes "kinv bits s L" obtains ds where "L DelayList = Some ds"
  using assms unfolding kinv_def base_lists_def by blast

lemma kinv_typed: "kinv bits s L \<Longrightarrow> on_list L l n \<Longrightarrow> list_typed l n"
  by (simp add: kinv_def typed_lists_def)

lemma kinv_ready: "kinv bits s L \<Longrightarrow> on_list L (ReadyQ p) (StateNode a) \<Longrightarrow>
    p < SERTOS_CONFIG_MAX_PRIORITIES \<and> unat (tcb_priority (tcbs s a)) = p \<and> tcb_wait_list (tcbs s a) = None"
  by (simp add: kinv_def ready_ok_def)

lemma kinv_wait: "kinv bits s L \<Longrightarrow> on_list L wl (EventNode a) \<Longrightarrow>
    tcb_wait_list (tcbs s a) = Some wl \<and> unat (tcb_priority (tcbs s a)) < SERTOS_CONFIG_MAX_PRIORITIES \<and>
    (if 0 < tcb_delay_ticks (tcbs s a) then on_list L DelayList (StateNode a)
      else \<forall>l. \<not> on_list L l (StateNode a))"
  by (simp add: kinv_def wait_ok_def)

lemma kinv_delay: "kinv bits s L \<Longrightarrow> on_list L DelayList (StateNode a) \<Longrightarrow>
    unat (tcb_priority (tcbs s a)) < SERTOS_CONFIG_MAX_PRIORITIES \<and>
     (\<forall>wl. tcb_wait_list (tcbs s a) = Some wl \<longrightarrow> is_wait_list wl \<and> on_list L wl (EventNode a))"
  by (simp add: kinv_def delay_ok_def)

lemma kinv_unique: "kinv bits s L \<Longrightarrow> on_list L l n \<Longrightarrow> on_list L k n \<Longrightarrow> k = l"
  by (auto simp: kinv_def elim!: on_listE intro: heap_ok_unique)

lemma kinv_linked:
  "kinv bits s L \<Longrightarrow> on_list L l n \<Longrightarrow> nxt (list_heap s) n \<noteq> None \<and> prv (list_heap s) n \<noteq> None"
  using heap_ok_linked kinv_heap nodes_on_list by blast

lemma kinv_wait_not_ready:
  "kinv bits s L \<Longrightarrow> on_list L wl (EventNode a) \<Longrightarrow> \<not> on_list L (ReadyQ p) (StateNode a)"
  using kinv_wait [of bits s L wl a] kinv_unique [of bits s L "ReadyQ p" "StateNode a" DelayList]
  by (auto split: if_splits)

text \<open>The invariant reads three fields of a control block; any other change of the task memory keeps it.\<close>

definition same_sched :: "tcb \<Rightarrow> tcb \<Rightarrow> bool" where
  "same_sched t u \<longleftrightarrow> tcb_priority t = tcb_priority u \<and> tcb_wait_list t = tcb_wait_list u \<and>
     tcb_delay_ticks t = tcb_delay_ticks u"

lemma kinv_cong:
  assumes "kinv bits s L" and "list_heap s' = list_heap s" and "s_ready_bitmap s' = s_ready_bitmap s"
    and "\<And>a. same_sched (tcbs s' a) (tcbs s a)"
  shows "kinv bits s' L"
proof -
  have eq: "tcb_priority (tcbs s' a) = tcb_priority (tcbs s a)"
    "tcb_wait_list (tcbs s' a) = tcb_wait_list (tcbs s a)"
    "tcb_delay_ticks (tcbs s' a) = tcb_delay_ticks (tcbs s a)" for a
    using assms(4) [of a] by (auto simp: same_sched_def)
  show ?thesis
    using assms(1) unfolding kinv_def ready_ok_def delay_ok_def wait_ok_def assms(2,3) eq .
qed

lemma kinv_upd_tcb:
  assumes "kinv bits s L" and "same_sched (f (tcbs s a)) (tcbs s a)"
  shows "kinv bits (upd_tcb a f s) L"
  by (rule kinv_cong [OF assms(1)]) (use assms(2) in \<open>auto simp: same_sched_def\<close>)

lemma kinv_state [simp]:
  "kinv bits (upd_tcb a (\<lambda>t. t\<lparr>tcb_state := x\<rparr>) s) L \<longleftrightarrow> kinv bits s L"
proof
  assume "kinv bits (upd_tcb a (\<lambda>t. t\<lparr>tcb_state := x\<rparr>) s) L"
  then show "kinv bits s L" by (rule kinv_cong) (auto simp: same_sched_def)
qed (rule kinv_upd_tcb, auto simp: same_sched_def)

section \<open>Abstract operations on the lists\<close>

text \<open>Taking a task off the delay list and off the wait list that holds it, and waking it at priority \<open>p\<close>.\<close>

definition detach_lists :: "addr \<Rightarrow> lmap \<Rightarrow> lmap" where
  "detach_lists a L = (\<lambda>l.
     if l = DelayList then map_option (remove1 (StateNode a)) (L l)
     else if is_wait_list l then map_option (remove1 (EventNode a)) (L l)
     else L l)"

definition wake_lists :: "addr \<Rightarrow> nat \<Rightarrow> lmap \<Rightarrow> lmap" where
  "wake_lists a p L = (detach_lists a L)(ReadyQ p \<mapsto> the (L (ReadyQ p)) @ [StateNode a])"

text \<open>Which fields an operation of this layer may write.\<close>

definition sched_frame :: "('b, 'r, 'm, 'p) kstate \<Rightarrow> ('b, 'r, 'm, 'p) kstate \<Rightarrow> bool" where
  "sched_frame s s' \<longleftrightarrow> (\<forall>h b t.
     s'\<lparr>list_heap := h, s_ready_bitmap := b, tcbs := t\<rparr> = s\<lparr>list_heap := h, s_ready_bitmap := b, tcbs := t\<rparr>)"

lemma sched_frame_refl [simp]: "sched_frame s s"
  by (simp add: sched_frame_def)

lemma sched_frame_trans: "sched_frame s s' \<Longrightarrow> sched_frame s' s'' \<Longrightarrow> sched_frame s s''"
  by (simp add: sched_frame_def)

lemma sched_frame_upd [simp]:
  "sched_frame s (upd_tcb a f s') = sched_frame s s'" "sched_frame s (upd_heap g s') = sched_frame s s'"
  "sched_frame s (s'\<lparr>s_ready_bitmap := b\<rparr>) = sched_frame s s'"
  "sched_frame s (s'\<lparr>list_heap := h\<rparr>) = sched_frame s s'"
  by (simp_all add: sched_frame_def upd_tcb_def upd_heap_def)

lemma sched_frameD:
  assumes "sched_frame s s'"
  shows "sertos_current_tcb s' = sertos_current_tcb s" "s_is_running s' = s_is_running s"
    "s_lock_nesting s' = s_lock_nesting s" "s_reschedule_pending s' = s_reschedule_pending s"
    "s_system_ticks s' = s_system_ticks s" "s_time_slicing_enabled s' = s_time_slicing_enabled s"
    "sems s' = sems s" "mutexes s' = mutexes s" "queues s' = queues s" "streams s' = streams s"
    "timers s' = timers s" "mem s' = mem s" "port s' = port s" "pool s' = pool s"
    "s_tick_hook s' = s_tick_hook s" "s_stats_enabled s' = s_stats_enabled s"
proof -
  have "s'\<lparr>list_heap := h, s_ready_bitmap := b, tcbs := t\<rparr> = s\<lparr>list_heap := h, s_ready_bitmap := b, tcbs := t\<rparr>" for h b t
    using assms by (simp add: sched_frame_def)
  from arg_cong [OF this, of sertos_current_tcb] arg_cong [OF this, of s_is_running]
    arg_cong [OF this, of s_lock_nesting] arg_cong [OF this, of s_reschedule_pending]
    arg_cong [OF this, of s_system_ticks] arg_cong [OF this, of s_time_slicing_enabled]
    arg_cong [OF this, of sems] arg_cong [OF this, of mutexes] arg_cong [OF this, of queues]
    arg_cong [OF this, of streams] arg_cong [OF this, of timers] arg_cong [OF this, of mem]
    arg_cong [OF this, of port] arg_cong [OF this, of pool] arg_cong [OF this, of s_tick_hook]
    arg_cong [OF this, of s_stats_enabled]
  show "sertos_current_tcb s' = sertos_current_tcb s" "s_is_running s' = s_is_running s"
    "s_lock_nesting s' = s_lock_nesting s" "s_reschedule_pending s' = s_reschedule_pending s"
    "s_system_ticks s' = s_system_ticks s" "s_time_slicing_enabled s' = s_time_slicing_enabled s"
    "sems s' = sems s" "mutexes s' = mutexes s" "queues s' = queues s" "streams s' = streams s"
    "timers s' = timers s" "mem s' = mem s" "port s' = port s" "pool s' = pool s"
    "s_tick_hook s' = s_tick_hook s" "s_stats_enabled s' = s_stats_enabled s"
    by simp_all
qed

lemma detach_lists_simps [simp]:
  "detach_lists a L (ReadyQ p) = L (ReadyQ p)"
  "detach_lists a L DelayList = map_option (remove1 (StateNode a)) (L DelayList)"
  "detach_lists a L TaskRegistry = L TaskRegistry"
  by (simp_all add: detach_lists_def)

lemma on_detach_lists:
  assumes "heap_ok h L" and "typed_lists L"
  shows "on_list (detach_lists a L) k x \<longleftrightarrow>
    on_list L k x \<and> x \<noteq> EventNode a \<and> \<not> (k = DelayList \<and> x = StateNode a)"
proof (cases "L k")
  case None
  then show ?thesis by (auto simp: on_list_def detach_lists_def)
next
  case (Some ns)
  have "list_typed k y" if "y \<in> set ns" for y
    using assms(2) Some that by (auto simp: typed_lists_def on_list_Some)
  then have "EventNode a \<in> set ns \<Longrightarrow> is_wait_list k"
    using list_typed_EventNode by blast
  moreover have "distinct ns" using heap_ok_distinct [OF assms(1) Some] .
  ultimately show ?thesis using Some
    by (cases "k = DelayList"; cases "is_wait_list k") (auto simp: on_list_def detach_lists_def)
qed

section \<open>Refinement of the operations\<close>

context kernel_env
begin

lemma add_ready_kinv:
  assumes inv: "kinv bits s L" and t: "t \<noteq> NULL"
    and p: "unat (tcb_priority (tcbs s t)) = p" "p < SERTOS_CONFIG_MAX_PRIORITIES"
    and ns: "L (ReadyQ p) = Some ns"
    and free: "\<And>l. \<not> on_list L l (StateNode t)" and idle: "tcb_wait_list (tcbs s t) = None"
  shows "kinv bits (snd (sertos_scheduler_add_ready E t s)) (L(ReadyQ p \<mapsto> ns @ [StateNode t]))"
proof -
  let ?s = "s\<lparr>list_heap := linked_list_insert_tail_direct E (ReadyQ p) (StateNode t) (list_heap s),
    s_ready_bitmap := bitmap_set_bit E p (s_ready_bitmap s)\<rparr>"
  let ?L = "L(ReadyQ p \<mapsto> ns @ [StateNode t])"
  have on: "on_list ?L k x \<longleftrightarrow> on_list L k x \<or> (k = ReadyQ p \<and> x = StateNode t)" for k x
    by (rule on_list_gain [of L "ReadyQ p", OF ns]) simp
  have "heap_ok (list_heap ?s) ?L"
    using ll.heap_ok_insert_tail [OF kinv_heap [OF inv] ns, of "StateNode t"] free
    by (simp add: nodes_on_list)
  moreover have "base_lists ?L" using inv by (simp add: kinv_def base_lists_def)
  moreover have "typed_lists ?L" using inv t unfolding kinv_def typed_lists_def on by auto
  moreover have "ready_ok (tcbs ?s) ?L" using inv p idle unfolding kinv_def ready_ok_def on by auto
  moreover have "delay_ok (tcbs ?s) ?L" using inv unfolding kinv_def delay_ok_def on by auto
  moreover have "\<not> on_list L l (EventNode t)" for l using kinv_wait [OF inv, of l t] idle by auto
  then have "wait_ok (tcbs ?s) ?L"
    using inv unfolding kinv_def wait_ok_def on by (simp split: if_splits) blast
  moreover have "bitmap_ok bits (s_ready_bitmap ?s) ?L"
    using inv p bm.set_bit_bits [OF p(2)] unfolding kinv_def bitmap_ok_def by auto
  ultimately have "kinv bits ?s ?L" by (simp add: kinv_def)
  moreover have "snd (sertos_scheduler_add_ready E t s) =
      upd_tcb t (\<lambda>t. t\<lparr>tcb_state := SERTOS_TASK_STATE_READY\<rparr>) ?s"
    using t p by (simp add: sertos_scheduler_add_ready_def Let_def upd_heap_def)
  ultimately show ?thesis by simp
qed

lemma remove_ready_kinv:
  assumes inv: "kinv bits s L" and p: "unat (tcb_priority (tcbs s t)) = p"
    and ns: "L (ReadyQ p) = Some ns" and t: "StateNode t \<in> set ns"
  shows "kinv bits (snd (sertos_scheduler_remove_ready E t s)) (L(ReadyQ p \<mapsto> remove1 (StateNode t) ns))"
proof -
  note heap = kinv_heap [OF inv]
  let ?h = "linked_list_remove_direct E (ReadyQ p) (StateNode t) (list_heap s)"
  let ?L = "L(ReadyQ p \<mapsto> remove1 (StateNode t) ns)"
  let ?b = "if remove1 (StateNode t) ns = [] then bitmap_clear_bit E p (s_ready_bitmap s)
    else s_ready_bitmap s"
  let ?s = "s\<lparr>list_heap := ?h, s_ready_bitmap := ?b\<rparr>"
  have ont: "on_list L (ReadyQ p) (StateNode t)" using ns t by (simp add: on_list_Some)
  have on: "on_list ?L k x \<longleftrightarrow> on_list L k x \<and> \<not> (k = ReadyQ p \<and> x = StateNode t)" for k x
    by (rule on_list_lose [of L "ReadyQ p", OF ns heap_ok_distinct [OF heap ns]])
  have pM: "p < SERTOS_CONFIG_MAX_PRIORITIES" using kinv_ready [OF inv ont] by simp
  have t0: "t \<noteq> NULL" using kinv_typed [OF inv ont] by simp
  have heap': "heap_ok ?h ?L" by (rule ll.heap_ok_remove [OF heap ns t])
  have empty: "linked_list_is_empty E (ReadyQ p) ?h \<longleftrightarrow> remove1 (StateNode t) ns = []"
    by (rule ll.heap_ok_is_empty [OF heap']) simp
  have "bitmap_ok bits ?b ?L"
    using inv bm.clear_bit_bits [OF pM] pM ns t unfolding kinv_def bitmap_ok_def by auto
  moreover have "base_lists ?L" using inv by (simp add: kinv_def base_lists_def)
  moreover have "typed_lists ?L" using inv unfolding kinv_def typed_lists_def on by auto
  moreover have "ready_ok (tcbs s) ?L" using inv unfolding kinv_def ready_ok_def on by auto
  moreover have "delay_ok (tcbs s) ?L" using inv unfolding kinv_def delay_ok_def on by auto
  moreover have "wait_ok (tcbs s) ?L" using inv unfolding kinv_def wait_ok_def on by auto
  ultimately have "kinv bits ?s ?L" using heap' by (simp add: kinv_def)
  moreover have "snd (sertos_scheduler_remove_ready E t s) = ?s"
    using t0 p pM kinv_linked [OF inv ont] empty
    by (simp add: sertos_scheduler_remove_ready_def Let_def upd_heap_def)
  ultimately show ?thesis by simp
qed

text \<open>A task that is detached from the delay list and its wait list, its fields reset accordingly.\<close>

lemma kinv_detach:
  assumes inv: "kinv bits s L" and heap: "heap_ok (list_heap s') (detach_lists a L)"
    and b: "s_ready_bitmap s' = s_ready_bitmap s"
    and other: "\<And>b. b \<noteq> a \<Longrightarrow> same_sched (tcbs s' b) (tcbs s b)"
    and prio: "tcb_priority (tcbs s' a) = tcb_priority (tcbs s a)" and none: "tcb_wait_list (tcbs s' a) = None"
  shows "kinv bits s' (detach_lists a L)"
proof -
  let ?L = "detach_lists a L"
  have on: "on_list ?L k x \<longleftrightarrow> on_list L k x \<and> x \<noteq> EventNode a \<and> \<not> (k = DelayList \<and> x = StateNode a)" for k x
    using inv on_detach_lists by (auto simp: kinv_def)
  have eq: "tcb_priority (tcbs s' b) = tcb_priority (tcbs s b)" for b
    using other [of b] prio by (cases "b = a") (auto simp: same_sched_def)
  have eq': "tcb_wait_list (tcbs s' b) = tcb_wait_list (tcbs s b)"
    "tcb_delay_ticks (tcbs s' b) = tcb_delay_ticks (tcbs s b)" if "b \<noteq> a" for b
    using other [OF that] by (auto simp: same_sched_def)
  have "base_lists ?L" "bitmap_ok bits (s_ready_bitmap s') ?L"
    using inv b by (simp_all add: kinv_def base_lists_def bitmap_ok_def)
  moreover have "typed_lists ?L" using inv unfolding kinv_def typed_lists_def on by auto
  moreover have "ready_ok (tcbs s') ?L"
    unfolding ready_ok_def on eq
  proof (intro allI impI)
    fix p b assume "on_list L (ReadyQ p) (StateNode b) \<and> StateNode b \<noteq> EventNode a \<and>
      \<not> (ReadyQ p = DelayList \<and> StateNode b = StateNode a)"
    then show "p < SERTOS_CONFIG_MAX_PRIORITIES \<and> unat (tcb_priority (tcbs s b)) = p \<and> tcb_wait_list (tcbs s' b) = None"
      using kinv_ready [OF inv, of p b] eq' none by (cases "b = a") auto
  qed
  moreover have "delay_ok (tcbs s') ?L"
    using inv unfolding kinv_def delay_ok_def on eq by (auto simp: eq')
  moreover have "wait_ok (tcbs s') ?L"
    unfolding wait_ok_def on eq
  proof (intro allI impI)
    fix wl b assume "on_list L wl (EventNode b) \<and> EventNode b \<noteq> EventNode a \<and>
      \<not> (wl = DelayList \<and> EventNode b = StateNode a)"
    then have ba: "b \<noteq> a" and onb: "on_list L wl (EventNode b)" by auto
    from kinv_wait [OF inv onb] ba
    show "tcb_wait_list (tcbs s' b) = Some wl \<and> unat (tcb_priority (tcbs s b)) < SERTOS_CONFIG_MAX_PRIORITIES \<and>
      (if 0 < tcb_delay_ticks (tcbs s' b)
       then on_list L DelayList (StateNode b) \<and> StateNode b \<noteq> EventNode a \<and> \<not> (DelayList = DelayList \<and> StateNode b = StateNode a)
       else \<forall>l. \<not> (on_list L l (StateNode b) \<and> StateNode b \<noteq> EventNode a \<and> \<not> (l = DelayList \<and> StateNode b = StateNode a)))"
      by (auto simp: eq' split: if_splits)
  qed
  ultimately show ?thesis using heap by (simp add: kinv_def)
qed

lemma tcb_delay_zero: "\<not> 0 < tcb_delay_ticks t \<Longrightarrow> t\<lparr>tcb_delay_ticks := 0\<rparr> = t"
  by (cases t) (simp add: word_neq_0_conv [symmetric] del: word_neq_0_conv)

lemma wait_list_remove_fields [simp]:
  "tcbs (sertos_scheduler_wait_list_remove E w a s) = tcbs s"
  "s_ready_bitmap (sertos_scheduler_wait_list_remove E w a s) = s_ready_bitmap s"
  "sched_frame s0 (sertos_scheduler_wait_list_remove E w a s) = sched_frame s0 s"
  by (simp_all add: sertos_scheduler_wait_list_remove_def split: option.splits)

lemma wait_list_remove_heap:
  assumes heap: "heap_ok (list_heap s) L" and ns: "L wl = Some ns" and a: "EventNode a \<in> set ns" "a \<noteq> NULL"
  shows "heap_ok (list_heap (sertos_scheduler_wait_list_remove E (Some wl) a s))
    (L(wl \<mapsto> remove1 (EventNode a) ns))"
proof -
  let ?L = "L(wl \<mapsto> remove1 (EventNode a) ns)"
  have "nxt (list_heap s) (EventNode a) \<noteq> None"
    using heap_ok_linked [OF heap] nodesI [of L wl, OF ns a(1)] by blast
  moreover have "\<not> on_list ?L k (EventNode a)" for k
    unfolding on_list_lose [of L wl, OF ns heap_ok_distinct [OF heap ns]]
    using heap_ok_unique [OF heap ns a(1)] by (auto elim!: on_listE)
  then have "heap_ok (clear_node (EventNode a) (linked_list_remove_direct E wl (EventNode a) (list_heap s))) ?L"
    using ll.heap_ok_remove [OF heap ns a(1)] by (intro heap_ok_clear_node) (auto simp: nodes_on_list)
  ultimately show ?thesis using a(2) by (auto simp: sertos_scheduler_wait_list_remove_def)
qed

lemma detach_lists_waiting:
  assumes inv: "kinv bits s L" and ds: "L DelayList = Some ds" and wl: "on_list L wl (EventNode a)"
    and ns: "L wl = Some ns"
  shows "detach_lists a L = L(wl \<mapsto> remove1 (EventNode a) ns, DelayList \<mapsto> remove1 (StateNode a) ds)"
proof
  fix l
  have w: "is_wait_list wl" using kinv_typed [OF inv wl] list_typed_EventNode by blast
  then have "wl \<noteq> DelayList" by auto
  moreover have "EventNode a \<notin> set ms" if "L l = Some ms" "l \<noteq> wl" for ms
    using kinv_unique [OF inv wl, of l] that by (auto simp: on_list_Some)
  then have "map_option (remove1 (EventNode a)) (L l) = L l" if "l \<noteq> wl"
    using that by (cases "L l") (simp_all add: remove1_idem)
  ultimately show "detach_lists a L l = (L(wl \<mapsto> remove1 (EventNode a) ns, DelayList \<mapsto> remove1 (StateNode a) ds)) l"
    using w ds ns by (simp add: detach_lists_def)
qed

lemma detach_lists_plain:
  assumes ds: "L DelayList = Some ds" and no: "\<And>l. \<not> on_list L l (EventNode a)"
  shows "detach_lists a L = L(DelayList \<mapsto> remove1 (StateNode a) ds)"
proof
  fix l
  have "map_option (remove1 (EventNode a)) (L l) = L l"
    using no [of l] by (cases "L l") (simp_all add: remove1_idem on_list_Some)
  then show "detach_lists a L l = (L(DelayList \<mapsto> remove1 (StateNode a) ds)) l"
    using ds by (simp add: detach_lists_def)
qed

text \<open>Waking a detached task: the common end of unblocking and of expiry.\<close>

lemma wake_kinv:
  assumes inv: "kinv bits s L" and a: "a \<noteq> NULL"
    and heap: "heap_ok (list_heap s') (detach_lists a L)" and b: "s_ready_bitmap s' = s_ready_bitmap s"
    and other: "\<And>b. b \<noteq> a \<Longrightarrow> same_sched (tcbs s' b) (tcbs s b)"
    and prio: "tcb_priority (tcbs s' a) = tcb_priority (tcbs s a)" and none: "tcb_wait_list (tcbs s' a) = None"
    and p: "unat (tcb_priority (tcbs s a)) = p" "p < SERTOS_CONFIG_MAX_PRIORITIES"
    and free: "\<And>l. on_list L l (StateNode a) \<Longrightarrow> l = DelayList"
  shows "kinv bits (snd (sertos_scheduler_add_ready E a s')) (wake_lists a p L)"
proof -
  have inv': "kinv bits s' (detach_lists a L)" by (rule kinv_detach [OF inv heap b other prio none])
  have on: "on_list (detach_lists a L) k x \<longleftrightarrow>
      on_list L k x \<and> x \<noteq> EventNode a \<and> \<not> (k = DelayList \<and> x = StateNode a)" for k x
    using inv on_detach_lists by (auto simp: kinv_def)
  obtain ns where ns: "L (ReadyQ p) = Some ns" using kinv_ready_list [OF inv p(2)] .
  have "kinv bits (snd (sertos_scheduler_add_ready E a s'))
      ((detach_lists a L)(ReadyQ p \<mapsto> ns @ [StateNode a]))"
    by (rule add_ready_kinv [OF inv' a _ p(2)]) (use p prio ns free on none in auto)
  then show ?thesis by (simp add: wake_lists_def ns)
qed

lemma add_ready_eq:
  assumes "t \<noteq> NULL" "unat (tcb_priority (tcbs s t)) < SERTOS_CONFIG_MAX_PRIORITIES"
  shows "fst (sertos_scheduler_add_ready E t s) = SERTOS_STATUS_OK"
    "tcbs (snd (sertos_scheduler_add_ready E t s)) =
      (tcbs s)(t := (tcbs s t)\<lparr>tcb_state := SERTOS_TASK_STATE_READY\<rparr>)"
  using assms by (simp_all add: sertos_scheduler_add_ready_def Let_def)

lemma add_ready_frame [simp]: "sched_frame s0 (snd (sertos_scheduler_add_ready E t s)) = sched_frame s0 s"
  by (simp add: sertos_scheduler_add_ready_def Let_def)

lemma remove_ready_frame [simp]: "sched_frame s0 (snd (sertos_scheduler_remove_ready E t s)) = sched_frame s0 s"
  by (simp add: sertos_scheduler_remove_ready_def Let_def)

lemma remove_ready_tcbs [simp]: "tcbs (snd (sertos_scheduler_remove_ready E t s)) = tcbs s"
  by (simp add: sertos_scheduler_remove_ready_def Let_def)

text \<open>The head of a non-empty wait list is woken; an empty list yields NULL and changes nothing.\<close>

lemma unblock_highest_empty:
  assumes "kinv bits s L" and "L wl = Some []"
  shows "sertos_scheduler_wait_list_unblock_highest E (Some wl) s = Some (NULL, s)"
  using ll.heap_ok_peek_head [OF kinv_heap [OF assms(1)] assms(2)]
  by (simp add: sertos_scheduler_wait_list_unblock_highest_def)

lemma unblock_highest_head:
  assumes inv: "kinv bits s L" and wl: "L wl = Some (EventNode a # ns)"
    and p: "unat (tcb_priority (tcbs s a)) = p"
  obtains s' where "sertos_scheduler_wait_list_unblock_highest E (Some wl) s = Some (a, s')"
    and "kinv bits s' (wake_lists a p L)" and "sched_frame s s'"
    and "tcbs s' = (tcbs s)(a := (tcbs s a)\<lparr>tcb_delay_ticks := 0, tcb_wait_list := None,
           tcb_state := SERTOS_TASK_STATE_READY\<rparr>)"
proof -
  have onw: "on_list L wl (EventNode a)" using wl by (simp add: on_list_Some)
  have a0: "a \<noteq> NULL" using kinv_typed [OF inv onw] list_typed_EventNode by blast
  note wait = kinv_wait [OF inv onw]
  have pM: "p < SERTOS_CONFIG_MAX_PRIORITIES" using wait p by simp
  obtain ds where ds: "L DelayList = Some ds" using kinv_delay_list [OF inv] .
  have wd: "wl \<noteq> DelayList" using kinv_typed [OF inv onw] by auto
  let ?s1 = "sertos_scheduler_wait_list_remove E (Some wl) a s"
  let ?s2 = "if 0 < tcb_delay_ticks (tcbs ?s1 a)
    then upd_tcb a (\<lambda>t. t\<lparr>tcb_delay_ticks := 0\<rparr>)
      (upd_heap (linked_list_remove_direct E DelayList (StateNode a)) ?s1) else ?s1"
  let ?s3 = "upd_tcb a (\<lambda>t. t\<lparr>tcb_wait_list := None\<rparr>) ?s2"
  have h1: "heap_ok (list_heap ?s1) (L(wl \<mapsto> ns))"
    using wait_list_remove_heap [OF kinv_heap [OF inv] wl _ a0] by simp
  have det: "detach_lists a L = L(wl \<mapsto> ns, DelayList \<mapsto> remove1 (StateNode a) ds)"
    using detach_lists_waiting [OF inv ds onw wl] by simp
  have h3: "heap_ok (list_heap ?s3) (detach_lists a L)"
  proof (cases "0 < tcb_delay_ticks (tcbs s a)")
    case True
    then have "StateNode a \<in> set ds" using wait ds by (simp add: on_list_Some)
    then have "heap_ok (linked_list_remove_direct E DelayList (StateNode a) (list_heap ?s1)) (detach_lists a L)"
      unfolding det by (intro ll.heap_ok_remove [OF h1]) (use wd ds in auto)
    then show ?thesis using True by simp
  next
    case False
    then have "StateNode a \<notin> set ds" using wait on_listI [of L DelayList, OF ds] by auto
    then have "detach_lists a L = L(wl \<mapsto> ns)"
      unfolding det using ds wd by (auto simp: remove1_idem fun_eq_iff)
    then show ?thesis using h1 False by simp
  qed
  have k: "kinv bits (snd (sertos_scheduler_add_ready E a ?s3)) (wake_lists a p L)"
  proof (rule wake_kinv [OF inv a0 h3 _ _ _ _ p pM])
    show "l = DelayList" if "on_list L l (StateNode a)" for l
      using wait that kinv_unique [OF inv that, of DelayList] by (auto split: if_splits)
  qed (auto simp: same_sched_def)
  have T3: "tcbs ?s3 = (tcbs s)(a := (tcbs s a)\<lparr>tcb_delay_ticks := 0, tcb_wait_list := None\<rparr>)"
    by (auto simp: fun_eq_iff dest: tcb_delay_zero)
  show thesis
  proof (rule that [OF _ k])
    show "sertos_scheduler_wait_list_unblock_highest E (Some wl) s =
        Some (a, snd (sertos_scheduler_add_ready E a ?s3))"
      using ll.heap_ok_peek_head [OF kinv_heap [OF inv] wl]
      by (simp add: sertos_scheduler_wait_list_unblock_highest_def Let_def)
    show "sched_frame s (snd (sertos_scheduler_add_ready E a ?s3))" by simp
    show "tcbs (snd (sertos_scheduler_add_ready E a ?s3)) = (tcbs s)(a := (tcbs s a)\<lparr>tcb_delay_ticks := 0,
        tcb_wait_list := None, tcb_state := SERTOS_TASK_STATE_READY\<rparr>)"
      using add_ready_eq(2) [OF a0, of ?s3] p pM unfolding T3 by simp
  qed
qed

end

end
