(* ===== verification/Sertos_Delay.thy ===== *)
theory Sertos_Delay
  imports Sertos_Ready
begin

text \<open>
  Tick processing of \<open>src/sertos_scheduler.c\<close>: the walk over the delay list that removes expired
  tasks while it iterates (\<open>process_delayed_tasks\<close>) and the round-robin rotation
  (\<open>process_time_slicing\<close>). The walk is shown to return from every state that satisfies the
  invariant and to compute the abstract step \<open>tick_lists\<close>: every delay is decremented once, the
  tasks that reach zero leave the delay list and their wait list and are appended to their ready
  queues in the order of the delay list.
\<close>

definition expires :: "(addr \<Rightarrow> tcb) \<Rightarrow> lnode \<Rightarrow> bool" where
  "expires T n = (case n of StateNode a \<Rightarrow> tcb_delay_ticks (T a) \<le> 1 | _ \<Rightarrow> False)"

definition node_priority :: "(addr \<Rightarrow> tcb) \<Rightarrow> lnode \<Rightarrow> nat" where
  "node_priority T n = (case n of StateNode a \<Rightarrow> unat (tcb_priority (T a))
     | EventNode a \<Rightarrow> unat (tcb_priority (T a)) | _ \<Rightarrow> 0)"

definition tick_tcb :: "tcb \<Rightarrow> tcb" where
  "tick_tcb t = (if tcb_delay_ticks t \<le> 1
     then t\<lparr>tcb_delay_ticks := 0, tcb_wait_list := None, tcb_state := SERTOS_TASK_STATE_READY\<rparr>
     else t\<lparr>tcb_delay_ticks := tcb_delay_ticks t - 1\<rparr>)"

text \<open>The lists after the tail \<open>ys\<close> of the delay list \<open>xs @ ys\<close> has been processed.\<close>

definition tick_lists :: "(addr \<Rightarrow> tcb) \<Rightarrow> lnode list \<Rightarrow> lnode list \<Rightarrow> lmap \<Rightarrow> lmap" where
  "tick_lists T xs ys L = (\<lambda>l. case l of
       DelayList \<Rightarrow> Some (xs @ filter (\<lambda>n. \<not> expires T n) ys)
     | ReadyQ p \<Rightarrow> map_option (\<lambda>ns. ns @ filter (\<lambda>n. expires T n \<and> node_priority T n = p) ys) (L l)
     | _ \<Rightarrow> if is_wait_list l
            then map_option (filter (\<lambda>n. \<forall>a. n = EventNode a \<longrightarrow>
                   \<not> (StateNode a \<in> set ys \<and> expires T (StateNode a)))) (L l)
            else L l)"

lemma kinv_delay_change:
  assumes inv: "kinv bits s L" and d: "0 < f (tcb_delay_ticks (tcbs s a)) \<longleftrightarrow> 0 < tcb_delay_ticks (tcbs s a)"
  shows "kinv bits (upd_tcb a (\<lambda>t. t\<lparr>tcb_delay_ticks := f (tcb_delay_ticks t)\<rparr>) s) L"
proof -
  let ?T = "tcbs (upd_tcb a (\<lambda>t. t\<lparr>tcb_delay_ticks := f (tcb_delay_ticks t)\<rparr>) s)"
  have eq: "tcb_priority (?T b) = tcb_priority (tcbs s b)" "tcb_wait_list (?T b) = tcb_wait_list (tcbs s b)"
    "0 < tcb_delay_ticks (?T b) \<longleftrightarrow> 0 < tcb_delay_ticks (tcbs s b)" for b
    using d by auto
  show ?thesis
    using inv unfolding kinv_def ready_ok_def delay_ok_def wait_ok_def eq
    unfolding upd_tcb_simps .
qed

lemma tick_filters_cong:
  assumes "\<And>b. b \<noteq> a \<Longrightarrow> T' b = T b" and "StateNode a \<notin> set ys"
  shows "filter (\<lambda>n. \<not> expires T' n) ys = filter (\<lambda>n. \<not> expires T n) ys"
    and "filter (\<lambda>n. expires T' n \<and> node_priority T' n = p) ys =
      filter (\<lambda>n. expires T n \<and> node_priority T n = p) ys"
    and "StateNode b \<in> set ys \<and> expires T' (StateNode b) \<longleftrightarrow> StateNode b \<in> set ys \<and> expires T (StateNode b)"
proof -
  have e: "expires T' n = expires T n" "expires T' n \<and> node_priority T' n = p \<longleftrightarrow> expires T n \<and> node_priority T n = p"
    if "n \<in> set ys" for n p
    using assms that by (cases n; force simp: expires_def node_priority_def)+
  show "filter (\<lambda>n. \<not> expires T' n) ys = filter (\<lambda>n. \<not> expires T n) ys"
    "filter (\<lambda>n. expires T' n \<and> node_priority T' n = p) ys =
      filter (\<lambda>n. expires T n \<and> node_priority T n = p) ys"
    using e by (intro filter_cong refl; blast)+
  show "StateNode b \<in> set ys \<and> expires T' (StateNode b) \<longleftrightarrow> StateNode b \<in> set ys \<and> expires T (StateNode b)"
    using e(1) by blast
qed

lemma tick_lists_Nil:
  assumes "L DelayList = Some xs" shows "tick_lists T xs [] L = L"
proof
  fix l show "tick_lists T xs [] L l = L l"
    using assms by (cases l) (simp_all add: tick_lists_def option.map_ident map_option_case split: option.splits)
qed

lemma tick_lists_keep:
  assumes "\<not> expires T (StateNode a)" and "StateNode a \<notin> set ys"
    and "\<And>b. b \<noteq> a \<Longrightarrow> T' b = T b" and "L DelayList = Some (xs @ StateNode a # ys)"
  shows "tick_lists T' (xs @ [StateNode a]) ys L = tick_lists T xs (StateNode a # ys) L"
proof
  fix l
  note fg = tick_filters_cong [of a T' T ys, OF assms(3,2)]
  have h: "StateNode b \<in> set ys \<and> expires T' (StateNode b) \<longleftrightarrow>
      StateNode b \<in> set (StateNode a # ys) \<and> expires T (StateNode b)" for b
    using fg(3) [of b] assms(1) by auto
  show "tick_lists T' (xs @ [StateNode a]) ys L l = tick_lists T xs (StateNode a # ys) L l"
    using assms(1) by (cases l) (simp_all only: tick_lists_def fg(1,2) h lst.case filter.simps append_assoc
      append.simps if_True if_False not_True_eq_False not_False_eq_True simp_thms)
qed

lemma tick_lists_wake:
  assumes exp: "expires T (StateNode a)" and a: "StateNode a \<notin> set ys" "StateNode a \<notin> set xs"
    and T': "\<And>b. b \<noteq> a \<Longrightarrow> T' b = T b" and L: "L DelayList = Some (xs @ StateNode a # ys)"
    and p: "node_priority T (StateNode a) = p" "L (ReadyQ p) \<noteq> None"
    and dist: "\<And>l ns. L l = Some ns \<Longrightarrow> distinct ns"
  shows "tick_lists T' xs ys (wake_lists a p L) = tick_lists T xs (StateNode a # ys) L"
proof
  fix l
  note fg = tick_filters_cong [of a T' T ys, OF T' a(1)]
  have h: "filter (\<lambda>n. \<forall>b. n = EventNode b \<longrightarrow> \<not> (StateNode b \<in> set ys \<and> expires T' (StateNode b)))
        (remove1 (EventNode a) ns) =
      filter (\<lambda>n. \<forall>b. n = EventNode b \<longrightarrow> \<not> (StateNode b \<in> set (StateNode a # ys) \<and> expires T (StateNode b))) ns"
    if "L l = Some ns" for ns
  proof -
    have "remove1 (EventNode a) ns = filter (\<lambda>n. n \<noteq> EventNode a) ns"
      using dist [OF that] by (simp add: distinct_remove1_removeAll removeAll_filter_not_eq eq_commute)
    then show ?thesis
      using exp fg(3) by (auto intro!: filter_cong)
  qed
  show "tick_lists T' xs ys (wake_lists a p L) l = tick_lists T xs (StateNode a # ys) L l"
  proof (cases l)
    case (ReadyQ q)
    then show ?thesis using p exp
      by (cases "q = p") (auto simp: tick_lists_def wake_lists_def fg(2))
  next
    case DelayList
    then show ?thesis using L a exp by (simp add: tick_lists_def fg(1))
  qed (cases "L l"; use h in \<open>simp add: tick_lists_def wake_lists_def detach_lists_def\<close>)+
qed

context kernel_env
begin

lemma delayed_task_keeps:
  assumes inv: "kinv bits s L" and d: "\<not> tcb_delay_ticks (tcbs s a) \<le> 1"
  shows "fst (process_delayed_task E n a ub s) = ub"
    "kinv bits (snd (process_delayed_task E n a ub s)) L"
    "sched_frame s (snd (process_delayed_task E n a ub s))"
    "tcbs (snd (process_delayed_task E n a ub s)) = (tcbs s)(a := tick_tcb (tcbs s a))"
    "list_heap (snd (process_delayed_task E n a ub s)) = list_heap s"
proof -
  let ?d = "tcb_delay_ticks (tcbs s a)"
  have pos: "0 < ?d" "0 < ?d - 1" "?d \<noteq> 1"
    using d by (auto simp: word_less_nat_alt word_le_nat_alt unat_minus_one_pos)
  then have eq: "process_delayed_task E n a ub s =
      (ub, upd_tcb a (\<lambda>t. t\<lparr>tcb_delay_ticks := tcb_delay_ticks t - 1\<rparr>) s)"
    by (simp add: process_delayed_task_def Let_def)
  show "fst (process_delayed_task E n a ub s) = ub"
    "sched_frame s (snd (process_delayed_task E n a ub s))"
    "list_heap (snd (process_delayed_task E n a ub s)) = list_heap s"
    by (simp_all add: eq)
  show "kinv bits (snd (process_delayed_task E n a ub s)) L"
    unfolding eq snd_conv by (rule kinv_delay_change [OF inv]) (use pos in simp)
  show "tcbs (snd (process_delayed_task E n a ub s)) = (tcbs s)(a := tick_tcb (tcbs s a))"
    using d by (simp add: eq tick_tcb_def)
qed

lemma delayed_task_expires:
  assumes inv: "kinv bits s L" and a: "on_list L DelayList (StateNode a)"
    and d: "tcb_delay_ticks (tcbs s a) \<le> 1" and p: "unat (tcb_priority (tcbs s a)) = p"
  shows "fst (process_delayed_task E (StateNode a) a ub s)"
    "kinv bits (snd (process_delayed_task E (StateNode a) a ub s)) (wake_lists a p L)"
    "sched_frame s (snd (process_delayed_task E (StateNode a) a ub s))"
    "tcbs (snd (process_delayed_task E (StateNode a) a ub s)) = (tcbs s)(a := tick_tcb (tcbs s a))"
proof -
  note del = kinv_delay [OF inv a]
  have a0: "a \<noteq> NULL" using kinv_typed [OF inv a] by simp
  have pM: "p < SERTOS_CONFIG_MAX_PRIORITIES" using del p by simp
  obtain ds where ds: "L DelayList = Some ds" using kinv_delay_list [OF inv] .
  have ad: "StateNode a \<in> set ds" using a ds by (simp add: on_list_Some)
  let ?w = "tcb_wait_list (tcbs s a)"
  let ?s1 = "if 0 < tcb_delay_ticks (tcbs s a)
    then upd_tcb a (\<lambda>t. t\<lparr>tcb_delay_ticks := tcb_delay_ticks t - 1\<rparr>) s else s"
  let ?s2 = "upd_heap (linked_list_remove_direct E DelayList (StateNode a)) ?s1"
  let ?s3 = "if ?w \<noteq> None then upd_tcb a (\<lambda>t. t\<lparr>tcb_wait_list := None\<rparr>)
    (sertos_scheduler_wait_list_remove E ?w a ?s2) else ?s2"
  have d0: "tcb_delay_ticks (tcbs ?s1 a) = 0"
    using d by (auto simp: word_le_nat_alt word_less_nat_alt word_unat_eq_iff unat_minus_one_pos)
  have h1: "list_heap ?s1 = list_heap s" by simp
  have h2: "heap_ok (list_heap ?s2) (L(DelayList \<mapsto> remove1 (StateNode a) ds))"
    using ll.heap_ok_remove [OF kinv_heap [OF inv] ds ad] by simp
  have h3: "heap_ok (list_heap ?s3) (detach_lists a L)"
  proof (cases ?w)
    case None
    then have "\<not> on_list L l (EventNode a)" for l using kinv_wait [OF inv, of l a] by auto
    then show ?thesis using h2 None detach_lists_plain [of L, OF ds] by simp
  next
    case (Some wl)
    then have w: "is_wait_list wl" "on_list L wl (EventNode a)" using del by auto
    then obtain ns where ns: "L wl = Some ns" "EventNode a \<in> set ns" by (auto elim: on_listE)
    have "wl \<noteq> DelayList" using w(1) by auto
    then have "heap_ok (list_heap (sertos_scheduler_wait_list_remove E (Some wl) a ?s2))
        (L(DelayList \<mapsto> remove1 (StateNode a) ds, wl \<mapsto> remove1 (EventNode a) ns))"
      by (intro wait_list_remove_heap [OF h2]) (use ns a0 in auto)
    then show ?thesis
      using Some detach_lists_waiting [OF inv ds w(2) ns(1)] \<open>wl \<noteq> DelayList\<close> by (simp add: fun_upd_twist)
  qed
  have w1: "tcb_wait_list (tcbs ?s2 a) = ?w" by simp
  have eq: "process_delayed_task E (StateNode a) a ub s = (True, snd (sertos_scheduler_add_ready E a ?s3))"
    unfolding process_delayed_task_def Let_def w1 using d0 by simp
  have "kinv bits (snd (sertos_scheduler_add_ready E a ?s3)) (wake_lists a p L)"
  proof (rule wake_kinv [OF inv a0 h3 _ _ _ _ p pM])
    show "l = DelayList" if "on_list L l (StateNode a)" for l
      using kinv_unique [OF inv a that] .
  qed (auto simp: same_sched_def)
  then show "kinv bits (snd (process_delayed_task E (StateNode a) a ub s)) (wake_lists a p L)"
    by (simp add: eq)
  show "fst (process_delayed_task E (StateNode a) a ub s)" by (simp add: eq)
  show "sched_frame s (snd (process_delayed_task E (StateNode a) a ub s))" by (simp add: eq)
  have "tcbs ?s3 = (tcbs s)(a := (tcbs s a)\<lparr>tcb_delay_ticks := 0, tcb_wait_list := None\<rparr>)"
  proof -
    have "(tcbs ?s1) a = (tcbs s a)\<lparr>tcb_delay_ticks := 0\<rparr>"
      using d0 by (auto dest: tcb_delay_zero)
    moreover have "tcb_wait_list t = None \<Longrightarrow> t\<lparr>tcb_wait_list := None\<rparr> = t" for t :: tcb by (cases t) simp
    ultimately show ?thesis by (auto simp: fun_eq_iff)
  qed
  then show "tcbs (snd (process_delayed_task E (StateNode a) a ub s)) = (tcbs s)(a := tick_tcb (tcbs s a))"
    using add_ready_eq(2) [OF a0, of ?s3] p pM d by (simp add: eq tick_tcb_def)
qed

lemma process_delayed_loop_refines:
  assumes "kinv bits s L" and "L DelayList = Some (xs @ ys)"
    and "cn = (case ys of [] \<Rightarrow> None | y # _ \<Rightarrow> Some y)"
  shows "\<exists>s'. process_delayed_loop E cn ub s = Some (ub \<or> (\<exists>n \<in> set ys. expires (tcbs s) n), s') \<and>
    kinv bits s' (tick_lists (tcbs s) xs ys L) \<and> sched_frame s s' \<and>
    tcbs s' = (\<lambda>a. if StateNode a \<in> set ys then tick_tcb (tcbs s a) else tcbs s a)"
  using assms
proof (induction ys arbitrary: s L xs cn ub)
  case Nil
  then show ?case
    by (subst process_delayed_loop.simps) (simp add: tick_lists_Nil)
next
  case (Cons y ys)
  note inv = Cons.prems(1) and L = Cons.prems(2)
  have ony: "on_list L DelayList y" using L by (simp add: on_list_Some)
  then obtain a where y: "y = StateNode a" and a0: "a \<noteq> NULL"
    using kinv_typed [OF inv ony] by (cases y) auto
  have dist: "distinct (xs @ y # ys)" using heap_ok_distinct [OF kinv_heap [OF inv] L] .
  have ny: "(if nxt (list_heap s) y = Some (Root DelayList) then None else nxt (list_heap s) y) =
      (case ys of [] \<Rightarrow> None | z # _ \<Rightarrow> Some z)"
  proof -
    have "nxt (list_heap s) y = Some (hd (ys @ [Root DelayList]))"
      using dll_nxt [OF heap_ok_dll [OF kinv_heap [OF inv] L]] .
    moreover have "hd ys \<noteq> Root DelayList" if "ys \<noteq> []"
      using heap_ok_no_Root [OF kinv_heap [OF inv] L, of "hd ys"] that by (cases ys) auto
    ultimately show ?thesis by (cases ys) auto
  qed
  let ?r = "process_delayed_task E (StateNode a) a ub s"
  have step: "process_delayed_loop E cn ub s =
      process_delayed_loop E (case ys of [] \<Rightarrow> None | z # _ \<Rightarrow> Some z) (fst ?r) (snd ?r)"
    by (subst process_delayed_loop.simps) (simp add: Cons.prems(3) y Let_def flip: ny [unfolded y])
  have T: "tcbs (snd ?r) = (tcbs s)(a := tick_tcb (tcbs s a))"
    using delayed_task_keeps(4) [OF inv] delayed_task_expires(4) [OF inv ony [unfolded y] _ refl] by blast
  have fr: "sched_frame s (snd ?r)"
    using delayed_task_keeps(3) [OF inv] delayed_task_expires(3) [OF inv ony [unfolded y] _ refl] by blast
  have exp: "(\<exists>n \<in> set ys. expires (tcbs (snd ?r)) n) \<longleftrightarrow> (\<exists>n \<in> set ys. expires (tcbs s) n)"
    using dist y unfolding T by (auto simp: expires_def split: lnode.splits)
  have T': "(\<lambda>b. if StateNode b \<in> set ys then tick_tcb (tcbs (snd ?r) b) else tcbs (snd ?r) b) =
      (\<lambda>b. if StateNode b \<in> set (y # ys) then tick_tcb (tcbs s b) else tcbs s b)"
    using dist y unfolding T by (auto simp: fun_eq_iff)
  have oth: "b \<noteq> a \<Longrightarrow> tcbs (snd ?r) b = tcbs s b" for b unfolding T by simp
  have e_iff: "expires (tcbs s) y \<longleftrightarrow> tcb_delay_ticks (tcbs s a) \<le> 1" by (simp add: y expires_def)
  show ?case
  proof (cases "tcb_delay_ticks (tcbs s a) \<le> 1")
    case True
    let ?p = "unat (tcb_priority (tcbs s a))"
    have k: "kinv bits (snd ?r) (wake_lists a ?p L)" and ub: "fst ?r"
      using delayed_task_expires(1,2) [OF inv ony [unfolded y] True refl] by auto
    have Lw: "wake_lists a ?p L DelayList = Some (xs @ ys)"
      using L dist y by (simp add: wake_lists_def remove1_append)
    obtain s' where s': "process_delayed_loop E (case ys of [] \<Rightarrow> None | z # _ \<Rightarrow> Some z) (fst ?r) (snd ?r) =
        Some (fst ?r \<or> (\<exists>n \<in> set ys. expires (tcbs (snd ?r)) n), s')"
      "kinv bits s' (tick_lists (tcbs (snd ?r)) xs ys (wake_lists a ?p L))" "sched_frame (snd ?r) s'"
      "tcbs s' = (\<lambda>b. if StateNode b \<in> set ys then tick_tcb (tcbs (snd ?r) b) else tcbs (snd ?r) b)"
      using Cons.IH [OF k Lw refl] by blast
    have pM: "?p < SERTOS_CONFIG_MAX_PRIORITIES" using kinv_delay [OF inv ony [unfolded y]] by simp
    have "tick_lists (tcbs (snd ?r)) xs ys (wake_lists a ?p L) = tick_lists (tcbs s) xs (y # ys) L"
      unfolding y
    proof (rule tick_lists_wake [OF _ _ _ oth])
      show "L (ReadyQ ?p) \<noteq> None" using kinv_ready_list [OF inv pM] by blast
    qed (use True L dist y heap_ok_distinct [OF kinv_heap [OF inv]] in
        \<open>auto simp: expires_def node_priority_def\<close>)
    then show ?thesis
      using s' step ub True T' sched_frame_trans [OF fr] by (auto simp: e_iff)
  next
    case False
    have k: "kinv bits (snd ?r) L" and ub: "fst ?r = ub"
      using delayed_task_keeps(1,2) [OF inv False] by auto
    obtain s' where s': "process_delayed_loop E (case ys of [] \<Rightarrow> None | z # _ \<Rightarrow> Some z) (fst ?r) (snd ?r) =
        Some (fst ?r \<or> (\<exists>n \<in> set ys. expires (tcbs (snd ?r)) n), s')"
      "kinv bits s' (tick_lists (tcbs (snd ?r)) (xs @ [y]) ys L)" "sched_frame (snd ?r) s'"
      "tcbs s' = (\<lambda>b. if StateNode b \<in> set ys then tick_tcb (tcbs (snd ?r) b) else tcbs (snd ?r) b)"
      using Cons.IH [OF k, of "xs @ [y]"] L by auto
    have "tick_lists (tcbs (snd ?r)) (xs @ [y]) ys L = tick_lists (tcbs s) xs (y # ys) L"
      unfolding y by (rule tick_lists_keep [OF _ _ oth]) (use False L dist y in \<open>auto simp: expires_def\<close>)
    then show ?thesis
      using s' step ub False T' exp sched_frame_trans [OF fr] by (auto simp: e_iff)
  qed
qed

lemma process_delayed_tasks_refines:
  assumes inv: "kinv bits s L" and ds: "L DelayList = Some ds"
  obtains s' where "process_delayed_tasks E s = Some (\<exists>n \<in> set ds. expires (tcbs s) n, s')"
    and "kinv bits s' (tick_lists (tcbs s) [] ds L)" and "sched_frame s s'"
    and "tcbs s' = (\<lambda>a. if StateNode a \<in> set ds then tick_tcb (tcbs s a) else tcbs s a)"
  using process_delayed_loop_refines [OF inv, of "[]" ds _ False] ds
    ll.heap_ok_peek_head [OF kinv_heap [OF inv] ds]
  unfolding process_delayed_tasks_def by auto

end

end
