(* ===== verification/Sertos_WaitLists.thy ===== *)
theory Sertos_WaitLists
  imports Sertos_Delay
begin

text \<open>
  Selection, rotation and the IPC wait lists of \<open>src/sertos_scheduler.c\<close>. \<open>abs_select\<close> is the
  scheduling policy on the abstract lists (the head of the highest non-empty ready queue), which
  \<open>sertos_scheduler_select_next_task\<close> computes through the bitmap. \<open>insert_by_priority\<close> is the
  policy of a wait list (descending priority, first come first served among equals), which the
  pointer loop \<open>insert_wait_list_priority\<close> implements. \<open>unblock_all\<close> wakes a whole list.
\<close>

definition ready_priorities :: "lmap \<Rightarrow> nat list" where
  "ready_priorities L = filter (\<lambda>p. L (ReadyQ p) \<noteq> Some []) [0..<SERTOS_CONFIG_MAX_PRIORITIES]"

definition abs_select :: "lmap \<Rightarrow> addr" where
  "abs_select L = (if ready_priorities L = [] then NULL
     else case L (ReadyQ (last (ready_priorities L))) of
            Some (StateNode a # _) \<Rightarrow> a
          | _ \<Rightarrow> NULL)"

definition insert_by_priority :: "(addr \<Rightarrow> tcb) \<Rightarrow> addr \<Rightarrow> lnode list \<Rightarrow> lnode list" where
  "insert_by_priority T a ns =
     takeWhile (\<lambda>n. unat (tcb_priority (T a)) \<le> node_priority T n) ns @ EventNode a #
     dropWhile (\<lambda>n. unat (tcb_priority (T a)) \<le> node_priority T n) ns"

definition wait_sorted :: "(addr \<Rightarrow> tcb) \<Rightarrow> lnode list \<Rightarrow> bool" where
  "wait_sorted T ns \<longleftrightarrow> sorted_wrt (\<lambda>m n. node_priority T n \<le> node_priority T m) ns"

definition woken_tcb :: "tcb \<Rightarrow> tcb" where
  "woken_tcb t = t\<lparr>tcb_delay_ticks := 0, tcb_wait_list := None, tcb_state := SERTOS_TASK_STATE_READY\<rparr>"

fun wake_all :: "(addr \<Rightarrow> tcb) \<Rightarrow> lnode list \<Rightarrow> lmap \<Rightarrow> lmap" where
  "wake_all T [] L = L"
| "wake_all T (n # ns) L = (case n of
     EventNode a \<Rightarrow> wake_all T ns (wake_lists a (unat (tcb_priority (T a))) L)
   | _ \<Rightarrow> wake_all T ns L)"

section \<open>Policies\<close>

lemma insert_by_priority_set [simp]: "set (insert_by_priority T a ns) = insert (EventNode a) (set ns)"
  unfolding insert_by_priority_def
  by (metis (no_types, lifting) list.simps(15) set_append takeWhile_dropWhile_id Un_insert_right)

lemma insert_by_priority_sorted:
  assumes "wait_sorted T ns" shows "wait_sorted T (insert_by_priority T a ns)"
proof -
  let ?P = "\<lambda>n. unat (tcb_priority (T a)) \<le> node_priority T n"
  let ?r = "\<lambda>m n. node_priority T n \<le> node_priority T m"
  have srt: "sorted_wrt ?r (takeWhile ?P ns @ dropWhile ?P ns)"
    using assms by (simp add: wait_sorted_def)
  then have tk: "sorted_wrt ?r (takeWhile ?P ns)" and dr: "sorted_wrt ?r (dropWhile ?P ns)"
    and x: "\<forall>m \<in> set (takeWhile ?P ns). \<forall>n \<in> set (dropWhile ?P ns). ?r m n"
    unfolding sorted_wrt_append by blast+
  have hi: "\<forall>m \<in> set (takeWhile ?P ns). ?P m" by (auto dest: set_takeWhileD)
  have lo: "\<forall>n \<in> set (dropWhile ?P ns). node_priority T n \<le> unat (tcb_priority (T a))"
  proof (cases "dropWhile ?P ns")
    case (Cons y ys)
    then have "\<not> ?P y" using hd_dropWhile [of ?P ns] by simp
    with dr Cons show ?thesis by auto
  qed (simp only: list.set ball_simps)
  have "node_priority T (EventNode a) = unat (tcb_priority (T a))" by (simp add: node_priority_def)
  then show ?thesis using tk dr x hi lo
    by (auto simp: wait_sorted_def insert_by_priority_def sorted_wrt_append)
qed

lemma ready_priorities_set:
  "set (ready_priorities L) = {p. p < SERTOS_CONFIG_MAX_PRIORITIES \<and> L (ReadyQ p) \<noteq> Some []}"
  by (auto simp: ready_priorities_def)

lemma sorted_le_last: "sorted xs \<Longrightarrow> x \<in> set xs \<Longrightarrow> x \<le> last xs"
  by (cases xs rule: rev_cases) (auto simp: sorted_append)

lemma ready_priorities_last:
  assumes "p \<in> set (ready_priorities L)" shows "p \<le> last (ready_priorities L)"
proof (rule sorted_le_last [OF _ assms])
  show "sorted (ready_priorities L)" unfolding ready_priorities_def by (rule sorted_wrt_filter) simp
qed

lemma wake_all_cong:
  assumes "\<And>a. tcb_priority (T a) = tcb_priority (T' a)" shows "wake_all T ns L = wake_all T' ns L"
  by (induction ns arbitrary: L) (simp_all add: assms split: lnode.splits)

section \<open>State nodes of a ready queue fit its count\<close>

lemma state_nodes_short:
  assumes "distinct ns" "\<And>n. n \<in> set ns \<Longrightarrow> \<exists>a. n = StateNode a \<and> a \<noteq> NULL"
  shows "length ns < 2 ^ 32"
proof -
  have "set ns \<subseteq> StateNode ` (UNIV - {NULL})" using assms(2) by fastforce
  then have "card (set ns) \<le> card (StateNode ` (UNIV - {NULL}))" by (intro card_mono) auto
  also have "\<dots> = card (UNIV - {NULL})" by (rule card_image) (simp add: inj_on_def)
  also have "\<dots> = 2 ^ 32 - 1" by (simp add: card_Diff_subset card_word)
  finally show ?thesis using distinct_card [OF assms(1)] by simp
qed

lemma kinv_ready_count:
  assumes inv: "kinv bits s L" and ns: "L (ReadyQ p) = Some ns"
  shows "1 < cnt (list_heap s) (ReadyQ p) \<longleftrightarrow> 1 < length ns"
proof -
  have "\<exists>a. n = StateNode a \<and> a \<noteq> NULL" if "n \<in> set ns" for n
    using kinv_typed [OF inv, of "ReadyQ p" n] that ns by (cases n) (auto simp: on_list_Some)
  then have "length ns < 2 ^ 32"
    using state_nodes_short heap_ok_distinct [OF kinv_heap [OF inv] ns] by blast
  moreover have "cnt (list_heap s) (ReadyQ p) = of_nat (length ns)"
    using heap_ok_dll [OF kinv_heap [OF inv] ns] by (simp add: dll_def)
  ultimately show ?thesis
    by (simp add: word_less_nat_alt unat_of_nat take_bit_eq_mod)
qed

lemma kinv_permute:
  assumes inv: "kinv bits s L" and heap: "heap_ok (list_heap s') (L(l \<mapsto> ns'))"
    and ns: "L l = Some ns" and set: "set ns' = set ns"
    and "s_ready_bitmap s' = s_ready_bitmap s" and "tcbs s' = tcbs s"
  shows "kinv bits s' (L(l \<mapsto> ns'))"
proof -
  have on: "on_list (L(l \<mapsto> ns')) k x \<longleftrightarrow> on_list L k x" for k x
    using ns set by (simp add: on_list_def)
  have nil: "ns' = [] \<longleftrightarrow> ns = []" using set by (metis set_empty)
  have "typed_lists (L(l \<mapsto> ns')) = typed_lists L" by (simp only: typed_lists_def on)
  moreover have "ready_ok T (L(l \<mapsto> ns')) = ready_ok T L" "delay_ok T (L(l \<mapsto> ns')) = delay_ok T L"
    "wait_ok T (L(l \<mapsto> ns')) = wait_ok T L" for T
    by (simp_all only: ready_ok_def delay_ok_def wait_ok_def on)
  moreover have "base_lists L \<Longrightarrow> base_lists (L(l \<mapsto> ns'))" by (simp add: base_lists_def)
  moreover have "((L(l \<mapsto> ns')) (ReadyQ p) \<noteq> Some []) = (L (ReadyQ p) \<noteq> Some [])" for p
    using ns nil by auto
  then have "bitmap_ok bits b (L(l \<mapsto> ns')) = bitmap_ok bits b L" for b
    unfolding bitmap_ok_def by simp
  ultimately show ?thesis
    using inv heap assms(5,6) unfolding kinv_def by simp
qed

context kernel_env
begin

lemma select_next_refines:
  assumes inv: "kinv bits s L"
  shows "sertos_scheduler_select_next_task E s = Some (abs_select L)"
proof (cases "ready_priorities L = []")
  case True
  then have "bits (s_ready_bitmap s) = {}"
    using inv ready_priorities_set [of L] by (auto simp: kinv_def bitmap_ok_def)
  then show ?thesis
    using True bm.find_last_set_None by (simp add: sertos_scheduler_select_next_task_def abs_select_def)
next
  case False
  let ?p = "last (ready_priorities L)"
  have bits: "bits (s_ready_bitmap s) = set (ready_priorities L)"
    using inv ready_priorities_set [of L] by (auto simp: kinv_def bitmap_ok_def)
  have p: "?p \<in> set (ready_priorities L)" using False by simp
  then have pM: "?p < SERTOS_CONFIG_MAX_PRIORITIES" "L (ReadyQ ?p) \<noteq> Some []"
    unfolding ready_priorities_set by auto
  have find: "bitmap_find_last_set E (s_ready_bitmap s) = Some ?p"
  proof (rule bm.find_last_set_Some)
    show "bits (s_ready_bitmap s) \<subseteq> {..<SERTOS_CONFIG_MAX_PRIORITIES}"
      unfolding bits ready_priorities_set by auto
  qed (use bits p ready_priorities_last in auto)
  obtain n ns where ns: "L (ReadyQ ?p) = Some (n # ns)"
    using kinv_ready_list [OF inv pM(1)] pM(2) by (metis neq_Nil_conv)
  then have "on_list L (ReadyQ ?p) n" by (simp add: on_list_Some)
  then obtain a where n: "n = StateNode a"
    using kinv_typed [OF inv, of "ReadyQ ?p" n] by (cases n) auto
  show ?thesis
    using find ns n False ll.heap_ok_peek_head [OF kinv_heap [OF inv] ns]
    by (simp add: sertos_scheduler_select_next_task_def abs_select_def)
qed

lemma abs_select_highest:
  assumes inv: "kinv bits s L" and p: "p < SERTOS_CONFIG_MAX_PRIORITIES" and ns: "L (ReadyQ p) = Some ns" "ns \<noteq> []"
  obtains q ms where "p \<le> q" and "q < SERTOS_CONFIG_MAX_PRIORITIES"
    and "L (ReadyQ q) = Some (StateNode (abs_select L) # ms)"
    and "abs_select L \<noteq> NULL" and "unat (tcb_priority (tcbs s (abs_select L))) = q"
proof -
  let ?q = "last (ready_priorities L)"
  have pin: "p \<in> set (ready_priorities L)" using p ns unfolding ready_priorities_set by auto
  then have ne: "ready_priorities L \<noteq> []" by auto
  then have qin: "?q \<in> set (ready_priorities L)" by simp
  then have qM: "?q < SERTOS_CONFIG_MAX_PRIORITIES" "L (ReadyQ ?q) \<noteq> Some []"
    unfolding ready_priorities_set by auto
  obtain n ms where ms: "L (ReadyQ ?q) = Some (n # ms)"
    using kinv_ready_list [OF inv qM(1)] qM(2) by (metis neq_Nil_conv)
  then have on: "on_list L (ReadyQ ?q) n" by (simp add: on_list_Some)
  then obtain a where n: "n = StateNode a" and a: "a \<noteq> NULL"
    using kinv_typed [OF inv on] by (cases n) auto
  then have sel: "abs_select L = a" using ms ne by (simp add: abs_select_def)
  show thesis
    by (rule that [of ?q ms])
      (use ready_priorities_last [OF pin] qM(1) ms n a sel kinv_ready [OF inv on [unfolded n]] in auto)
qed

lemma time_slicing_refines:
  assumes inv: "kinv bits s L" and cur: "sertos_current_tcb s = c" "c \<noteq> NULL" "s_time_slicing_enabled s"
    and p: "unat (tcb_priority (tcbs s c)) = p" and ns: "L (ReadyQ p) = Some ns" "StateNode c \<in> set ns"
  shows "kinv bits (process_time_slicing E s) (L(ReadyQ p \<mapsto> remove1 (StateNode c) ns @ [StateNode c]))"
proof (cases "1 < length ns")
  case True
  let ?h1 = "linked_list_remove_direct E (ReadyQ p) (StateNode c) (list_heap s)"
  let ?h2 = "linked_list_insert_tail_direct E (ReadyQ p) (StateNode c) ?h1"
  let ?L1 = "L(ReadyQ p \<mapsto> remove1 (StateNode c) ns)"
  have eq: "process_time_slicing E s = s\<lparr>list_heap := ?h2\<rparr>"
    using True cur p kinv_ready_count [OF inv ns(1)] by (simp add: process_time_slicing_def Let_def upd_heap_def)
  have h1: "heap_ok ?h1 ?L1" by (rule ll.heap_ok_remove [OF kinv_heap [OF inv] ns])
  have "\<not> on_list ?L1 k (StateNode c)" for k
    unfolding on_list_lose [of L "ReadyQ p", OF ns(1) heap_ok_distinct [OF kinv_heap [OF inv] ns(1)]]
    using kinv_unique [OF inv, of "ReadyQ p" "StateNode c" k] ns by (auto simp: on_list_Some)
  then have "heap_ok ?h2 (?L1(ReadyQ p \<mapsto> remove1 (StateNode c) ns @ [StateNode c]))"
    by (intro ll.heap_ok_insert_tail [OF h1]) (auto simp: nodes_on_list)
  then show ?thesis
    unfolding eq by (intro kinv_permute [OF inv _ ns(1)]) (use ns heap_ok_distinct [OF kinv_heap [OF inv] ns(1)] in auto)
next
  case False
  then have "ns = [StateNode c]" using ns(2) by (cases ns) auto
  moreover have "process_time_slicing E s = s"
    using False cur p kinv_ready_count [OF inv ns(1)] by (simp add: process_time_slicing_def Let_def)
  ultimately show ?thesis using inv ns by (simp add: fun_upd_idem)
qed

lemma time_slicing_frame [simp]:
  "tcbs (process_time_slicing E s) = tcbs s" "s_ready_bitmap (process_time_slicing E s) = s_ready_bitmap s"
  "sched_frame s0 (process_time_slicing E s) = sched_frame s0 s"
  by (simp_all add: process_time_slicing_def Let_def)

text \<open>The insertion loop of a wait list, from any point of the walk.\<close>

lemma insert_wait_list_loop_refines:
  assumes "heap_ok (list_heap s) L" and "L wl = Some (xs @ ys)" and "EventNode t \<notin> nodes L"
    and "\<And>n. n \<in> set ys \<Longrightarrow> \<exists>a. n = EventNode a"
    and "\<And>n. n \<in> set xs \<Longrightarrow> unat (tcb_priority (tcbs s t)) \<le> node_priority (tcbs s) n"
    and "cn = (case ys of [] \<Rightarrow> None | y # _ \<Rightarrow> Some y)"
  shows "\<exists>h'. insert_wait_list_loop E wl t cn s = Some (s\<lparr>list_heap := h'\<rparr>) \<and>
    heap_ok h' (L(wl \<mapsto> xs @ insert_by_priority (tcbs s) t ys))"
  using assms
proof (induction ys arbitrary: xs cn)
  case Nil
  then have "heap_ok (linked_list_insert_tail_direct E wl (EventNode t) (list_heap s)) (L(wl \<mapsto> xs @ [EventNode t]))"
    by (intro ll.heap_ok_insert_tail) simp_all
  with Nil show ?case
    by (subst insert_wait_list_loop.simps) (auto simp: insert_by_priority_def upd_heap_def)
next
  case (Cons y ys)
  note heap = Cons.prems(1) and L = Cons.prems(2) and fresh = Cons.prems(3) and cn = Cons.prems(6)
  obtain a where y: "y = EventNode a" using Cons.prems(4) by auto
  have d: "dll (list_heap s) wl (xs @ y # ys)" by (rule heap_ok_dll [OF heap L])
  show ?case
  proof (cases "tcb_priority (tcbs s a) < tcb_priority (tcbs s t)")
    case True
    have "prv (list_heap s) y = Some (last (Root wl # xs))" by (rule dll_prv [OF d])
    moreover have "heap_ok (link_before wl (EventNode t) y (last (Root wl # xs)) (list_heap s))
        (L(wl \<mapsto> xs @ EventNode t # y # ys))"
      by (rule link_before_heap_ok [OF heap L fresh]) simp
    ultimately show ?thesis using True cn y
      by (subst insert_wait_list_loop.simps)
        (auto simp: insert_by_priority_def upd_heap_def node_priority_def word_less_nat_alt)
  next
    case False
    then have le: "unat (tcb_priority (tcbs s t)) \<le> node_priority (tcbs s) y"
      by (simp add: y node_priority_def word_less_nat_alt)
    have "nxt (list_heap s) y = Some (hd (ys @ [Root wl]))" by (rule dll_nxt [OF d])
    moreover have "hd ys \<noteq> Root wl" if "ys \<noteq> []"
      using heap_ok_no_Root [OF heap L, of "hd ys"] that by (cases ys) auto
    ultimately have step: "insert_wait_list_loop E wl t cn s =
        insert_wait_list_loop E wl t (case ys of [] \<Rightarrow> None | z # _ \<Rightarrow> Some z) s"
      using False cn y by (subst insert_wait_list_loop.simps) (cases ys; simp)
    have "\<exists>h'. insert_wait_list_loop E wl t (case ys of [] \<Rightarrow> None | z # _ \<Rightarrow> Some z) s = Some (s\<lparr>list_heap := h'\<rparr>) \<and>
        heap_ok h' (L(wl \<mapsto> (xs @ [y]) @ insert_by_priority (tcbs s) t ys))"
      by (rule Cons.IH [OF heap _ fresh]) (use L Cons.prems(4,5) le in auto)
    moreover have "(xs @ [y]) @ insert_by_priority (tcbs s) t ys = xs @ insert_by_priority (tcbs s) t (y # ys)"
      using le by (simp add: insert_by_priority_def)
    ultimately show ?thesis unfolding step by (simp only:)
  qed
qed

lemma insert_wait_list_priority_refines:
  assumes heap: "heap_ok (list_heap s) L" and L: "L wl = Some ns" and fresh: "EventNode t \<notin> nodes L"
    and ev: "\<And>n. n \<in> set ns \<Longrightarrow> \<exists>a. n = EventNode a"
  obtains h' where "insert_wait_list_priority E wl t s = Some (s\<lparr>list_heap := h'\<rparr>)"
    and "heap_ok h' (L(wl \<mapsto> insert_by_priority (tcbs s) t ns))"
  using insert_wait_list_loop_refines [OF heap, of wl "[]" ns t] L fresh ev
    ll.heap_ok_peek_head [OF heap L]
  unfolding insert_wait_list_priority_def by auto

lemma wake_lists_same [simp]: "is_wait_list wl \<Longrightarrow> wake_lists a p L wl = map_option (remove1 (EventNode a)) (L wl)"
  by (cases wl) (simp_all add: wake_lists_def detach_lists_def)

lemma unblock_all_refines:
  assumes "kinv bits s L" and "L wl = Some ns" and "is_wait_list wl"
  shows "\<exists>s'. unblock_all E wl s = Some s' \<and> kinv bits s' (wake_all (tcbs s) ns L) \<and>
    wake_all (tcbs s) ns L wl = Some [] \<and> sched_frame s s' \<and>
    tcbs s' = (\<lambda>a. if EventNode a \<in> set ns then woken_tcb (tcbs s a) else tcbs s a)"
  using assms
proof (induction ns arbitrary: s L)
  case Nil
  then show ?case by (subst unblock_all.simps) (simp add: unblock_highest_empty)
next
  case (Cons n ns)
  note inv = Cons.prems(1) and L = Cons.prems(2)
  have on: "on_list L wl n" using L by (simp add: on_list_Some)
  obtain a where n: "n = EventNode a" and a0: "a \<noteq> NULL" using kinv_typed [OF inv on] Cons.prems(3) by auto
  let ?p = "unat (tcb_priority (tcbs s a))"
  obtain s1 where s1: "sertos_scheduler_wait_list_unblock_highest E (Some wl) s = Some (a, s1)"
    "kinv bits s1 (wake_lists a ?p L)" "sched_frame s s1" "tcbs s1 = (tcbs s)(a := woken_tcb (tcbs s a))"
    using unblock_highest_head [OF inv L [unfolded n] refl] unfolding woken_tcb_def by blast
  have L1: "wake_lists a ?p L wl = Some ns" using L n Cons.prems(3) by simp
  obtain s2 where s2: "unblock_all E wl s1 = Some s2" "kinv bits s2 (wake_all (tcbs s1) ns (wake_lists a ?p L))"
    "wake_all (tcbs s1) ns (wake_lists a ?p L) wl = Some []" "sched_frame s1 s2"
    "tcbs s2 = (\<lambda>b. if EventNode b \<in> set ns then woken_tcb (tcbs s1 b) else tcbs s1 b)"
    using Cons.IH [OF s1(2) L1 Cons.prems(3)] by blast
  have "tcb_priority (tcbs s1 b) = tcb_priority (tcbs s b)" for b
    by (simp add: s1(4) woken_tcb_def)
  then have wa: "wake_all (tcbs s1) ns (wake_lists a ?p L) = wake_all (tcbs s) (n # ns) L"
    using wake_all_cong [of "tcbs s1" "tcbs s"] by (simp add: n)
  have "EventNode a \<notin> set ns" using heap_ok_distinct [OF kinv_heap [OF inv] L] n by simp
  then have "tcbs s2 = (\<lambda>b. if EventNode b \<in> set (n # ns) then woken_tcb (tcbs s b) else tcbs s b)"
    unfolding s2(5) s1(4) n by (auto simp: fun_eq_iff)
  moreover have "unblock_all E wl s = Some s2"
    by (subst unblock_all.simps) (use s1(1) s2(1) a0 in simp)
  ultimately show ?case using s2 sched_frame_trans [OF s1(3)] unfolding wa by blast
qed

end

end
