(* ===== verification/Sertos_Stack.thy ===== *)
theory Sertos_Stack
  imports Sertos_Modules
begin

text \<open>
  The part of \<open>src/sertos_task.c\<close> that works on one control block and its stack: validation of a
  configuration, painting and framing of the stack (\<open>init_tcb_and_stack\<close>), the high-water mark, the
  transition table of the task life cycle and the read-only accessors. The stack frame itself is
  laid out by the port (\<open>sertos_port_stack_init\<close>), whose contract is the locale \<open>stack_port\<close>: it
  returns a stack pointer below the stack top and writes nothing outside the frame between them.
\<close>

unbundle bit_operations_syntax

section \<open>Validation\<close>

definition validate_task_config :: "task_config option \<Rightarrow> SertosStatus" where
  "validate_task_config config = (case config of
     None \<Rightarrow> SERTOS_STATUS_ERROR_NULL_PTR
   | Some c \<Rightarrow>
       if cfg_entry_func c = NULL then SERTOS_STATUS_ERROR_INVALID_PARAM
       else if SERTOS_CONFIG_MAX_PRIORITIES \<le> unat (cfg_priority c) then SERTOS_STATUS_ERROR_INVALID_PARAM
       else if cfg_stack_size c < SERTOS_CONFIG_MINIMAL_STACK_SIZE then SERTOS_STATUS_ERROR_INVALID_PARAM
       else if cfg_stack_buffer c \<noteq> NULL \<and> cfg_stack_buffer c mod SERTOS_CONFIG_STACK_ALIGNMENT_BYTES \<noteq> 0
       then SERTOS_STATUS_ERROR_INVALID_PARAM
       else SERTOS_STATUS_OK)"

section \<open>Stack initialisation\<close>

text \<open>\<open>memset\<close>: the \<open>n\<close> bytes from address \<open>a\<close> become \<open>v\<close>.\<close>

definition memset_bytes :: "addr \<Rightarrow> byte \<Rightarrow> size_t \<Rightarrow> (addr \<Rightarrow> byte) \<Rightarrow> addr \<Rightarrow> byte" where
  "memset_bytes a v n m = (\<lambda>x. if x - a < n then v else m x)"

definition align_down :: "addr \<Rightarrow> addr" where
  "align_down a = a AND NOT (SERTOS_CONFIG_STACK_ALIGNMENT_BYTES - 1)"

definition new_tcb :: "task_config \<Rightarrow> addr \<Rightarrow> bool \<Rightarrow> tcb" where
  "new_tcb config sp is_static = \<lparr>
     tcb_stack_ptr = sp,
     tcb_stack_base = cfg_stack_buffer config,
     tcb_stack_size = cfg_stack_size config,
     tcb_stack_limit = cfg_stack_buffer config,
     tcb_state = SERTOS_TASK_STATE_READY,
     tcb_priority = cfg_priority config,
     tcb_base_priority = cfg_priority config,
     tcb_delay_ticks = 0,
     tcb_entry_func = cfg_entry_func config,
     tcb_param = cfg_param config,
     tcb_name = (case cfg_name config of None \<Rightarrow> Some ''Task'' | Some n \<Rightarrow> Some n),
     tcb_wait_list = None,
     tcb_is_statically_allocated = is_static,
     tcb_magic = SERTOS_TASK_MAGIC_WORD,
     tcb_port_context = NULL,
     tcb_run_time_total = 0,
     tcb_run_time_last_entry = 0,
     tcb_switch_in_count = 0\<rparr>"

definition init_tcb_and_stack ::
  "('b, 'r, 'm, 'p) env \<Rightarrow> addr \<Rightarrow> task_config \<Rightarrow> bool \<Rightarrow> ('b, 'r, 'm, 'p) kstate \<Rightarrow> ('b, 'r, 'm, 'p) kstate" where
  "init_tcb_and_stack E tcb config is_static s =
     (let stack_top = align_down (cfg_stack_buffer config + cfg_stack_size config);
          m1 = memset_bytes (cfg_stack_buffer config) SERTOS_TASK_STACK_FILL_BYTE (cfg_stack_size config) (mem s);
          (sp, m2) = sertos_port_stack_init E stack_top (cfg_stack_buffer config)
                       (cfg_entry_func config) (cfg_param config) m1;
          s1 = upd_tcb tcb (\<lambda>_. new_tcb config sp is_static) (s\<lparr>mem := m2\<rparr>);
          s2 = upd_heap (\<lambda>h. clear_node (RegistryNode tcb) (clear_node (EventNode tcb) (clear_node (StateNode tcb) h))) s1;
          (ctx, p) = sertos_port_task_create_hook E tcb (tcb_port_context (tcbs s2 tcb)) (port s2)
      in upd_tcb tcb (\<lambda>t. t\<lparr>tcb_port_context := ctx\<rparr>) (s2\<lparr>port := p\<rparr>))"

section \<open>High-water mark\<close>

function high_water_loop :: "(addr \<Rightarrow> byte) \<Rightarrow> size_t \<Rightarrow> size_t \<Rightarrow> addr \<Rightarrow> size_t" where
  "high_water_loop m stack_size free_bytes byte_ptr =
     (if free_bytes < stack_size \<and> m byte_ptr = SERTOS_TASK_STACK_FILL_BYTE
      then high_water_loop m stack_size (free_bytes + 1) (byte_ptr + 1)
      else free_bytes)"
  by pat_completeness auto
termination
  by (relation "measure (\<lambda>(m, n, f, a). unat n - unat f)")
    (auto simp: unat_Suc_less word_less_nat_alt)

declare high_water_loop.simps [simp del]

definition sertos_task_get_stack_high_water_mark :: "addr \<Rightarrow> ('b, 'r, 'm, 'p) kstate \<Rightarrow> size_t" where
  "sertos_task_get_stack_high_water_mark handle s =
     (if handle = NULL \<or> tcb_magic (tcbs s handle) \<noteq> SERTOS_TASK_MAGIC_WORD then 0
      else high_water_loop (mem s) (tcb_stack_size (tcbs s handle)) 0 (tcb_stack_base (tcbs s handle)))"

section \<open>Life cycle\<close>

definition s_task_transitions :: "(SertosTaskState \<times> nat \<times> SertosTaskState) list" where
  "s_task_transitions = [
     (SERTOS_TASK_STATE_READY, 1, SERTOS_TASK_STATE_RUNNING),
     (SERTOS_TASK_STATE_RUNNING, 2, SERTOS_TASK_STATE_READY),
     (SERTOS_TASK_STATE_RUNNING, 3, SERTOS_TASK_STATE_BLOCKED),
     (SERTOS_TASK_STATE_BLOCKED, 4, SERTOS_TASK_STATE_READY),
     (SERTOS_TASK_STATE_READY, 5, SERTOS_TASK_STATE_SUSPENDED),
     (SERTOS_TASK_STATE_RUNNING, 5, SERTOS_TASK_STATE_SUSPENDED),
     (SERTOS_TASK_STATE_BLOCKED, 5, SERTOS_TASK_STATE_SUSPENDED),
     (SERTOS_TASK_STATE_SUSPENDED, 6, SERTOS_TASK_STATE_READY),
     (SERTOS_TASK_STATE_READY, 7, SERTOS_TASK_STATE_TERMINATED),
     (SERTOS_TASK_STATE_RUNNING, 7, SERTOS_TASK_STATE_TERMINATED),
     (SERTOS_TASK_STATE_BLOCKED, 7, SERTOS_TASK_STATE_TERMINATED),
     (SERTOS_TASK_STATE_SUSPENDED, 7, SERTOS_TASK_STATE_TERMINATED)]"

fun transition_loop ::
  "(SertosTaskState \<times> nat \<times> SertosTaskState) list \<Rightarrow> SertosTaskState \<Rightarrow> SertosTaskState \<Rightarrow> bool" where
  "transition_loop [] from_st to_st = False"
| "transition_loop ((current_state, ev, next_state) # ts) from_st to_st =
     (if current_state = from_st \<and> next_state = to_st then True else transition_loop ts from_st to_st)"

definition sertos_task_is_valid_transition :: "SertosTaskState \<Rightarrow> SertosTaskState \<Rightarrow> bool" where
  "sertos_task_is_valid_transition from_st to_st =
     (if from_st = to_st then False else transition_loop s_task_transitions from_st to_st)"

section \<open>Accessors\<close>

definition sertos_task_get_state :: "addr \<Rightarrow> ('b, 'r, 'm, 'p) kstate \<Rightarrow> SertosTaskState" where
  "sertos_task_get_state handle s =
     (if handle = NULL \<or> tcb_magic (tcbs s handle) \<noteq> SERTOS_TASK_MAGIC_WORD
      then SERTOS_TASK_STATE_TERMINATED else tcb_state (tcbs s handle))"

definition sertos_task_get_current :: "('b, 'r, 'm, 'p) kstate \<Rightarrow> addr" where
  "sertos_task_get_current s = sertos_current_tcb s"

definition sertos_task_get_name :: "addr \<Rightarrow> ('b, 'r, 'm, 'p) kstate \<Rightarrow> string" where
  "sertos_task_get_name handle s =
     (if handle = NULL \<or> tcb_magic (tcbs s handle) \<noteq> SERTOS_TASK_MAGIC_WORD then ''Unknown''
      else case tcb_name (tcbs s handle) of None \<Rightarrow> ''Unknown'' | Some n \<Rightarrow> n)"

definition sertos_task_get_priority :: "addr \<Rightarrow> ('b, 'r, 'm, 'p) kstate \<Rightarrow> SertosPriority" where
  "sertos_task_get_priority handle s =
     (if handle = NULL \<or> tcb_magic (tcbs s handle) \<noteq> SERTOS_TASK_MAGIC_WORD then 0
      else tcb_priority (tcbs s handle))"

definition sertos_task_compute_crc ::
  "('b, 'r, 'm, 'p) env \<Rightarrow> addr \<Rightarrow> ('b, 'r, 'm, 'p) kstate \<Rightarrow> 32 word" where
  "sertos_task_compute_crc E tcb s =
     (if tcb = NULL then 0
      else crc_32_calculate E (tcb_bytes_up_to_magic E tcb (tcbs s tcb) (list_heap s)))"

section \<open>The port's stack frame\<close>

locale stack_port =
  fixes stack_init :: "addr \<Rightarrow> addr \<Rightarrow> addr \<Rightarrow> addr \<Rightarrow> (addr \<Rightarrow> byte) \<Rightarrow> addr \<times> (addr \<Rightarrow> byte)"
    and frame_size :: nat
  assumes stack_init_sp: "stk_top \<noteq> NULL \<Longrightarrow> stk_top mod SERTOS_CONFIG_STACK_ALIGNMENT_BYTES = 0 \<Longrightarrow>
      frame_size \<le> unat stk_top \<Longrightarrow> unat (fst (stack_init stk_top limit entry param m)) = unat stk_top - frame_size"
    and stack_init_frame: "stk_top \<noteq> NULL \<Longrightarrow> stk_top mod SERTOS_CONFIG_STACK_ALIGNMENT_BYTES = 0 \<Longrightarrow>
      frame_size \<le> unat stk_top \<Longrightarrow> unat x < unat stk_top - frame_size \<or> unat stk_top \<le> unat x \<Longrightarrow>
      snd (stack_init stk_top limit entry param m) x = m x"
    and frame_size_bound: "frame_size \<le> unat SERTOS_CONFIG_MINIMAL_STACK_SIZE"

section \<open>Lemmas\<close>

lemma high_water_loop_length:
  assumes "f \<le> n"
  shows "unat (high_water_loop m n f a) = unat f +
    length (takeWhile (\<lambda>b. b = SERTOS_TASK_STACK_FILL_BYTE) (map (\<lambda>i. m (a + of_nat i)) [0..<unat n - unat f]))"
  using assms
proof (induction m n f a rule: high_water_loop.induct)
  case (1 m n f a)
  show ?case
  proof (cases "f < n")
    case False
    then have "f = n" using "1.prems" by simp
    then show ?thesis by (simp add: high_water_loop.simps)
  next
    case True
    note suc = unat_Suc_less [OF True]
    have le: "f + 1 \<le> n" using True suc by (simp add: word_le_nat_alt word_less_nat_alt)
    have "[0..<unat n - unat f] = 0 # map Suc [0..<unat n - unat (f + 1)]"
      using True by (simp add: suc word_less_nat_alt upt_conv_Cons map_Suc_upt Suc_diff_Suc)
    then have "map (\<lambda>i. m (a + of_nat i)) [0..<unat n - unat f] =
        m a # map (\<lambda>i. m ((a + 1) + of_nat i)) [0..<unat n - unat (f + 1)]"
      by (simp add: add.assoc)
    then show ?thesis
      using "1.IH" [OF _ le] True suc by (subst high_water_loop.simps) auto
  qed
qed

lemma align_down_unat: "unat (align_down a) = unat a - unat a mod 8"
proof -
  have "(8 :: addr) - 1 = mask 3" by (simp add: mask_eq_exp_minus_1)
  then show ?thesis
    using unat_and_not_mask [of a 3] by (simp add: align_down_def SERTOS_CONFIG_STACK_ALIGNMENT_BYTES_def)
qed

lemma align_down_mod: "align_down a mod SERTOS_CONFIG_STACK_ALIGNMENT_BYTES = 0"
proof -
  have "unat (align_down a) mod 8 = 0" by (simp add: align_down_unat minus_mod_eq_mult_div)
  then show ?thesis
    by (simp add: SERTOS_CONFIG_STACK_ALIGNMENT_BYTES_def word_unat_eq_iff unat_mod)
qed

lemma validate_task_config_OK:
  "validate_task_config (Some c) = SERTOS_STATUS_OK \<longleftrightarrow>
     cfg_entry_func c \<noteq> NULL \<and> unat (cfg_priority c) < SERTOS_CONFIG_MAX_PRIORITIES \<and>
     SERTOS_CONFIG_MINIMAL_STACK_SIZE \<le> cfg_stack_size c \<and>
     cfg_stack_buffer c mod SERTOS_CONFIG_STACK_ALIGNMENT_BYTES = 0"
  by (auto simp: validate_task_config_def not_less)

lemma takeWhile_prefix_length:
  assumes "k \<le> length xs" and "\<And>i. i < k \<Longrightarrow> P (xs ! i)" shows "k \<le> length (takeWhile P xs)"
proof (rule ccontr)
  assume "\<not> k \<le> length (takeWhile P xs)"
  then have lt: "length (takeWhile P xs) < k" by simp
  then have "\<not> P (xs ! length (takeWhile P xs))" using assms(1) by (intro nth_length_takeWhile) linarith
  then show False using assms(2) [OF lt] by simp
qed

text \<open>Where the aligned top of a buffer lies, in natural numbers.\<close>

lemma stack_top_unat:
  assumes "buf mod SERTOS_CONFIG_STACK_ALIGNMENT_BYTES = 0" "unat buf + unat n < 2 ^ 32"
  shows "unat (align_down (buf + n)) = unat buf + (unat n - unat n mod 8)"
proof -
  have us: "unat (buf + n) = unat buf + unat n" using assms(2) by (simp add: unat_word_ariths)
  have "unat buf mod 8 = 0"
    using assms(1) by (simp add: SERTOS_CONFIG_STACK_ALIGNMENT_BYTES_def word_unat_eq_iff unat_mod)
  then have "(unat buf + unat n) mod 8 = unat n mod 8" by (metis add_0 mod_add_left_eq)
  then show ?thesis by (simp add: align_down_unat us)
qed

lemma unat_add_of_nat:
  assumes "unat (a :: addr) + i < 2 ^ 32" shows "unat (a + of_nat i) = unat a + i"
  using assms by (simp add: unat_word_ariths unat_of_nat take_bit_nat_eq_self)

context stack_port
begin

text \<open>The bytes of a painted stack below the frame keep the fill pattern.\<close>

lemma painted_below_frame:
  assumes buf: "buf mod SERTOS_CONFIG_STACK_ALIGNMENT_BYTES = 0"
    and n: "SERTOS_CONFIG_MINIMAL_STACK_SIZE \<le> n" "unat buf + unat n < 2 ^ 32"
    and i: "i < unat n - unat n mod 8 - frame_size"
  shows "snd (stack_init (align_down (buf + n)) buf e p
      (memset_bytes buf SERTOS_TASK_STACK_FILL_BYTE n m)) (buf + of_nat i) = SERTOS_TASK_STACK_FILL_BYTE"
proof -
  let ?top = "align_down (buf + n)" and ?m = "memset_bytes buf SERTOS_TASK_STACK_FILL_BYTE n m"
  note top = stack_top_unat [OF buf n(2)]
  have i': "i < unat n" using i by linarith
  have ui: "unat (buf + of_nat i) = unat buf + i" using i' n(2) by (intro unat_add_of_nat) linarith
  have "?top \<noteq> NULL" using top i by (auto simp: word_unat_eq_iff)
  moreover have "frame_size \<le> unat ?top" using top i by linarith
  moreover have "unat (buf + of_nat i) < unat ?top - frame_size" using ui top i by linarith
  ultimately have "snd (stack_init ?top buf e p ?m) (buf + of_nat i) = ?m (buf + of_nat i)"
    using stack_init_frame [OF _ align_down_mod] by blast
  moreover have "unat (of_nat i :: addr) = i" using i' n(2) by (simp add: unat_of_nat take_bit_nat_eq_self)
  then have "buf + of_nat i - buf < n" using i' by (simp add: word_less_nat_alt)
  ultimately show ?thesis by (simp add: memset_bytes_def)
qed

lemma stack_ptr_in_buffer:
  assumes buf: "buf mod SERTOS_CONFIG_STACK_ALIGNMENT_BYTES = 0"
    and n: "SERTOS_CONFIG_MINIMAL_STACK_SIZE \<le> n" "unat buf + unat n < 2 ^ 32"
  shows "unat buf \<le> unat (fst (stack_init (align_down (buf + n)) buf e p m))"
    "unat (fst (stack_init (align_down (buf + n)) buf e p m)) + frame_size \<le> unat buf + unat n"
proof -
  note top = stack_top_unat [OF buf n(2)]
  have "256 \<le> unat n" using n(1) by (simp add: SERTOS_CONFIG_MINIMAL_STACK_SIZE_def word_le_nat_alt)
  then have fs: "frame_size \<le> unat n - unat n mod 8" "0 < unat n - unat n mod 8"
    using frame_size_bound unfolding SERTOS_CONFIG_MINIMAL_STACK_SIZE_def by (simp, presburger+)
  have "align_down (buf + n) \<noteq> NULL" using top fs by (auto simp: word_unat_eq_iff)
  moreover have "frame_size \<le> unat (align_down (buf + n))" using top fs by linarith
  ultimately have "unat (fst (stack_init (align_down (buf + n)) buf e p m)) = unat (align_down (buf + n)) - frame_size"
    using stack_init_sp [OF _ align_down_mod] by blast
  then show "unat buf \<le> unat (fst (stack_init (align_down (buf + n)) buf e p m))"
    "unat (fst (stack_init (align_down (buf + n)) buf e p m)) + frame_size \<le> unat buf + unat n"
    using top fs by linarith+
qed

lemma high_water_new_stack:
  assumes buf: "buf mod SERTOS_CONFIG_STACK_ALIGNMENT_BYTES = 0"
    and n: "SERTOS_CONFIG_MINIMAL_STACK_SIZE \<le> n" "unat buf + unat n < 2 ^ 32"
  shows "unat n - unat n mod 8 - frame_size \<le> unat (high_water_loop (snd (stack_init (align_down (buf + n)) buf e p
      (memset_bytes buf SERTOS_TASK_STACK_FILL_BYTE n m))) n 0 buf)"
  unfolding high_water_loop_length [OF word_zero_le] unat_0 add_0 diff_zero
  by (rule takeWhile_prefix_length) (use painted_below_frame [OF assms] in simp_all)

end

end
