(* ===== verification/Sertos_Stats.thy ===== *)
theory Sertos_Stats
  imports Sertos_Ready Sertos_Stack
begin

text \<open>
  Run-time statistics (\<open>src/sertos_stats.c\<close>) and the registry walk they use
  (\<open>visit_list_state_nodes\<close>, \<open>sertos_scheduler_visit_all_tasks\<close> of \<open>src/sertos_scheduler.c\<close>). A
  visitor is a function of the task, of its context and of the state. Output structures that the
  caller passes by reference are option values (\<open>None\<close> is NULL) returned updated; a caller's array
  is a function of the index.
\<close>

section \<open>The registry walk\<close>

partial_function (option) visit_loop ::
  "lst \<Rightarrow> (addr \<Rightarrow> 'c \<Rightarrow> ('b, 'r, 'm, 'p) kstate \<Rightarrow> 'c \<times> ('b, 'r, 'm, 'p) kstate) \<Rightarrow> lnode option \<Rightarrow>
   'c \<Rightarrow> ('b, 'r, 'm, 'p) kstate \<Rightarrow> ('c \<times> ('b, 'r, 'm, 'p) kstate) option" where
  "visit_loop l visit node c s =
     (if node = Some (Root l) then Some (c, s)
      else do {
        n \<leftarrow> node;
        task \<leftarrow> container_of_registry n;
        let r = visit task c s;
        visit_loop l visit (nxt (list_heap (snd r)) n) (fst r) (snd r)
      })"

definition visit_list_state_nodes ::
  "lst \<Rightarrow> (addr \<Rightarrow> 'c \<Rightarrow> ('b, 'r, 'm, 'p) kstate \<Rightarrow> 'c \<times> ('b, 'r, 'm, 'p) kstate) \<Rightarrow>
   'c \<Rightarrow> ('b, 'r, 'm, 'p) kstate \<Rightarrow> ('c \<times> ('b, 'r, 'm, 'p) kstate) option" where
  "visit_list_state_nodes l visit c s = visit_loop l visit (nxt (list_heap s) (Root l)) c s"

definition sertos_scheduler_visit_all_tasks ::
  "('b, 'r, 'm, 'p) env \<Rightarrow> (addr \<Rightarrow> 'c \<Rightarrow> ('b, 'r, 'm, 'p) kstate \<Rightarrow> 'c \<times> ('b, 'r, 'm, 'p) kstate) option \<Rightarrow>
   'c \<Rightarrow> ('b, 'r, 'm, 'p) kstate \<Rightarrow> ('c \<times> ('b, 'r, 'm, 'p) kstate) option" where
  "sertos_scheduler_visit_all_tasks E visit c s = (case visit of
     None \<Rightarrow> Some (c, s)
   | Some v \<Rightarrow> do {
       let (crit_status, s1) = enter_critical E s;
       (c', s2) \<leftarrow> visit_list_state_nodes TaskRegistry v c s1;
       Some (c', exit_critical E crit_status s2)
     })"

section \<open>Records and counters\<close>

record task_stats =
  ts_name :: "string option"
  ts_priority :: SertosPriority
  ts_state :: SertosTaskState
  ts_run_time :: SertosRunCount
  ts_cpu_percent_x100 :: "32 word"
  ts_switch_in_count :: "32 word"
  ts_stack_high_water :: size_t

record system_stats =
  ss_total_run_time :: SertosRunCount
  ss_idle_run_time :: SertosRunCount
  ss_idle_percent_x100 :: "32 word"
  ss_total_switches :: "32 word"
  ss_total_ticks :: SertosTick
  ss_task_count :: "32 word"

record stats_sum_context =
  sum_total :: SertosRunCount
  sum_count :: "32 word"

record stats_fill_context =
  fill_arr :: "size_t \<Rightarrow> task_stats"
  fill_capacity :: size_t
  fill_written :: size_t
  fill_total :: SertosRunCount

definition zero_system_stats :: system_stats where
  "zero_system_stats = \<lparr>ss_total_run_time = 0, ss_idle_run_time = 0, ss_idle_percent_x100 = 0,
     ss_total_switches = 0, ss_total_ticks = 0, ss_task_count = 0\<rparr>"

definition zero_task_stats :: task_stats where
  "zero_task_stats = \<lparr>ts_name = None, ts_priority = 0, ts_state = SERTOS_TASK_STATE_READY, ts_run_time = 0,
     ts_cpu_percent_x100 = 0, ts_switch_in_count = 0, ts_stack_high_water = 0\<rparr>"

definition compute_percent_x100 :: "SertosRunCount \<Rightarrow> SertosRunCount \<Rightarrow> 32 word" where
  "compute_percent_x100 part total_rt = (if total_rt = 0 then 0 else ucast ((part * 10000) div total_rt))"

definition reset_visitor ::
  "addr \<Rightarrow> 32 word \<Rightarrow> ('b, 'r, 'm, 'p) kstate \<Rightarrow> 32 word \<times> ('b, 'r, 'm, 'p) kstate" where
  "reset_visitor tcb now s =
     (now, upd_tcb tcb (\<lambda>t. t\<lparr>tcb_run_time_total := 0, tcb_run_time_last_entry := now, tcb_switch_in_count := 0\<rparr>) s)"

definition sum_visitor ::
  "addr \<Rightarrow> stats_sum_context \<Rightarrow> ('b, 'r, 'm, 'p) kstate \<Rightarrow> stats_sum_context \<times> ('b, 'r, 'm, 'p) kstate" where
  "sum_visitor tcb acc s =
     (acc\<lparr>sum_total := sum_total acc + tcb_run_time_total (tcbs s tcb), sum_count := sum_count acc + 1\<rparr>, s)"

definition fill_visitor ::
  "addr \<Rightarrow> stats_fill_context \<Rightarrow> ('b, 'r, 'm, 'p) kstate \<Rightarrow> stats_fill_context \<times> ('b, 'r, 'm, 'p) kstate" where
  "fill_visitor tcb fill0 s =
     (let t = tcbs s tcb;
          fill = fill0\<lparr>fill_total := fill_total fill0 + tcb_run_time_total t\<rparr>
      in (if fill_written fill < fill_capacity fill
          then let r = \<lparr>ts_name = tcb_name t, ts_priority = tcb_priority t, ts_state = tcb_state t,
                        ts_run_time = tcb_run_time_total t, ts_cpu_percent_x100 = 0,
                        ts_switch_in_count = tcb_switch_in_count t,
                        ts_stack_high_water = sertos_task_get_stack_high_water_mark tcb s\<rparr>
               in fill\<lparr>fill_arr := (fill_arr fill)(fill_written fill := r), fill_written := fill_written fill + 1\<rparr>
          else fill, s))"

definition sertos_stats_set_enabled :: "bool \<Rightarrow> ('b, 'r, 'm, 'p) kstate \<Rightarrow> ('b, 'r, 'm, 'p) kstate" where
  "sertos_stats_set_enabled enabled s = s\<lparr>s_stats_enabled := enabled\<rparr>"

definition sertos_stats_is_enabled :: "('b, 'r, 'm, 'p) kstate \<Rightarrow> bool" where
  "sertos_stats_is_enabled s = s_stats_enabled s"

section \<open>Accounting\<close>

definition sertos_stats_on_switch ::
  "('b, 'r, 'm, 'p) env \<Rightarrow> addr \<Rightarrow> addr \<Rightarrow> ('b, 'r, 'm, 'p) kstate \<Rightarrow> ('b, 'r, 'm, 'p) kstate" where
  "sertos_stats_on_switch E prev next s =
     (if \<not> s_stats_enabled s then s
      else let now = sertos_port_runtime_counter E s;
               s1 = (if prev \<noteq> NULL
                     then let delta = now - tcb_run_time_last_entry (tcbs s prev)
                          in upd_tcb prev (\<lambda>t. t\<lparr>tcb_run_time_total := tcb_run_time_total t + ucast delta\<rparr>) s
                     else s)
           in if next \<noteq> NULL
              then let s2 = upd_tcb next (\<lambda>t. t\<lparr>tcb_run_time_last_entry := now\<rparr>) s1
                   in if prev \<noteq> next
                      then let s3 = upd_tcb next (\<lambda>t. t\<lparr>tcb_switch_in_count := tcb_switch_in_count t + 1\<rparr>) s2
                           in s3\<lparr>s_total_switches := s_total_switches s3 + 1\<rparr>
                      else s2
              else s1)"

definition sertos_stats_reset ::
  "('b, 'r, 'm, 'p) env \<Rightarrow> ('b, 'r, 'm, 'p) kstate \<Rightarrow> ('b, 'r, 'm, 'p) kstate option" where
  "sertos_stats_reset E s = do {
     let now = sertos_port_runtime_counter E s;
     (now', s1) \<leftarrow> sertos_scheduler_visit_all_tasks E (Some reset_visitor) now s;
     Some (s1\<lparr>s_total_switches := 0\<rparr>)
   }"

section \<open>Snapshots\<close>

definition sertos_stats_get_system ::
  "('b, 'r, 'm, 'p) env \<Rightarrow> system_stats option \<Rightarrow> ('b, 'r, 'm, 'p) kstate \<Rightarrow>
   (SertosStatus \<times> system_stats option \<times> ('b, 'r, 'm, 'p) kstate) option" where
  "sertos_stats_get_system E out s =
     (if out = None then Some (SERTOS_STATUS_ERROR_NULL_PTR, out, s)
      else if \<not> s_stats_enabled s
      then Some (SERTOS_STATUS_ERROR_NOT_INITIALIZED, Some zero_system_stats, s)
      else do {
        (acc, s1) \<leftarrow> sertos_scheduler_visit_all_tasks E (Some sum_visitor) \<lparr>sum_total = 0, sum_count = 0\<rparr> s;
        let idle = sertos_scheduler_get_idle_tcb E;
        Some (SERTOS_STATUS_OK,
          Some \<lparr>ss_total_run_time = sum_total acc,
                ss_idle_run_time = tcb_run_time_total (tcbs s1 idle),
                ss_idle_percent_x100 = compute_percent_x100 (tcb_run_time_total (tcbs s1 idle)) (sum_total acc),
                ss_total_switches = s_total_switches s1,
                ss_total_ticks = sertos_scheduler_get_tick_count E s1,
                ss_task_count = sum_count acc\<rparr>, s1)
      })"

text \<open>The final loop of \<open>sertos_stats_get_tasks\<close>, from index \<open>i\<close> for the remaining \<open>k\<close> records.\<close>

fun percent_loop :: "nat \<Rightarrow> size_t \<Rightarrow> SertosRunCount \<Rightarrow> (size_t \<Rightarrow> task_stats) \<Rightarrow> size_t \<Rightarrow> task_stats" where
  "percent_loop 0 i total_rt arr = arr"
| "percent_loop (Suc k) i total_rt arr =
     percent_loop k (i + 1) total_rt
       (arr(i := (arr i)\<lparr>ts_cpu_percent_x100 := compute_percent_x100 (ts_run_time (arr i)) total_rt\<rparr>))"

definition sertos_stats_get_tasks ::
  "('b, 'r, 'm, 'p) env \<Rightarrow> (size_t \<Rightarrow> task_stats) option \<Rightarrow> size_t \<Rightarrow> ('b, 'r, 'm, 'p) kstate \<Rightarrow>
   (size_t \<times> (size_t \<Rightarrow> task_stats) option \<times> ('b, 'r, 'm, 'p) kstate) option" where
  "sertos_stats_get_tasks E out_array capacity s = (case out_array of
     None \<Rightarrow> Some (0, out_array, s)
   | Some arr \<Rightarrow>
       if capacity = 0 \<or> \<not> s_stats_enabled s then Some (0, out_array, s)
       else do {
         (fill, s1) \<leftarrow> sertos_scheduler_visit_all_tasks E (Some fill_visitor)
           \<lparr>fill_arr = arr, fill_capacity = capacity, fill_written = 0, fill_total = 0\<rparr> s;
         Some (fill_written fill,
           Some (percent_loop (unat (fill_written fill)) 0 (fill_total fill) (fill_arr fill)), s1)
       })"

definition sertos_stats_get_task ::
  "('b, 'r, 'm, 'p) env \<Rightarrow> addr \<Rightarrow> task_stats option \<Rightarrow> ('b, 'r, 'm, 'p) kstate \<Rightarrow>
   (SertosStatus \<times> task_stats option \<times> ('b, 'r, 'm, 'p) kstate) option" where
  "sertos_stats_get_task E handle out s =
     (if handle = NULL \<or> out = None then Some (SERTOS_STATUS_ERROR_NULL_PTR, out, s)
      else if \<not> s_stats_enabled s
      then Some (SERTOS_STATUS_ERROR_NOT_INITIALIZED, Some zero_task_stats, s)
      else do {
        (status, sys, s1) \<leftarrow> sertos_stats_get_system E (Some zero_system_stats) s;
        if status \<noteq> SERTOS_STATUS_OK then Some (status, out, s1)
        else do {
          y \<leftarrow> sys;
          let t = tcbs s1 handle;
          Some (SERTOS_STATUS_OK,
            Some \<lparr>ts_name = tcb_name t, ts_priority = tcb_priority t, ts_state = tcb_state t,
                  ts_run_time = tcb_run_time_total t,
                  ts_cpu_percent_x100 = compute_percent_x100 (tcb_run_time_total t) (ss_total_run_time y),
                  ts_switch_in_count = tcb_switch_in_count t,
                  ts_stack_high_water = sertos_task_get_stack_high_water_mark handle s1\<rparr>, s1)
        }
      })"

definition sertos_stats_get_cpu_load_x100 ::
  "('b, 'r, 'm, 'p) env \<Rightarrow> ('b, 'r, 'm, 'p) kstate \<Rightarrow> (32 word \<times> ('b, 'r, 'm, 'p) kstate) option" where
  "sertos_stats_get_cpu_load_x100 E s = do {
     (status, sys, s1) \<leftarrow> sertos_stats_get_system E (Some zero_system_stats) s;
     if status \<noteq> SERTOS_STATUS_OK then Some (0, s1)
     else do { y \<leftarrow> sys; Some (10000 - ss_idle_percent_x100 y, s1) }
   }"

section \<open>Lemmas\<close>

lemma kinv_port [simp]: "kinv bits (s\<lparr>port := p\<rparr>) L \<longleftrightarrow> kinv bits s L"
  by (simp add: kinv_def)

text \<open>A visitor that leaves the links alone is applied to every registered task, in registry order.\<close>

lemma visit_loop_fold:
  assumes "heap_ok (list_heap s) L" and "L l = Some (xs @ map RegistryNode ts)"
    and "\<And>a c s. list_heap (snd (visit a c s)) = list_heap s"
    and "n = Some (hd (map RegistryNode ts @ [Root l]))"
  shows "visit_loop l visit n c s = Some (fold (\<lambda>a (c, s). visit a c s) ts (c, s))"
  using assms
proof (induction ts arbitrary: xs n c s)
  case Nil
  then show ?case by (subst visit_loop.simps) simp
next
  case (Cons t ts)
  let ?r = "visit t c s"
  have h: "list_heap (snd ?r) = list_heap s" by (rule Cons.prems(3))
  have "nxt (list_heap s) (RegistryNode t) = Some (hd (map RegistryNode ts @ [Root l]))"
    using dll_nxt heap_ok_dll [OF Cons.prems(1,2)] by simp
  then have "visit_loop l visit n c s =
      visit_loop l visit (Some (hd (map RegistryNode ts @ [Root l]))) (fst ?r) (snd ?r)"
    by (subst visit_loop.simps) (simp add: Cons.prems(4) h Let_def)
  also have "\<dots> = Some (fold (\<lambda>a (c, s). visit a c s) ts (fst ?r, snd ?r))"
    by (rule Cons.IH [of _ "xs @ [RegistryNode t]"]) (use Cons.prems h in auto)
  finally show ?case by simp
qed

lemma visit_all_tasks_fold:
  assumes inv: "kinv bits s L" and reg: "L TaskRegistry = Some (map RegistryNode ts)"
    and v: "\<And>a c s. list_heap (snd (v a c s)) = list_heap s"
    and cr: "enter_critical E s = (st, s1)"
  shows "sertos_scheduler_visit_all_tasks E (Some v) c s =
    Some (case fold (\<lambda>a (c, s). v a c s) ts (c, s1) of (c', s2) \<Rightarrow> (c', exit_critical E st s2))"
proof -
  have s1: "list_heap s1 = list_heap s" using exit_enter_critical(1) [OF cr] by simp
  then have heap: "heap_ok (list_heap s1) L" using kinv_heap [OF inv] by simp
  have "nxt (list_heap s1) (Root TaskRegistry) = Some (hd (map RegistryNode ts @ [Root TaskRegistry]))"
    using heap_ok_dll [OF heap reg] chain_nxt_hd by (auto simp: dll_def)
  then have "visit_list_state_nodes TaskRegistry v c s1 = Some (fold (\<lambda>a (c, s). v a c s) ts (c, s1))"
    unfolding visit_list_state_nodes_def
    by (intro visit_loop_fold [OF heap, of _ "[]"]) (use reg v in auto)
  then show ?thesis
    by (simp add: sertos_scheduler_visit_all_tasks_def cr split: prod.splits)
qed

lemma sum_visitor_fold:
  "fold (\<lambda>a (c, s). sum_visitor a c s) ts (c, s) =
     (\<lparr>sum_total = sum_total c + sum_list (map (\<lambda>a. tcb_run_time_total (tcbs s a)) ts),
       sum_count = sum_count c + of_nat (length ts)\<rparr>, s)"
  by (induction ts arbitrary: c) (simp_all add: sum_visitor_def ac_simps)

lemma on_switch_other [simp]:
  "list_heap (sertos_stats_on_switch E p n s) = list_heap s"
  "s_ready_bitmap (sertos_stats_on_switch E p n s) = s_ready_bitmap s"
  "sertos_current_tcb (sertos_stats_on_switch E p n s) = sertos_current_tcb s"
  "s_is_running (sertos_stats_on_switch E p n s) = s_is_running s"
  "s_lock_nesting (sertos_stats_on_switch E p n s) = s_lock_nesting s"
  "tcb_state (tcbs (sertos_stats_on_switch E p n s) a) = tcb_state (tcbs s a)"
  "same_sched (tcbs (sertos_stats_on_switch E p n s) a) (tcbs s a)"
  by (simp_all add: sertos_stats_on_switch_def Let_def same_sched_def)

text \<open>Shares computed from counters small enough not to overflow the multiplication by 10000.\<close>

lemma unat_mult_small:
  assumes "unat (a :: 64 word) * 10000 < 2 ^ 64" shows "unat (a * 10000) = unat a * 10000"
  using assms by (simp add: unat_word_ariths)

lemma compute_percent_unat:
  assumes "unat part * 10000 < 2 ^ 64" and "part \<le> tot" and "tot \<noteq> 0"
  shows "unat (compute_percent_x100 part tot) = unat part * 10000 div unat tot"
    and "unat part * 10000 div unat tot \<le> 10000"
proof -
  have pos: "0 < unat tot" using assms(3) by (simp add: unat_gt_0)
  have le: "unat part \<le> unat tot" using assms(2) by (simp add: word_le_nat_alt)
  have "unat part * 10000 \<le> 10000 * unat tot" using le by simp
  then have "unat part * 10000 div unat tot \<le> 10000 * unat tot div unat tot" by (rule div_le_mono)
  then show le': "unat part * 10000 div unat tot \<le> 10000" using pos by simp
  then have "unat part * 10000 div unat tot < 2 ^ 32" by simp
  moreover have "unat (part * 10000 div tot) = unat part * 10000 div unat tot"
    using unat_mult_small [OF assms(1)] by (simp add: unat_div)
  ultimately show "unat (compute_percent_x100 part tot) = unat part * 10000 div unat tot"
    using assms(3) by (simp add: compute_percent_x100_def unsigned_ucast_eq take_bit_nat_eq_self)
qed

end
