(* ===== verification/Sertos_Timer.thy ===== *)
theory Sertos_Timer
  imports Sertos_Ready
begin

text \<open>
  Software timers (\<open>src/sertos_timer.c\<close>): creation, start/stop/reset, change of period, deletion and
  the walk over the active timers in \<open>sertos_timer_tick\<close>. The expiration callback is application
  code and a parameter (\<open>call_timer_callback\<close>); the walk reads the successor before it runs the
  callback, as the code does, so what a callback does to the list of active timers matters.
\<close>

definition upd_timer :: "addr \<Rightarrow> (timer \<Rightarrow> timer) \<Rightarrow> ('b, 'r, 'm, 'p) kstate \<Rightarrow> ('b, 'r, 'm, 'p) kstate" where
  "upd_timer a f s = s\<lparr>timers := (timers s)(a := f (timers s a))\<rparr>"

definition timer_handle_ok :: "addr \<Rightarrow> ('b, 'r, 'm, 'p) kstate \<Rightarrow> bool" where
  "timer_handle_ok handle s \<longleftrightarrow> \<not> (handle = NULL \<or> tmr_magic (timers s handle) \<noteq> SERTOS_TIMER_MAGIC_WORD)"

section \<open>Operations\<close>

definition sertos_timer_init ::
  "('b, 'r, 'm, 'p) env \<Rightarrow> ('b, 'r, 'm, 'p) kstate \<Rightarrow> ('b, 'r, 'm, 'p) kstate" where
  "sertos_timer_init E s = (upd_heap (linked_list_init E ActiveTimers) s)\<lparr>s_timer_subsystem_initialized := True\<rparr>"

definition sertos_timer_create_static ::
  "('b, 'r, 'm, 'p) env \<Rightarrow> timer_config option \<Rightarrow> addr \<Rightarrow> addr \<Rightarrow> ('b, 'r, 'm, 'p) kstate \<Rightarrow>
   SertosStatus \<times> ('b, 'r, 'm, 'p) kstate" where
  "sertos_timer_create_static E config timer out_handle s = (case config of
     None \<Rightarrow> (SERTOS_STATUS_ERROR_NULL_PTR, s)
   | Some c \<Rightarrow>
       if timer = NULL \<or> out_handle = NULL then (SERTOS_STATUS_ERROR_NULL_PTR, s)
       else if tc_period c = 0 \<or> tc_callback c = NULL then (SERTOS_STATUS_ERROR_INVALID_PARAM, s)
       else let s1 = (if \<not> s_timer_subsystem_initialized s then sertos_timer_init E s else s);
                s2 = upd_timer timer (\<lambda>_. \<lparr>
                       tmr_name = (case tc_name c of None \<Rightarrow> Some ''Timer'' | Some n \<Rightarrow> Some n),
                       tmr_period_ticks = tc_period c,
                       tmr_remaining_ticks = tc_period c,
                       tmr_is_periodic = tc_is_periodic c,
                       tmr_is_active = False,
                       tmr_callback = tc_callback c,
                       tmr_param = tc_param c,
                       tmr_is_statically_allocated = True,
                       tmr_magic = SERTOS_TIMER_MAGIC_WORD\<rparr>) s1;
                s3 = upd_heap (clear_node (TimerNode timer)) s2
            in (SERTOS_STATUS_OK, s3\<lparr>ptr_cells := (ptr_cells s3)(out_handle := timer)\<rparr>))"

definition sertos_timer_create ::
  "('b, 'r, 'm, 'p) env \<Rightarrow> timer_config option \<Rightarrow> addr \<Rightarrow> ('b, 'r, 'm, 'p) kstate \<Rightarrow>
   SertosStatus \<times> ('b, 'r, 'm, 'p) kstate" where
  "sertos_timer_create E config out_handle s =
     (if out_handle = NULL then (SERTOS_STATUS_ERROR_NULL_PTR, s)
      else let (timer, m) = memory_pool_malloc E (sizeof_timer E) (pool s);
               s1 = s\<lparr>pool := m\<rparr>
           in if timer = NULL then (SERTOS_STATUS_ERROR_NO_MEMORY, s1)
              else let (status, s2) = sertos_timer_create_static E config timer out_handle s1
                   in if status \<noteq> SERTOS_STATUS_OK
                      then (status, s2\<lparr>pool := memory_pool_free E timer (pool s2)\<rparr>)
                      else (SERTOS_STATUS_OK, upd_timer timer (\<lambda>t. t\<lparr>tmr_is_statically_allocated := False\<rparr>) s2))"

definition sertos_timer_delete ::
  "('b, 'r, 'm, 'p) env \<Rightarrow> addr \<Rightarrow> ('b, 'r, 'm, 'p) kstate \<Rightarrow> SertosStatus \<times> ('b, 'r, 'm, 'p) kstate" where
  "sertos_timer_delete E handle s =
     (if \<not> timer_handle_ok handle s then (SERTOS_STATUS_ERROR_INVALID_PARAM, s)
      else let (crit_status, s1) = enter_critical E s;
               s2 = (if tmr_is_active (timers s1 handle)
                     then upd_timer handle (\<lambda>t. t\<lparr>tmr_is_active := False\<rparr>)
                            (upd_heap (linked_list_remove_direct E ActiveTimers (TimerNode handle)) s1)
                     else s1);
               s3 = upd_timer handle (\<lambda>t. t\<lparr>tmr_magic := 0\<rparr>) s2;
               s4 = (if \<not> tmr_is_statically_allocated (timers s3 handle)
                     then s3\<lparr>pool := memory_pool_free E handle (pool s3)\<rparr> else s3)
           in (SERTOS_STATUS_OK, exit_critical E crit_status s4))"

definition sertos_timer_start ::
  "('b, 'r, 'm, 'p) env \<Rightarrow> addr \<Rightarrow> ('b, 'r, 'm, 'p) kstate \<Rightarrow> SertosStatus \<times> ('b, 'r, 'm, 'p) kstate" where
  "sertos_timer_start E handle s =
     (if \<not> timer_handle_ok handle s then (SERTOS_STATUS_ERROR_INVALID_PARAM, s)
      else let (crit_status, s1) = enter_critical E s;
               s2 = (if tmr_is_active (timers s1 handle)
                     then upd_heap (linked_list_remove_direct E ActiveTimers (TimerNode handle)) s1 else s1);
               s3 = upd_timer handle (\<lambda>t. t\<lparr>tmr_remaining_ticks := tmr_period_ticks t, tmr_is_active := True\<rparr>) s2;
               s4 = upd_heap (linked_list_insert_tail_direct E ActiveTimers (TimerNode handle)) s3
           in (SERTOS_STATUS_OK, exit_critical E crit_status s4))"

definition sertos_timer_stop ::
  "('b, 'r, 'm, 'p) env \<Rightarrow> addr \<Rightarrow> ('b, 'r, 'm, 'p) kstate \<Rightarrow> SertosStatus \<times> ('b, 'r, 'm, 'p) kstate" where
  "sertos_timer_stop E handle s =
     (if \<not> timer_handle_ok handle s then (SERTOS_STATUS_ERROR_INVALID_PARAM, s)
      else let (crit_status, s1) = enter_critical E s
           in if \<not> tmr_is_active (timers s1 handle) then (SERTOS_STATUS_OK, exit_critical E crit_status s1)
              else let s2 = upd_heap (linked_list_remove_direct E ActiveTimers (TimerNode handle)) s1;
                       s3 = upd_heap (clear_node (TimerNode handle)) s2;
                       s4 = upd_timer handle (\<lambda>t. t\<lparr>tmr_is_active := False\<rparr>) s3
                   in (SERTOS_STATUS_OK, exit_critical E crit_status s4))"

definition sertos_timer_reset ::
  "('b, 'r, 'm, 'p) env \<Rightarrow> addr \<Rightarrow> ('b, 'r, 'm, 'p) kstate \<Rightarrow> SertosStatus \<times> ('b, 'r, 'm, 'p) kstate" where
  "sertos_timer_reset E handle s = sertos_timer_start E handle s"

definition sertos_timer_change_period ::
  "('b, 'r, 'm, 'p) env \<Rightarrow> addr \<Rightarrow> SertosTick \<Rightarrow> ('b, 'r, 'm, 'p) kstate \<Rightarrow> SertosStatus \<times> ('b, 'r, 'm, 'p) kstate" where
  "sertos_timer_change_period E handle new_period s =
     (if \<not> timer_handle_ok handle s then (SERTOS_STATUS_ERROR_INVALID_PARAM, s)
      else if new_period = 0 then (SERTOS_STATUS_ERROR_INVALID_PARAM, s)
      else sertos_timer_reset E handle (upd_timer handle (\<lambda>t. t\<lparr>tmr_period_ticks := new_period\<rparr>) s))"

definition sertos_timer_is_active :: "addr \<Rightarrow> ('b, 'r, 'm, 'p) kstate \<Rightarrow> bool" where
  "sertos_timer_is_active handle s =
     (if \<not> timer_handle_ok handle s then False else tmr_is_active (timers s handle))"

section \<open>The tick\<close>

text \<open>The body of the walk for one timer: count down and, at zero, reload or unlink, then the callback.\<close>

definition timer_tick_one ::
  "('b, 'r, 'm, 'p) env \<Rightarrow> lnode \<Rightarrow> addr \<Rightarrow> ('b, 'r, 'm, 'p) kstate \<Rightarrow> ('b, 'r, 'm, 'p) kstate option" where
  "timer_tick_one E curr_node timer s =
     (let s1 = (if 0 < tmr_remaining_ticks (timers s timer)
                then upd_timer timer (\<lambda>t. t\<lparr>tmr_remaining_ticks := tmr_remaining_ticks t - 1\<rparr>) s else s)
      in if tmr_remaining_ticks (timers s1 timer) = 0
         then let s2 = (if tmr_is_periodic (timers s1 timer)
                        then upd_timer timer (\<lambda>t. t\<lparr>tmr_remaining_ticks := tmr_period_ticks t\<rparr>) s1
                        else upd_timer timer (\<lambda>t. t\<lparr>tmr_is_active := False\<rparr>)
                               (upd_heap (clear_node (TimerNode timer))
                                 (upd_heap (linked_list_remove_direct E ActiveTimers curr_node) s1)))
              in if tmr_callback (timers s2 timer) \<noteq> NULL
                 then call_timer_callback E (tmr_callback (timers s2 timer)) timer (tmr_param (timers s2 timer)) s2
                 else Some s2
         else Some s1)"

partial_function (option) timer_tick_loop ::
  "('b, 'r, 'm, 'p) env \<Rightarrow> lnode option \<Rightarrow> ('b, 'r, 'm, 'p) kstate \<Rightarrow> ('b, 'r, 'm, 'p) kstate option" where
  "timer_tick_loop E curr_node s =
     (case curr_node of
        None \<Rightarrow> Some s
      | Some c \<Rightarrow> do {
          let next_node = (if nxt (list_heap s) c = Some (Root ActiveTimers) then None else nxt (list_heap s) c);
          timer \<leftarrow> container_of_timer c;
          s' \<leftarrow> timer_tick_one E c timer s;
          timer_tick_loop E next_node s'
        })"

definition sertos_timer_tick ::
  "('b, 'r, 'm, 'p) env \<Rightarrow> ('b, 'r, 'm, 'p) kstate \<Rightarrow> ('b, 'r, 'm, 'p) kstate option" where
  "sertos_timer_tick E s =
     (if \<not> s_timer_subsystem_initialized s then Some s
      else timer_tick_loop E (linked_list_peek_head E ActiveTimers (list_heap s)) s)"

section \<open>The abstract timer service\<close>

text \<open>Every active timer of the list counts down once, in order; an expired one-shot timer leaves it.\<close>

definition timer_due :: "timer \<Rightarrow> bool" where
  "timer_due t \<longleftrightarrow> tmr_remaining_ticks t \<le> 1"

definition timer_after_tick :: "timer \<Rightarrow> timer" where
  "timer_after_tick t =
     (if timer_due t
      then if tmr_is_periodic t then t\<lparr>tmr_remaining_ticks := tmr_period_ticks t\<rparr>
           else t\<lparr>tmr_remaining_ticks := 0, tmr_is_active := False\<rparr>
      else t\<lparr>tmr_remaining_ticks := tmr_remaining_ticks t - 1\<rparr>)"

definition timer_leaves :: "timer \<Rightarrow> bool" where
  "timer_leaves t \<longleftrightarrow> timer_due t \<and> \<not> tmr_is_periodic t"

text \<open>The walk as a plain iteration over the timers that are active at its start.\<close>

fun timer_tick_each ::
  "('b, 'r, 'm, 'p) env \<Rightarrow> addr list \<Rightarrow> ('b, 'r, 'm, 'p) kstate \<Rightarrow> ('b, 'r, 'm, 'p) kstate option" where
  "timer_tick_each E [] s = Some s"
| "timer_tick_each E (a # ts) s = do { s' \<leftarrow> timer_tick_one E (TimerNode a) a s; timer_tick_each E ts s' }"

text \<open>A callback that keeps the kernel consistent and leaves the timers alone.\<close>

definition calm_callbacks :: "('b, 'r, 'm, 'p) env \<Rightarrow> ('b \<Rightarrow> nat set) \<Rightarrow> bool" where
  "calm_callbacks E bits \<longleftrightarrow> (\<forall>cb h p s L. kinv bits s L \<longrightarrow>
     (\<exists>s' L'. call_timer_callback E cb h p s = Some s' \<and> kinv bits s' L' \<and>
        L' ActiveTimers = L ActiveTimers \<and> timers s' = timers s))"

definition timer_inv :: "('b, 'r, 'm, 'p) kstate \<Rightarrow> lmap \<Rightarrow> bool" where
  "timer_inv s L \<longleftrightarrow> L ActiveTimers \<noteq> None \<and>
     (\<forall>a. timer_handle_ok a s \<longrightarrow> (tmr_is_active (timers s a) \<longleftrightarrow> on_list L ActiveTimers (TimerNode a)))"

section \<open>Lemmas\<close>

lemma upd_timer_simps [simp]:
  "list_heap (upd_timer a f s) = list_heap s" "s_ready_bitmap (upd_timer a f s) = s_ready_bitmap s"
  "tcbs (upd_timer a f s) = tcbs s" "timers (upd_timer a f s) = (timers s)(a := f (timers s a))"
  "sertos_current_tcb (upd_timer a f s) = sertos_current_tcb s" "port (upd_timer a f s) = port s"
  "kinv bits (upd_timer a f s) L \<longleftrightarrow> kinv bits s L"
  by (simp_all add: upd_timer_def kinv_def)

lemma upd_heap_twice [simp]: "upd_heap f (upd_heap g s) = upd_heap (\<lambda>h. f (g h)) s"
  by (simp add: upd_heap_def)

text \<open>Only the list of active timers changes.\<close>

lemma kinv_timers_change:
  assumes inv: "kinv bits s L" and heap: "heap_ok (list_heap s') (L(ActiveTimers \<mapsto> ns))"
    and ns: "\<And>n. n \<in> set ns \<Longrightarrow> \<exists>a. n = TimerNode a \<and> a \<noteq> NULL"
    and same: "s_ready_bitmap s' = s_ready_bitmap s" "tcbs s' = tcbs s"
  shows "kinv bits s' (L(ActiveTimers \<mapsto> ns))"
proof -
  let ?L = "L(ActiveTimers \<mapsto> ns)"
  have on: "on_list ?L k x \<longleftrightarrow> (if k = ActiveTimers then x \<in> set ns else on_list L k x)" for k x
    by (simp add: on_list_def)
  have noL: "\<not> on_list L ActiveTimers (StateNode a)" "\<not> on_list L ActiveTimers (EventNode a)" for a
    using kinv_typed [OF inv, of ActiveTimers] by fastforce+
  have ons: "on_list ?L k (StateNode a) \<longleftrightarrow> on_list L k (StateNode a)"
    "on_list ?L k (EventNode a) \<longleftrightarrow> on_list L k (EventNode a)" for k a
    using ns [of "StateNode a"] ns [of "EventNode a"] noL [of a] by (auto simp: on)
  have "list_typed l n" if "on_list ?L l n" for l n
    using that ns [of n] kinv_typed [OF inv, of l n] by (auto simp: on split: if_splits)
  then have "typed_lists ?L" by (simp add: typed_lists_def)
  moreover have "ready_ok (tcbs s') ?L" "delay_ok (tcbs s') ?L" "wait_ok (tcbs s') ?L"
    using inv unfolding kinv_def ready_ok_def delay_ok_def wait_ok_def ons same by blast+
  moreover have "base_lists ?L" "bitmap_ok bits (s_ready_bitmap s') ?L"
    using inv by (simp_all add: kinv_def base_lists_def bitmap_ok_def same)
  ultimately show ?thesis using heap by (simp add: kinv_def)
qed

lemma kinv_timer_nodes:
  assumes "kinv bits s L" "L ActiveTimers = Some ns" "n \<in> set ns" shows "\<exists>a. n = TimerNode a \<and> a \<noteq> NULL"
  using kinv_typed [OF assms(1) on_listI [of L ActiveTimers, OF assms(2,3)]] by (cases n) auto

context kernel_env
begin

lemma timer_unlink:
  assumes inv: "kinv bits s L" and ns: "L ActiveTimers = Some ns" and a: "TimerNode a \<in> set ns"
    and h: "list_heap s' = linked_list_remove_direct E ActiveTimers (TimerNode a) (list_heap s) \<or>
      list_heap s' = clear_node (TimerNode a) (linked_list_remove_direct E ActiveTimers (TimerNode a) (list_heap s))"
    and same: "s_ready_bitmap s' = s_ready_bitmap s" "tcbs s' = tcbs s"
  shows "kinv bits s' (L(ActiveTimers \<mapsto> remove1 (TimerNode a) ns))"
proof (rule kinv_timers_change [OF inv _ _ same])
  let ?L = "L(ActiveTimers \<mapsto> remove1 (TimerNode a) ns)"
  have h1: "heap_ok (linked_list_remove_direct E ActiveTimers (TimerNode a) (list_heap s)) ?L"
    by (rule ll.heap_ok_remove [OF kinv_heap [OF inv] ns a])
  have "\<not> on_list ?L k (TimerNode a)" for k
    unfolding on_list_lose [of L ActiveTimers, OF ns heap_ok_distinct [OF kinv_heap [OF inv] ns]]
    using kinv_unique [OF inv on_listI [of L ActiveTimers, OF ns a], of k] by auto
  then have "heap_ok (clear_node (TimerNode a) (linked_list_remove_direct E ActiveTimers (TimerNode a) (list_heap s))) ?L"
    by (intro heap_ok_clear_node [OF h1]) (auto simp: nodes_on_list)
  then show "heap_ok (list_heap s') ?L" using h h1 by auto
  show "\<exists>b. n = TimerNode b \<and> b \<noteq> NULL" if "n \<in> set (remove1 (TimerNode a) ns)" for n
    using kinv_timer_nodes [OF inv ns] that notin_set_remove1 [of n ns] by blast
qed

lemma timer_link:
  assumes inv: "kinv bits s L" and ns: "L ActiveTimers = Some ns" and a: "TimerNode a \<notin> set ns" "a \<noteq> NULL"
    and h: "list_heap s' = linked_list_insert_tail_direct E ActiveTimers (TimerNode a) (list_heap s)"
    and same: "s_ready_bitmap s' = s_ready_bitmap s" "tcbs s' = tcbs s"
  shows "kinv bits s' (L(ActiveTimers \<mapsto> ns @ [TimerNode a]))"
proof (rule kinv_timers_change [OF inv _ _ same])
  have "l = ActiveTimers" if "list_typed l (TimerNode a)" for l using that by (cases l) auto
  then have "\<not> on_list L k (TimerNode a)" for k
    using kinv_typed [OF inv, of k "TimerNode a"] a(1) ns by (metis on_list_Some)
  then show "heap_ok (list_heap s') (L(ActiveTimers \<mapsto> ns @ [TimerNode a]))"
    unfolding h by (intro ll.heap_ok_insert_tail [OF kinv_heap [OF inv] ns]) (auto simp: nodes_on_list)
  show "\<exists>b. n = TimerNode b \<and> b \<noteq> NULL" if "n \<in> set (ns @ [TimerNode a])" for n
    using kinv_timer_nodes [OF inv ns] that a(2) by auto
qed

end

text \<open>What the walk needs of an invariant that the callbacks keep: it implies \<open>kinv\<close>, ignores the control blocks of the
  timers, and follows a change of the list of active timers.\<close>

locale timer_walk = kernel_env E bits
  for E :: "('b, 'r, 'm, 'p) env" and bits :: "'b \<Rightarrow> nat set" +
  fixes I :: "('b, 'r, 'm, 'p) kstate \<Rightarrow> lmap \<Rightarrow> bool"
  assumes I_kinv: "I s L \<Longrightarrow> kinv bits s L"
    and I_timer: "I s L \<Longrightarrow> I (upd_timer a f s) L"
    and I_heap: "I s L \<Longrightarrow> kinv bits (upd_heap g s) (L(ActiveTimers \<mapsto> ns)) \<Longrightarrow> I (upd_heap g s) (L(ActiveTimers \<mapsto> ns))"
    and I_callback: "I s L \<Longrightarrow> \<exists>s' L'. call_timer_callback E cb h p s = Some s' \<and> I s' L' \<and>
      L' ActiveTimers = L ActiveTimers \<and> timers s' = timers s"
begin

lemma timer_tick_one_refines:
  assumes inv: "I s L" and ns: "L ActiveTimers = Some ns" and a: "TimerNode a \<in> set ns"
  obtains s' L' where "timer_tick_one E (TimerNode a) a s = Some s'" and "I s' L'"
    and "L' ActiveTimers = Some (if timer_leaves (timers s a) then remove1 (TimerNode a) ns else ns)"
    and "timers s' = (timers s)(a := timer_after_tick (timers s a))"
proof -
  let ?t = "timers s a"
  let ?s1 = "if 0 < tmr_remaining_ticks ?t
    then upd_timer a (\<lambda>t. t\<lparr>tmr_remaining_ticks := tmr_remaining_ticks t - 1\<rparr>) s else s"
  let ?s2 = "if tmr_is_periodic (timers ?s1 a)
    then upd_timer a (\<lambda>t. t\<lparr>tmr_remaining_ticks := tmr_period_ticks t\<rparr>) ?s1
    else upd_timer a (\<lambda>t. t\<lparr>tmr_is_active := False\<rparr>)
      (upd_heap (clear_node (TimerNode a)) (upd_heap (linked_list_remove_direct E ActiveTimers (TimerNode a)) ?s1))"
  show thesis
  proof (cases "timer_due ?t")
    case False
    then have d: "0 < tmr_remaining_ticks ?t" "tmr_remaining_ticks ?t \<noteq> 1"
      by (auto simp: timer_due_def word_le_nat_alt word_less_nat_alt)
    then have "timer_tick_one E (TimerNode a) a s = Some ?s1" by (simp add: timer_tick_one_def Let_def)
    moreover have "I ?s1 L" using inv by (simp add: I_timer)
    ultimately show thesis
      by (rule that) (use False d ns in \<open>simp_all add: timer_leaves_def timer_after_tick_def\<close>)
  next
    case True
    have d0: "tmr_remaining_ticks (timers ?s1 a) = 0"
      using True by (auto simp: timer_due_def word_le_nat_alt word_less_nat_alt word_unat_eq_iff unat_minus_one_pos)
    have t2: "timers ?s2 = (timers s)(a := timer_after_tick ?t)"
    proof -
      have "(timers ?s1) a = ?t\<lparr>tmr_remaining_ticks := 0\<rparr>"
        using d0 by (cases "timers s a") (auto simp: word_neq_0_conv [symmetric] simp del: word_neq_0_conv)
      moreover have "timers ?s1 = (timers s)(a := timers ?s1 a)" by (auto simp: fun_eq_iff)
      ultimately show ?thesis using True by (auto simp: timer_after_tick_def fun_eq_iff)
    qed
    let ?L2 = "if timer_leaves ?t then L(ActiveTimers \<mapsto> remove1 (TimerNode a) ns) else L"
    have k2: "I ?s2 ?L2"
    proof (cases "tmr_is_periodic ?t")
      case False
      let ?h = "\<lambda>h. clear_node (TimerNode a) (linked_list_remove_direct E ActiveTimers (TimerNode a) h)"
      have i1: "I ?s1 L" using inv by (simp add: I_timer)
      have "kinv bits (upd_heap ?h ?s1) (L(ActiveTimers \<mapsto> remove1 (TimerNode a) ns))"
        by (rule timer_unlink [OF I_kinv [OF i1] ns a]) auto
      then have "I (upd_timer a (\<lambda>t. t\<lparr>tmr_is_active := False\<rparr>) (upd_heap ?h ?s1)) (L(ActiveTimers \<mapsto> remove1 (TimerNode a) ns))"
        by (intro I_timer I_heap [OF i1])
      then show ?thesis using True False by (simp add: timer_leaves_def)
    qed (use inv in \<open>simp add: timer_leaves_def I_timer\<close>)
    have eq: "timer_tick_one E (TimerNode a) a s =
        (if tmr_callback (timers ?s2 a) \<noteq> NULL
         then call_timer_callback E (tmr_callback (timers ?s2 a)) a (tmr_param (timers ?s2 a)) ?s2 else Some ?s2)"
      unfolding timer_tick_one_def Let_def by (rule if_P [OF d0])
    have L2: "?L2 ActiveTimers = Some (if timer_leaves ?t then remove1 (TimerNode a) ns else ns)" using ns by simp
    obtain s' L' where "timer_tick_one E (TimerNode a) a s = Some s'" "I s' L'"
      "L' ActiveTimers = ?L2 ActiveTimers" "timers s' = timers ?s2"
      using I_callback [OF k2] k2 unfolding eq by (metis (no_types, lifting))
    then show thesis using that t2 L2 by metis
  qed
qed

lemma timer_tick_loop_refines:
  assumes "I s L" and "L ActiveTimers = Some (xs @ map TimerNode ts)"
    and "cn = (case ts of [] \<Rightarrow> None | a # _ \<Rightarrow> Some (TimerNode a))"
  shows "timer_tick_loop E cn s = timer_tick_each E ts s \<and>
    (\<exists>s' L'. timer_tick_each E ts s = Some s' \<and> I s' L' \<and>
      L' ActiveTimers = Some (xs @ map TimerNode (filter (\<lambda>a. \<not> timer_leaves (timers s a)) ts)) \<and>
      timers s' = (\<lambda>a. if a \<in> set ts then timer_after_tick (timers s a) else timers s a))"
  using assms
proof (induction ts arbitrary: s L xs cn)
  case Nil
  then show ?case by (subst timer_tick_loop.simps) auto
next
  case (Cons a ts)
  note inv = I_kinv [OF Cons.prems(1)] and L = Cons.prems(2) and cn = Cons.prems(3)
  have dist: "distinct (xs @ TimerNode a # map TimerNode ts)" using heap_ok_distinct [OF kinv_heap [OF inv] L] by simp
  have "nxt (list_heap s) (TimerNode a) = Some (hd (map TimerNode ts @ [Root ActiveTimers]))"
    using dll_nxt heap_ok_dll [OF kinv_heap [OF inv] L] by simp
  then have nx: "(if nxt (list_heap s) (TimerNode a) = Some (Root ActiveTimers) then None else nxt (list_heap s) (TimerNode a)) =
      (case ts of [] \<Rightarrow> None | b # _ \<Rightarrow> Some (TimerNode b))" by (cases ts) auto
  obtain s1 L1 where one: "timer_tick_one E (TimerNode a) a s = Some s1" and k1: "I s1 L1"
    and L1: "L1 ActiveTimers = Some (if timer_leaves (timers s a)
      then remove1 (TimerNode a) (xs @ map TimerNode (a # ts)) else xs @ map TimerNode (a # ts))"
    and t1: "timers s1 = (timers s)(a := timer_after_tick (timers s a))"
    using timer_tick_one_refines [OF Cons.prems(1) L] by (metis in_set_conv_decomp list.simps(9))
  have step: "timer_tick_loop E cn s = timer_tick_loop E (case ts of [] \<Rightarrow> None | b # _ \<Rightarrow> Some (TimerNode b)) s1"
    by (subst timer_tick_loop.simps) (simp add: cn one Let_def nx)
  let ?xs = "if timer_leaves (timers s a) then xs else xs @ [TimerNode a]"
  have L1': "L1 ActiveTimers = Some (?xs @ map TimerNode ts)"
    using L1 dist by (simp add: remove1_append)
  have ats: "a \<notin> set ts" using dist by auto
  have eqs: "filter (\<lambda>b. \<not> timer_leaves (timers s1 b)) ts = filter (\<lambda>b. \<not> timer_leaves (timers s b)) ts"
    "(\<lambda>b. if b \<in> set ts then timer_after_tick (timers s1 b) else timers s1 b) =
     (\<lambda>b. if b \<in> set (a # ts) then timer_after_tick (timers s b) else timers s b)"
    using ats by (auto simp: t1 fun_eq_iff intro!: filter_cong)
  have "?xs @ map TimerNode (filter (\<lambda>b. \<not> timer_leaves (timers s b)) ts) =
      xs @ map TimerNode (filter (\<lambda>b. \<not> timer_leaves (timers s b)) (a # ts))" by simp
  then show ?case
    using Cons.IH [OF k1 L1' refl] one unfolding step eqs by (simp only: timer_tick_each.simps bind.bind_lunit simp_thms)
qed

lemma timer_tick_refines:
  assumes inv: "I s L" and "s_timer_subsystem_initialized s" and L: "L ActiveTimers = Some (map TimerNode ts)"
  shows "\<exists>s' L'. sertos_timer_tick E s = Some s' \<and> timer_tick_each E ts s = Some s' \<and> I s' L' \<and>
    L' ActiveTimers = Some (map TimerNode (filter (\<lambda>a. \<not> timer_leaves (timers s a)) ts)) \<and>
    timers s' = (\<lambda>a. if a \<in> set ts then timer_after_tick (timers s a) else timers s a)"
proof -
  have "linked_list_peek_head E ActiveTimers (list_heap s) = (case ts of [] \<Rightarrow> None | a # _ \<Rightarrow> Some (TimerNode a))"
    using ll.heap_ok_peek_head [OF kinv_heap [OF I_kinv [OF inv]] L] by (simp split: list.splits)
  then show ?thesis
    using timer_tick_loop_refines [OF inv, of "[]" ts] assms(2) L by (auto simp: sertos_timer_tick_def)
qed

end

lemma kinv_timer_walk:
  assumes "kernel_env E bits" and "calm_callbacks E bits" shows "timer_walk E bits (kinv bits)"
proof (intro timer_walk.intro timer_walk_axioms.intro assms(1))
  show "\<exists>s' L'. call_timer_callback E cb h p s = Some s' \<and> kinv bits s' L' \<and> L' ActiveTimers = L ActiveTimers \<and>
      timers s' = timers s" if "kinv bits s L" for cb h p s L
    using assms(2) that unfolding calm_callbacks_def by blast
qed auto

end
