(* ===== verification/Sertos_Sched.thy ===== *)
theory Sertos_Sched
  imports Sertos_WaitLists Sertos_Stats Sertos_Timer
begin

text \<open>
  The control layer of \<open>src/sertos_scheduler.c\<close>: context switching, the tick handler, scheduler
  locking, delays and blocking on a wait list. \<open>sertos_port_yield\<close> is a parameter that stands for
  everything that happens until the calling context runs again; \<open>None\<close> means it never does. What
  is proved of these operations is therefore of two kinds: the exact state in which they hand over
  to the port, and, for a port and callbacks that keep the representation invariant, that they
  return and keep it.
\<close>

section \<open>Context switches\<close>

definition sertos_scheduler_perform_switch ::
  "('b, 'r, 'm, 'p) env \<Rightarrow> ('b, 'r, 'm, 'p) kstate \<Rightarrow> (addr \<times> ('b, 'r, 'm, 'p) kstate) option" where
  "sertos_scheduler_perform_switch E s = do {
     let prev_task = sertos_current_tcb s;
     next_task \<leftarrow> sertos_scheduler_select_next_task E s;
     if next_task \<noteq> NULL
     then let s1 = (if prev_task \<noteq> NULL \<and> tcb_state (tcbs s prev_task) = SERTOS_TASK_STATE_RUNNING
                    then upd_tcb prev_task (\<lambda>t. t\<lparr>tcb_state := SERTOS_TASK_STATE_READY\<rparr>) s else s);
              s2 = s1\<lparr>sertos_current_tcb := next_task\<rparr>;
              s3 = upd_tcb next_task (\<lambda>t. t\<lparr>tcb_state := SERTOS_TASK_STATE_RUNNING\<rparr>) s2;
              s4 = sertos_stats_on_switch E prev_task next_task s3
          in Some (sertos_current_tcb s4, s4)
     else Some (sertos_current_tcb s, s)
   }"

definition sertos_scheduler_switch_context ::
  "('b, 'r, 'm, 'p) env \<Rightarrow> ('b, 'r, 'm, 'p) kstate \<Rightarrow> ('b, 'r, 'm, 'p) kstate option" where
  "sertos_scheduler_switch_context E s =
     (if 0 < s_lock_nesting s then Some (s\<lparr>s_reschedule_pending := True\<rparr>)
      else do {
        let (crit, s1) = enter_critical E s;
        next_task \<leftarrow> sertos_scheduler_select_next_task E s1;
        if next_task = NULL then Some (exit_critical E crit s1)
        else if next_task \<noteq> sertos_current_tcb s1
        then do {
          s2 \<leftarrow> (if port_is_host E then map_option snd (sertos_scheduler_perform_switch E s1) else Some s1);
          sertos_port_yield E (exit_critical E crit s2)
        }
        else Some (exit_critical E crit s1)
      })"

definition sertos_scheduler_reschedule ::
  "('b, 'r, 'm, 'p) env \<Rightarrow> ('b, 'r, 'm, 'p) kstate \<Rightarrow> ('b, 'r, 'm, 'p) kstate option" where
  "sertos_scheduler_reschedule E s =
     (if \<not> s_is_running s then Some s
      else do {
        let (crit, s1) = enter_critical E s;
        next_task \<leftarrow> sertos_scheduler_select_next_task E s1;
        if next_task \<noteq> NULL \<and> (sertos_current_tcb s1 = NULL \<or>
             tcb_priority (tcbs s1 (sertos_current_tcb s1)) < tcb_priority (tcbs s1 next_task))
        then sertos_scheduler_switch_context E (exit_critical E crit s1)
        else Some (exit_critical E crit s1)
      })"

definition sertos_scheduler_start ::
  "('b, 'r, 'm, 'p) env \<Rightarrow> ('b, 'r, 'm, 'p) kstate \<Rightarrow> ('b, 'r, 'm, 'p) kstate option" where
  "sertos_scheduler_start E s =
     (let s1 = s\<lparr>s_is_running := True\<rparr>;
          s2 = s1\<lparr>port := sertos_port_runtime_counter_init E (port s1)\<rparr>;
          (status, p) = sertos_port_tick_init E (s_tick_rate_hz s2) (port s2);
          s3 = s2\<lparr>port := p\<rparr>
      in if status \<noteq> SERTOS_STATUS_OK then Some (s3\<lparr>s_is_running := False\<rparr>)
         else do {
           (cur, s4) \<leftarrow> sertos_scheduler_perform_switch E s3;
           sertos_port_start_first_task E s4
         })"

definition sertos_scheduler_stop ::
  "('b, 'r, 'm, 'p) env \<Rightarrow> ('b, 'r, 'm, 'p) kstate \<Rightarrow> ('b, 'r, 'm, 'p) kstate option" where
  "sertos_scheduler_stop E s = sertos_port_stop_scheduler E (s\<lparr>s_is_running := False\<rparr>)"

section \<open>The tick handler and yielding\<close>

definition sertos_scheduler_tick ::
  "('b, 'r, 'm, 'p) env \<Rightarrow> ('b, 'r, 'm, 'p) kstate \<Rightarrow> ('b, 'r, 'm, 'p) kstate option" where
  "sertos_scheduler_tick E s = do {
     let (crit_status, s1) = enter_critical E s;
     let s2 = s1\<lparr>s_system_ticks := atomic_store_relaxed E (s_system_ticks s1)
                   (atomic_load_relaxed E (s_system_ticks s1) + 1)\<rparr>;
     (need_reschedule, s3) \<leftarrow> process_delayed_tasks E s2;
     let s4 = process_time_slicing E s3;
     s5 \<leftarrow> sertos_timer_tick E s4;
     s6 \<leftarrow> (if s_tick_hook s5 \<noteq> NULL then call_hook E (s_tick_hook s5) s5 else Some s5);
     let s7 = exit_critical E crit_status s6;
     if need_reschedule \<or> s_time_slicing_enabled s7 then sertos_scheduler_switch_context E s7 else Some s7
   }"

definition sertos_scheduler_yield ::
  "('b, 'r, 'm, 'p) env \<Rightarrow> ('b, 'r, 'm, 'p) kstate \<Rightarrow> ('b, 'r, 'm, 'p) kstate option" where
  "sertos_scheduler_yield E s =
     (let (crit_status, s1) = enter_critical E s
      in sertos_scheduler_switch_context E (exit_critical E crit_status (process_time_slicing E s1)))"

text \<open>One round of the idle task, and the task as the loop that repeats it.\<close>

definition idle_task_round ::
  "('b, 'r, 'm, 'p) env \<Rightarrow> ('b, 'r, 'm, 'p) kstate \<Rightarrow> ('b, 'r, 'm, 'p) kstate option" where
  "idle_task_round E s = do {
     s1 \<leftarrow> (if s_idle_hook s \<noteq> NULL then call_hook E (s_idle_hook s) s else Some s);
     if port_is_host E then sertos_port_yield E s1 else Some s1
   }"

partial_function (option) idle_task_entry ::
  "('b, 'r, 'm, 'p) env \<Rightarrow> ('b, 'r, 'm, 'p) kstate \<Rightarrow> unit option" where
  "idle_task_entry E s = do { s1 \<leftarrow> idle_task_round E s; idle_task_entry E s1 }"

section \<open>Scheduler locking\<close>

definition sertos_scheduler_lock ::
  "('b, 'r, 'm, 'p) env \<Rightarrow> ('b, 'r, 'm, 'p) kstate \<Rightarrow> ('b, 'r, 'm, 'p) kstate" where
  "sertos_scheduler_lock E s =
     (let (crit_status, s1) = enter_critical E s
      in exit_critical E crit_status (s1\<lparr>s_lock_nesting := s_lock_nesting s1 + 1\<rparr>))"

definition sertos_scheduler_unlock ::
  "('b, 'r, 'm, 'p) env \<Rightarrow> ('b, 'r, 'm, 'p) kstate \<Rightarrow> ('b, 'r, 'm, 'p) kstate option" where
  "sertos_scheduler_unlock E s =
     (let (crit_status, s1) = enter_critical E s;
          s2 = (if 0 < s_lock_nesting s1 then s1\<lparr>s_lock_nesting := s_lock_nesting s1 - 1\<rparr> else s1);
          switch_needed = (0 < s_lock_nesting s1 \<and> s_lock_nesting s2 = 0 \<and> s_reschedule_pending s2);
          s3 = (if switch_needed then s2\<lparr>s_reschedule_pending := False\<rparr> else s2);
          s4 = exit_critical E crit_status s3
      in if switch_needed then sertos_scheduler_switch_context E s4 else Some s4)"

definition sertos_scheduler_is_locked :: "('b, 'r, 'm, 'p) kstate \<Rightarrow> bool" where
  "sertos_scheduler_is_locked s \<longleftrightarrow> 0 < s_lock_nesting s"

definition sertos_scheduler_is_time_slicing_enabled :: "('b, 'r, 'm, 'p) kstate \<Rightarrow> bool" where
  "sertos_scheduler_is_time_slicing_enabled s = s_time_slicing_enabled s"

section \<open>Time\<close>

definition sertos_scheduler_get_tick_rate_hz :: "('b, 'r, 'm, 'p) kstate \<Rightarrow> 32 word" where
  "sertos_scheduler_get_tick_rate_hz s =
     (if 0 < s_tick_rate_hz s then s_tick_rate_hz s else SERTOS_CONFIG_TICK_RATE_HZ)"

definition SERTOS_MS_TO_TICKS :: "32 word \<Rightarrow> ('b, 'r, 'm, 'p) kstate \<Rightarrow> SertosTick" where
  "SERTOS_MS_TO_TICKS ms s =
     ucast (((ucast ms :: 64 word) * ucast (sertos_scheduler_get_tick_rate_hz s) + 999) div 1000)"

definition SERTOS_TICKS_TO_MS :: "SertosTick \<Rightarrow> ('b, 'r, 'm, 'p) kstate \<Rightarrow> 32 word" where
  "SERTOS_TICKS_TO_MS ticks s =
     ucast (((ucast ticks :: 64 word) * 1000) div ucast (sertos_scheduler_get_tick_rate_hz s))"

definition sertos_scheduler_delay ::
  "('b, 'r, 'm, 'p) env \<Rightarrow> SertosTick \<Rightarrow> ('b, 'r, 'm, 'p) kstate \<Rightarrow> (SertosStatus \<times> ('b, 'r, 'm, 'p) kstate) option" where
  "sertos_scheduler_delay E ticks s =
     (if ticks = 0 then do { s' \<leftarrow> sertos_scheduler_yield E s; Some (SERTOS_STATUS_OK, s') }
      else if \<not> s_is_running s \<or> sertos_current_tcb s = NULL then Some (SERTOS_STATUS_ERROR_NOT_INITIALIZED, s)
      else let cur = sertos_current_tcb s;
               (crit_status, s1) = enter_critical E s;
               s2 = snd (sertos_scheduler_remove_ready E cur s1);
               s3 = upd_tcb cur (\<lambda>t. t\<lparr>tcb_state := SERTOS_TASK_STATE_BLOCKED, tcb_delay_ticks := ticks\<rparr>) s2;
               s4 = upd_heap (linked_list_insert_tail_direct E DelayList (StateNode cur)) s3
           in do { s5 \<leftarrow> sertos_scheduler_switch_context E (exit_critical E crit_status s4);
                   Some (SERTOS_STATUS_OK, s5) })"

definition sertos_scheduler_delay_ms ::
  "('b, 'r, 'm, 'p) env \<Rightarrow> 32 word \<Rightarrow> ('b, 'r, 'm, 'p) kstate \<Rightarrow> (SertosStatus \<times> ('b, 'r, 'm, 'p) kstate) option" where
  "sertos_scheduler_delay_ms E ms s =
     (if ms = 0 then do { s' \<leftarrow> sertos_scheduler_yield E s; Some (SERTOS_STATUS_OK, s') }
      else sertos_scheduler_delay E (SERTOS_MS_TO_TICKS ms s) s)"

definition sertos_scheduler_delay_until ::
  "('b, 'r, 'm, 'p) env \<Rightarrow> addr \<Rightarrow> SertosTick \<Rightarrow> ('b, 'r, 'm, 'p) kstate \<Rightarrow> (SertosStatus \<times> ('b, 'r, 'm, 'p) kstate) option" where
  "sertos_scheduler_delay_until E last_wake_time period s =
     (if last_wake_time = NULL then Some (SERTOS_STATUS_ERROR_NULL_PTR, s)
      else if period = 0 then Some (SERTOS_STATUS_ERROR_INVALID_PARAM, s)
      else let elapsed = sertos_scheduler_get_tick_count E s - tick_cells s last_wake_time;
               s1 = s\<lparr>tick_cells := (tick_cells s)(last_wake_time := tick_cells s last_wake_time + period)\<rparr>
           in if elapsed < period then sertos_scheduler_delay E (period - elapsed) s1
              else do { s2 \<leftarrow> sertos_scheduler_yield E s1; Some (SERTOS_STATUS_OK, s2) })"

section \<open>Blocking on a wait list\<close>

text \<open>The critical section of \<open>sertos_scheduler_wait_list_block\<close>: the caller leaves its ready queue for
  the wait list and, unless it waits forever, the delay list.\<close>

definition block_current ::
  "('b, 'r, 'm, 'p) env \<Rightarrow> lst \<Rightarrow> SertosTick \<Rightarrow> ('b, 'r, 'm, 'p) kstate \<Rightarrow> ('b, 'r, 'm, 'p) kstate option" where
  "block_current E wl timeout s =
     (let cur = sertos_current_tcb s;
          (crit_status, s1) = enter_critical E s;
          s2 = snd (sertos_scheduler_remove_ready E cur s1);
          s3 = upd_tcb cur (\<lambda>t. t\<lparr>tcb_state := SERTOS_TASK_STATE_BLOCKED, tcb_wait_list := Some wl\<rparr>) s2
      in do {
        s4 \<leftarrow> insert_wait_list_priority E wl cur s3;
        let s5 = (if timeout \<noteq> SERTOS_WAIT_FOREVER
                  then upd_heap (linked_list_insert_tail_direct E DelayList (StateNode cur))
                         (upd_tcb cur (\<lambda>t. t\<lparr>tcb_delay_ticks := timeout\<rparr>) s4)
                  else upd_heap (clear_node (StateNode cur)) (upd_tcb cur (\<lambda>t. t\<lparr>tcb_delay_ticks := 0\<rparr>) s4));
        Some (exit_critical E crit_status s5)
      })"

definition sertos_scheduler_wait_list_block ::
  "('b, 'r, 'm, 'p) env \<Rightarrow> lst option \<Rightarrow> SertosTick \<Rightarrow> ('b, 'r, 'm, 'p) kstate \<Rightarrow>
   (SertosStatus \<times> ('b, 'r, 'm, 'p) kstate) option" where
  "sertos_scheduler_wait_list_block E wait_list timeout s = (case wait_list of
     None \<Rightarrow> Some (SERTOS_STATUS_ERROR_NULL_PTR, s)
   | Some wl \<Rightarrow>
       if \<not> s_is_running s \<or> sertos_current_tcb s = NULL then Some (SERTOS_STATUS_ERROR_NOT_INITIALIZED, s)
       else do {
         let cur = sertos_current_tcb s;
         s6 \<leftarrow> block_current E wl timeout s;
         s7 \<leftarrow> sertos_scheduler_switch_context E s6;
         if timeout \<noteq> SERTOS_WAIT_FOREVER \<and> tcb_delay_ticks (tcbs s7 cur) = 0 \<and> tcb_wait_list (tcbs s7 cur) = None
         then Some (SERTOS_STATUS_ERROR_TIMEOUT, s7)
         else Some (SERTOS_STATUS_OK, s7)
       })"

section \<open>The caller and the port\<close>

text \<open>The running task is linked into the ready queue of its priority.\<close>

definition current_ok :: "('b, 'r, 'm, 'p) kstate \<Rightarrow> lmap \<Rightarrow> bool" where
  "current_ok s L \<longleftrightarrow> (sertos_current_tcb s \<noteq> NULL \<longrightarrow>
     on_list L (ReadyQ (unat (tcb_priority (tcbs s (sertos_current_tcb s))))) (StateNode (sertos_current_tcb s)))"

text \<open>The lists after time slicing: the running task is at the tail of its ready queue.\<close>

definition sliced_lists :: "(addr \<Rightarrow> tcb) \<Rightarrow> addr \<Rightarrow> bool \<Rightarrow> lmap \<Rightarrow> lmap" where
  "sliced_lists T c enabled L =
     (let q = ReadyQ (unat (tcb_priority (T c)))
      in if enabled \<and> c \<noteq> NULL then L(q := map_option (\<lambda>ns. remove1 (StateNode c) ns @ [StateNode c]) (L q)) else L)"

text \<open>A port that resumes its caller in a consistent kernel state.\<close>

definition fair_port :: "('b, 'r, 'm, 'p) env \<Rightarrow> ('b \<Rightarrow> nat set) \<Rightarrow> bool" where
  "fair_port E bits \<longleftrightarrow> (\<forall>s L. kinv bits s L \<longrightarrow> returns (sertos_port_yield E s) (\<lambda>s'. \<exists>L'. kinv bits s' L'))"

definition fair_hooks :: "('b, 'r, 'm, 'p) env \<Rightarrow> ('b \<Rightarrow> nat set) \<Rightarrow> bool" where
  "fair_hooks E bits \<longleftrightarrow> (\<forall>f s L. kinv bits s L \<longrightarrow> returns (call_hook E f s) (\<lambda>s'. \<exists>L'. kinv bits s' L'))"

section \<open>Lemmas\<close>

lemma enter_critical_eq:
  "enter_critical E s = (fst (sertos_port_enter_critical E (port s)), s\<lparr>port := snd (sertos_port_enter_critical E (port s))\<rparr>)"
  by (simp add: enter_critical_def split: prod.splits)

lemma kinv_fields [simp]:
  "kinv bits (s\<lparr>sertos_current_tcb := a\<rparr>) L \<longleftrightarrow> kinv bits s L"
  "kinv bits (s\<lparr>s_is_running := b\<rparr>) L \<longleftrightarrow> kinv bits s L"
  "kinv bits (s\<lparr>s_lock_nesting := n\<rparr>) L \<longleftrightarrow> kinv bits s L"
  "kinv bits (s\<lparr>s_reschedule_pending := b\<rparr>) L \<longleftrightarrow> kinv bits s L"
  "kinv bits (s\<lparr>s_system_ticks := w\<rparr>) L \<longleftrightarrow> kinv bits s L"
  "kinv bits (s\<lparr>tick_cells := tc\<rparr>) L \<longleftrightarrow> kinv bits s L"
  "kinv bits (s\<lparr>ptr_cells := pc\<rparr>) L \<longleftrightarrow> kinv bits s L"
  "kinv bits (s\<lparr>bool_cells := bc\<rparr>) L \<longleftrightarrow> kinv bits s L"
  "kinv bits (s\<lparr>sems := sm\<rparr>) L \<longleftrightarrow> kinv bits s L"
  "kinv bits (s\<lparr>mutexes := mx\<rparr>) L \<longleftrightarrow> kinv bits s L"
  "kinv bits (s\<lparr>queues := qs\<rparr>) L \<longleftrightarrow> kinv bits s L"
  "kinv bits (s\<lparr>streams := sb\<rparr>) L \<longleftrightarrow> kinv bits s L"
  "kinv bits (s\<lparr>mem := m\<rparr>) L \<longleftrightarrow> kinv bits s L"
  "kinv bits (s\<lparr>pool := pl\<rparr>) L \<longleftrightarrow> kinv bits s L"
  "kinv bits (s\<lparr>s_total_switches := w\<rparr>) L \<longleftrightarrow> kinv bits s L"
  by (simp_all add: kinv_def)

lemma exit_critical_simps [simp]:
  "kinv bits (exit_critical E c s) L \<longleftrightarrow> kinv bits s L"
  "tcbs (exit_critical E c s) = tcbs s" "sems (exit_critical E c s) = sems s"
  "mutexes (exit_critical E c s) = mutexes s" "queues (exit_critical E c s) = queues s"
  "streams (exit_critical E c s) = streams s" "list_heap (exit_critical E c s) = list_heap s"
  "sertos_current_tcb (exit_critical E c s) = sertos_current_tcb s"
  "s_is_running (exit_critical E c s) = s_is_running s" "s_lock_nesting (exit_critical E c s) = s_lock_nesting s"
  "s_reschedule_pending (exit_critical E c s) = s_reschedule_pending s"
  "s_time_slicing_enabled (exit_critical E c s) = s_time_slicing_enabled s"
  "s_ready_bitmap (exit_critical E c s) = s_ready_bitmap s" "s_system_ticks (exit_critical E c s) = s_system_ticks s"
  "bool_cells (exit_critical E c s) = bool_cells s" "mem (exit_critical E c s) = mem s"
  "timers (exit_critical E c s) = timers s" "pool (exit_critical E c s) = pool s"
  "tick_cells (exit_critical E c s) = tick_cells s" "s_tick_hook (exit_critical E c s) = s_tick_hook s"
  "s_timer_subsystem_initialized (exit_critical E c s) = s_timer_subsystem_initialized s"
  by (simp_all add: exit_critical_def)

lemma sched_frame_tick_cells:
  assumes "sched_frame s s'" shows "tick_cells s' = tick_cells s"
proof -
  have "s'\<lparr>list_heap := h, s_ready_bitmap := b, tcbs := t\<rparr> = s\<lparr>list_heap := h, s_ready_bitmap := b, tcbs := t\<rparr>" for h b t
    using assms by (simp add: sched_frame_def)
  from arg_cong [OF this, of tick_cells] show ?thesis by simp
qed

lemma select_port [simp]:
  "sertos_scheduler_select_next_task E (s\<lparr>port := p\<rparr>) = sertos_scheduler_select_next_task E s"
  "sertos_scheduler_select_next_task E (exit_critical E c s) = sertos_scheduler_select_next_task E s"
  by (simp_all add: sertos_scheduler_select_next_task_def split: option.splits)

text \<open>A wait list or the delay list takes over the running task: what blocking does to the lists.\<close>

definition blocked_lists :: "(addr \<Rightarrow> tcb) \<Rightarrow> addr \<Rightarrow> nat \<Rightarrow> lst option \<Rightarrow> bool \<Rightarrow> lmap \<Rightarrow> lmap" where
  "blocked_lists T c p wl timed L =
     (let L1 = L(ReadyQ p := map_option (remove1 (StateNode c)) (L (ReadyQ p)));
          L2 = (case wl of None \<Rightarrow> L1 | Some w \<Rightarrow> L1(w := map_option (insert_by_priority T c) (L1 w)))
      in if timed then L2(DelayList := map_option (\<lambda>ds. ds @ [StateNode c]) (L2 DelayList)) else L2)"

lemma kinv_block:
  assumes inv: "kinv bits s L" and free: "\<And>l. \<not> on_list L l (StateNode c)" "\<And>l. \<not> on_list L l (EventNode c)"
    and c: "c \<noteq> NULL" "unat (tcb_priority (tcbs s c)) < SERTOS_CONFIG_MAX_PRIORITIES"
    and heap: "heap_ok (list_heap s') L'" and b: "s_ready_bitmap s' = s_ready_bitmap s"
    and other: "\<And>a. a \<noteq> c \<Longrightarrow> tcbs s' a = tcbs s a" and prio: "tcb_priority (tcbs s' c) = tcb_priority (tcbs s c)"
    and wl: "tcb_wait_list (tcbs s' c) = wl" "\<And>w. wl = Some w \<Longrightarrow> is_wait_list w"
    and timed: "timed \<longleftrightarrow> 0 < tcb_delay_ticks (tcbs s' c)" "wl = None \<Longrightarrow> timed"
    and on: "\<And>k x. on_list L' k x \<longleftrightarrow> on_list L k x \<or> (wl = Some k \<and> x = EventNode c) \<or>
      (timed \<and> k = DelayList \<and> x = StateNode c)"
    and ready: "\<And>p. L' (ReadyQ p) = L (ReadyQ p)" and base: "base_lists L'"
  shows "kinv bits s' L'"
proof -
  have eq: "tcb_priority (tcbs s' a) = tcb_priority (tcbs s a)" for a using other prio by (cases "a = c") auto
  have "typed_lists L'"
    unfolding typed_lists_def on using kinv_typed [OF inv] wl(2) c(1) by auto
  moreover have "ready_ok (tcbs s') L'"
    unfolding ready_ok_def on using kinv_ready [OF inv] other free(1) prio by (metis lnode.distinct(9) lst.distinct(1))
  moreover have "delay_ok (tcbs s') L'"
    unfolding delay_ok_def on eq
  proof (intro allI impI conjI)
    fix a assume a: "on_list L DelayList (StateNode a) \<or> (wl = Some DelayList \<and> StateNode a = EventNode c) \<or>
      (timed \<and> DelayList = DelayList \<and> StateNode a = StateNode c)"
    then show "unat (tcb_priority (tcbs s a)) < SERTOS_CONFIG_MAX_PRIORITIES"
      using kinv_delay [OF inv, of a] c(2) by auto
    fix w assume w: "tcb_wait_list (tcbs s' a) = Some w"
    show "is_wait_list w" "on_list L w (EventNode a) \<or> (wl = Some w \<and> EventNode a = EventNode c) \<or>
        (timed \<and> w = DelayList \<and> EventNode a = StateNode c)"
      using a w kinv_delay [OF inv, of a] wl other free(1) by (cases "a = c"; auto)+
  qed
  moreover have "wait_ok (tcbs s') L'"
    unfolding wait_ok_def on eq
  proof (intro allI impI)
    fix w a assume a: "on_list L w (EventNode a) \<or> (wl = Some w \<and> EventNode a = EventNode c) \<or>
      (timed \<and> w = DelayList \<and> EventNode a = StateNode c)"
    show "tcb_wait_list (tcbs s' a) = Some w \<and> unat (tcb_priority (tcbs s a)) < SERTOS_CONFIG_MAX_PRIORITIES \<and>
      (if 0 < tcb_delay_ticks (tcbs s' a)
       then on_list L DelayList (StateNode a) \<or> (wl = Some DelayList \<and> StateNode a = EventNode c) \<or>
         (timed \<and> DelayList = DelayList \<and> StateNode a = StateNode c)
       else \<forall>l. \<not> (on_list L l (StateNode a) \<or> (wl = Some l \<and> StateNode a = EventNode c) \<or>
         (timed \<and> l = DelayList \<and> StateNode a = StateNode c)))"
    proof (cases "a = c")
      case True
      then show ?thesis using a free wl(1) c(2) timed(1) by auto
    next
      case False
      then have "on_list L w (EventNode a)" using a by auto
      then show ?thesis using kinv_wait [OF inv, of w a] other [OF False] False by (auto split: if_splits)
    qed
  qed
  moreover have "bitmap_ok bits (s_ready_bitmap s') L'" using inv by (simp add: kinv_def bitmap_ok_def ready b)
  ultimately show ?thesis using heap base by (simp add: kinv_def)
qed

lemma sched_frame_timer:
  assumes "sched_frame s s'" shows "s_timer_subsystem_initialized s' = s_timer_subsystem_initialized s"
proof -
  have "s'\<lparr>list_heap := h, s_ready_bitmap := b, tcbs := t\<rparr> = s\<lparr>list_heap := h, s_ready_bitmap := b, tcbs := t\<rparr>" for h b t
    using assms by (simp add: sched_frame_def)
  from arg_cong [OF this, of s_timer_subsystem_initialized] show ?thesis by simp
qed

text \<open>What a kernel call leaves alone: everything but the lists, the bitmap, the control blocks and the port.\<close>

definition call_frame :: "('b, 'r, 'm, 'p) kstate \<Rightarrow> ('b, 'r, 'm, 'p) kstate \<Rightarrow> bool" where
  "call_frame s s' \<longleftrightarrow> (\<forall>h b t p. s'\<lparr>list_heap := h, s_ready_bitmap := b, tcbs := t, port := p\<rparr> =
     s\<lparr>list_heap := h, s_ready_bitmap := b, tcbs := t, port := p\<rparr>)"

lemma call_frameI:
  assumes "sched_frame (s\<lparr>port := q\<rparr>) s2" shows "call_frame s (exit_critical E c s2)"
proof -
  have "s2\<lparr>list_heap := h, s_ready_bitmap := b, tcbs := t\<rparr> = s\<lparr>port := q, list_heap := h, s_ready_bitmap := b, tcbs := t\<rparr>" for h b t
    using assms by (simp add: sched_frame_def)
  from arg_cong [OF this, of "port_update (\<lambda>_. p)" for p] show ?thesis by (simp add: call_frame_def exit_critical_def)
qed

lemma call_frameD:
  assumes "call_frame s s'"
  shows "sertos_current_tcb s' = sertos_current_tcb s" "s_is_running s' = s_is_running s" "s_tick_hook s' = s_tick_hook s"
    "s_timer_subsystem_initialized s' = s_timer_subsystem_initialized s" "sems s' = sems s" "timers s' = timers s"
    "queues s' = queues s" "streams s' = streams s"
proof -
  have "s'\<lparr>list_heap := h, s_ready_bitmap := b, tcbs := t, port := p\<rparr> =
     s\<lparr>list_heap := h, s_ready_bitmap := b, tcbs := t, port := p\<rparr>" for h b t p using assms by (simp add: call_frame_def)
  note eq = this
  show "sertos_current_tcb s' = sertos_current_tcb s" using arg_cong [OF eq, of sertos_current_tcb] by simp
  show "s_is_running s' = s_is_running s" using arg_cong [OF eq, of s_is_running] by simp
  show "s_tick_hook s' = s_tick_hook s" using arg_cong [OF eq, of s_tick_hook] by simp
  show "s_timer_subsystem_initialized s' = s_timer_subsystem_initialized s"
    using arg_cong [OF eq, of s_timer_subsystem_initialized] by simp
  show "sems s' = sems s" using arg_cong [OF eq, of sems] by simp
  show "timers s' = timers s" using arg_cong [OF eq, of timers] by simp
  show "queues s' = queues s" using arg_cong [OF eq, of queues] by simp
  show "streams s' = streams s" using arg_cong [OF eq, of streams] by simp
qed

text \<open>What no task operation touches.\<close>

definition objects_kept :: "('b, 'r, 'm, 'p) kstate \<Rightarrow> ('b, 'r, 'm, 'p) kstate \<Rightarrow> bool" where
  "objects_kept s s' \<longleftrightarrow> sertos_current_tcb s' = sertos_current_tcb s \<and> sems s' = sems s \<and> timers s' = timers s \<and>
     queues s' = queues s \<and> streams s' = streams s \<and> s_timer_subsystem_initialized s' = s_timer_subsystem_initialized s"

lemma call_frame_objects: "call_frame s s' \<Longrightarrow> objects_kept s s'"
  by (simp add: objects_kept_def call_frameD)

lemma map_option_bind: "map_option f m = Option.bind m (\<lambda>x. Some (f x))"
  by (cases m) auto

lemma insert_by_priority_cong:
  assumes "\<And>a. tcb_priority (T a) = tcb_priority (T' a)"
  shows "insert_by_priority T c ns = insert_by_priority T' c ns"
proof -
  have "node_priority T = node_priority T'" using assms by (auto simp: node_priority_def fun_eq_iff split: lnode.splits)
  then show ?thesis using assms by (simp add: insert_by_priority_def)
qed

context kernel_env
begin

lemma current_detach:
  assumes inv: "kinv bits s L" and on: "on_list L (ReadyQ p) (StateNode c)"
  obtains ns L1 where "L (ReadyQ p) = Some ns" and "L1 = L(ReadyQ p \<mapsto> remove1 (StateNode c) ns)"
    and "kinv bits (snd (sertos_scheduler_remove_ready E c s)) L1"
    and "\<And>l. \<not> on_list L1 l (StateNode c)" and "\<And>l. \<not> on_list L1 l (EventNode c)"
    and "c \<noteq> NULL" and "p < SERTOS_CONFIG_MAX_PRIORITIES" and "unat (tcb_priority (tcbs s c)) = p"
    and "tcb_wait_list (tcbs s c) = None"
proof -
  obtain ns where ns: "L (ReadyQ p) = Some ns" "StateNode c \<in> set ns" using on by (rule on_listE)
  note rdy = kinv_ready [OF inv on]
  note lose = on_list_lose [of L "ReadyQ p", OF ns(1) heap_ok_distinct [OF kinv_heap [OF inv] ns(1)]]
  show thesis
  proof (rule that [OF ns(1) refl])
    show "kinv bits (snd (sertos_scheduler_remove_ready E c s)) (L(ReadyQ p \<mapsto> remove1 (StateNode c) ns))"
      using remove_ready_kinv [OF inv _ ns] rdy by blast
    show "\<not> on_list (L(ReadyQ p \<mapsto> remove1 (StateNode c) ns)) l (StateNode c)" for l
      unfolding lose using kinv_unique [OF inv on, of l] by auto
    show "\<not> on_list (L(ReadyQ p \<mapsto> remove1 (StateNode c) ns)) l (EventNode c)" for l
      unfolding lose using kinv_wait [OF inv, of l c] rdy by auto
    show "c \<noteq> NULL" using kinv_typed [OF inv on] by simp
  qed (use rdy in auto)
qed

lemma perform_switch_refines:
  assumes inv: "kinv bits s L"
  obtains s' where "sertos_scheduler_perform_switch E s = Some (sertos_current_tcb s', s')"
    and "kinv bits s' L"
    and "sertos_current_tcb s' = (if abs_select L = NULL then sertos_current_tcb s else abs_select L)"
    and "abs_select L = NULL \<Longrightarrow> s' = s"
    and "abs_select L \<noteq> NULL \<Longrightarrow> tcb_state (tcbs s' (abs_select L)) = SERTOS_TASK_STATE_RUNNING"
    and "\<And>a. abs_select L \<noteq> NULL \<Longrightarrow> a \<noteq> abs_select L \<Longrightarrow> tcb_state (tcbs s' a) =
      (if a = sertos_current_tcb s \<and> a \<noteq> NULL \<and> tcb_state (tcbs s a) = SERTOS_TASK_STATE_RUNNING
       then SERTOS_TASK_STATE_READY else tcb_state (tcbs s a))"
    and "s_is_running s' = s_is_running s" and "s_lock_nesting s' = s_lock_nesting s"
proof (cases "abs_select L = NULL")
  case True
  then show thesis
    by (intro that [of s]) (use inv select_next_refines [OF inv] in \<open>auto simp: sertos_scheduler_perform_switch_def\<close>)
next
  case False
  let ?n = "abs_select L" and ?c = "sertos_current_tcb s"
  let ?s1 = "if ?c \<noteq> NULL \<and> tcb_state (tcbs s ?c) = SERTOS_TASK_STATE_RUNNING
    then upd_tcb ?c (\<lambda>t. t\<lparr>tcb_state := SERTOS_TASK_STATE_READY\<rparr>) s else s"
  let ?s3 = "upd_tcb ?n (\<lambda>t. t\<lparr>tcb_state := SERTOS_TASK_STATE_RUNNING\<rparr>) (?s1\<lparr>sertos_current_tcb := ?n\<rparr>)"
  let ?s4 = "sertos_stats_on_switch E ?c ?n ?s3"
  have "sertos_scheduler_perform_switch E s = Some (sertos_current_tcb ?s4, ?s4)"
    using False select_next_refines [OF inv] by (simp add: sertos_scheduler_perform_switch_def Let_def)
  moreover have "kinv bits ?s3 L" using inv by simp
  then have "kinv bits ?s4 L" by (rule kinv_cong [OF _ on_switch_other(1,2,7)])
  ultimately show thesis
    by (rule that) (use False in auto)
qed

lemma switch_context_locked:
  "0 < s_lock_nesting s \<Longrightarrow> sertos_scheduler_switch_context E s = Some (s\<lparr>s_reschedule_pending := True\<rparr>)"
  by (simp add: sertos_scheduler_switch_context_def)

lemma switch_context_stays:
  assumes "kinv bits s L" and "s_lock_nesting s = 0" and "abs_select L = NULL \<or> abs_select L = sertos_current_tcb s"
  shows "\<exists>p. sertos_scheduler_switch_context E s = Some (s\<lparr>port := p\<rparr>)"
  using assms select_next_refines [OF assms(1)]
  by (auto simp: sertos_scheduler_switch_context_def enter_critical_eq exit_critical_def)

lemma switch_context_returns:
  assumes inv: "kinv bits s L" and fair: "fair_port E bits"
  shows "returns (sertos_scheduler_switch_context E s) (\<lambda>s'. \<exists>L'. kinv bits s' L')"
proof (cases "0 < s_lock_nesting s")
  case True
  then show ?thesis using inv by (auto simp: switch_context_locked)
next
  case False
  let ?s1 = "s\<lparr>port := snd (sertos_port_enter_critical E (port s))\<rparr>"
  have inv1: "kinv bits ?s1 L" using inv by simp
  obtain s2 where s2: "sertos_scheduler_perform_switch E ?s1 = Some (sertos_current_tcb s2, s2)" "kinv bits s2 L"
    using perform_switch_refines [OF inv1] by metis
  have "returns (sertos_port_yield E (exit_critical E c s3)) (\<lambda>s'. \<exists>L'. kinv bits s' L')" if "kinv bits s3 L" for s3 c
    using fair that unfolding fair_port_def by (metis exit_critical_simps(1))
  then show ?thesis
    using False inv s2 select_next_refines [OF inv1]
    by (auto simp: sertos_scheduler_switch_context_def enter_critical_eq)
qed

lemma current_kept:
  assumes "current_ok s L" "sertos_current_tcb s' = sertos_current_tcb s"
    and "\<And>a. tcb_priority (tcbs s' a) = tcb_priority (tcbs s a)"
    and "\<And>p a. on_list L (ReadyQ p) (StateNode a) \<Longrightarrow> on_list L' (ReadyQ p) (StateNode a)"
  shows "current_ok s' L'"
  using assms by (simp add: current_ok_def)

lemma yield_time_slicing:
  assumes inv: "kinv bits s L" and cur: "current_ok s L"
  obtains L' where "kinv bits (process_time_slicing E s) L'" and "current_ok (process_time_slicing E s) L'"
    and "L' = sliced_lists (tcbs s) (sertos_current_tcb s) (s_time_slicing_enabled s) L"
proof (cases "s_time_slicing_enabled s \<and> sertos_current_tcb s \<noteq> NULL")
  case False
  then have "process_time_slicing E s = s" by (simp add: process_time_slicing_def)
  then show thesis using that False inv cur by (simp add: sliced_lists_def)
next
  case True
  let ?c = "sertos_current_tcb s" and ?p = "unat (tcb_priority (tcbs s (sertos_current_tcb s)))"
  obtain ns where ns: "L (ReadyQ ?p) = Some ns" "StateNode ?c \<in> set ns"
    using cur True by (auto simp: current_ok_def elim: on_listE)
  let ?L = "L(ReadyQ ?p \<mapsto> remove1 (StateNode ?c) ns @ [StateNode ?c])"
  have "kinv bits (process_time_slicing E s) ?L"
    by (rule time_slicing_refines [OF inv]) (use True ns in auto)
  moreover have "sertos_current_tcb (process_time_slicing E s) = ?c"
    using time_slicing_frame(3) [of s s] sched_frameD(1) by (metis sched_frame_refl)
  then have "current_ok (process_time_slicing E s) ?L"
    by (simp add: current_ok_def on_list_def)
  ultimately show thesis by (rule that) (use True ns in \<open>simp add: sliced_lists_def Let_def\<close>)
qed

lemma delay_refines:
  assumes inv: "kinv bits s L" and run: "s_is_running s" and c: "sertos_current_tcb s = c"
    and on: "on_list L (ReadyQ p) (StateNode c)" and ticks: "ticks \<noteq> 0"
  obtains s' where "sertos_scheduler_delay E ticks s =
      map_option (Pair SERTOS_STATUS_OK) (sertos_scheduler_switch_context E s')"
    and "kinv bits s' (blocked_lists (tcbs s) c p None True L)"
    and "tcbs s' = (tcbs s)(c := (tcbs s c)\<lparr>tcb_state := SERTOS_TASK_STATE_BLOCKED, tcb_delay_ticks := ticks\<rparr>)"
    and "sertos_current_tcb s' = c" and "s_lock_nesting s' = s_lock_nesting s" and "tick_cells s' = tick_cells s"
    and "call_frame s s'"
proof -
  let ?s1 = "s\<lparr>port := snd (sertos_port_enter_critical E (port s))\<rparr>"
  let ?s2 = "snd (sertos_scheduler_remove_ready E c ?s1)"
  let ?s3 = "upd_tcb c (\<lambda>t. t\<lparr>tcb_state := SERTOS_TASK_STATE_BLOCKED, tcb_delay_ticks := ticks\<rparr>) ?s2"
  let ?s4 = "upd_heap (linked_list_insert_tail_direct E DelayList (StateNode c)) ?s3"
  let ?s5 = "exit_critical E (fst (sertos_port_enter_critical E (port s))) ?s4"
  have inv1: "kinv bits ?s1 L" using inv by simp
  obtain ns L1 where ns: "L (ReadyQ p) = Some ns" and L1: "L1 = L(ReadyQ p \<mapsto> remove1 (StateNode c) ns)"
    and k2: "kinv bits ?s2 L1"
    and free: "\<And>l. \<not> on_list L1 l (StateNode c)" "\<And>l. \<not> on_list L1 l (EventNode c)"
    and c0: "c \<noteq> NULL" and p: "p < SERTOS_CONFIG_MAX_PRIORITIES" "unat (tcb_priority (tcbs ?s1 c)) = p"
    and wn: "tcb_wait_list (tcbs ?s1 c) = None"
    using current_detach [OF inv1 on] by blast
  obtain ds where ds: "L1 DelayList = Some ds" using kinv_delay_list [OF k2] .
  have fr: "sched_frame ?s1 ?s2" by simp
  have "heap_ok (list_heap ?s4) (L1(DelayList \<mapsto> ds @ [StateNode c]))"
    using ll.heap_ok_insert_tail [OF kinv_heap [OF k2] ds, of "StateNode c"] free(1) by (simp add: nodes_on_list)
  then have "kinv bits ?s4 (L1(DelayList \<mapsto> ds @ [StateNode c]))"
  proof (rule kinv_block [OF k2 free c0, where wl = None and timed = True, rotated])
    show "on_list (L1(DelayList \<mapsto> ds @ [StateNode c])) k x \<longleftrightarrow> on_list L1 k x \<or>
        None = Some k \<and> x = EventNode c \<or> True \<and> k = DelayList \<and> x = StateNode c" for k x
      using on_list_gain [of L1 DelayList, OF ds, of "ds @ [StateNode c]" "StateNode c" k x] by auto
    show "base_lists (L1(DelayList \<mapsto> ds @ [StateNode c]))"
      using k2 by (auto simp: kinv_def base_lists_def)
  qed (use p wn ticks in \<open>auto simp: word_neq_0_conv\<close>)
  moreover have "L1(DelayList \<mapsto> ds @ [StateNode c]) = blocked_lists (tcbs s) c p None True L"
    using ns ds by (simp add: blocked_lists_def L1 fun_eq_iff)
  ultimately have k5: "kinv bits ?s5 (blocked_lists (tcbs s) c p None True L)" by simp
  have eq: "sertos_scheduler_delay E ticks s =
      map_option (Pair SERTOS_STATUS_OK) (sertos_scheduler_switch_context E ?s5)"
    using ticks run c c0 by (simp add: sertos_scheduler_delay_def enter_critical_eq Let_def map_option_bind)
  show thesis
    by (rule that [OF eq k5])
      (use sched_frameD(1,3) [OF fr] sched_frame_tick_cells [OF fr] c in \<open>auto intro: call_frameI [where q = "snd (sertos_port_enter_critical E (port s))"]\<close>)
qed

lemma block_current_refines:
  assumes inv: "kinv bits s L" and c: "sertos_current_tcb s = c"
    and on: "on_list L (ReadyQ p) (StateNode c)" and wl: "is_wait_list wl" "L wl \<noteq> None" and timeout: "timeout \<noteq> 0"
  obtains s' where "block_current E wl timeout s = Some s'"
    and "kinv bits s' (blocked_lists (tcbs s) c p (Some wl) (timeout \<noteq> SERTOS_WAIT_FOREVER) L)"
    and "tcbs s' = (tcbs s)(c := (tcbs s c)\<lparr>tcb_state := SERTOS_TASK_STATE_BLOCKED, tcb_wait_list := Some wl,
           tcb_delay_ticks := (if timeout = SERTOS_WAIT_FOREVER then 0 else timeout)\<rparr>)"
    and "sertos_current_tcb s' = c" and "s_lock_nesting s' = s_lock_nesting s"
    and "sems s' = sems s" and "mutexes s' = mutexes s" and "queues s' = queues s" and "streams s' = streams s"
    and "mem s' = mem s" and "call_frame s s'"
proof -
  let ?s1 = "s\<lparr>port := snd (sertos_port_enter_critical E (port s))\<rparr>"
  let ?s2 = "snd (sertos_scheduler_remove_ready E c ?s1)"
  let ?s3 = "upd_tcb c (\<lambda>t. t\<lparr>tcb_state := SERTOS_TASK_STATE_BLOCKED, tcb_wait_list := Some wl\<rparr>) ?s2"
  let ?timed = "timeout \<noteq> SERTOS_WAIT_FOREVER"
  have inv1: "kinv bits ?s1 L" using inv by simp
  obtain ns L1 where ns: "L (ReadyQ p) = Some ns" and L1: "L1 = L(ReadyQ p \<mapsto> remove1 (StateNode c) ns)"
    and k2: "kinv bits ?s2 L1"
    and free: "\<And>l. \<not> on_list L1 l (StateNode c)" "\<And>l. \<not> on_list L1 l (EventNode c)"
    and c0: "c \<noteq> NULL" and p: "p < SERTOS_CONFIG_MAX_PRIORITIES" "unat (tcb_priority (tcbs ?s1 c)) = p"
    and wn: "tcb_wait_list (tcbs ?s1 c) = None"
    using current_detach [OF inv1 on] by blast
  have wl': "wl \<noteq> ReadyQ q" "wl \<noteq> DelayList" "wl \<noteq> TaskRegistry" for q using wl(1) by auto
  obtain ws where ws: "L1 wl = Some ws" using wl wl' by (auto simp: L1)
  obtain ds where ds: "L1 DelayList = Some ds" using kinv_delay_list [OF k2] .
  have evs: "\<exists>a. n = EventNode a" if "n \<in> set ws" for n
    using kinv_typed [OF k2 on_listI [of L1 wl, OF ws that]] wl(1) by auto
  let ?T = "tcbs s"
  have ibp: "insert_by_priority (tcbs ?s3) c ws = insert_by_priority ?T c ws"
    by (rule insert_by_priority_cong) simp
  obtain h4 where h4: "insert_wait_list_priority E wl c ?s3 = Some (?s3\<lparr>list_heap := h4\<rparr>)"
    "heap_ok h4 (L1(wl \<mapsto> insert_by_priority ?T c ws))"
    using insert_wait_list_priority_refines [of ?s3 L1 wl ws c] kinv_heap [OF k2] ws free(2) evs ibp
    by (simp add: nodes_on_list) blast
  let ?s4 = "?s3\<lparr>list_heap := h4\<rparr>"
  let ?L2 = "L1(wl \<mapsto> insert_by_priority ?T c ws)"
  let ?s5 = "if ?timed then upd_heap (linked_list_insert_tail_direct E DelayList (StateNode c))
      (upd_tcb c (\<lambda>t. t\<lparr>tcb_delay_ticks := timeout\<rparr>) ?s4)
    else upd_heap (clear_node (StateNode c)) (upd_tcb c (\<lambda>t. t\<lparr>tcb_delay_ticks := 0\<rparr>) ?s4)"
  let ?L3 = "if ?timed then ?L2(DelayList \<mapsto> ds @ [StateNode c]) else ?L2"
  have on2: "on_list ?L2 k x \<longleftrightarrow> on_list L1 k x \<or> (k = wl \<and> x = EventNode c)" for k x
    by (rule on_list_gain [of L1 wl, OF ws]) simp
  have ds2: "?L2 DelayList = Some ds" using ds wl' by simp
  have on3: "on_list ?L3 k x \<longleftrightarrow> on_list L1 k x \<or> (Some wl = Some k \<and> x = EventNode c) \<or>
      (?timed \<and> k = DelayList \<and> x = StateNode c)" for k x
    using on_list_gain [of ?L2 DelayList, OF ds2, of "ds @ [StateNode c]" "StateNode c" k x] on2 [of k x] by auto
  have nin: "StateNode c \<notin> nodes ?L2" using free(1) on2 by (auto simp: nodes_on_list)
  have nr: "\<not> is_Root (StateNode c)" by simp
  have "heap_ok (list_heap ?s5) ?L3"
    using ll.heap_ok_insert_tail [OF h4(2) ds2 nin nr] heap_ok_clear_node [OF h4(2) nin nr] by (simp split: if_splits)
  then have "kinv bits ?s5 ?L3"
  proof (rule kinv_block [OF k2 free c0, where wl = "Some wl" and timed = ?timed, rotated])
    show "base_lists ?L3" using k2 wl' by (auto simp: kinv_def base_lists_def)
    show "?timed = (0 < tcb_delay_ticks (tcbs ?s5 c))" using timeout by (auto simp: word_neq_0_conv)
  qed (use p wl wl' on3 in auto)
  moreover have "?L3 = blocked_lists (tcbs s) c p (Some wl) ?timed L"
    using ns ws ds wl' by (auto simp: blocked_lists_def L1 fun_eq_iff)
  moreover have "block_current E wl timeout s = Some (exit_critical E (fst (sertos_port_enter_critical E (port s))) ?s5)"
    using h4(1) c by (simp add: block_current_def enter_critical_eq Let_def)
  moreover have "sched_frame ?s1 ?s2" by simp
  note sched_frameD [OF this]
  moreover have "sched_frame ?s1 ?s3" by simp
  then have "sched_frame ?s1 ?s4" by (simp add: sched_frame_def)
  then have "call_frame s (exit_critical E (fst (sertos_port_enter_critical E (port s))) ?s5)"
    by (intro call_frameI [where q = "snd (sertos_port_enter_critical E (port s))"]) simp
  ultimately show thesis
    by (intro that [of "exit_critical E (fst (sertos_port_enter_critical E (port s))) ?s5"]) (use c in auto)
qed

lemma timer_tick_returns:
  assumes inv: "kinv bits s L" and tm: "s_timer_subsystem_initialized s \<Longrightarrow> L ActiveTimers \<noteq> None"
    and calm: "calm_callbacks E bits"
  shows "returns (sertos_timer_tick E s) (\<lambda>s'. \<exists>L'. kinv bits s' L')"
proof (cases "s_timer_subsystem_initialized s")
  case False
  then show ?thesis using inv by (auto simp: sertos_timer_tick_def)
next
  case True
  then obtain ns where ns: "L ActiveTimers = Some ns" using tm by auto
  have "\<exists>ts. ns = map TimerNode ts"
    using kinv_timer_nodes [OF inv ns] by (metis ex_map_conv)
  then obtain ts where ts: "ns = map TimerNode ts" ..
  from timer_walk.timer_tick_refines [OF kinv_timer_walk [OF kernel_env_axioms calm] inv True ns [unfolded ts]]
  show ?thesis by (auto simp: returns_iff)
qed

text \<open>The tick handler up to the software timers: the counter is incremented, the delay list processed and the
  running task rotated.\<close>

lemma tick_refines:
  assumes inv: "kinv bits s L" and cur: "current_ok s L" and ds: "L DelayList = Some ds"
  shows "\<exists>s4 crit. kinv bits s4 (sliced_lists (tcbs s) (sertos_current_tcb s) (s_time_slicing_enabled s)
        (tick_lists (tcbs s) [] ds L)) \<and>
      tcbs s4 = (\<lambda>a. if StateNode a \<in> set ds then tick_tcb (tcbs s a) else tcbs s a) \<and>
      sertos_scheduler_get_tick_count E s4 = sertos_scheduler_get_tick_count E s + 1 \<and>
      s_timer_subsystem_initialized s4 = s_timer_subsystem_initialized s \<and> s_tick_hook s4 = s_tick_hook s \<and>
      sertos_current_tcb s4 = sertos_current_tcb s \<and> sems s4 = sems s \<and> timers s4 = timers s \<and>
      queues s4 = queues s \<and> streams s4 = streams s \<and> mem s4 = mem s \<and> port s4 = snd (sertos_port_enter_critical E (port s)) \<and>
      sertos_scheduler_tick E s = do {
        s5 \<leftarrow> sertos_timer_tick E s4;
        s6 \<leftarrow> (if s_tick_hook s5 \<noteq> NULL then call_hook E (s_tick_hook s5) s5 else Some s5);
        let s7 = exit_critical E crit s6;
        if (\<exists>n \<in> set ds. expires (tcbs s) n) \<or> s_time_slicing_enabled s7 then sertos_scheduler_switch_context E s7
        else Some s7
      }"
proof -
  let ?s1 = "s\<lparr>port := snd (sertos_port_enter_critical E (port s))\<rparr>"
  let ?s2 = "?s1\<lparr>s_system_ticks := atomic_store_relaxed E (s_system_ticks s) (atomic_load_relaxed E (s_system_ticks s) + 1)\<rparr>"
  have inv2: "kinv bits ?s2 L" using inv by simp
  obtain s3 where s3: "process_delayed_tasks E ?s2 = Some (\<exists>n \<in> set ds. expires (tcbs ?s2) n, s3)"
    "kinv bits s3 (tick_lists (tcbs ?s2) [] ds L)" "sched_frame ?s2 s3"
    "tcbs s3 = (\<lambda>a. if StateNode a \<in> set ds then tick_tcb (tcbs ?s2 a) else tcbs ?s2 a)"
    using process_delayed_tasks_refines [OF inv2 ds] .
  let ?L3 = "tick_lists (tcbs ?s2) [] ds L"
  have onr: "on_list ?L3 (ReadyQ p) (StateNode a)" if "on_list L (ReadyQ p) (StateNode a)" for p a
    using that by (auto simp: on_list_def tick_lists_def split: option.splits)
  have pr: "tcb_priority (tcbs s3 a) = tcb_priority (tcbs s a)" for a
    by (simp add: s3(4) tick_tcb_def)
  have cur3: "current_ok s3 ?L3"
  proof (rule current_kept [OF cur _ pr onr])
    show "sertos_current_tcb s3 = sertos_current_tcb s" using sched_frameD(1) [OF s3(3)] by simp
  qed
  note f3 = sched_frameD [OF s3(3)]
  have "kinv bits (process_time_slicing E s3) (sliced_lists (tcbs s3) (sertos_current_tcb s3) (s_time_slicing_enabled s3) ?L3)"
    using yield_time_slicing [OF s3(2) cur3] by metis
  moreover have "sliced_lists (tcbs s3) = sliced_lists (tcbs s)" by (simp add: sliced_lists_def fun_eq_iff pr Let_def)
  ultimately have k: "kinv bits (process_time_slicing E s3)
      (sliced_lists (tcbs s) (sertos_current_tcb s) (s_time_slicing_enabled s) (tick_lists (tcbs s) [] ds L))"
    using f3 by simp
  have fr: "sched_frame ?s2 (process_time_slicing E s3)" using s3(3) by simp
  show ?thesis
  proof (intro exI conjI)
    show "kinv bits (process_time_slicing E s3)
        (sliced_lists (tcbs s) (sertos_current_tcb s) (s_time_slicing_enabled s) (tick_lists (tcbs s) [] ds L))"
      by (rule k)
    show "tcbs (process_time_slicing E s3) = (\<lambda>a. if StateNode a \<in> set ds then tick_tcb (tcbs s a) else tcbs s a)"
      by (simp add: s3(4) fun_eq_iff)
    show "sertos_scheduler_get_tick_count E (process_time_slicing E s3) = sertos_scheduler_get_tick_count E s + 1"
      using sched_frameD [OF fr] by (simp add: sertos_scheduler_get_tick_count_def at.load_acquire_store at.load_relaxed_acquire)
    show "s_timer_subsystem_initialized (process_time_slicing E s3) = s_timer_subsystem_initialized s"
      using fr by (simp add: sched_frame_timer)
    show "s_tick_hook (process_time_slicing E s3) = s_tick_hook s" "sems (process_time_slicing E s3) = sems s"
      "timers (process_time_slicing E s3) = timers s" "queues (process_time_slicing E s3) = queues s"
      "streams (process_time_slicing E s3) = streams s" "mem (process_time_slicing E s3) = mem s"
      "port (process_time_slicing E s3) = snd (sertos_port_enter_critical E (port s))"
      "sertos_current_tcb (process_time_slicing E s3) = sertos_current_tcb s"
      using sched_frameD [OF fr] by simp_all
  qed (simp add: sertos_scheduler_tick_def enter_critical_eq s3(1))
qed

lemma tick_returns:
  assumes inv: "kinv bits s L" and cur: "current_ok s L"
    and tm: "s_timer_subsystem_initialized s \<Longrightarrow> L ActiveTimers \<noteq> None"
    and calm: "calm_callbacks E bits" and hooks: "fair_hooks E bits" and fair: "fair_port E bits"
  shows "returns (sertos_scheduler_tick E s) (\<lambda>s'. \<exists>L'. kinv bits s' L')"
proof -
  obtain ds where ds: "L DelayList = Some ds" using kinv_delay_list [OF inv] .
  let ?L4 = "sliced_lists (tcbs s) (sertos_current_tcb s) (s_time_slicing_enabled s) (tick_lists (tcbs s) [] ds L)"
  obtain s4 crit where s4: "kinv bits s4 ?L4" "s_timer_subsystem_initialized s4 = s_timer_subsystem_initialized s"
    and eq: "sertos_scheduler_tick E s = do {
      s5 \<leftarrow> sertos_timer_tick E s4;
      s6 \<leftarrow> (if s_tick_hook s5 \<noteq> NULL then call_hook E (s_tick_hook s5) s5 else Some s5);
      let s7 = exit_critical E crit s6;
      if (\<exists>n \<in> set ds. expires (tcbs s) n) \<or> s_time_slicing_enabled s7 then sertos_scheduler_switch_context E s7
      else Some s7
    }"
    using tick_refines [OF inv cur ds] by blast
  have "?L4 ActiveTimers = L ActiveTimers" by (simp add: sliced_lists_def tick_lists_def Let_def)
  then have t: "returns (sertos_timer_tick E s4) (\<lambda>s'. \<exists>L'. kinv bits s' L')"
    using timer_tick_returns [OF s4(1) _ calm] tm s4(2) by metis
  have sw: "returns (sertos_scheduler_switch_context E s') (\<lambda>s'. \<exists>L'. kinv bits s' L')" if "\<exists>L'. kinv bits s' L'" for s'
    using switch_context_returns [OF _ fair] that by blast
  have hk: "returns (call_hook E f s') (\<lambda>s'. \<exists>L'. kinv bits s' L')" if "\<exists>L'. kinv bits s' L'" for f s'
    using hooks that unfolding fair_hooks_def by blast
  show ?thesis
    unfolding eq Let_def by (auto intro!: returns_mono [OF t] returns_mono [OF hk] sw simp del: ex_simps)
qed

end

end
