(* ===== verification/Sertos_Cortex.thy ===== *)
theory Sertos_Cortex
  imports Sertos_Sched
begin

text \<open>
  What the Cortex-M ports (\<open>port/arm/cortex-m*/port_cpu.c\<close>) share word for word, and the Cortex-M4 frame: the
  nesting critical section over PRIMASK, the context switch request, the tick timer
  (\<open>port/arm/cortex_m_systick.h\<close>), the cycle counter and the reset request. Memory-mapped registers are a
  function of their address. Every port of the repository builds the first stack frame of a task the same
  way, from the list of words of its frame structure; the locale \<open>framed_stack\<close> is that construction and
  gives the contract \<open>stack_port\<close> of Sertos_Stack. \<open>critical_section\<close> is the contract of a nesting
  critical section. The individual ports are in Sertos_Ports.
\<close>

section \<open>Words in byte memory\<close>

definition store32 :: "addr \<Rightarrow> 32 word \<Rightarrow> (addr \<Rightarrow> byte) \<Rightarrow> addr \<Rightarrow> byte" where
  "store32 a w m = m(a := ucast w, a + 1 := ucast (drop_bit 8 w), a + 2 := ucast (drop_bit 16 w),
     a + 3 := ucast (drop_bit 24 w))"

definition load32 :: "addr \<Rightarrow> (addr \<Rightarrow> byte) \<Rightarrow> 32 word" where
  "load32 a m = ucast (m a) OR push_bit 8 (ucast (m (a + 1))) OR push_bit 16 (ucast (m (a + 2))) OR
     push_bit 24 (ucast (m (a + 3)))"

fun store_words :: "addr \<Rightarrow> 32 word list \<Rightarrow> (addr \<Rightarrow> byte) \<Rightarrow> addr \<Rightarrow> byte" where
  "store_words a [] m = m"
| "store_words a (w # ws) m = store_words (a + 4) ws (store32 a w m)"

section \<open>The initial stack frame\<close>

definition CORTEX_M_DEFAULT_XPSR :: "32 word" where
  "CORTEX_M_DEFAULT_XPSR = 0x01000000"

definition CORTEX_M_EXC_RETURN_THREAD_PSP :: "32 word" where
  "CORTEX_M_EXC_RETURN_THREAD_PSP = 0xFFFFFFFD"

text \<open>The fields of \<open>CortexM4StackFrame\<close> in the order of the structure.\<close>

definition cortex_m4_frame :: "addr \<Rightarrow> addr \<Rightarrow> 32 word list" where
  "cortex_m4_frame entry param =
     [0x04040404, 0x05050505, 0x06060606, 0x07070707, 0x08080808, 0x09090909, 0x10101010, 0x11111111,
      CORTEX_M_EXC_RETURN_THREAD_PSP,
      param, 0, 0, 0, 0, 0, entry, CORTEX_M_DEFAULT_XPSR]"

text \<open>\<open>sertos_port_stack_init\<close>: align the top, reserve the frame below it, fill in its words.\<close>

definition framed_stack_init ::
  "(addr \<Rightarrow> addr \<Rightarrow> 32 word list) \<Rightarrow> addr \<Rightarrow> addr \<Rightarrow> addr \<Rightarrow> addr \<Rightarrow> (addr \<Rightarrow> byte) \<Rightarrow>
   addr \<times> (addr \<Rightarrow> byte)" where
  "framed_stack_init frame stack_top stack_limit entry param m =
     (if stack_top = NULL then (NULL, m)
      else let top_addr = align_down stack_top - 4 * of_nat (length (frame entry param))
           in (top_addr, store_words top_addr (frame entry param) m))"

abbreviation cortex_m4_stack_init :: "addr \<Rightarrow> addr \<Rightarrow> addr \<Rightarrow> addr \<Rightarrow> (addr \<Rightarrow> byte) \<Rightarrow> addr \<times> (addr \<Rightarrow> byte)" where
  "cortex_m4_stack_init \<equiv> framed_stack_init cortex_m4_frame"

section \<open>Critical sections and the tick timer\<close>

record cortex_port =
  cm_primask :: "32 word"
  s_critical_nesting :: "32 word"
  cm_regs :: "addr \<Rightarrow> 32 word"
  s_runtime_dwt_ok :: bool

definition cortex_m_enter_critical :: "cortex_port \<Rightarrow> 32 word \<times> cortex_port" where
  "cortex_m_enter_critical p =
     (cm_primask p, p\<lparr>cm_primask := 1, s_critical_nesting := s_critical_nesting p + 1\<rparr>)"

definition cortex_m_exit_critical :: "32 word \<Rightarrow> cortex_port \<Rightarrow> cortex_port" where
  "cortex_m_exit_critical status p =
     (if 0 < s_critical_nesting p
      then let p1 = p\<lparr>s_critical_nesting := s_critical_nesting p - 1\<rparr>
           in if s_critical_nesting p1 = 0 then p1\<lparr>cm_primask := status\<rparr> else p1
      else p)"

definition CORTEX_M_SYSTICK_MAX_RELOAD_COUNTS :: "32 word" where
  "CORTEX_M_SYSTICK_MAX_RELOAD_COUNTS = 0x01000000"

text \<open>\<open>None\<close> is the result false; the reload value is the output parameter (never NULL in the ports).\<close>

definition cortex_m_systick :: "32 word \<Rightarrow> 32 word \<Rightarrow> 32 word option" where
  "cortex_m_systick timer_clock_hz tick_rate_hz =
     (if timer_clock_hz = 0 \<or> tick_rate_hz = 0 then None
      else let counts_per_tick = timer_clock_hz div tick_rate_hz
           in if counts_per_tick = 0 \<or> CORTEX_M_SYSTICK_MAX_RELOAD_COUNTS < counts_per_tick then None
              else Some (counts_per_tick - 1))"

definition cortex_m_tick_init :: "32 word \<Rightarrow> 32 word \<Rightarrow> cortex_port \<Rightarrow> SertosStatus \<times> cortex_port" where
  "cortex_m_tick_init tick_clock_hz tick_rate_hz p =
     (case cortex_m_systick tick_clock_hz tick_rate_hz of
        None \<Rightarrow> (SERTOS_STATUS_ERROR_INVALID_PARAM, p)
      | Some reload_value \<Rightarrow>
          (SERTOS_STATUS_OK, p\<lparr>cm_regs := (cm_regs p)(
             0xE000ED20 := cm_regs p 0xE000ED20 OR 0x00FF0000,
             0xE000E014 := reload_value,
             0xE000E018 := 0,
             0xE000E010 := push_bit 2 1 OR push_bit 1 1 OR push_bit 0 1)\<rparr>))"

definition cortex_m_yield :: "cortex_port \<Rightarrow> cortex_port" where
  "cortex_m_yield p = p\<lparr>cm_regs := (cm_regs p)(0xE000ED04 := push_bit 28 1)\<rparr>"

section \<open>The cycle counter\<close>

text \<open>Reading the counter takes time: \<open>hw\<close> is what the hardware does to its registers during one round of the
  waiting loop.\<close>

fun dwt_spin :: "(cortex_port \<Rightarrow> cortex_port) \<Rightarrow> nat \<Rightarrow> cortex_port \<Rightarrow> cortex_port" where
  "dwt_spin hw 0 p = p"
| "dwt_spin hw (Suc n) p = dwt_spin hw n (hw p)"

definition cortex_m_dwt_init :: "(cortex_port \<Rightarrow> cortex_port) \<Rightarrow> cortex_port \<Rightarrow> cortex_port" where
  "cortex_m_dwt_init hw p =
     (let p1 = p\<lparr>cm_regs := (cm_regs p)(0xE000EDFC := cm_regs p 0xE000EDFC OR push_bit 24 1)\<rparr>;
          p2 = p1\<lparr>cm_regs := (cm_regs p1)(0xE0001004 := 0)\<rparr>;
          p3 = p2\<lparr>cm_regs := (cm_regs p2)(0xE0001000 := cm_regs p2 0xE0001000 OR push_bit 0 1)\<rparr>;
          start = cm_regs p3 0xE0001004;
          p4 = dwt_spin hw 8 p3
      in p4\<lparr>s_runtime_dwt_ok := (cm_regs p4 0xE0001004 \<noteq> start)\<rparr>)"

definition cortex_m_dwt_counter ::
  "('b, 'r, 'm, cortex_port) env \<Rightarrow> ('b, 'r, 'm, cortex_port) kstate \<Rightarrow> 32 word" where
  "cortex_m_dwt_counter E s =
     (if s_runtime_dwt_ok (port s) then cm_regs (port s) 0xE0001004 else sertos_scheduler_get_tick_count E s)"

section \<open>The tick interrupt and the end of scheduling\<close>

definition SysTick_Handler ::
  "('b, 'r, 'm, 'p) env \<Rightarrow> ('b, 'r, 'm, 'p) kstate \<Rightarrow> ('b, 'r, 'm, 'p) kstate option" where
  "SysTick_Handler E s = (if sertos_scheduler_is_running s then sertos_scheduler_tick E s else Some s)"

definition cortex_m_request_reset :: "cortex_port \<Rightarrow> cortex_port" where
  "cortex_m_request_reset p = p\<lparr>cm_regs := (cm_regs p)(0xE000E010 := 0, 0xE000ED0C := 0x05FA0000 OR push_bit 2 1)\<rparr>"

text \<open>The loop that waits for the reset never ends.\<close>

partial_function (option) wfi_loop :: "'s \<Rightarrow> 's option" where
  "wfi_loop s = wfi_loop s"

definition cortex_m_stop_scheduler ::
  "('b, 'r, 'm, cortex_port) kstate \<Rightarrow> ('b, 'r, 'm, cortex_port) kstate option" where
  "cortex_m_stop_scheduler s = wfi_loop (s\<lparr>port := cortex_m_request_reset (port s)\<rparr>)"

section \<open>The contract of a critical section\<close>

locale critical_section =
  fixes enter :: "'p \<Rightarrow> 32 word \<times> 'p"
    and leave :: "32 word \<Rightarrow> 'p \<Rightarrow> 'p"
    and masked :: "'p \<Rightarrow> bool"
    and depth :: "'p \<Rightarrow> nat"
    and wf :: "'p \<Rightarrow> bool"
  assumes enter_masked: "masked (snd (enter p))"
    and enter_depth: "Suc (depth p) < 2 ^ 32 \<Longrightarrow> depth (snd (enter p)) = Suc (depth p)"
    and wf_masked: "wf p \<Longrightarrow> 0 < depth p \<Longrightarrow> masked p"
    and enter_wf: "wf p \<Longrightarrow> wf (snd (enter p))"
    and leave_outer: "depth q = 1 \<Longrightarrow> masked (leave (fst (enter p)) q) = masked p"
    and leave_inner: "1 < depth q \<Longrightarrow> masked (leave st q) = masked q"
    and leave_depth: "depth (leave st q) = depth q - 1"
    and leave_wf: "wf q \<Longrightarrow> wf (leave st q)"

context critical_section
begin

text \<open>A section around code that balances its own sections restores the mask of its entry.\<close>

lemma section_restores:
  assumes p: "wf p" "Suc (depth p) < 2 ^ 32" and q: "wf q" "depth q = depth (snd (enter p))"
  shows "masked (leave (fst (enter p)) q) = masked p \<and> depth (leave (fst (enter p)) q) = depth p"
proof (cases "depth p = 0")
  case True
  then show ?thesis using leave_outer [of q p] leave_depth enter_depth [OF p(2)] q(2) by simp
next
  case False
  then have "masked p" "masked q" using wf_masked p(1) q enter_depth [OF p(2)] by auto
  then show ?thesis using leave_inner [of q] leave_depth enter_depth [OF p(2)] q(2) False by simp
qed

end

definition cortex_wf :: "cortex_port \<Rightarrow> bool" where
  "cortex_wf p \<longleftrightarrow> (0 < s_critical_nesting p \<longrightarrow> cm_primask p \<noteq> 0)"

section \<open>Lemmas\<close>

lemma load_store32: "load32 a (store32 a w m) = w"
proof -
  have "a \<noteq> a + 1" "a \<noteq> a + 2" "a \<noteq> a + 3" "a + 1 \<noteq> a + 2" "a + 1 \<noteq> a + 3" "a + 2 \<noteq> a + 3" by simp_all
  then have "load32 a (store32 a w m) = ucast (ucast w :: byte) OR push_bit 8 (ucast (ucast (drop_bit 8 w) :: byte)) OR
      push_bit 16 (ucast (ucast (drop_bit 16 w) :: byte)) OR push_bit 24 (ucast (ucast (drop_bit 24 w) :: byte))"
    by (simp add: load32_def store32_def)
  also have "\<dots> = w"
  proof (rule bit_word_eqI)
    fix n assume "n < LENGTH(32)"
    then show "bit (ucast (ucast w :: byte) OR push_bit 8 (ucast (ucast (drop_bit 8 w) :: byte)) OR
      push_bit 16 (ucast (ucast (drop_bit 16 w) :: byte)) OR push_bit 24 (ucast (ucast (drop_bit 24 w) :: byte)) :: 32 word) n
        = bit w n"
      by (cases "n < 8"; cases "n < 16"; cases "n < 24") (auto simp: bit_simps)
  qed
  finally show ?thesis .
qed

lemma store32_other:
  assumes "unat a + 4 \<le> 2 ^ 32" and "unat x < unat a \<or> unat a + 4 \<le> unat x"
  shows "store32 a w m x = m x"
proof -
  have "unat (a + of_nat k) = unat a + k" if "k < 4" for k
    using that assms(1) by (intro unat_add_of_nat) simp
  from this [of 0] this [of 1] this [of 2] this [of 3]
  have "x \<noteq> a" "x \<noteq> a + 1" "x \<noteq> a + 2" "x \<noteq> a + 3" using assms(2) by auto
  then show ?thesis by (simp add: store32_def)
qed

lemma store_words_other:
  assumes "unat a + 4 * length ws \<le> 2 ^ 32" and "unat x < unat a \<or> unat a + 4 * length ws \<le> unat x"
  shows "store_words a ws m x = m x"
  using assms
proof (induction ws arbitrary: a m)
  case (Cons w ws)
  have s: "store32 a w m x = m x" by (rule store32_other) (use Cons.prems in auto)
  show ?case
  proof (cases ws)
    case Nil
    then show ?thesis using s by simp
  next
    case (Cons v vs)
    have "unat (a + of_nat 4) = unat a + 4"
      using Cons.prems(1) Cons by (intro unat_add_of_nat) simp
    then have "store_words (a + 4) ws (store32 a w m) x = store32 a w m x"
      by (intro Cons.IH) (use Cons.prems in auto)
    then show ?thesis using s by simp
  qed
qed simp

lemma store_words_nth:
  assumes "unat a + 4 * length ws \<le> 2 ^ 32" and "i < length ws"
  shows "load32 (a + 4 * of_nat i) (store_words a ws m) = ws ! i"
  using assms
proof (induction ws arbitrary: a m i)
  case (Cons w ws)
  have a4: "unat (a + of_nat 4) = unat a + 4" if "ws \<noteq> []"
    using Cons.prems(1) that by (intro unat_add_of_nat) (cases ws; simp)
  show ?case
  proof (cases i)
    case 0
    have same: "store_words (a + 4) ws (store32 a w m) (a + of_nat k) = store32 a w m (a + of_nat k)" if "k < 4" for k
    proof (cases "ws = []")
      case False
      have "unat (a + of_nat k) = unat a + k" using that Cons.prems(1) by (intro unat_add_of_nat) simp
      then show ?thesis using that a4 [OF False] Cons.prems(1) by (intro store_words_other) auto
    qed simp
    from same [of 0] same [of 1] same [of 2] same [of 3]
    have "load32 a (store_words (a + 4) ws (store32 a w m)) = load32 a (store32 a w m)" by (simp add: load32_def)
    then show ?thesis using 0 by (simp add: load_store32)
  next
    case (Suc j)
    then have ne: "ws \<noteq> []" using Cons.prems(2) by auto
    have "load32 ((a + 4) + 4 * of_nat j) (store_words (a + 4) ws (store32 a w m)) = ws ! j"
      by (rule Cons.IH) (use Cons.prems Suc a4 [OF ne] in auto)
    then show ?thesis using Suc by (simp add: algebra_simps)
  qed
qed simp

lemma cortex_m4_frame_length [simp]: "length (cortex_m4_frame e p) = 17"
  by (simp add: cortex_m4_frame_def)

lemma align_down_aligned:
  assumes "a mod SERTOS_CONFIG_STACK_ALIGNMENT_BYTES = 0" shows "align_down a = a"
proof -
  have "unat a mod 8 = 0" using assms by (simp add: SERTOS_CONFIG_STACK_ALIGNMENT_BYTES_def word_unat_eq_iff unat_mod)
  then show ?thesis by (simp add: word_unat_eq_iff align_down_unat)
qed

locale framed_stack =
  fixes frame :: "addr \<Rightarrow> addr \<Rightarrow> 32 word list" and frame_bytes :: nat
  assumes frame_length: "4 * length (frame entry param) = frame_bytes"
    and frame_small: "frame_bytes \<le> unat SERTOS_CONFIG_MINIMAL_STACK_SIZE"
begin

lemma framed_sp:
  assumes "t \<noteq> NULL" "t mod SERTOS_CONFIG_STACK_ALIGNMENT_BYTES = 0" "frame_bytes \<le> unat t"
  shows "unat (t - of_nat frame_bytes) = unat t - frame_bytes"
    "framed_stack_init frame t l e p m = (t - of_nat frame_bytes, store_words (t - of_nat frame_bytes) (frame e p) m)"
    "unat (t - of_nat frame_bytes) + 4 * length (frame e p) \<le> 2 ^ 32"
proof -
  have t: "unat t < 2 ^ LENGTH(32)" by (rule unsigned_less)
  have n: "unat (of_nat frame_bytes :: addr) = frame_bytes" using t assms(3) by (simp add: unat_of_nat)
  then have "(of_nat frame_bytes :: addr) \<le> t" using assms(3) by (simp add: word_le_nat_alt)
  then show sp: "unat (t - of_nat frame_bytes) = unat t - frame_bytes" by (simp add: unat_sub n)
  have "(4 :: addr) * of_nat (length (frame e p)) = of_nat frame_bytes" using frame_length [of e p] by (metis of_nat_mult of_nat_numeral)
  then show "framed_stack_init frame t l e p m = (t - of_nat frame_bytes, store_words (t - of_nat frame_bytes) (frame e p) m)"
    using assms by (simp add: framed_stack_init_def align_down_aligned Let_def)
  show "unat (t - of_nat frame_bytes) + 4 * length (frame e p) \<le> 2 ^ 32" using sp t assms(3) frame_length [of e p] by simp
qed

lemma framed_word:
  assumes "t \<noteq> NULL" "t mod SERTOS_CONFIG_STACK_ALIGNMENT_BYTES = 0" "frame_bytes \<le> unat t" "i < length (frame e p)"
  shows "load32 (fst (framed_stack_init frame t l e p m) + 4 * of_nat i) (snd (framed_stack_init frame t l e p m)) = frame e p ! i"
  using framed_sp [OF assms(1-3)] assms(4) by (simp add: store_words_nth)

end

sublocale framed_stack \<subseteq> stack_port "framed_stack_init frame" frame_bytes
proof
  fix t l e p x :: addr and m :: "addr \<Rightarrow> byte"
  assume t: "t \<noteq> NULL" "t mod SERTOS_CONFIG_STACK_ALIGNMENT_BYTES = 0" "frame_bytes \<le> unat t"
  show "unat (fst (framed_stack_init frame t l e p m)) = unat t - frame_bytes" using framed_sp [OF t] by simp
  assume "unat x < unat t - frame_bytes \<or> unat t \<le> unat x"
  then show "snd (framed_stack_init frame t l e p m) x = m x"
    using framed_sp(1) [OF t] framed_sp(2) [OF t, of l e p m] framed_sp(3) [OF t, of e p] t(3) frame_length [of e p] by (simp add: store_words_other)
qed (rule frame_small)

interpretation m4_stack: framed_stack cortex_m4_frame 68
  by unfold_locales (simp_all add: SERTOS_CONFIG_MINIMAL_STACK_SIZE_def)

interpretation cm_critical: critical_section cortex_m_enter_critical cortex_m_exit_critical
  "\<lambda>p. cm_primask p \<noteq> 0" "\<lambda>p. unat (s_critical_nesting p)" cortex_wf
proof
  fix p q :: cortex_port and st :: "32 word"
  show "cm_primask (snd (cortex_m_enter_critical p)) \<noteq> 0" by (simp add: cortex_m_enter_critical_def)
  show "unat (s_critical_nesting (snd (cortex_m_enter_critical p))) = Suc (unat (s_critical_nesting p))"
    if "Suc (unat (s_critical_nesting p)) < 2 ^ 32"
    using that by (simp add: cortex_m_enter_critical_def unat_word_ariths)
  show "cm_primask p \<noteq> 0" if "cortex_wf p" "0 < unat (s_critical_nesting p)"
    using that by (simp add: cortex_wf_def word_less_nat_alt)
  show "cortex_wf (snd (cortex_m_enter_critical p))" by (simp add: cortex_wf_def cortex_m_enter_critical_def)
  show "(cm_primask (cortex_m_exit_critical (fst (cortex_m_enter_critical p)) q) \<noteq> 0) = (cm_primask p \<noteq> 0)"
    if "unat (s_critical_nesting q) = 1"
  proof -
    have "s_critical_nesting q = 1" using that by (simp add: word_unat_eq_iff)
    then show ?thesis by (simp add: cortex_m_exit_critical_def cortex_m_enter_critical_def)
  qed
  show "(cm_primask (cortex_m_exit_critical st q) \<noteq> 0) = (cm_primask q \<noteq> 0)"
    if "1 < unat (s_critical_nesting q)"
  proof -
    have "0 < s_critical_nesting q" using that by (simp add: word_less_nat_alt)
    then have "unat (s_critical_nesting q - 1) \<noteq> 0" using that by (simp add: unat_minus_one_pos)
    then have "s_critical_nesting q - 1 \<noteq> 0" by (metis unat_0)
    then show ?thesis by (simp add: cortex_m_exit_critical_def Let_def)
  qed
  show "unat (s_critical_nesting (cortex_m_exit_critical st q)) = unat (s_critical_nesting q) - 1"
    by (auto simp: cortex_m_exit_critical_def Let_def unat_minus_one_pos word_less_nat_alt)
  show "cortex_wf (cortex_m_exit_critical st q)" if "cortex_wf q"
    using that by (auto simp: cortex_m_exit_critical_def cortex_wf_def Let_def)
qed

end
