(* ===== verification/Sertos_Ring.thy ===== *)
theory Sertos_Ring
  imports Sertos_Prelude
begin

text \<open>
  The \<open>ring_buffer\<close> submodule that backs queues and stream buffers. Its sources are not part of the
  repository; the locale \<open>ring\<close> states what its clients rely on: a FIFO of bytes kept in
  a storage area of memory, bounded by a capacity, readable in place at
  \<open>buffer[(tail + i) & mask]\<close> (which \<open>queue_peek_bytes\<close> does). A reference implementation with
  free-running indices over a power-of-two buffer shows that the contract can be met.
\<close>

section \<open>The contract\<close>

definition bytes_at :: "(addr \<Rightarrow> byte) \<Rightarrow> addr \<Rightarrow> nat \<Rightarrow> byte list" where
  "bytes_at m a n = map (\<lambda>i. m (a + of_nat i)) [0..<n]"

definition region :: "addr \<Rightarrow> nat \<Rightarrow> addr set" where
  "region a n = (\<lambda>i. a + of_nat i) ` {..<n}"

locale ring =
  fixes init :: "addr \<Rightarrow> size_t \<Rightarrow> 'r \<Rightarrow> bool \<times> 'r"
    and capacity :: "'r \<Rightarrow> size_t"
    and count :: "'r \<Rightarrow> size_t"
    and wr :: "addr \<Rightarrow> size_t \<Rightarrow> 'r \<Rightarrow> (addr \<Rightarrow> byte) \<Rightarrow> size_t \<times> 'r \<times> (addr \<Rightarrow> byte)"
    and rd :: "addr \<Rightarrow> size_t \<Rightarrow> 'r \<Rightarrow> (addr \<Rightarrow> byte) \<Rightarrow> size_t \<times> 'r \<times> (addr \<Rightarrow> byte)"
    and clear :: "'r \<Rightarrow> 'r"
    and data :: "'r \<Rightarrow> addr"
    and tail :: "'r \<Rightarrow> size_t"
    and msk :: "'r \<Rightarrow> size_t"
    and ok :: "'r \<Rightarrow> bool"
    and storage :: "'r \<Rightarrow> addr set"
    and contents :: "'r \<Rightarrow> (addr \<Rightarrow> byte) \<Rightarrow> byte list"
  assumes init_ok: "0 < e \<Longrightarrow> e < 32 \<Longrightarrow> init a (2 ^ e) r0 = (b, r) \<Longrightarrow>
      b \<and> ok r \<and> contents r m = [] \<and> 2 ^ e - 1 \<le> unat (capacity r) \<and> storage r \<subseteq> region a (2 ^ e)"
    and count_contents: "ok r \<Longrightarrow> unat (count r) = length (contents r m)"
    and count_capacity: "ok r \<Longrightarrow> count r \<le> capacity r"
    and contents_nth: "ok r \<Longrightarrow> i < length (contents r m) \<Longrightarrow>
      contents r m ! i = m (data r + ((tail r + of_nat i) AND msk r))"
    and contents_frame: "ok r \<Longrightarrow> (\<And>x. x \<in> storage r \<Longrightarrow> m' x = m x) \<Longrightarrow> contents r m' = contents r m"
    and write_ok: "ok r \<Longrightarrow> region a (unat n) \<inter> storage r = {} \<Longrightarrow> wr a n r m = (k, r', m') \<Longrightarrow>
      unat k = min (unat n) (unat (capacity r) - unat (count r)) \<and> ok r' \<and> capacity r' = capacity r \<and>
      storage r' = storage r \<and> contents r' m' = contents r m @ bytes_at m a (unat k) \<and>
      (\<forall>x. x \<notin> storage r \<longrightarrow> m' x = m x)"
    and read_ok: "ok r \<Longrightarrow> region a (unat n) \<inter> storage r = {} \<Longrightarrow> rd a n r m = (k, r', m') \<Longrightarrow>
      unat k = min (unat n) (unat (count r)) \<and> ok r' \<and> capacity r' = capacity r \<and> storage r' = storage r \<and>
      contents r' m' = drop (unat k) (contents r m) \<and> bytes_at m' a (unat k) = take (unat k) (contents r m) \<and>
      (\<forall>x. x \<notin> region a (unat k) \<longrightarrow> m' x = m x)"
    and clear_ok: "ok r \<Longrightarrow> ok (clear r) \<and> contents (clear r) m = [] \<and> capacity (clear r) = capacity r \<and>
      storage (clear r) = storage r"

section \<open>A reference implementation\<close>

record ref_ring =
  rr_buf :: addr
  rr_mask :: size_t
  rr_head :: size_t
  rr_tail :: size_t

definition rr_count :: "ref_ring \<Rightarrow> size_t" where
  "rr_count r = rr_head r - rr_tail r"

definition rr_init :: "addr \<Rightarrow> size_t \<Rightarrow> ref_ring \<Rightarrow> bool \<times> ref_ring" where
  "rr_init a n r = (n AND (n - 1) = 0 \<and> 2 \<le> n, \<lparr>rr_buf = a, rr_mask = n - 1, rr_head = 0, rr_tail = 0\<rparr>)"

definition rr_write :: "addr \<Rightarrow> size_t \<Rightarrow> ref_ring \<Rightarrow> (addr \<Rightarrow> byte) \<Rightarrow> size_t \<times> ref_ring \<times> (addr \<Rightarrow> byte)" where
  "rr_write a n r m =
     (let k = min n (rr_mask r - rr_count r)
      in (k, r\<lparr>rr_head := rr_head r + k\<rparr>,
          \<lambda>x. if x - rr_buf r \<le> rr_mask r \<and> (x - rr_buf r - rr_head r) AND rr_mask r < k
              then m (a + ((x - rr_buf r - rr_head r) AND rr_mask r)) else m x))"

definition rr_read :: "addr \<Rightarrow> size_t \<Rightarrow> ref_ring \<Rightarrow> (addr \<Rightarrow> byte) \<Rightarrow> size_t \<times> ref_ring \<times> (addr \<Rightarrow> byte)" where
  "rr_read a n r m =
     (let k = min n (rr_count r)
      in (k, r\<lparr>rr_tail := rr_tail r + k\<rparr>,
          \<lambda>x. if x - a < k then m (rr_buf r + ((rr_tail r + (x - a)) AND rr_mask r)) else m x))"

definition rr_clear :: "ref_ring \<Rightarrow> ref_ring" where
  "rr_clear r = r\<lparr>rr_head := 0, rr_tail := 0\<rparr>"

definition rr_ok :: "ref_ring \<Rightarrow> bool" where
  "rr_ok r \<longleftrightarrow> (\<exists>k. k < 32 \<and> rr_mask r = mask k) \<and> rr_count r \<le> rr_mask r"

definition rr_storage :: "ref_ring \<Rightarrow> addr set" where
  "rr_storage r = {x. x - rr_buf r \<le> rr_mask r}"

definition rr_contents :: "ref_ring \<Rightarrow> (addr \<Rightarrow> byte) \<Rightarrow> byte list" where
  "rr_contents r m = map (\<lambda>i. m (rr_buf r + ((rr_tail r + of_nat i) AND rr_mask r))) [0..<unat (rr_count r)]"

section \<open>Index arithmetic modulo a power of two\<close>

lemma uint_and_mask: "uint ((a :: addr) AND mask k) = uint a mod 2 ^ k"
proof -
  have "uint (a AND mask k) = uint (take_bit k a)" by (simp add: take_bit_eq_mask)
  also have "\<dots> = take_bit k (uint a)" by (rule unsigned_take_bit_eq)
  finally show ?thesis by (simp add: take_bit_eq_mod)
qed

lemma pow_mod_cancel: "k \<le> 32 \<Longrightarrow> (i :: int) mod 2 ^ 32 mod 2 ^ k = i mod 2 ^ k"
  by (rule mod_mod_cancel) (rule le_imp_power_dvd)

lemma uint_add_mod: "k \<le> 32 \<Longrightarrow> uint ((a :: addr) + b) mod 2 ^ k = (uint a + uint b) mod 2 ^ k"
  using pow_mod_cancel [of k "uint a + uint b"] by (simp add: uint_word_ariths(1))

lemma uint_sub_mod: "k \<le> 32 \<Longrightarrow> uint ((a :: addr) - b) mod 2 ^ k = (uint a - uint b) mod 2 ^ k"
  using pow_mod_cancel [of k "uint a - uint b"] by (simp add: uint_word_ariths(2))

text \<open>Slot \<open>t + i\<close> seen from the write position \<open>h\<close>.\<close>

lemma slot_offset:
  assumes "k \<le> 32"
  shows "uint (((((t :: addr) + i) AND mask k) - h) AND mask k) = (uint i - uint (h - t)) mod 2 ^ k"
proof -
  have "uint ((((t + i) AND mask k) - h) AND mask k) = (uint ((t + i) AND mask k) - uint h) mod 2 ^ k"
    unfolding uint_and_mask [of "((t + i) AND mask k) - h"] by (rule uint_sub_mod [OF assms])
  also have "\<dots> = ((uint t + uint i) mod 2 ^ k - uint h) mod 2 ^ k"
    by (simp only: uint_and_mask uint_add_mod [OF assms])
  also have "\<dots> = (uint i - (uint h - uint t)) mod 2 ^ k"
    by (simp add: mod_diff_left_eq algebra_simps)
  also have "\<dots> = (uint i - (uint h - uint t) mod 2 ^ k) mod 2 ^ k" by (simp add: mod_diff_right_eq)
  also have "\<dots> = (uint i - uint (h - t)) mod 2 ^ k"
    by (simp only: uint_sub_mod [OF assms, symmetric] mod_diff_right_eq)
  finally show ?thesis .
qed

lemma uint_mask32: "k < 32 \<Longrightarrow> uint (mask k :: addr) = 2 ^ k - 1"
proof -
  assume "k < 32"
  have "uint (mask k :: addr) = uint (word_of_int (mask k) :: addr)" by (simp add: of_int_mask_eq)
  also have "\<dots> = take_bit 32 (mask k)" by (simp add: unsigned_of_int)
  also have "\<dots> = mask k" using \<open>k < 32\<close> by simp
  finally show ?thesis by (simp add: mask_eq_exp_minus_1)
qed

lemma masked_slot:
  assumes k: "k < 32" and i: "i \<le> mask k"
  shows "(((h + (i :: addr)) AND mask k) - h) AND mask k = i" "(h + i) AND mask k \<le> mask k"
proof -
  have "uint i < 2 ^ k" using i by (simp add: word_le_def uint_mask32 [OF k])
  then have "uint ((((h + i) AND mask k) - h) AND mask k) = uint i"
    using slot_offset [of k h i h] k by (simp add: mod_pos_pos_trivial)
  then show "(((h + i) AND mask k) - h) AND mask k = i" by (simp add: word_uint_eq_iff)
  show "(h + i) AND mask k \<le> mask k" by (simp add: word_and_le1)
qed

text \<open>A slot that still holds unread data is not among the slots the next write fills.\<close>

lemma unread_slot:
  assumes k: "k < 32" and c: "h - t \<le> mask k" and i: "i < h - (t :: addr)" and n: "n \<le> mask k - (h - t)"
  shows "\<not> (((t + i) AND mask k) - h) AND mask k < n"
proof -
  have c': "uint (h - t) \<le> 2 ^ k - 1" and i': "uint i < uint (h - t)"
    using c i by (simp_all add: word_le_def word_less_def uint_mask32 [OF k])
  have n': "uint n \<le> 2 ^ k - 1 - uint (h - t)"
    using n c by (simp add: word_le_def uint_minus_simple_alt [THEN iffD1] uint_mask32 [OF k])
  have "(uint i - uint (h - t)) mod 2 ^ k = 2 ^ k + (uint i - uint (h - t))"
  proof -
    have "0 \<le> uint i" by simp
    then have "(2 ^ k + (uint i - uint (h - t))) mod 2 ^ k = 2 ^ k + (uint i - uint (h - t))"
      using c' i' by (intro mod_pos_pos_trivial) linarith+
    then show ?thesis by simp
  qed
  then have "uint ((((t + i) AND mask k) - h) AND mask k) = 2 ^ k + (uint i - uint (h - t))"
    using slot_offset [of k t i h] k by simp
  then have "uint n \<le> uint ((((t + i) AND mask k) - h) AND mask k)"
    using n' i' uint_nonnegative [of i] by linarith
  then show ?thesis by (simp add: word_less_def)
qed

lemma rr_storage_slot: "rr_mask r = mask k \<Longrightarrow> rr_buf r + (j AND rr_mask r) \<in> rr_storage r"
  by (simp add: rr_storage_def word_and_le1)

lemma rr_contents_len [simp]: "length (rr_contents r m) = unat (rr_count r)"
  by (simp add: rr_contents_def)

lemma of_nat_less_unat: "i < unat (w :: addr) \<Longrightarrow> (of_nat i :: addr) < w"
  by (simp add: word_less_nat_alt unat_of_nat le_less_trans [OF take_bit_nat_less_eq_self])

lemma rr_write_ok:
  assumes ok: "rr_ok r" and disj: "region a (unat n) \<inter> rr_storage r = {}" and w: "rr_write a n r m = (c, r', m')"
  shows "unat c = min (unat n) (unat (rr_mask r) - unat (rr_count r)) \<and> rr_ok r' \<and> rr_mask r' = rr_mask r \<and>
    rr_storage r' = rr_storage r \<and> rr_contents r' m' = rr_contents r m @ bytes_at m a (unat c) \<and>
    (\<forall>x. x \<notin> rr_storage r \<longrightarrow> m' x = m x)"
proof -
  obtain k where k: "k < 32" "rr_mask r = mask k" and le: "rr_count r \<le> mask k" using ok by (auto simp: rr_ok_def)
  have c: "c = min n (mask k - rr_count r)" and r': "r' = r\<lparr>rr_head := rr_head r + c\<rparr>"
    and m': "m' = (\<lambda>x. if x - rr_buf r \<le> mask k \<and> (x - rr_buf r - rr_head r) AND mask k < c
              then m (a + ((x - rr_buf r - rr_head r) AND mask k)) else m x)"
    using w k(2) by (auto simp: rr_write_def Let_def)
  have us: "unat (mask k - rr_count r) = unat (mask k :: addr) - unat (rr_count r)" using le by (simp add: unat_sub)
  have uc: "unat c = min (unat n) (unat (mask k :: addr) - unat (rr_count r))"
    unfolding c us [symmetric] by (simp add: min_def word_le_nat_alt)
  have cnt': "rr_count r' = rr_count r + c" by (simp add: r' rr_count_def)
  have "unat (rr_count r) + unat c \<le> unat (mask k :: addr)" using uc le by (simp add: word_le_nat_alt)
  moreover have "unat (mask k :: addr) < 2 ^ LENGTH(32)" by (rule unsigned_less)
  ultimately have ucnt: "unat (rr_count r') = unat (rr_count r) + unat c" and le': "rr_count r' \<le> mask k"
    unfolding cnt' by (simp_all add: unat_word_ariths word_le_nat_alt)
  have cm: "c \<le> mask k - rr_count r" by (simp add: c)
  have old: "m' (rr_buf r + ((rr_tail r + of_nat i) AND mask k)) = m (rr_buf r + ((rr_tail r + of_nat i) AND mask k))"
    if "i < unat (rr_count r)" for i
  proof -
    have "of_nat i < rr_head r - rr_tail r" using of_nat_less_unat [OF that] by (simp add: rr_count_def)
    then show ?thesis
      using unread_slot [OF k(1), of "rr_head r" "rr_tail r" "of_nat i" c] le cm by (simp add: m' rr_count_def)
  qed
  have new: "m' (rr_buf r + ((rr_tail r + of_nat (unat (rr_count r) + i)) AND mask k)) = m (a + of_nat i)"
    if "i < unat c" for i
  proof -
    have ic: "(of_nat i :: addr) < c" by (rule of_nat_less_unat [OF that])
    have "c \<le> mask k" using uc le by (simp add: word_le_nat_alt)
    then have im: "(of_nat i :: addr) \<le> mask k" using ic by simp
    have "rr_tail r + of_nat (unat (rr_count r) + i) = rr_head r + of_nat i"
      by (simp add: rr_count_def)
    then show ?thesis using masked_slot [OF k(1) im, of "rr_head r"] ic by (simp only: m') simp
  qed
  have "rr_contents r' m' = rr_contents r m @ bytes_at m a (unat c)"
    unfolding rr_contents_def bytes_at_def ucnt upt_add_eq_append [of 0 "unat (rr_count r)" "unat c", simplified]
    using old new k(2) by (auto simp: r' intro!: nth_equalityI simp: nth_append)
  moreover have "m' x = m x" if "x \<notin> rr_storage r" for x
    using that k(2) by (auto simp: m' rr_storage_def)
  moreover have "rr_ok r'" using k le' by (auto simp: rr_ok_def r')
  ultimately show ?thesis using uc k(2) by (auto simp: r' rr_storage_def)
qed

lemma rr_read_ok:
  assumes ok: "rr_ok r" and disj: "region a (unat n) \<inter> rr_storage r = {}" and w: "rr_read a n r m = (c, r', m')"
  shows "unat c = min (unat n) (unat (rr_count r)) \<and> rr_ok r' \<and> rr_mask r' = rr_mask r \<and>
    rr_storage r' = rr_storage r \<and> rr_contents r' m' = drop (unat c) (rr_contents r m) \<and>
    bytes_at m' a (unat c) = take (unat c) (rr_contents r m) \<and> (\<forall>x. x \<notin> region a (unat c) \<longrightarrow> m' x = m x)"
proof -
  obtain k where k: "k < 32" "rr_mask r = mask k" and le: "rr_count r \<le> mask k" using ok by (auto simp: rr_ok_def)
  have c: "c = min n (rr_count r)" and r': "r' = r\<lparr>rr_tail := rr_tail r + c\<rparr>"
    and m': "m' = (\<lambda>x. if x - a < c then m (rr_buf r + ((rr_tail r + (x - a)) AND mask k)) else m x)"
    using w k(2) by (auto simp: rr_read_def Let_def)
  have uc: "unat c = min (unat n) (unat (rr_count r))" unfolding c by (simp add: min_def word_le_nat_alt)
  have cc: "c \<le> rr_count r" by (simp add: c)
  have cnt': "rr_count r' = rr_count r - c" by (simp add: r' rr_count_def)
  have ucnt: "unat (rr_count r') = unat (rr_count r) - unat c" unfolding cnt' using cc by (simp add: unat_sub)
  have le': "rr_count r' \<le> mask k" using le ucnt by (simp add: word_le_nat_alt)
  have out: "m' x = m x" if "x \<notin> region a (unat c)" for x
  proof -
    have "\<not> x - a < c"
    proof
      assume "x - a < c"
      then have "a + of_nat (unat (x - a)) \<in> region a (unat c)"
        unfolding region_def by (intro imageI) (simp add: word_less_nat_alt)
      then show False using that by simp
    qed
    then show ?thesis by (simp add: m')
  qed
  have st: "m' x = m x" if "x \<in> rr_storage r" for x
  proof (rule out)
    have "region a (unat c) \<subseteq> region a (unat n)" using uc by (auto simp: region_def)
    then show "x \<notin> region a (unat c)" using disj that by auto
  qed
  have "rr_contents r' m' = drop (unat c) (rr_contents r m)"
  proof (rule nth_equalityI)
    fix i assume i: "i < length (rr_contents r' m')"
    then have "rr_contents r' m' ! i = m' (rr_buf r + ((rr_tail r + c + of_nat i) AND rr_mask r))"
      by (simp add: rr_contents_def r')
    also have "\<dots> = m (rr_buf r + ((rr_tail r + of_nat (unat c + i)) AND rr_mask r))"
      using st [OF rr_storage_slot [OF k(2)]] by (simp add: add.assoc)
    also have "\<dots> = rr_contents r m ! (unat c + i)"
    proof -
      have "unat c + i < unat (rr_count r)" using i ucnt by simp
      then show ?thesis by (simp add: rr_contents_def nth_upt)
    qed
    finally show "rr_contents r' m' ! i = drop (unat c) (rr_contents r m) ! i" using uc by simp
  qed (simp add: ucnt)
  moreover have "bytes_at m' a (unat c) = take (unat c) (rr_contents r m)"
  proof (rule nth_equalityI)
    fix i assume "i < length (bytes_at m' a (unat c))"
    then have i: "i < unat c" by (simp add: bytes_at_def)
    have "(of_nat i :: addr) < c" by (rule of_nat_less_unat [OF i])
    then show "bytes_at m' a (unat c) ! i = take (unat c) (rr_contents r m) ! i"
      using i uc k(2) by (simp add: bytes_at_def m' rr_contents_def)
  qed (simp add: bytes_at_def uc)
  moreover have "rr_ok r'" using k le' by (auto simp: rr_ok_def r')
  ultimately show ?thesis using uc k(2) out by (auto simp: r' rr_storage_def)
qed

lemma rr_init_ok:
  assumes e: "0 < e" "e < 32" and i: "rr_init a (2 ^ e) r0 = (b, r)"
  shows "b \<and> rr_ok r \<and> rr_contents r m = [] \<and> 2 ^ e - 1 \<le> unat (rr_mask r) \<and> rr_storage r \<subseteq> region a (2 ^ e)"
proof -
  have m: "(2 :: addr) ^ e - 1 = mask e" by (simp add: mask_eq_exp_minus_1)
  have r: "r = \<lparr>rr_buf = a, rr_mask = mask e, rr_head = 0, rr_tail = 0\<rparr>"
    and b: "b \<longleftrightarrow> (2 :: addr) ^ e AND mask e = 0 \<and> (2 :: addr) \<le> 2 ^ e"
    using i by (auto simp: rr_init_def m)
  have "uint ((2 :: addr) ^ e) = 2 ^ e"
  proof -
    have "(2 :: int) ^ e < 2 ^ 32" using e(2) by (intro power_strict_increasing) auto
    then have "take_bit LENGTH(32) ((2 :: int) ^ e) = 2 ^ e" by (intro take_bit_int_eq_self) simp_all
    then have "uint (word_of_int (2 ^ e) :: addr) = 2 ^ e" by (simp only: unsigned_of_int) simp
    then show ?thesis by (simp only: of_int_power of_int_numeral)
  qed
  moreover have "(2 :: int) ^ 1 \<le> 2 ^ e" using e(1) by (intro power_increasing) auto
  ultimately have "b" unfolding b
    by (auto simp: word_le_def word_uint_eq_iff uint_and_mask)
  moreover have um: "unat (mask e :: addr) = 2 ^ e - 1"
    using uint_mask32 [OF e(2)] by (simp add: unat_eq_nat_uint nat_diff_distrib nat_power_eq)
  moreover have "x \<in> region a (2 ^ e)" if "x - a \<le> mask e" for x
  proof -
    have "unat (x - a) \<le> 2 ^ e - 1" using that unfolding word_le_nat_alt um .
    moreover have "(0 :: nat) < 2 ^ e" by simp
    ultimately have "unat (x - a) < 2 ^ e" by linarith
    then have "a + of_nat (unat (x - a)) \<in> region a (2 ^ e)" unfolding region_def by (intro imageI) simp
    then show ?thesis by simp
  qed
  ultimately show ?thesis using e(2)
    by (auto simp: r rr_ok_def rr_count_def rr_contents_def rr_storage_def)
qed

interpretation rr: ring rr_init rr_mask rr_count rr_write rr_read rr_clear rr_buf rr_tail rr_mask rr_ok rr_storage rr_contents
proof (unfold_locales, goal_cases)
  case (1 e a r0 b r m)
  then show ?case by (rule rr_init_ok)
next
  case (5 r m' m)
  obtain k where "rr_mask r = mask k" using 5(1) by (auto simp: rr_ok_def)
  from 5(2) [OF rr_storage_slot [OF this]] show ?case by (simp add: rr_contents_def)
next
  case (6 r a n m k r' m')
  then show ?case by (rule rr_write_ok)
next
  case (7 r a n m k r' m')
  then show ?case by (rule rr_read_ok)
next
  case (8 r m)
  then show ?case by (auto simp: rr_ok_def rr_clear_def rr_count_def rr_contents_def rr_storage_def)
qed (simp_all add: rr_ok_def rr_contents_def)

end
