(* ===== verification/Sertos_Reference.thy ===== *)
theory Sertos_Reference
  imports Sertos_Sched Sertos_Cortex Sertos_Ring
begin

text \<open>
  A concrete environment for the kernel: circular pointer lists, a 32-bit ready bitmap, a plain
  atomic cell, a bump allocator, the reference ring buffer and the Cortex-M4 port. It discharges
  the contracts \<open>linked_list\<close>, \<open>bitmap\<close>, \<open>atomic_cell\<close> and \<open>kernel_env\<close>, so that every property
  stated under them applies to executable definitions, and it provides the small states the
  witnesses evaluate. What happens between a yield and the resumption of the caller, and the timer
  callbacks, stay arguments.
\<close>

section \<open>Lists\<close>

definition ref_list_init :: "lst \<Rightarrow> lheap \<Rightarrow> lheap" where
  "ref_list_init l h = set_cnt l 0 (set_prv (Root l) (Some (Root l)) (set_nxt (Root l) (Some (Root l)) h))"

definition ref_insert_tail :: "lst \<Rightarrow> lnode \<Rightarrow> lheap \<Rightarrow> lheap" where
  "ref_insert_tail l n h = (case prv h (Root l) of
     None \<Rightarrow> h
   | Some p \<Rightarrow> link_before l n (Root l) p h)"

definition ref_remove :: "lst \<Rightarrow> lnode \<Rightarrow> lheap \<Rightarrow> lheap" where
  "ref_remove l n h = (case (prv h n, nxt h n) of
     (Some p, Some q) \<Rightarrow> set_cnt l (cnt h l - 1) (set_prv q (Some p) (set_nxt p (Some q) h))
   | _ \<Rightarrow> h)"

definition ref_peek_head :: "lst \<Rightarrow> lheap \<Rightarrow> lnode option" where
  "ref_peek_head l h = (if nxt h (Root l) = Some (Root l) then None else nxt h (Root l))"

definition ref_is_empty :: "lst \<Rightarrow> lheap \<Rightarrow> bool" where
  "ref_is_empty l h \<longleftrightarrow> nxt h (Root l) = Some (Root l)"

lemma chain_retarget:
  assumes ch: "chain h a xs b" and d: "distinct (a # xs)" "q \<notin> set xs"
    and nx: "\<And>x. x \<noteq> last (a # xs) \<Longrightarrow> x \<in> set (a # xs) \<Longrightarrow> nxt h' x = nxt h x" "nxt h' (last (a # xs)) = Some q"
    and pv: "\<And>x. x \<in> set xs \<Longrightarrow> prv h' x = prv h x" "prv h' q = Some (last (a # xs))"
  shows "chain h' a xs q"
proof (cases xs rule: rev_cases)
  case Nil
  then show ?thesis using nx(2) pv(2) by simp
next
  case (snoc zs z)
  have "chain h a zs z" using ch snoc by (simp add: chain_append)
  moreover have "nxt h' x = nxt h x" if "x \<in> set (a # zs)" for x
    by (rule nx(1)) (use d snoc that in auto)
  then have "chain h' a zs z = chain h a zs z"
    by (rule chain_cong) (use pv(1) snoc in auto)
  ultimately show ?thesis using snoc nx(2) pv(2) by (simp add: chain_append)
qed

lemma ref_insert_dll:
  assumes d: "dll h l ns" and n: "n \<notin> set ns" "\<not> is_Root n"
  shows "dll (ref_insert_tail l n h) l (ns @ [n])"
proof -
  let ?p = "last (Root l # ns)" and ?h = "link_before l n (Root l) (last (Root l # ns)) h"
  have ch: "chain h (Root l) ns (Root l)" and nr: "\<forall>m \<in> set ns. \<not> is_Root m" and dist: "distinct ns"
    using d by (auto simp: dll_def)
  have r: "Root l \<notin> set ns" "n \<noteq> Root l" using nr n(2) Root_in_nodes [OF nr] by auto
  have eq: "ref_insert_tail l n h = ?h" using chain_prv_last [OF ch] by (simp add: ref_insert_tail_def)
  have pn: "?p \<noteq> n" using n r by (auto dest: last_in_set)
  have "chain ?h (Root l) ns n"
    by (rule chain_retarget [OF ch]) (use r dist n pn in \<open>auto simp: link_before_def dest: last_in_set\<close>)
  moreover have "nxt ?h n = Some (Root l)" "prv ?h (Root l) = Some n"
    using pn r by (auto simp: link_before_def)
  ultimately show ?thesis
    unfolding eq using d n by (auto simp: dll_def chain_append link_before_def)
qed

lemma ref_remove_dll:
  assumes d: "dll h l ns" and n: "n \<in> set ns"
  shows "dll (ref_remove l n h) l (remove1 n ns)"
proof -
  obtain xs ys where ns: "ns = xs @ n # ys" using n by (meson split_list)
  let ?p = "last (Root l # xs)" and ?q = "hd (ys @ [Root l])"
  let ?h = "set_cnt l (cnt h l - 1) (set_prv ?q (Some ?p) (set_nxt ?p (Some ?q) h))"
  have ch: "chain h (Root l) xs n" "chain h n ys (Root l)" and nr: "\<forall>m \<in> set ns. \<not> is_Root m" and dist: "distinct ns"
    using d ns by (auto simp: dll_def chain_append)
  have r: "Root l \<notin> set ns" using nr Root_in_nodes [OF nr] by auto
  have eq: "ref_remove l n h = ?h"
    using dll_nxt [of h l xs n ys] dll_prv [of h l xs n ys] d ns by (simp add: ref_remove_def)
  have q: "?q \<notin> set xs" using r ns dist by (cases ys) auto
  have p: "?p \<notin> set (n # ys)" using r ns dist by (auto dest: last_in_set)
  have c1: "chain ?h (Root l) xs ?q"
    by (rule chain_retarget [OF ch(1)]) (use r dist ns q in auto)
  have "chain ?h (Root l) (xs @ ys) (Root l)"
  proof (cases ys)
    case Nil
    then show ?thesis using c1 by simp
  next
    case (Cons w ws)
    have "chain ?h w ws (Root l) = chain h w ws (Root l)"
      by (rule chain_cong) (use p r ns dist Cons in auto)
    then show ?thesis using c1 ch(2) Cons by (simp add: chain_append)
  qed
  moreover have "remove1 n ns = xs @ ys" using dist ns by (simp add: remove1_append)
  ultimately show ?thesis unfolding eq using d ns by (auto simp: dll_def)
qed

interpretation ref_list: linked_list ref_list_init ref_insert_tail ref_remove ref_peek_head ref_is_empty
proof (unfold_locales, goal_cases)
  case (1 l h)
  then show ?case by (simp add: dll_Nil ref_list_init_def)
next
  case (2 l h)
  then show ?case by (simp add: same_links_def same_counts_def ref_list_init_def)
next
  case (3 h l ns n)
  then show ?case by (rule ref_insert_dll)
next
  case (4 h l ns n)
  then have "prv h (Root l) = Some (last (Root l # ns))" by (auto simp: dll_def dest: chain_prv_last)
  then show ?case by (auto simp: same_links_def same_counts_def ref_insert_tail_def link_before_def)
next
  case (5 h l ns n)
  then show ?case by (rule ref_remove_dll)
next
  case (6 h l ns n)
  then obtain xs ys where ns: "ns = xs @ n # ys" by (meson split_list)
  have "hd (ys @ [Root l]) \<in> insert (Root l) (set ns)" using ns by (cases ys) auto
  moreover have "last (Root l # xs) \<in> insert (Root l) (set ns)" using ns by auto
  ultimately show ?case
    using dll_nxt [of h l xs n ys] dll_prv [of h l xs n ys] 6(1) ns
    by (auto simp: same_links_def same_counts_def ref_remove_def)
next
  case (7 h l ns)
  then have "nxt h (Root l) = Some (hd (ns @ [Root l]))" by (auto simp: dll_def dest: chain_nxt_hd)
  moreover have "hd ns \<noteq> Root l" if "ns \<noteq> []"
    using 7 that by (cases ns) (auto simp: dll_def)
  ultimately show ?case by (cases ns) (auto simp: ref_peek_head_def)
next
  case (8 h l ns)
  then have "nxt h (Root l) = Some (hd (ns @ [Root l]))" by (auto simp: dll_def dest: chain_nxt_hd)
  moreover have "hd ns \<noteq> Root l" if "ns \<noteq> []"
    using 8 that by (cases ns) (auto simp: dll_def)
  ultimately show ?case by (cases ns) (auto simp: ref_is_empty_def)
qed

section \<open>Bitmap, cells, allocator\<close>

type_synonym ref_state = "(32 word, ref_ring, addr, cortex_port) kstate"
type_synonym ref_envt = "(32 word, ref_ring, addr, cortex_port) env"

definition ref_bits :: "32 word \<Rightarrow> nat set" where
  "ref_bits b = {p. bit b p}"

definition ref_find_last_set :: "32 word \<Rightarrow> nat option" where
  "ref_find_last_set b = (case filter (bit b) (rev [0..<32]) of [] \<Rightarrow> None | p # _ \<Rightarrow> Some p)"

lemma ref_find_last_set_Some:
  assumes "bit b p" "p < 32" "\<And>q. bit b q \<Longrightarrow> q \<le> p"
  shows "ref_find_last_set b = Some p"
proof -
  have "[0..<32] = [0..<p] @ p # [Suc p..<32]"
    using assms(2) by (metis append_Cons append_Nil le_eq_less_or_eq not_less0 not_less_eq upt_conv_Cons
        upt_add_eq_append le_add_diff_inverse less_imp_le zero_le)
  then have "rev [0..<32] = rev [Suc p..<32] @ p # rev [0..<p]" by simp
  moreover have "filter (bit b) (rev [Suc p..<32]) = []" using assms(3) by (fastforce simp: filter_empty_conv)
  ultimately show ?thesis using assms(1) by (simp add: ref_find_last_set_def)
qed

interpretation ref_bitmap: bitmap "\<lambda>n (b :: 32 word). (True, 0)" "\<lambda>p b. set_bit p b" "\<lambda>p b. unset_bit p b"
  ref_find_last_set ref_bits
proof (unfold_locales, goal_cases)
  case (2 p b)
  then show ?case by (auto simp: ref_bits_def SERTOS_CONFIG_MAX_PRIORITIES_def bit_simps)
next
  case (4 b)
  then show ?case by (simp add: ref_bits_def ref_find_last_set_def)
next
  case (5 b p)
  then show ?case
    by (intro ref_find_last_set_Some) (auto simp: ref_bits_def SERTOS_CONFIG_MAX_PRIORITIES_def)
qed (auto simp: ref_bits_def bit_simps)

definition ref_malloc :: "size_t \<Rightarrow> addr \<Rightarrow> addr \<times> addr" where
  "ref_malloc n next_free = (let a = align_down (next_free + 7) in if a + n < a then (NULL, next_free) else (a, a + n))"

section \<open>The environment\<close>

definition ref_env :: "(ref_state \<Rightarrow> ref_state option) \<Rightarrow> (addr \<Rightarrow> addr \<Rightarrow> addr \<Rightarrow> ref_state \<Rightarrow> ref_state option) \<Rightarrow> ref_envt" where
  "ref_env yield_fn timer_fn = \<lparr>
     linked_list_init = ref_list_init,
     linked_list_insert_tail_direct = ref_insert_tail,
     linked_list_remove_direct = ref_remove,
     linked_list_peek_head = ref_peek_head,
     linked_list_is_empty = ref_is_empty,
     bitmap_init = (\<lambda>n b. (True, 0)),
     bitmap_set_bit = (\<lambda>p b. set_bit p b),
     bitmap_clear_bit = (\<lambda>p b. unset_bit p b),
     bitmap_find_last_set = ref_find_last_set,
     atomic_init_size_t = (\<lambda>v. v),
     atomic_load_relaxed = (\<lambda>c. c),
     atomic_load_acquire = (\<lambda>c. c),
     atomic_store_relaxed = (\<lambda>c v. v),
     memory_pool_malloc = ref_malloc,
     memory_pool_free = (\<lambda>a m. m),
     ring_buffer_init = rr_init,
     ring_buffer_capacity = rr_mask,
     ring_buffer_count = rr_count,
     ring_buffer_write = rr_write,
     ring_buffer_read = rr_read,
     ring_buffer_clear = rr_clear,
     ring_buffer_is_empty = (\<lambda>r. rr_count r = 0),
     ring_buffer_is_full = (\<lambda>r. rr_count r = rr_mask r),
     ring_buffer_tail = rr_tail,
     ring_buffer_data = rr_buf,
     ring_buffer_mask = rr_mask,
     crc_32_calculate = (\<lambda>bs. 0),
     tcb_bytes_up_to_magic = (\<lambda>a t h. []),
     sertos_port_enter_critical = cortex_m_enter_critical,
     sertos_port_exit_critical = cortex_m_exit_critical,
     sertos_port_stack_init = cortex_m4_stack_init,
     sertos_port_task_create_hook = (\<lambda>a c p. (c, p)),
     sertos_port_task_delete_hook = (\<lambda>a c p. (c, p)),
     sertos_port_tick_init = cortex_m_tick_init 25000000,
     sertos_port_runtime_counter_init = (\<lambda>p. p),
     sertos_port_runtime_counter = (\<lambda>s. s_system_ticks s),
     sertos_port_yield = yield_fn,
     sertos_port_start_first_task = yield_fn,
     sertos_port_stop_scheduler = (\<lambda>s. None),
     call_hook = (\<lambda>f s. Some s),
     call_timer_callback = timer_fn,
     port_is_host = False,
     s_idle_tcb = 0x20000000,
     s_idle_stack = 0x20001000,
     idle_task_entry_addr = 0x8000100,
     sizeof_tcb = 128, sizeof_semaphore = 32, sizeof_mutex = 32, sizeof_queue = 64,
     sizeof_stream_buffer = 64, sizeof_timer = 64\<rparr>"

lemma ref_kernel_env: "kernel_env (ref_env y t) ref_bits"
proof -
  have "linked_list (linked_list_init (ref_env y t)) (linked_list_insert_tail_direct (ref_env y t))
      (linked_list_remove_direct (ref_env y t)) (linked_list_peek_head (ref_env y t)) (linked_list_is_empty (ref_env y t))"
    by (simp add: ref_env_def ref_list.linked_list_axioms)
  moreover have "bitmap (bitmap_init (ref_env y t)) (bitmap_set_bit (ref_env y t)) (bitmap_clear_bit (ref_env y t))
      (bitmap_find_last_set (ref_env y t)) ref_bits"
    by (simp add: ref_env_def ref_bitmap.bitmap_axioms)
  moreover have "atomic_cell (atomic_init_size_t (ref_env y t)) (atomic_load_relaxed (ref_env y t))
      (atomic_load_acquire (ref_env y t)) (atomic_store_relaxed (ref_env y t))"
    by unfold_locales (simp_all add: ref_env_def)
  ultimately show ?thesis by (rule kernel_env.intro)
qed

interpretation ref: kernel_env "ref_env y t" ref_bits for y t
  by (rule ref_kernel_env)

section \<open>Small kernel states\<close>

text \<open>A state is described by the control blocks and by the nodes linked into each list, in order.\<close>

type_synonym layout = "(lst \<times> lnode) list"

definition blank_heap :: lheap where
  "blank_heap = \<lparr>nxt = (\<lambda>n. case n of Root l \<Rightarrow> Some (Root l) | _ \<Rightarrow> None),
     prv = (\<lambda>n. case n of Root l \<Rightarrow> Some (Root l) | _ \<Rightarrow> None), cnt = (\<lambda>l. 0)\<rparr>"

fun heap_of :: "layout \<Rightarrow> lheap" where
  "heap_of [] = blank_heap"
| "heap_of ((l, n) # ops) = ref_insert_tail l n (heap_of ops)"

definition lists_of :: "layout \<Rightarrow> lmap" where
  "lists_of ops l = Some (rev (map snd (filter (\<lambda>(k, n). k = l) ops)))"

fun ready_bits :: "layout \<Rightarrow> 32 word" where
  "ready_bits [] = 0"
| "ready_bits ((l, n) # ops) = (case l of ReadyQ p \<Rightarrow> set_bit p (ready_bits ops) | _ \<Rightarrow> ready_bits ops)"

definition op_ok :: "(addr \<Rightarrow> tcb) \<Rightarrow> layout \<Rightarrow> lst \<Rightarrow> lnode \<Rightarrow> bool" where
  "op_ok T ops l n = (list_typed l n \<and> \<not> is_Root n \<and> (case n of
       StateNode a \<Rightarrow> (case l of
           ReadyQ p \<Rightarrow> p < SERTOS_CONFIG_MAX_PRIORITIES \<and> unat (tcb_priority (T a)) = p \<and> tcb_wait_list (T a) = None
         | DelayList \<Rightarrow> unat (tcb_priority (T a)) < SERTOS_CONFIG_MAX_PRIORITIES \<and>
             (case tcb_wait_list (T a) of None \<Rightarrow> True | Some wl \<Rightarrow> is_wait_list wl \<and> (wl, EventNode a) \<in> set ops)
         | _ \<Rightarrow> True)
     | EventNode a \<Rightarrow> tcb_wait_list (T a) = Some l \<and> unat (tcb_priority (T a)) < SERTOS_CONFIG_MAX_PRIORITIES \<and>
         (if 0 < tcb_delay_ticks (T a) then (DelayList, StateNode a) \<in> set ops
          else StateNode a \<notin> snd ` set ops)
     | _ \<Rightarrow> True))"

definition layout_ok :: "(addr \<Rightarrow> tcb) \<Rightarrow> layout \<Rightarrow> bool" where
  "layout_ok T ops \<longleftrightarrow> distinct (map snd ops) \<and> list_all (\<lambda>(l, n). op_ok T ops l n) ops"

definition idle_port :: cortex_port where
  "idle_port = \<lparr>cm_primask = 0, s_critical_nesting = 0, cm_regs = (\<lambda>a. 0), s_runtime_dwt_ok = False\<rparr>"

definition demo_tcb :: "SertosPriority \<Rightarrow> SertosTaskState \<Rightarrow> tcb" where
  "demo_tcb prio st = \<lparr>tcb_stack_ptr = 0, tcb_stack_base = 0, tcb_stack_size = 0, tcb_stack_limit = 0,
     tcb_state = st, tcb_priority = prio, tcb_base_priority = prio, tcb_delay_ticks = 0,
     tcb_entry_func = 0, tcb_param = 0, tcb_name = None, tcb_wait_list = None, tcb_is_statically_allocated = True,
     tcb_magic = SERTOS_TASK_MAGIC_WORD, tcb_port_context = 0, tcb_run_time_total = 0,
     tcb_run_time_last_entry = 0, tcb_switch_in_count = 0\<rparr>"

definition demo_ring :: ref_ring where
  "demo_ring = \<lparr>rr_buf = 0x1000, rr_mask = 7, rr_head = 0, rr_tail = 0\<rparr>"

definition demo_state :: "layout \<Rightarrow> (addr \<Rightarrow> tcb) \<Rightarrow> addr \<Rightarrow> ref_state" where
  "demo_state ops T cur = \<lparr>
     s_ready_bitmap = ready_bits ops, list_heap = heap_of ops, sertos_current_tcb = cur, s_is_running = True,
     s_lock_nesting = 0, s_reschedule_pending = False, s_system_ticks = 0, s_tick_rate_hz = 1000,
     s_time_slicing_enabled = True, s_tick_hook = 0, s_idle_hook = 0, tcbs = T,
     sems = (\<lambda>a. \<lparr>sem_count = 0, sem_max_count = 1, sem_is_statically_allocated = True, sem_magic = SERTOS_SEM_MAGIC_WORD\<rparr>),
     mutexes = (\<lambda>a. \<lparr>mtx_owner = 0, mtx_lock_count = 0, mtx_original_owner_priority = 0,
       mtx_is_statically_allocated = True, mtx_magic = SERTOS_MUTEX_MAGIC_WORD\<rparr>),
     queues = (\<lambda>a. \<lparr>q_ring_buf = demo_ring, q_item_size = 2, q_max_items = 3, q_storage_buffer = 0x1000,
       q_is_statically_allocated = True, q_magic = SERTOS_QUEUE_MAGIC_WORD\<rparr>),
     streams = (\<lambda>a. \<lparr>sb_ring_buf = demo_ring, sb_trigger_level_bytes = 2, sb_storage_buffer = 0x1000,
       sb_is_statically_allocated = True, sb_magic = SERTOS_STREAM_BUFFER_MAGIC_WORD\<rparr>),
     timers = (\<lambda>a. \<lparr>tmr_name = None, tmr_period_ticks = 5, tmr_remaining_ticks = 1, tmr_is_periodic = False,
       tmr_is_active = (TimerNode a \<in> snd ` set ops), tmr_callback = 0, tmr_param = 0, tmr_is_statically_allocated = True,
       tmr_magic = SERTOS_TIMER_MAGIC_WORD\<rparr>),
     s_timer_subsystem_initialized = True, s_stats_enabled = True, s_total_switches = 0, mem = (\<lambda>a. 0),
     ptr_cells = (\<lambda>a. 0), bool_cells = (\<lambda>a. False), tick_cells = (\<lambda>a. 0), pool = 0x30000000, port = idle_port\<rparr>"

lemma on_lists_of: "on_list (lists_of ops) l n \<longleftrightarrow> (l, n) \<in> set ops"
  by (force simp: on_list_def lists_of_def)

lemma lists_of_Cons: "lists_of ((l, n) # ops) = (lists_of ops)(l \<mapsto> the (lists_of ops l) @ [n])"
  by (auto simp: lists_of_def fun_eq_iff)

lemma heap_of_ok:
  assumes "distinct (map snd ops)" and "\<forall>(l, n) \<in> set ops. \<not> is_Root n"
  shows "heap_ok (heap_of ops) (lists_of ops)"
  using assms
proof (induction ops)
  case Nil
  show ?case by (auto simp: heap_ok_def lists_of_def dll_Nil blank_heap_def)
next
  case (Cons x ops)
  obtain l n where x: "x = (l, n)" by (cases x)
  have ok: "heap_ok (heap_of ops) (lists_of ops)" using Cons by simp
  have "n \<notin> nodes (lists_of ops)"
    using Cons.prems(1) x by (force simp: nodes_on_list on_lists_of)
  moreover have "lists_of ops l = Some (the (lists_of ops l))" by (simp add: lists_of_def)
  moreover have "\<not> is_Root n" using Cons.prems(2) x by simp
  ultimately show ?case
    unfolding x lists_of_Cons heap_of.simps by (intro ref_list.heap_ok_insert_tail [OF ok])
qed

lemma ready_bits_bit:
  assumes "\<forall>(l, n) \<in> set ops. \<forall>p. l = ReadyQ p \<longrightarrow> p < 32"
  shows "bit (ready_bits ops) p \<longleftrightarrow> (\<exists>n. (ReadyQ p, n) \<in> set ops)"
  using assms by (induction ops rule: ready_bits.induct) (auto simp: bit_simps split: lst.splits)

lemma op_ok_ready: "op_ok T ops (ReadyQ p) n \<Longrightarrow> p < SERTOS_CONFIG_MAX_PRIORITIES"
  by (cases n) (auto simp: op_ok_def)

lemma demo_kinv:
  assumes "layout_ok T ops" shows "kinv ref_bits (demo_state ops T cur) (lists_of ops)"
proof -
  have d: "distinct (map snd ops)" and ok: "\<And>l n. (l, n) \<in> set ops \<Longrightarrow> op_ok T ops l n"
    using assms by (auto simp: layout_ok_def list_all_iff)
  have "heap_ok (heap_of ops) (lists_of ops)"
    by (rule heap_of_ok [OF d]) (use ok in \<open>auto simp: op_ok_def\<close>)
  moreover have "base_lists (lists_of ops)" by (simp add: base_lists_def lists_of_def)
  moreover have "typed_lists (lists_of ops)"
    using ok by (auto simp: typed_lists_def on_lists_of op_ok_def)
  moreover have "ready_ok T (lists_of ops)"
    unfolding ready_ok_def on_lists_of using ok by (auto simp: op_ok_def dest!: ok)
  moreover have "delay_ok T (lists_of ops)"
    unfolding delay_ok_def on_lists_of by (auto simp: op_ok_def dest!: ok)
  moreover have "wait_ok T (lists_of ops)"
    unfolding wait_ok_def on_lists_of
  proof (intro allI impI)
    fix wl a assume "(wl, EventNode a) \<in> set ops"
    from ok [OF this] show "tcb_wait_list (T a) = Some wl \<and> unat (tcb_priority (T a)) < SERTOS_CONFIG_MAX_PRIORITIES \<and>
      (if 0 < tcb_delay_ticks (T a) then (DelayList, StateNode a) \<in> set ops
       else \<forall>l. (l, StateNode a) \<notin> set ops)"
      by (force simp: op_ok_def split: if_splits)
  qed
  moreover have "bitmap_ok ref_bits (ready_bits ops) (lists_of ops)"
  proof -
    have lt: "p < 32" if "(ReadyQ p, n) \<in> set ops" for p n
      using op_ok_ready [OF ok [OF that]] by (simp add: SERTOS_CONFIG_MAX_PRIORITIES_def)
    then have "bit (ready_bits ops) p \<longleftrightarrow> (\<exists>n. (ReadyQ p, n) \<in> set ops)" for p
      by (intro ready_bits_bit) auto
    moreover have "lists_of ops (ReadyQ p) \<noteq> Some [] \<longleftrightarrow> (\<exists>n. (ReadyQ p, n) \<in> set ops)" for p
      by (auto simp: lists_of_def filter_empty_conv)
    ultimately show ?thesis using lt
      by (auto simp: bitmap_ok_def ref_bits_def SERTOS_CONFIG_MAX_PRIORITIES_def)
  qed
  ultimately show ?thesis by (simp add: kinv_def demo_state_def)
qed

end
