(* ===== verification/Sertos_Sched_Spec.thy ===== *)
theory Sertos_Sched_Spec
  imports Sertos_Reference
begin

text \<open>
  What the scheduler guarantees, for every environment that meets the contract \<open>kernel_env\<close>, with
  witnesses on the reference environment.
\<close>

section \<open>States of the witnesses\<close>

definition quiet_env :: ref_envt where
  "quiet_env = ref_env Some (\<lambda>cb h p s. Some s)"

text \<open>Tasks 0x100 and 0x200 share priority 5, 0x300 has priority 2; 0x400 is delayed by one tick,
  0x500 waits with a timeout of three ticks on the semaphore at 0x900.\<close>

definition demo_tcbs :: "addr \<Rightarrow> tcb" where
  "demo_tcbs a = (if a = 0x100 then demo_tcb 5 SERTOS_TASK_STATE_RUNNING
     else if a = 0x200 then demo_tcb 5 SERTOS_TASK_STATE_READY
     else if a = 0x300 then demo_tcb 2 SERTOS_TASK_STATE_READY
     else if a = 0x400 then (demo_tcb 7 SERTOS_TASK_STATE_BLOCKED)\<lparr>tcb_delay_ticks := 1\<rparr>
     else if a = 0x500 then (demo_tcb 6 SERTOS_TASK_STATE_BLOCKED)
       \<lparr>tcb_delay_ticks := 3, tcb_wait_list := Some (SemWait 0x900)\<rparr>
     else demo_tcb 1 SERTOS_TASK_STATE_SUSPENDED)"

definition demo_layout :: layout where
  "demo_layout = [(SemWait 0x900, EventNode 0x500), (DelayList, StateNode 0x500), (DelayList, StateNode 0x400),
     (ReadyQ 2, StateNode 0x300), (ReadyQ 5, StateNode 0x200), (ReadyQ 5, StateNode 0x100)]"

definition demo :: ref_state where
  "demo = demo_state demo_layout demo_tcbs 0x100"

lemma quiet_kernel_env: "kernel_env quiet_env ref_bits"
  unfolding quiet_env_def by (rule ref_kernel_env)

lemma demo_layout_ok: "layout_ok demo_tcbs demo_layout"
  by (simp add: layout_ok_def demo_layout_def op_ok_def demo_tcbs_def demo_tcb_def SERTOS_CONFIG_MAX_PRIORITIES_def)

lemma demo_inv: "kinv ref_bits demo (lists_of demo_layout)"
  unfolding demo_def by (rule demo_kinv [OF demo_layout_ok])

section \<open>Selection\<close>

text \<open>C7: \<open>sertos_scheduler_select_next_task\<close> returns, through the bitmap and the pointers, the task at
  the head of the highest-priority non-empty ready queue, and NULL exactly when no task is ready.\<close>

theorem select_next_task_highest:
  assumes "kernel_env E bits" and "kinv bits s L"
  shows "\<exists>t. sertos_scheduler_select_next_task E s = Some t \<and>
    (if \<forall>p < SERTOS_CONFIG_MAX_PRIORITIES. L (ReadyQ p) = Some [] then t = NULL
     else t \<noteq> NULL \<and> (\<exists>ms. L (ReadyQ (unat (tcb_priority (tcbs s t)))) = Some (StateNode t # ms)) \<and>
       (\<forall>p a. on_list L (ReadyQ p) (StateNode a) \<longrightarrow> tcb_priority (tcbs s a) \<le> tcb_priority (tcbs s t)))"
proof (cases "\<forall>p < SERTOS_CONFIG_MAX_PRIORITIES. L (ReadyQ p) = Some []")
  case True
  then have "ready_priorities L = []" by (simp add: ready_priorities_def filter_empty_conv)
  then show ?thesis
    using True kernel_env.select_next_refines [OF assms] by (simp add: abs_select_def)
next
  case False
  let ?t = "abs_select L"
  have top: "p \<le> unat (tcb_priority (tcbs s ?t)) \<and> ?t \<noteq> NULL \<and>
      (\<exists>ms. L (ReadyQ (unat (tcb_priority (tcbs s ?t)))) = Some (StateNode ?t # ms))"
    if p: "p < SERTOS_CONFIG_MAX_PRIORITIES" and ne: "L (ReadyQ p) \<noteq> Some []" for p
  proof -
    obtain ns where "L (ReadyQ p) = Some ns" using kinv_ready_list [OF assms(2) p] .
    moreover from this have "ns \<noteq> []" using ne by auto
    ultimately show ?thesis by (rule kernel_env.abs_select_highest [OF assms p]) auto
  qed
  have "tcb_priority (tcbs s a) \<le> tcb_priority (tcbs s ?t)" if "on_list L (ReadyQ p) (StateNode a)" for p a
  proof -
    have "L (ReadyQ p) \<noteq> Some []" using that by (auto simp: on_list_def)
    then show ?thesis using top [of p] kinv_ready [OF assms(2) that] by (simp add: word_le_nat_alt)
  qed
  then show ?thesis
    using False top kernel_env.select_next_refines [OF assms] unfolding if_not_P [OF False] by blast
qed

theorem select_next_task_highest_witness:
  "\<exists>t. sertos_scheduler_select_next_task quiet_env demo = Some t \<and> t \<noteq> NULL"
  using select_next_task_highest [OF quiet_kernel_env demo_inv]
  by (auto simp: lists_of_def demo_layout_def SERTOS_CONFIG_MAX_PRIORITIES_def split: if_splits)

section \<open>The tick\<close>

text \<open>One pass of \<open>process_delayed_tasks\<close> over the delay list always ends. Every delayed task is
  counted down once; those that reach zero leave the delay list and their wait list and join the
  tail of their ready queues in delay-list order, and the result tells whether there was one.\<close>

theorem process_delayed_tasks_correct:
  assumes "kernel_env E bits" and "kinv bits s L" and "L DelayList = Some ds"
  shows "\<exists>s'. process_delayed_tasks E s = Some (\<exists>n \<in> set ds. expires (tcbs s) n, s') \<and>
    kinv bits s' (tick_lists (tcbs s) [] ds L) \<and> sched_frame s s' \<and>
    tcbs s' = (\<lambda>a. if StateNode a \<in> set ds then tick_tcb (tcbs s a) else tcbs s a)"
  by (rule kernel_env.process_delayed_tasks_refines [OF assms]) blast

theorem process_delayed_tasks_correct_witness:
  "\<exists>s'. process_delayed_tasks quiet_env demo = Some (True, s') \<and>
     kinv ref_bits s' (tick_lists demo_tcbs [] [StateNode 0x400, StateNode 0x500] (lists_of demo_layout)) \<and>
     tcb_state (tcbs s' 0x400) = SERTOS_TASK_STATE_READY \<and> tcb_delay_ticks (tcbs s' 0x500) = 2"
proof -
  have L: "lists_of demo_layout DelayList = Some [StateNode 0x400, StateNode 0x500]"
    by (simp add: lists_of_def demo_layout_def)
  have T: "tcbs demo = demo_tcbs" by (simp add: demo_def demo_state_def)
  from process_delayed_tasks_correct [OF quiet_kernel_env demo_inv L]
  show ?thesis unfolding T by (auto simp: expires_def demo_tcbs_def demo_tcb_def tick_tcb_def word_le_nat_alt)
qed

text \<open>\<open>process_time_slicing\<close> moves the running task to the tail of its own ready queue and keeps
  every other list and control block; with a single task in the queue nothing changes.\<close>

theorem process_time_slicing_rotates:
  assumes "kernel_env E bits" and "kinv bits s L" and "sertos_current_tcb s = c" and "c \<noteq> NULL"
    and "s_time_slicing_enabled s" and "unat (tcb_priority (tcbs s c)) = p"
    and "L (ReadyQ p) = Some ns" and "StateNode c \<in> set ns"
  shows "kinv bits (process_time_slicing E s) (L(ReadyQ p \<mapsto> remove1 (StateNode c) ns @ [StateNode c])) \<and>
    tcbs (process_time_slicing E s) = tcbs s \<and> sched_frame s (process_time_slicing E s)"
  using kernel_env.time_slicing_refines [OF assms] kernel_env.time_slicing_frame [OF assms(1)] by simp

theorem process_time_slicing_rotates_witness:
  "kinv ref_bits (process_time_slicing quiet_env demo)
     ((lists_of demo_layout)(ReadyQ 5 \<mapsto> [StateNode 0x200, StateNode 0x100]))"
proof -
  have "sertos_current_tcb demo = 0x100" "s_time_slicing_enabled demo" "unat (tcb_priority (tcbs demo 0x100)) = 5"
    by (simp_all add: demo_def demo_state_def demo_tcbs_def demo_tcb_def)
  moreover have "lists_of demo_layout (ReadyQ 5) = Some [StateNode 0x100, StateNode 0x200]"
    by (simp add: lists_of_def demo_layout_def)
  ultimately show ?thesis
    using process_time_slicing_rotates [OF quiet_kernel_env demo_inv, of "0x100" 5] by simp
qed

text \<open>C8: one tick from a consistent state in which the running task is linked into its ready queue. The tick count
  grows by one, every delayed task is counted down and the expired ones become ready, and with time slicing the
  running task goes to the tail of its queue; from that state the software timers and the tick hook run, and the
  handler switches if a task expired or time slicing is on. The handler returns in a consistent state, provided the
  application's callbacks and hooks and the port do.\<close>

theorem scheduler_tick_correct:
  assumes "kernel_env E bits" and "kinv bits s L" and "current_ok s L" and "L DelayList = Some ds"
    and "s_timer_subsystem_initialized s \<Longrightarrow> L ActiveTimers \<noteq> None"
    and "calm_callbacks E bits" and "fair_hooks E bits" and "fair_port E bits"
  shows "returns (sertos_scheduler_tick E s) (\<lambda>s'. \<exists>L'. kinv bits s' L') \<and>
    (\<exists>s4 crit. kinv bits s4 (sliced_lists (tcbs s) (sertos_current_tcb s) (s_time_slicing_enabled s)
        (tick_lists (tcbs s) [] ds L)) \<and>
      tcbs s4 = (\<lambda>a. if StateNode a \<in> set ds then tick_tcb (tcbs s a) else tcbs s a) \<and>
      sertos_scheduler_get_tick_count E s4 = sertos_scheduler_get_tick_count E s + 1 \<and>
      sertos_scheduler_tick E s = do {
        s5 \<leftarrow> sertos_timer_tick E s4;
        s6 \<leftarrow> (if s_tick_hook s5 \<noteq> NULL then call_hook E (s_tick_hook s5) s5 else Some s5);
        let s7 = exit_critical E crit s6;
        if (\<exists>n \<in> set ds. expires (tcbs s) n) \<or> s_time_slicing_enabled s7 then sertos_scheduler_switch_context E s7
        else Some s7
      })"
  using kernel_env.tick_returns [OF assms(1-3,5-8)] kernel_env.tick_refines [OF assms(1-4)] by blast

lemma quiet_env_fair: "calm_callbacks quiet_env ref_bits" "fair_hooks quiet_env ref_bits" "fair_port quiet_env ref_bits"
  by (auto simp: calm_callbacks_def fair_hooks_def fair_port_def quiet_env_def ref_env_def)

interpretation quiet_timers: timer_walk quiet_env ref_bits "kinv ref_bits"
  by (rule kinv_timer_walk [OF quiet_kernel_env quiet_env_fair(1)])

lemma demo_current_ok: "current_ok demo (lists_of demo_layout)"
  by (simp add: current_ok_def on_lists_of demo_def demo_state_def demo_layout_def demo_tcbs_def demo_tcb_def)

theorem scheduler_tick_correct_witness:
  "returns (sertos_scheduler_tick quiet_env demo) (\<lambda>s'. \<exists>L'. kinv ref_bits s' L') \<and>
    (\<exists>s4. kinv ref_bits s4 (sliced_lists demo_tcbs 0x100 True
       (tick_lists demo_tcbs [] [StateNode 0x400, StateNode 0x500] (lists_of demo_layout))) \<and>
      sertos_scheduler_get_tick_count quiet_env s4 = sertos_scheduler_get_tick_count quiet_env demo + 1)"
proof -
  have L: "lists_of demo_layout DelayList = Some [StateNode 0x400, StateNode 0x500]"
    by (simp add: lists_of_def demo_layout_def)
  have d: "tcbs demo = demo_tcbs" "sertos_current_tcb demo = 0x100" "s_time_slicing_enabled demo = True"
    by (simp_all add: demo_def demo_state_def)
  have t: "lists_of demo_layout ActiveTimers \<noteq> None" by (simp add: lists_of_def)
  show ?thesis
    using scheduler_tick_correct [OF quiet_kernel_env demo_inv demo_current_ok L t quiet_env_fair] unfolding d by blast
qed

section \<open>Switching, locking and delaying\<close>

text \<open>\<open>sertos_scheduler_perform_switch\<close> makes the selected task current and RUNNING, takes the RUNNING
  state from the previous task only, and changes no list; with nothing ready it does nothing.\<close>

theorem perform_switch_correct:
  assumes "kernel_env E bits" and "kinv bits s L"
  shows "\<exists>s'. sertos_scheduler_perform_switch E s = Some (sertos_current_tcb s', s') \<and> kinv bits s' L \<and>
    (if abs_select L = NULL then s' = s
     else sertos_current_tcb s' = abs_select L \<and>
       tcb_state (tcbs s' (abs_select L)) = SERTOS_TASK_STATE_RUNNING \<and>
       (\<forall>a. a \<noteq> abs_select L \<longrightarrow> tcb_state (tcbs s' a) =
         (if a = sertos_current_tcb s \<and> a \<noteq> NULL \<and> tcb_state (tcbs s a) = SERTOS_TASK_STATE_RUNNING
          then SERTOS_TASK_STATE_READY else tcb_state (tcbs s a))))"
  by (rule kernel_env.perform_switch_refines [OF assms]) (rule exI, auto)

theorem perform_switch_correct_witness:
  "\<exists>s'. sertos_scheduler_perform_switch quiet_env demo = Some (sertos_current_tcb s', s') \<and>
     kinv ref_bits s' (lists_of demo_layout)"
  using perform_switch_correct [OF quiet_kernel_env demo_inv] by blast

text \<open>\<open>n\<close> unlocks in a row.\<close>

fun unlock_times ::
  "('b, 'r, 'm, 'p) env \<Rightarrow> nat \<Rightarrow> ('b, 'r, 'm, 'p) kstate \<Rightarrow> ('b, 'r, 'm, 'p) kstate option" where
  "unlock_times E 0 s = Some s"
| "unlock_times E (Suc n) s = Option.bind (unlock_times E n s) (sertos_scheduler_unlock E)"

lemma lock_counts: "\<exists>q. (sertos_scheduler_lock E ^^ n) s = s\<lparr>s_lock_nesting := s_lock_nesting s + of_nat n, port := q\<rparr>"
proof (induction n)
  case 0
  show ?case by (intro exI [of _ "port s"]) simp
next
  case (Suc n)
  then obtain q where q: "(sertos_scheduler_lock E ^^ n) s = s\<lparr>s_lock_nesting := s_lock_nesting s + of_nat n, port := q\<rparr>" ..
  have one: "\<exists>q. sertos_scheduler_lock E x = x\<lparr>s_lock_nesting := s_lock_nesting x + 1, port := q\<rparr>" for x
    by (auto simp: sertos_scheduler_lock_def enter_critical_eq exit_critical_def)
  obtain q' where "sertos_scheduler_lock E ((sertos_scheduler_lock E ^^ n) s) = ((sertos_scheduler_lock E ^^ n) s)
      \<lparr>s_lock_nesting := s_lock_nesting ((sertos_scheduler_lock E ^^ n) s) + 1, port := q'\<rparr>" using one by blast
  then show ?case by (intro exI [of _ q']) (simp add: q algebra_simps)
qed

lemma unlock_cases:
  assumes "0 < d"
  obtains q where "sertos_scheduler_unlock E (s\<lparr>s_lock_nesting := d, s_reschedule_pending := b, port := p\<rparr>) =
    (if d = 1 \<and> b then sertos_scheduler_switch_context E (s\<lparr>s_lock_nesting := 0, s_reschedule_pending := False, port := q\<rparr>)
     else Some (s\<lparr>s_lock_nesting := d - 1, s_reschedule_pending := b, port := q\<rparr>))"
proof (rule that)
  let ?x = "s\<lparr>s_lock_nesting := d, s_reschedule_pending := b, port := p\<rparr>"
  let ?q = "sertos_port_exit_critical E (fst (sertos_port_enter_critical E p)) (snd (sertos_port_enter_critical E p))"
  show "sertos_scheduler_unlock E ?x =
    (if d = 1 \<and> b then sertos_scheduler_switch_context E (s\<lparr>s_lock_nesting := 0, s_reschedule_pending := False, port := ?q\<rparr>)
     else Some (s\<lparr>s_lock_nesting := d - 1, s_reschedule_pending := b, port := ?q\<rparr>))"
    using assms by (cases "d = 1"; cases b) (simp_all add: sertos_scheduler_unlock_def enter_critical_eq exit_critical_def Let_def)
qed

lemma unlocks_count:
  assumes "m < n" and "n < 2 ^ 32" and "x = s\<lparr>s_lock_nesting := of_nat n, s_reschedule_pending := b, port := p\<rparr>"
  shows "\<exists>q. unlock_times E m x = Some (s\<lparr>s_lock_nesting := of_nat (n - m), s_reschedule_pending := b, port := q\<rparr>)"
  using assms(1)
proof (induction m)
  case 0
  then show ?case using assms(3) by auto
next
  case (Suc m)
  then obtain q where q: "unlock_times E m x = Some (s\<lparr>s_lock_nesting := of_nat (n - m), s_reschedule_pending := b, port := q\<rparr>)"
    by auto
  have d: "unat (of_nat (n - m) :: 32 word) = n - m" using assms(2) by (simp add: unat_of_nat take_bit_nat_eq_self)
  then have "0 < (of_nat (n - m) :: 32 word)" using Suc.prems by (simp add: word_less_nat_alt)
  then obtain q' where "sertos_scheduler_unlock E (s\<lparr>s_lock_nesting := of_nat (n - m), s_reschedule_pending := b, port := q\<rparr>) =
    (if (of_nat (n - m) :: 32 word) = 1 \<and> b then sertos_scheduler_switch_context E (s\<lparr>s_lock_nesting := 0, s_reschedule_pending := False, port := q'\<rparr>)
     else Some (s\<lparr>s_lock_nesting := of_nat (n - m) - 1, s_reschedule_pending := b, port := q'\<rparr>))"
    by (rule unlock_cases)
  moreover have "(of_nat (n - m) :: 32 word) \<noteq> 1" using d Suc.prems by (metis One_nat_def Suc_diff_Suc diff_is_0_eq' le_simps(3) less_or_eq_imp_le n_not_Suc_n not_less nat_less_le unat_1 zero_less_diff)
  moreover have "(of_nat (n - m) - 1 :: 32 word) = of_nat (n - Suc m)" using Suc.prems by (simp add: of_nat_diff)
  ultimately show ?case by (auto simp: q)
qed

text \<open>C9: \<open>n\<close> nested locks (\<open>0 < n < 2 ^ 32\<close>) raise the nesting of an unlocked scheduler with no switch recorded to \<open>n\<close> and change nothing else up to the port. At each level of locking a context
  switch is only recorded. After a switch was recorded each of the first \<open>n - 1\<close> unlocks only lowers the nesting by one, and the last one
  clears the record and performs the switch from the state before the locks; if none was recorded, \<open>n\<close> unlocks restore that state.\<close>

theorem lock_defers_switch:
  assumes "s_lock_nesting s = 0" and "\<not> s_reschedule_pending s" and "0 < n" and "n < 2 ^ 32"
  shows "(\<exists>q. (sertos_scheduler_lock E ^^ n) s = s\<lparr>s_lock_nesting := of_nat n, port := q\<rparr>) \<and>
    (\<forall>d x. 0 < d \<longrightarrow> sertos_scheduler_switch_context E (x\<lparr>s_lock_nesting := d\<rparr>) = Some (x\<lparr>s_lock_nesting := d, s_reschedule_pending := True\<rparr>)) \<and>
    (\<forall>m<n. \<exists>q. unlock_times E m (((sertos_scheduler_lock E ^^ n) s)\<lparr>s_reschedule_pending := True\<rparr>) =
      Some (s\<lparr>s_lock_nesting := of_nat (n - m), s_reschedule_pending := True, port := q\<rparr>)) \<and>
    (\<exists>q. unlock_times E n (((sertos_scheduler_lock E ^^ n) s)\<lparr>s_reschedule_pending := True\<rparr>) =
      sertos_scheduler_switch_context E (s\<lparr>port := q\<rparr>)) \<and>
    (\<exists>q. unlock_times E n ((sertos_scheduler_lock E ^^ n) s) = Some (s\<lparr>port := q\<rparr>))"
proof -
  obtain q where locked: "(sertos_scheduler_lock E ^^ n) s = s\<lparr>s_lock_nesting := of_nat n, port := q\<rparr>"
    using lock_counts [where E = E and n = n and s = s] assms(1) by auto
  obtain m where n: "n = Suc m" using assms(3) by (cases n) auto
  have s0: "s\<lparr>s_lock_nesting := 0, s_reschedule_pending := False, port := q\<rparr> = s\<lparr>port := q\<rparr>" for q
    using assms(1,2) by (cases s) simp
  have state: "((sertos_scheduler_lock E ^^ n) s)\<lparr>s_reschedule_pending := b\<rparr> =
      s\<lparr>s_lock_nesting := of_nat n, s_reschedule_pending := b, port := q\<rparr>" for b by (simp add: locked)
  have same: "((sertos_scheduler_lock E ^^ n) s)\<lparr>s_reschedule_pending := False\<rparr> = (sertos_scheduler_lock E ^^ n) s"
    unfolding locked using assms(2) by (cases s) simp
  note count = unlocks_count [OF _ assms(4) state, where E = E]
  have last: "\<exists>q. unlock_times E n (((sertos_scheduler_lock E ^^ n) s)\<lparr>s_reschedule_pending := b\<rparr>) =
      (if b then sertos_scheduler_switch_context E (s\<lparr>port := q\<rparr>) else Some (s\<lparr>port := q\<rparr>))" for b
  proof -
    obtain q1 where q1: "unlock_times E m (((sertos_scheduler_lock E ^^ n) s)\<lparr>s_reschedule_pending := b\<rparr>) =
      Some (s\<lparr>s_lock_nesting := 1, s_reschedule_pending := b, port := q1\<rparr>)" using count [of m b] n by auto
    show ?thesis
    proof (rule unlock_cases [where d = 1 and E = E and s = s and b = b and p = q1])
      fix q2 assume u: "sertos_scheduler_unlock E (s\<lparr>s_lock_nesting := 1, s_reschedule_pending := b, port := q1\<rparr>) =
        (if 1 = (1 :: 32 word) \<and> b then sertos_scheduler_switch_context E (s\<lparr>s_lock_nesting := 0, s_reschedule_pending := False, port := q2\<rparr>)
         else Some (s\<lparr>s_lock_nesting := 1 - 1, s_reschedule_pending := b, port := q2\<rparr>))"
      have "unlock_times E n (((sertos_scheduler_lock E ^^ n) s)\<lparr>s_reschedule_pending := b\<rparr>) =
          sertos_scheduler_unlock E (s\<lparr>s_lock_nesting := 1, s_reschedule_pending := b, port := q1\<rparr>)"
        unfolding n unlock_times.simps q1 [unfolded n] by simp
      also have "\<dots> = (if b then sertos_scheduler_switch_context E (s\<lparr>port := q2\<rparr>) else Some (s\<lparr>port := q2\<rparr>))"
        unfolding u by (cases b) (simp_all add: s0)
      finally show ?thesis ..
    qed simp
  qed
  have "sertos_scheduler_switch_context E (x\<lparr>s_lock_nesting := d\<rparr>) = Some (x\<lparr>s_lock_nesting := d, s_reschedule_pending := True\<rparr>)"
    if "0 < d" for d and x :: "('a, 'b, 'c, 'd) kstate"
    using that by (simp add: sertos_scheduler_switch_context_def)
  then show ?thesis using locked count last [of True] last [of False] same by auto
qed

theorem lock_defers_switch_witness:
  "\<exists>q. unlock_times quiet_env 3 (((sertos_scheduler_lock quiet_env ^^ 3) demo)\<lparr>s_reschedule_pending := True\<rparr>) =
     sertos_scheduler_switch_context quiet_env (demo\<lparr>port := q\<rparr>)"
  using lock_defers_switch [where s = demo and n = 3 and E = quiet_env] by (simp add: demo_def demo_state_def)

text \<open>\<open>sertos_scheduler_delay\<close> parks the running task: before the switch it has left its ready
  queue, is BLOCKED at the tail of the delay list with the requested ticks, and the state is
  consistent; the call then returns OK when the switch does.\<close>

theorem delay_parks_current:
  assumes "kernel_env E bits" and "kinv bits s L" and "s_is_running s" and "sertos_current_tcb s = c"
    and "on_list L (ReadyQ p) (StateNode c)" and "ticks \<noteq> 0"
  shows "\<exists>s'. sertos_scheduler_delay E ticks s =
      map_option (Pair SERTOS_STATUS_OK) (sertos_scheduler_switch_context E s') \<and>
    kinv bits s' (blocked_lists (tcbs s) c p None True L) \<and>
    tcbs s' = (tcbs s)(c := (tcbs s c)\<lparr>tcb_state := SERTOS_TASK_STATE_BLOCKED, tcb_delay_ticks := ticks\<rparr>)"
  by (rule kernel_env.delay_refines [OF assms]) blast

theorem delay_parks_current_witness:
  "\<exists>s'. sertos_scheduler_delay quiet_env 10 demo =
      map_option (Pair SERTOS_STATUS_OK) (sertos_scheduler_switch_context quiet_env s') \<and>
    kinv ref_bits s' (blocked_lists demo_tcbs 0x100 5 None True (lists_of demo_layout))"
proof -
  have "on_list (lists_of demo_layout) (ReadyQ 5) (StateNode 0x100)" by (simp add: on_lists_of demo_layout_def)
  moreover have "s_is_running demo" "sertos_current_tcb demo = 0x100" "tcbs demo = demo_tcbs"
    by (simp_all add: demo_def demo_state_def)
  ultimately show ?thesis
    using delay_parks_current [OF quiet_kernel_env demo_inv, of "0x100" 5 10] by auto
qed

end
