(* ===== verification/Sertos_Blocking.thy ===== *)
theory Sertos_Blocking
  imports Sertos_Sched
begin

text \<open>
  The blocking protocol as its clients see it. \<open>wait_list_block\<close> hands over to the port with the
  caller parked on the wait list, and tells the caller afterwards how the wait ended by looking at
  its own control block; this theory proves in which state the hand-over happens, what
  the answer is for every way of being woken, and that every wait list stays sorted
  by descending priority. It also holds the arithmetic of ticks and milliseconds.
\<close>

section \<open>Wait lists in priority order\<close>

definition waits_sorted :: "(addr \<Rightarrow> tcb) \<Rightarrow> lmap \<Rightarrow> bool" where
  "waits_sorted T L \<longleftrightarrow> (\<forall>wl ns. is_wait_list wl \<longrightarrow> L wl = Some ns \<longrightarrow> wait_sorted T ns)"

lemma wait_sorted_cong:
  assumes "\<And>a. tcb_priority (T a) = tcb_priority (T' a)" shows "wait_sorted T ns = wait_sorted T' ns"
proof -
  have "node_priority T = node_priority T'" using assms by (auto simp: node_priority_def fun_eq_iff split: lnode.splits)
  then show ?thesis by (simp add: wait_sorted_def)
qed

lemma waits_sorted_cong:
  assumes "\<And>a. tcb_priority (T a) = tcb_priority (T' a)" shows "waits_sorted T L = waits_sorted T' L"
  using wait_sorted_cong [of T T', OF assms] by (simp add: waits_sorted_def)

lemma wait_sorted_remove1: "wait_sorted T ns \<Longrightarrow> wait_sorted T (remove1 n ns)"
  unfolding wait_sorted_def by (induction ns) (auto dest: notin_set_remove1)

lemma wake_lists_wait:
  "is_wait_list wl \<Longrightarrow> wake_lists a p L wl = map_option (remove1 (EventNode a)) (L wl)"
  by (cases wl) (simp_all add: wake_lists_def detach_lists_def)

lemma waits_sorted_wake: "waits_sorted T L \<Longrightarrow> waits_sorted T (wake_lists a p L)"
  by (auto simp: waits_sorted_def wake_lists_wait intro: wait_sorted_remove1)

lemma waits_sorted_block:
  assumes "waits_sorted T L" shows "waits_sorted T (blocked_lists T c p wl timed L)"
  unfolding waits_sorted_def
proof (intro allI impI)
  fix w ns assume w: "is_wait_list w" and ns: "blocked_lists T c p wl timed L w = Some ns"
  from w have "w \<noteq> ReadyQ p" "w \<noteq> DelayList" by auto
  with ns have "ns = (if wl = Some w then insert_by_priority T c (the (L w)) else the (L w)) \<and> L w \<noteq> None"
    by (auto simp: blocked_lists_def Let_def split: option.splits if_splits)
  moreover have "wait_sorted T (the (L w))" if "L w \<noteq> None" using assms w that by (auto simp: waits_sorted_def)
  ultimately show "wait_sorted T ns" by (auto intro: insert_by_priority_sorted)
qed

text \<open>In a sorted list nobody has a higher priority than the head.\<close>

lemma wait_sorted_head:
  assumes "wait_sorted T (EventNode a # ns)" and "EventNode b \<in> set (EventNode a # ns)"
  shows "tcb_priority (T b) \<le> tcb_priority (T a)"
  using assms by (auto simp: wait_sorted_def node_priority_def word_le_nat_alt)

section \<open>Where the selection looks\<close>

lemma abs_select_on_ready:
  assumes "kinv bits s L" and "abs_select L \<noteq> NULL" shows "\<exists>p. on_list L (ReadyQ p) (StateNode (abs_select L))"
proof -
  have ne: "ready_priorities L \<noteq> []" using assms(2) by (auto simp: abs_select_def)
  then obtain n ms where "L (ReadyQ (last (ready_priorities L))) = Some (n # ms)"
    using assms(2) by (auto simp: abs_select_def split: option.splits list.splits)
  moreover from this have "n = StateNode (abs_select L)"
    using ne assms(2) by (auto simp: abs_select_def split: lnode.splits)
  ultimately show ?thesis by (auto simp: on_list_def intro!: exI [of _ "last (ready_priorities L)"])
qed

lemma on_blocked_ready: "on_list (blocked_lists T c p wl timed L) (ReadyQ q) (StateNode a) \<Longrightarrow>
    (\<And>w. wl = Some w \<Longrightarrow> is_wait_list w) \<Longrightarrow> on_list L (ReadyQ q) (StateNode a)"
  by (auto simp: on_list_def blocked_lists_def Let_def dest: set_remove1_subset [THEN subsetD] split: option.splits if_splits)

context kernel_env
begin

lemma blocked_not_selected:
  assumes inv: "kinv bits s L" and on: "on_list L (ReadyQ p) (StateNode c)"
    and inv': "kinv bits s' (blocked_lists T c p wl timed L)" and wl: "\<And>w. wl = Some w \<Longrightarrow> is_wait_list w"
  shows "abs_select (blocked_lists T c p wl timed L) \<noteq> c"
proof
  assume eq: "abs_select (blocked_lists T c p wl timed L) = c"
  obtain ns where ns: "L (ReadyQ p) = Some ns" "StateNode c \<in> set ns" using on by (rule on_listE)
  have "c \<noteq> NULL" using kinv_typed [OF inv on] by simp
  then obtain q where q: "on_list (blocked_lists T c p wl timed L) (ReadyQ q) (StateNode c)"
    using abs_select_on_ready [OF inv'] eq by auto
  then have "q = p" using on_blocked_ready [OF q wl] kinv_unique [OF inv on] by fastforce
  moreover have "distinct ns" by (rule heap_ok_distinct [OF kinv_heap [OF inv] ns(1)])
  ultimately show False using q ns wl
    by (auto simp: on_list_def blocked_lists_def Let_def split: option.splits if_splits)
qed

lemma switch_context_yields:
  assumes inv: "kinv bits s L" and "s_lock_nesting s = 0" and "\<not> port_is_host E"
    and "abs_select L \<noteq> NULL" and "abs_select L \<noteq> sertos_current_tcb s"
  shows "\<exists>p. sertos_scheduler_switch_context E s = sertos_port_yield E (s\<lparr>port := p\<rparr>)"
  using assms select_next_refines [OF inv]
  by (auto simp: sertos_scheduler_switch_context_def enter_critical_eq exit_critical_def)

lemma wait_list_block_refines:
  assumes inv: "kinv bits s L" and run: "s_is_running s" and c: "sertos_current_tcb s = c"
    and on: "on_list L (ReadyQ p) (StateNode c)" and wl: "is_wait_list wl" "L wl \<noteq> None" and timeout: "timeout \<noteq> 0"
  obtains s' where "sertos_scheduler_wait_list_block E (Some wl) timeout s =
      map_option (\<lambda>s''. (if timeout \<noteq> SERTOS_WAIT_FOREVER \<and> tcb_delay_ticks (tcbs s'' c) = 0 \<and>
          tcb_wait_list (tcbs s'' c) = None then SERTOS_STATUS_ERROR_TIMEOUT else SERTOS_STATUS_OK, s''))
        (sertos_scheduler_switch_context E s')"
    and "kinv bits s' (blocked_lists (tcbs s) c p (Some wl) (timeout \<noteq> SERTOS_WAIT_FOREVER) L)"
    and "tcbs s' = (tcbs s)(c := (tcbs s c)\<lparr>tcb_state := SERTOS_TASK_STATE_BLOCKED, tcb_wait_list := Some wl,
           tcb_delay_ticks := (if timeout = SERTOS_WAIT_FOREVER then 0 else timeout)\<rparr>)"
    and "sertos_current_tcb s' = c" and "s_lock_nesting s' = s_lock_nesting s" and "sems s' = sems s"
    and "mutexes s' = mutexes s" and "queues s' = queues s" and "streams s' = streams s" and "mem s' = mem s"
    and "call_frame s s'"
proof -
  obtain s' where b: "block_current E wl timeout s = Some s'"
    and rest: "kinv bits s' (blocked_lists (tcbs s) c p (Some wl) (timeout \<noteq> SERTOS_WAIT_FOREVER) L)"
    "tcbs s' = (tcbs s)(c := (tcbs s c)\<lparr>tcb_state := SERTOS_TASK_STATE_BLOCKED, tcb_wait_list := Some wl,
       tcb_delay_ticks := (if timeout = SERTOS_WAIT_FOREVER then 0 else timeout)\<rparr>)"
    "sertos_current_tcb s' = c" "s_lock_nesting s' = s_lock_nesting s" "sems s' = sems s"
    "mutexes s' = mutexes s" "queues s' = queues s" "streams s' = streams s" "mem s' = mem s" "call_frame s s'"
    using block_current_refines [OF inv c on wl timeout] by metis
  have "c \<noteq> NULL" using kinv_typed [OF inv on] by simp
  then have "sertos_scheduler_wait_list_block E (Some wl) timeout s =
      map_option (\<lambda>s''. (if timeout \<noteq> SERTOS_WAIT_FOREVER \<and> tcb_delay_ticks (tcbs s'' c) = 0 \<and>
          tcb_wait_list (tcbs s'' c) = None then SERTOS_STATUS_ERROR_TIMEOUT else SERTOS_STATUS_OK, s''))
        (sertos_scheduler_switch_context E s')"
    using b run c
    by (cases "sertos_scheduler_switch_context E s'") (auto simp: sertos_scheduler_wait_list_block_def)
  from that [OF this rest] show thesis .
qed

end

section \<open>Waking the first waiter\<close>

text \<open>A wait list of a consistent state is empty or has a waiting task at its head.\<close>

lemma wait_list_cases:
  assumes "kinv bits s L" and "is_wait_list wl" and "L wl \<noteq> None"
  obtains (empty) "L wl = Some []"
    | (waiter) a ns where "L wl = Some (EventNode a # ns)" and "a \<noteq> NULL"
proof (cases "L wl")
  case (Some ms)
  then show thesis
  proof (cases ms)
    case (Cons n ns)
    then have "on_list L wl n" using Some by (simp add: on_list_Some)
    then obtain a where "n = EventNode a" "a \<noteq> NULL" using kinv_typed [OF assms(1)] assms(2) by fastforce
    then show thesis using waiter Some Cons by simp
  qed (use Some empty in simp)
qed (use assms(3) in simp)

text \<open>Task \<open>a\<close> is the first waiter of \<open>wl\<close> (NULL when there is none) and is moved to its ready queue.\<close>

definition wakes_first :: "lst \<Rightarrow> (addr \<Rightarrow> tcb) \<Rightarrow> lmap \<Rightarrow> addr \<Rightarrow> (addr \<Rightarrow> tcb) \<Rightarrow> lmap \<Rightarrow> bool" where
  "wakes_first wl T L a T' L' \<longleftrightarrow>
     (if L wl = Some [] then a = NULL \<and> T' = T \<and> L' = L
      else a \<noteq> NULL \<and> hd (the (L wl)) = EventNode a \<and> T' = T(a := woken_tcb (T a)) \<and>
        L' = wake_lists a (unat (tcb_priority (T a))) L)"

context kernel_env
begin

lemma unblock_highest_wakes:
  assumes inv: "kinv bits s L" and wl: "is_wait_list wl" "L wl \<noteq> None"
  obtains a s' L' where "sertos_scheduler_wait_list_unblock_highest E (Some wl) s = Some (a, s')"
    and "kinv bits s' L'" and "sched_frame s s'" and "wakes_first wl (tcbs s) L a (tcbs s') L'"
proof (rule wait_list_cases [OF inv wl], goal_cases empty waiter)
  case empty
  show ?case by (rule that [OF unblock_highest_empty [OF inv empty(2)] inv]) (simp_all add: wakes_first_def empty(2))
next
  case (waiter a ns)
  obtain s' where s': "sertos_scheduler_wait_list_unblock_highest E (Some wl) s = Some (a, s')"
    "kinv bits s' (wake_lists a (unat (tcb_priority (tcbs s a))) L)" "sched_frame s s'"
    "tcbs s' = (tcbs s)(a := woken_tcb (tcbs s a))"
    using unblock_highest_head [OF inv waiter(2) refl] unfolding woken_tcb_def by blast
  show ?case by (rule that [OF s'(1-3)]) (use s'(4) waiter(2,3) in \<open>simp_all add: wakes_first_def\<close>)
qed

end

section \<open>Changing the priority of a task\<close>

text \<open>A ready task moves from the queue of its old priority to the tail of the queue of the new one.\<close>

definition requeue_lists :: "addr \<Rightarrow> nat \<Rightarrow> nat \<Rightarrow> lmap \<Rightarrow> lmap" where
  "requeue_lists a q p L =
     (let L1 = L(ReadyQ q := map_option (remove1 (StateNode a)) (L (ReadyQ q)))
      in L1(ReadyQ p := map_option (\<lambda>ns. ns @ [StateNode a]) (L1 (ReadyQ p))))"

lemma requeue_lists_other [simp]: "(\<And>p. l \<noteq> ReadyQ p) \<Longrightarrow> requeue_lists a q p L l = L l"
  by (simp add: requeue_lists_def Let_def)

lemma kinv_upd_free:
  assumes inv: "kinv bits s L" and free: "\<And>l. \<not> on_list L l (StateNode a)" "\<And>l. \<not> on_list L l (EventNode a)"
  shows "kinv bits (upd_tcb a f s) L"
proof -
  have ok: "ready_ok (tcbs s) L" "delay_ok (tcbs s) L" "wait_ok (tcbs s) L" using inv by (simp_all add: kinv_def)
  have "ready_ok ((tcbs s)(a := f (tcbs s a))) L" using ok(1) free(1) unfolding ready_ok_def by (metis fun_upd_other)
  moreover have "delay_ok ((tcbs s)(a := f (tcbs s a))) L" using ok(2) free(1) unfolding delay_ok_def by (metis fun_upd_other)
  moreover have "wait_ok ((tcbs s)(a := f (tcbs s a))) L" using ok(3) free(2) unfolding wait_ok_def by (metis fun_upd_other)
  ultimately show ?thesis using inv by (simp add: kinv_def)
qed

context kernel_env
begin

text \<open>\<open>remove_ready\<close>, an update of the control block, \<open>add_ready\<close>: the priority change of a READY task.\<close>

lemma requeue_refines:
  assumes inv: "kinv bits s L" and on: "on_list L (ReadyQ q) (StateNode a)"
    and f: "unat (tcb_priority (f (tcbs s a))) = p" "p < SERTOS_CONFIG_MAX_PRIORITIES"
    and wait: "tcb_wait_list (f (tcbs s a)) = tcb_wait_list (tcbs s a)"
  defines "s' \<equiv> snd (sertos_scheduler_add_ready E a (upd_tcb a f (snd (sertos_scheduler_remove_ready E a s))))"
  shows "kinv bits s' (requeue_lists a q p L)" "sched_frame s s'"
    "tcbs s' = (tcbs s)(a := (f (tcbs s a))\<lparr>tcb_state := SERTOS_TASK_STATE_READY\<rparr>)"
proof -
  let ?s2 = "upd_tcb a f (snd (sertos_scheduler_remove_ready E a s))"
  obtain ns L1 where ns: "L (ReadyQ q) = Some ns" and L1: "L1 = L(ReadyQ q \<mapsto> remove1 (StateNode a) ns)"
    and k1: "kinv bits (snd (sertos_scheduler_remove_ready E a s)) L1"
    and free: "\<And>l. \<not> on_list L1 l (StateNode a)" "\<And>l. \<not> on_list L1 l (EventNode a)"
    and a0: "a \<noteq> NULL" and "q < SERTOS_CONFIG_MAX_PRIORITIES" "unat (tcb_priority (tcbs s a)) = q"
    and wn: "tcb_wait_list (tcbs s a) = None"
    by (rule current_detach [OF inv on], rule that)
  have k2: "kinv bits ?s2 L1" by (rule kinv_upd_free [OF k1 free])
  obtain ms where ms: "L1 (ReadyQ p) = Some ms" using kinv_ready_list [OF k2 f(2)] .
  have "kinv bits (snd (sertos_scheduler_add_ready E a ?s2)) (L1(ReadyQ p \<mapsto> ms @ [StateNode a]))"
    by (rule add_ready_kinv [OF k2 a0 _ f(2) ms free(1)]) (use f(1) wait wn in auto)
  moreover have "L1(ReadyQ p \<mapsto> ms @ [StateNode a]) = requeue_lists a q p L"
    using ns ms by (auto simp: requeue_lists_def L1 Let_def fun_eq_iff)
  ultimately show "kinv bits s' (requeue_lists a q p L)" by (simp add: s'_def)
  show "sched_frame s s'" by (simp add: s'_def)
  show "tcbs s' = (tcbs s)(a := (f (tcbs s a))\<lparr>tcb_state := SERTOS_TASK_STATE_READY\<rparr>)"
    unfolding s'_def using add_ready_eq(2) [OF a0, of ?s2] f by simp
qed

end

section \<open>Ticks and milliseconds\<close>

lemma unat_ucast_64 [simp]: "unat (ucast (w :: 32 word) :: 64 word) = unat w"
  by (simp add: unsigned_ucast_eq take_bit_nat_eq_self unsigned_less [of w, THEN less_trans])

lemma unat_mult_32: "unat (ucast (a :: 32 word) * ucast (b :: 32 word) :: 64 word) = unat a * unat b"
proof -
  have "unat a < 2 ^ LENGTH(32)" "unat b < 2 ^ LENGTH(32)" by (rule unsigned_less)+
  then have "unat a * unat b < 2 ^ LENGTH(32) * 2 ^ LENGTH(32)" by (intro mult_strict_mono) auto
  then show ?thesis by (simp add: unat_word_ariths)
qed

lemma ms_to_ticks_unat:
  "unat (SERTOS_MS_TO_TICKS ms s) = (unat ms * unat (sertos_scheduler_get_tick_rate_hz s) + 999) div 1000 mod 2 ^ 32"
proof -
  let ?r = "sertos_scheduler_get_tick_rate_hz s"
  have "unat ms < 2 ^ LENGTH(32)" "unat ?r < 2 ^ LENGTH(32)" by (rule unsigned_less)+
  then have "unat ms \<le> 2 ^ 32 - 1" "unat ?r \<le> 2 ^ 32 - 1" by simp_all
  then have "unat ms * unat ?r \<le> (2 ^ 32 - 1) * (2 ^ 32 - 1)" by (rule mult_le_mono)
  then have "unat (ucast ms * ucast ?r + 999 :: 64 word) = unat ms * unat ?r + 999"
    by (simp add: unat_word_ariths(1) unat_mult_32)
  then show ?thesis
    by (simp add: SERTOS_MS_TO_TICKS_def unsigned_ucast_eq take_bit_eq_mod unat_div)
qed

end
