(* ===== verification/Sertos_Sem.thy ===== *)
theory Sertos_Sem
  imports Sertos_Blocking
begin

text \<open>
  Binary and counting semaphores (\<open>src/sertos_sem.c\<close>). Creation, deletion (every waiter is woken),
  take with its three outcomes (immediate, refused, blocking), give from a task and from an
  interrupt, and the count query.
\<close>

definition upd_sem :: "addr \<Rightarrow> (semaphore \<Rightarrow> semaphore) \<Rightarrow> ('b, 'r, 'm, 'p) kstate \<Rightarrow> ('b, 'r, 'm, 'p) kstate" where
  "upd_sem a f s = s\<lparr>sems := (sems s)(a := f (sems s a))\<rparr>"

definition sem_handle_ok :: "addr \<Rightarrow> ('b, 'r, 'm, 'p) kstate \<Rightarrow> bool" where
  "sem_handle_ok handle s \<longleftrightarrow> \<not> (handle = NULL \<or> sem_magic (sems s handle) \<noteq> SERTOS_SEM_MAGIC_WORD)"

text \<open>\<open>if (out_higher_prio_woken != NULL) *out_higher_prio_woken = v;\<close>\<close>

definition set_flag :: "addr \<Rightarrow> bool \<Rightarrow> ('b, 'r, 'm, 'p) kstate \<Rightarrow> ('b, 'r, 'm, 'p) kstate" where
  "set_flag out v s = (if out \<noteq> NULL then s\<lparr>bool_cells := (bool_cells s)(out := v)\<rparr> else s)"

definition sertos_sem_create_counting_static ::
  "('b, 'r, 'm, 'p) env \<Rightarrow> addr \<Rightarrow> size_t \<Rightarrow> size_t \<Rightarrow> addr \<Rightarrow> ('b, 'r, 'm, 'p) kstate \<Rightarrow>
   SertosStatus \<times> ('b, 'r, 'm, 'p) kstate" where
  "sertos_sem_create_counting_static E sem initial_count max_count out_handle s =
     (if sem = NULL \<or> out_handle = NULL then (SERTOS_STATUS_ERROR_NULL_PTR, s)
      else if max_count = 0 \<or> max_count < initial_count then (SERTOS_STATUS_ERROR_INVALID_PARAM, s)
      else let s1 = upd_sem sem (\<lambda>_. \<lparr>sem_count = initial_count, sem_max_count = max_count,
                       sem_is_statically_allocated = True, sem_magic = SERTOS_SEM_MAGIC_WORD\<rparr>) s;
               s2 = upd_heap (linked_list_init E (SemWait sem)) s1
           in (SERTOS_STATUS_OK, s2\<lparr>ptr_cells := (ptr_cells s2)(out_handle := sem)\<rparr>))"

definition sertos_sem_create_binary_static ::
  "('b, 'r, 'm, 'p) env \<Rightarrow> addr \<Rightarrow> bool \<Rightarrow> addr \<Rightarrow> ('b, 'r, 'm, 'p) kstate \<Rightarrow>
   SertosStatus \<times> ('b, 'r, 'm, 'p) kstate" where
  "sertos_sem_create_binary_static E sem initial_state out_handle s =
     sertos_sem_create_counting_static E sem (if initial_state then 1 else 0) 1 out_handle s"

definition sertos_sem_create_counting ::
  "('b, 'r, 'm, 'p) env \<Rightarrow> size_t \<Rightarrow> size_t \<Rightarrow> addr \<Rightarrow> ('b, 'r, 'm, 'p) kstate \<Rightarrow>
   SertosStatus \<times> ('b, 'r, 'm, 'p) kstate" where
  "sertos_sem_create_counting E initial_count max_count out_handle s =
     (if out_handle = NULL then (SERTOS_STATUS_ERROR_NULL_PTR, s)
      else let (sem, m) = memory_pool_malloc E (sizeof_semaphore E) (pool s);
               s1 = s\<lparr>pool := m\<rparr>
           in if sem = NULL then (SERTOS_STATUS_ERROR_NO_MEMORY, s1)
              else let (status, s2) = sertos_sem_create_counting_static E sem initial_count max_count out_handle s1
                   in if status \<noteq> SERTOS_STATUS_OK
                      then (status, s2\<lparr>pool := memory_pool_free E sem (pool s2)\<rparr>)
                      else (SERTOS_STATUS_OK, upd_sem sem (\<lambda>t. t\<lparr>sem_is_statically_allocated := False\<rparr>) s2))"

definition sertos_sem_create_binary ::
  "('b, 'r, 'm, 'p) env \<Rightarrow> bool \<Rightarrow> addr \<Rightarrow> ('b, 'r, 'm, 'p) kstate \<Rightarrow> SertosStatus \<times> ('b, 'r, 'm, 'p) kstate" where
  "sertos_sem_create_binary E initial_state out_handle s =
     sertos_sem_create_counting E (if initial_state then 1 else 0) 1 out_handle s"

text \<open>\<open>if (sertos_scheduler_is_running()) sertos_scheduler_reschedule();\<close> ends most kernel calls.\<close>

definition reschedule_if_running ::
  "('b, 'r, 'm, 'p) env \<Rightarrow> ('b, 'r, 'm, 'p) kstate \<Rightarrow> ('b, 'r, 'm, 'p) kstate option" where
  "reschedule_if_running E s =
     (if sertos_scheduler_is_running s then sertos_scheduler_reschedule E s else Some s)"

definition sertos_sem_delete ::
  "('b, 'r, 'm, 'p) env \<Rightarrow> addr \<Rightarrow> ('b, 'r, 'm, 'p) kstate \<Rightarrow> (SertosStatus \<times> ('b, 'r, 'm, 'p) kstate) option" where
  "sertos_sem_delete E handle s =
     (if \<not> sem_handle_ok handle s then Some (SERTOS_STATUS_ERROR_INVALID_PARAM, s)
      else do {
        let (crit_status, s1) = enter_critical E s;
        let s2 = upd_sem handle (\<lambda>t. t\<lparr>sem_magic := 0\<rparr>) s1;
        s3 \<leftarrow> unblock_all E (SemWait handle) s2;
        let s4 = (if \<not> sem_is_statically_allocated (sems s3 handle)
                  then s3\<lparr>pool := memory_pool_free E handle (pool s3)\<rparr> else s3);
        s5 \<leftarrow> reschedule_if_running E (exit_critical E crit_status s4);
        Some (SERTOS_STATUS_OK, s5)
      })"

definition sertos_sem_take ::
  "('b, 'r, 'm, 'p) env \<Rightarrow> addr \<Rightarrow> SertosTick \<Rightarrow> ('b, 'r, 'm, 'p) kstate \<Rightarrow>
   (SertosStatus \<times> ('b, 'r, 'm, 'p) kstate) option" where
  "sertos_sem_take E handle timeout s =
     (if \<not> sem_handle_ok handle s then Some (SERTOS_STATUS_ERROR_INVALID_PARAM, s)
      else let (crit_status, s1) = enter_critical E s
           in if 0 < sem_count (sems s1 handle)
              then Some (SERTOS_STATUS_OK,
                     exit_critical E crit_status (upd_sem handle (\<lambda>t. t\<lparr>sem_count := sem_count t - 1\<rparr>) s1))
              else if timeout = SERTOS_NO_WAIT
              then Some (SERTOS_STATUS_ERROR_TIMEOUT, exit_critical E crit_status s1)
              else sertos_scheduler_wait_list_block E (Some (SemWait handle)) timeout (exit_critical E crit_status s1))"

definition sertos_sem_give ::
  "('b, 'r, 'm, 'p) env \<Rightarrow> addr \<Rightarrow> ('b, 'r, 'm, 'p) kstate \<Rightarrow> (SertosStatus \<times> ('b, 'r, 'm, 'p) kstate) option" where
  "sertos_sem_give E handle s =
     (if \<not> sem_handle_ok handle s then Some (SERTOS_STATUS_ERROR_INVALID_PARAM, s)
      else do {
        let (crit_status, s1) = enter_critical E s;
        (unblocked, s2) \<leftarrow> sertos_scheduler_wait_list_unblock_highest E (Some (SemWait handle)) s1;
        if unblocked \<noteq> NULL
        then do { s3 \<leftarrow> reschedule_if_running E (exit_critical E crit_status s2); Some (SERTOS_STATUS_OK, s3) }
        else if sem_count (sems s2 handle) < sem_max_count (sems s2 handle)
        then Some (SERTOS_STATUS_OK,
               exit_critical E crit_status (upd_sem handle (\<lambda>t. t\<lparr>sem_count := sem_count t + 1\<rparr>) s2))
        else Some (SERTOS_STATUS_ERROR_RESOURCE_BUSY, exit_critical E crit_status s2)
      })"

definition sertos_sem_give_from_isr ::
  "('b, 'r, 'm, 'p) env \<Rightarrow> addr \<Rightarrow> addr \<Rightarrow> ('b, 'r, 'm, 'p) kstate \<Rightarrow>
   (SertosStatus \<times> ('b, 'r, 'm, 'p) kstate) option" where
  "sertos_sem_give_from_isr E handle out_higher_prio_woken s =
     (if \<not> sem_handle_ok handle s then Some (SERTOS_STATUS_ERROR_INVALID_PARAM, s)
      else do {
        let s0 = set_flag out_higher_prio_woken False s;
        let (crit_status, s1) = enter_critical E s0;
        (unblocked, s2) \<leftarrow> sertos_scheduler_wait_list_unblock_highest E (Some (SemWait handle)) s1;
        if unblocked \<noteq> NULL
        then let cur = sertos_scheduler_get_current_tcb s2;
                 s3 = (if out_higher_prio_woken \<noteq> NULL \<and> cur \<noteq> NULL \<and>
                          tcb_priority (tcbs s2 cur) < tcb_priority (tcbs s2 unblocked)
                       then set_flag out_higher_prio_woken True s2 else s2)
             in Some (SERTOS_STATUS_OK, exit_critical E crit_status s3)
        else if sem_count (sems s2 handle) < sem_max_count (sems s2 handle)
        then Some (SERTOS_STATUS_OK,
               exit_critical E crit_status (upd_sem handle (\<lambda>t. t\<lparr>sem_count := sem_count t + 1\<rparr>) s2))
        else Some (SERTOS_STATUS_ERROR_RESOURCE_BUSY, exit_critical E crit_status s2)
      })"

definition sertos_sem_get_count :: "addr \<Rightarrow> ('b, 'r, 'm, 'p) kstate \<Rightarrow> size_t" where
  "sertos_sem_get_count handle s = (if \<not> sem_handle_ok handle s then 0 else sem_count (sems s handle))"

section \<open>The well-formedness of a semaphore\<close>

text \<open>A count never exceeds its maximum, and a task only waits while the count is zero.\<close>

definition sem_inv :: "addr \<Rightarrow> ('b, 'r, 'm, 'p) kstate \<Rightarrow> lmap \<Rightarrow> bool" where
  "sem_inv h s L \<longleftrightarrow> L (SemWait h) \<noteq> None \<and> sem_count (sems s h) \<le> sem_max_count (sems s h) \<and>
     0 < sem_max_count (sems s h) \<and> (L (SemWait h) \<noteq> Some [] \<longrightarrow> sem_count (sems s h) = 0)"

section \<open>Lemmas\<close>

lemma upd_sem_simps [simp]:
  "kinv bits (upd_sem a f s) L \<longleftrightarrow> kinv bits s L" "tcbs (upd_sem a f s) = tcbs s"
  "sems (upd_sem a f s) = (sems s)(a := f (sems s a))" "list_heap (upd_sem a f s) = list_heap s"
  "sertos_current_tcb (upd_sem a f s) = sertos_current_tcb s" "s_is_running (upd_sem a f s) = s_is_running s"
  "s_lock_nesting (upd_sem a f s) = s_lock_nesting s" "bool_cells (upd_sem a f s) = bool_cells s"
  by (simp_all add: upd_sem_def)

lemma set_flag_simps [simp]:
  "kinv bits (set_flag out v s) L \<longleftrightarrow> kinv bits s L" "tcbs (set_flag out v s) = tcbs s"
  "sems (set_flag out v s) = sems s" "mutexes (set_flag out v s) = mutexes s"
  "queues (set_flag out v s) = queues s" "streams (set_flag out v s) = streams s"
  "mem (set_flag out v s) = mem s" "port (set_flag out v s) = port s"
  "sertos_current_tcb (set_flag out v s) = sertos_current_tcb s" "s_is_running (set_flag out v s) = s_is_running s"
  "list_heap (set_flag out v s) = list_heap s" "s_lock_nesting (set_flag out v s) = s_lock_nesting s"
  "out \<noteq> NULL \<Longrightarrow> bool_cells (set_flag out v s) = (bool_cells s)(out := v)"
  by (simp_all add: set_flag_def)

lemma sched_frame_bool_cells: "sched_frame s s' \<Longrightarrow> bool_cells s' = bool_cells s"
proof -
  assume "sched_frame s s'"
  then have "s'\<lparr>list_heap := h, s_ready_bitmap := b, tcbs := t\<rparr> = s\<lparr>list_heap := h, s_ready_bitmap := b, tcbs := t\<rparr>" for h b t
    by (simp add: sched_frame_def)
  from arg_cong [OF this, of bool_cells] show ?thesis by simp
qed

text \<open>Rescheduling does nothing when the running task is itself the one to select.\<close>

lemma reschedule_stays:
  assumes "sertos_scheduler_select_next_task E s = Some (sertos_current_tcb s)" and "sertos_current_tcb s \<noteq> NULL"
  shows "\<exists>p. reschedule_if_running E s = Some (s\<lparr>port := p\<rparr>)"
proof (cases "s_is_running s")
  case True
  then show ?thesis using assms
    by (simp add: reschedule_if_running_def sertos_scheduler_is_running_def sertos_scheduler_reschedule_def
        enter_critical_eq exit_critical_def) blast
next
  case False
  then show ?thesis
    by (intro exI [of _ "port s"]) (simp add: reschedule_if_running_def sertos_scheduler_is_running_def)
qed

context kernel_env
begin

text \<open>The critical section that give and give-from-interrupt share, for a semaphore with and without waiters.\<close>

lemma sem_give_isr_waiter:
  assumes inv: "kinv bits s L" and h: "sem_handle_ok h s" and wl: "L (SemWait h) = Some (EventNode a # ns)" "a \<noteq> NULL"
  obtains s' where "sertos_sem_give_from_isr E h out s = Some (SERTOS_STATUS_OK, s')"
    and "kinv bits s' (wake_lists a (unat (tcb_priority (tcbs s a))) L)" and "sems s' = sems s"
    and "tcbs s' = (tcbs s)(a := woken_tcb (tcbs s a))" and "sertos_current_tcb s' = sertos_current_tcb s"
    and "out \<noteq> NULL \<Longrightarrow> bool_cells s' out = (sertos_current_tcb s \<noteq> NULL \<and>
      tcb_priority (tcbs s (sertos_current_tcb s)) < tcb_priority (tcbs s a))"
proof -
  let ?s1 = "(set_flag out False s)\<lparr>port := snd (sertos_port_enter_critical E (port s))\<rparr>"
  have inv1: "kinv bits ?s1 L" using inv by simp
  obtain s2 where s2: "sertos_scheduler_wait_list_unblock_highest E (Some (SemWait h)) ?s1 = Some (a, s2)"
    "kinv bits s2 (wake_lists a (unat (tcb_priority (tcbs s a))) L)" "sched_frame ?s1 s2"
    "tcbs s2 = (tcbs s)(a := woken_tcb (tcbs s a))"
    using unblock_highest_head [OF inv1 wl(1) refl] unfolding woken_tcb_def by auto
  have fr: "sertos_current_tcb s2 = sertos_current_tcb s" "sems s2 = sems s"
    "out \<noteq> NULL \<Longrightarrow> bool_cells s2 = (bool_cells s)(out := False)"
    using sched_frameD(1,7) [OF s2(3)] sched_frame_bool_cells [OF s2(3)] by simp_all
  have pr: "tcb_priority (tcbs s2 b) = tcb_priority (tcbs s b)" for b by (simp add: s2(4) woken_tcb_def)
  let ?c = "sertos_current_tcb s"
  let ?s3 = "if out \<noteq> NULL \<and> ?c \<noteq> NULL \<and> tcb_priority (tcbs s ?c) < tcb_priority (tcbs s a)
    then set_flag out True s2 else s2"
  let ?s4 = "exit_critical E (fst (sertos_port_enter_critical E (port s))) ?s3"
  have "sertos_sem_give_from_isr E h out s = Some (SERTOS_STATUS_OK, ?s4)"
    using h s2(1) wl(2) fr(1) pr
    by (simp add: sertos_sem_give_from_isr_def enter_critical_eq sertos_scheduler_get_current_tcb_def Let_def)
  then show thesis by (rule that) (use s2(2,4) fr in auto)
qed

lemma sem_give_isr_empty:
  assumes inv: "kinv bits s L" and h: "sem_handle_ok h s" and wl: "L (SemWait h) = Some []"
  obtains s' where "sertos_sem_give_from_isr E h out s =
      Some (if sem_count (sems s h) < sem_max_count (sems s h) then SERTOS_STATUS_OK
            else SERTOS_STATUS_ERROR_RESOURCE_BUSY, s')"
    and "kinv bits s' L" and "tcbs s' = tcbs s"
    and "sems s' = (if sem_count (sems s h) < sem_max_count (sems s h)
      then (sems s)(h := (sems s h)\<lparr>sem_count := sem_count (sems s h) + 1\<rparr>) else sems s)"
    and "out \<noteq> NULL \<Longrightarrow> \<not> bool_cells s' out"
proof -
  let ?s1 = "(set_flag out False s)\<lparr>port := snd (sertos_port_enter_critical E (port s))\<rparr>"
  have inv1: "kinv bits ?s1 L" using inv by simp
  let ?s2 = "if sem_count (sems s h) < sem_max_count (sems s h)
    then upd_sem h (\<lambda>t. t\<lparr>sem_count := sem_count t + 1\<rparr>) ?s1 else ?s1"
  let ?s3 = "exit_critical E (fst (sertos_port_enter_critical E (port s))) ?s2"
  have "sertos_sem_give_from_isr E h out s = Some (if sem_count (sems s h) < sem_max_count (sems s h)
      then SERTOS_STATUS_OK else SERTOS_STATUS_ERROR_RESOURCE_BUSY, ?s3)"
    using h unblock_highest_empty [OF inv1 wl]
    by (simp add: sertos_sem_give_from_isr_def enter_critical_eq Let_def)
  then show thesis by (rule that) (use inv in auto)
qed

end

end
