(* ===== verification/Sertos_Sem_Spec.thy ===== *)
theory Sertos_Sem_Spec
  imports Sertos_Sched_Spec Sertos_Sem
begin

text \<open>
  What the blocking protocol and semaphores guarantee: who is woken and in which order, what take and
  give do to the count, that deletion strands nobody, and how a wait with a timeout reports its end.
\<close>

lemma Some_not_None: "m = Some x \<Longrightarrow> m \<noteq> None"
  by simp

lemma demo_facts:
  "tcbs demo = demo_tcbs" "sertos_current_tcb demo = 0x100" "s_is_running demo" "s_lock_nesting demo = 0"
  "sem_handle_ok 0x900 demo" "sem_handle_ok 0x901 demo"
  "on_list (lists_of demo_layout) (ReadyQ 5) (StateNode 0x100)"
  "lists_of demo_layout (SemWait 0x900) = Some [EventNode 0x500]"
  "lists_of demo_layout (SemWait 0x901) = Some []"
  by (simp_all add: demo_def demo_state_def sem_handle_ok_def on_lists_of demo_layout_def lists_of_def)

lemma demo_sorted: "waits_sorted demo_tcbs (lists_of demo_layout)"
  by (auto simp: waits_sorted_def lists_of_def demo_layout_def wait_sorted_def)

lemma demo_select: "abs_select (lists_of demo_layout) = 0x100"
proof -
  have "ready_priorities (lists_of demo_layout) = [2, 5]"
    by (simp add: ready_priorities_def SERTOS_CONFIG_MAX_PRIORITIES_def upt_conv_Cons lists_of_def demo_layout_def)
  then show ?thesis by (simp add: abs_select_def lists_of_def demo_layout_def)
qed

section \<open>Blocking and waking\<close>

text \<open>C10: \<open>sertos_scheduler_wait_list_block\<close> parks its caller: when it hands over to the scheduler the
  caller has left its ready queue and sits BLOCKED on the wait list behind every waiter of
  at least its priority and before the others, and on the delay list exactly when a timeout runs.
  Wait lists stay sorted.\<close>

theorem wait_list_block_parks:
  assumes "kernel_env E bits" and "kinv bits s L" and "s_is_running s" and "sertos_current_tcb s = c"
    and "on_list L (ReadyQ p) (StateNode c)" and "is_wait_list wl" and "L wl \<noteq> None" and "timeout \<noteq> 0"
    and "waits_sorted (tcbs s) L"
  shows "\<exists>s' L'. L' = blocked_lists (tcbs s) c p (Some wl) (timeout \<noteq> SERTOS_WAIT_FOREVER) L \<and>
    sertos_scheduler_wait_list_block E (Some wl) timeout s =
      map_option (\<lambda>s''. (if timeout \<noteq> SERTOS_WAIT_FOREVER \<and> tcb_delay_ticks (tcbs s'' c) = 0 \<and>
          tcb_wait_list (tcbs s'' c) = None then SERTOS_STATUS_ERROR_TIMEOUT else SERTOS_STATUS_OK, s''))
        (sertos_scheduler_switch_context E s') \<and>
    kinv bits s' L' \<and> waits_sorted (tcbs s') L' \<and> abs_select L' \<noteq> c \<and>
    tcb_state (tcbs s' c) = SERTOS_TASK_STATE_BLOCKED \<and> (\<forall>a. a \<noteq> c \<longrightarrow> tcbs s' a = tcbs s a)"
proof -
  let ?L = "blocked_lists (tcbs s) c p (Some wl) (timeout \<noteq> SERTOS_WAIT_FOREVER) L"
  obtain s' where s': "sertos_scheduler_wait_list_block E (Some wl) timeout s =
      map_option (\<lambda>s''. (if timeout \<noteq> SERTOS_WAIT_FOREVER \<and> tcb_delay_ticks (tcbs s'' c) = 0 \<and>
          tcb_wait_list (tcbs s'' c) = None then SERTOS_STATUS_ERROR_TIMEOUT else SERTOS_STATUS_OK, s''))
        (sertos_scheduler_switch_context E s')" "kinv bits s' ?L"
    "tcbs s' = (tcbs s)(c := (tcbs s c)\<lparr>tcb_state := SERTOS_TASK_STATE_BLOCKED, tcb_wait_list := Some wl,
       tcb_delay_ticks := (if timeout = SERTOS_WAIT_FOREVER then 0 else timeout)\<rparr>)"
    using kernel_env.wait_list_block_refines [OF assms(1-8)] by blast
  have "waits_sorted (tcbs s') ?L"
    using waits_sorted_block [OF assms(9)] waits_sorted_cong [of "tcbs s'" "tcbs s" ?L] by (simp add: s'(3))
  moreover have "abs_select ?L \<noteq> c"
    by (rule kernel_env.blocked_not_selected [OF assms(1,2,5) s'(2)]) (use assms(6) in simp)
  ultimately show ?thesis using s' by (intro exI [of _ s'] exI [of _ ?L]) simp
qed

theorem wait_list_block_parks_witness:
  "\<exists>s' L'. L' = blocked_lists demo_tcbs 0x100 5 (Some (SemWait 0x900)) True (lists_of demo_layout) \<and>
     kinv ref_bits (s' :: ref_state) L' \<and> waits_sorted (tcbs s') L' \<and> L' (SemWait 0x900) = Some [EventNode 0x500, EventNode 0x100]"
proof -
  have "blocked_lists demo_tcbs 0x100 5 (Some (SemWait 0x900)) True (lists_of demo_layout) (SemWait 0x900) =
      Some [EventNode 0x500, EventNode 0x100]"
    by (simp add: blocked_lists_def demo_facts insert_by_priority_def node_priority_def demo_tcbs_def demo_tcb_def)
  then show ?thesis
    using wait_list_block_parks [OF quiet_kernel_env demo_inv demo_facts(3,2,7), of "SemWait 0x900" 10]
      demo_sorted by (simp add: demo_facts SERTOS_WAIT_FOREVER_def) blast
qed

text \<open>C11: \<open>sertos_scheduler_wait_list_unblock_highest\<close> wakes a waiter of the highest priority, the one that
  has waited longest among equals, takes it off the wait list and the delay list, resets its
  timeout and appends it to its ready queue; on an empty list it returns NULL and changes nothing.\<close>

theorem unblock_highest_correct:
  assumes "kernel_env E bits" and "kinv bits s L" and "is_wait_list wl" and "L wl = Some ns" and "waits_sorted (tcbs s) L"
  shows "if ns = [] then sertos_scheduler_wait_list_unblock_highest E (Some wl) s = Some (NULL, s)
    else \<exists>a s' L'. hd ns = EventNode a \<and> L' = wake_lists a (unat (tcb_priority (tcbs s a))) L \<and>
      sertos_scheduler_wait_list_unblock_highest E (Some wl) s = Some (a, s') \<and>
      (\<forall>b. EventNode b \<in> set ns \<longrightarrow> tcb_priority (tcbs s b) \<le> tcb_priority (tcbs s a)) \<and>
      kinv bits s' L' \<and> L' wl = Some (tl ns) \<and> waits_sorted (tcbs s') L' \<and> sched_frame s s' \<and>
      tcbs s' = (tcbs s)(a := woken_tcb (tcbs s a))"
proof (rule wait_list_cases [OF assms(2,3) Some_not_None [OF assms(4)]], goal_cases empty waiter)
  case empty
  then show ?thesis using kernel_env.unblock_highest_empty [OF assms(1,2) empty] assms(4) by simp
next
  case (waiter a ms)
  let ?L = "wake_lists a (unat (tcb_priority (tcbs s a))) L"
  obtain s' where s': "sertos_scheduler_wait_list_unblock_highest E (Some wl) s = Some (a, s')" "kinv bits s' ?L"
    "sched_frame s s'" "tcbs s' = (tcbs s)(a := woken_tcb (tcbs s a))"
    using kernel_env.unblock_highest_head [OF assms(1,2) waiter(1) refl] unfolding woken_tcb_def by blast
  have ns: "ns = EventNode a # ms" using waiter(1) assms(4) by simp
  have "wait_sorted (tcbs s) ns" using assms(3,4,5) by (auto simp: waits_sorted_def)
  then have "tcb_priority (tcbs s b) \<le> tcb_priority (tcbs s a)" if "EventNode b \<in> set ns" for b
    using wait_sorted_head [of "tcbs s" a ms b] that ns by simp
  moreover have "waits_sorted (tcbs s') ?L"
    using waits_sorted_wake [OF assms(5)] waits_sorted_cong [of "tcbs s'" "tcbs s" ?L] by (simp add: s'(4) woken_tcb_def)
  moreover have "?L wl = Some ms" using waiter(1) assms(3) by (simp add: wake_lists_wait)
  ultimately show ?thesis using s' ns by auto
qed

theorem unblock_highest_correct_witness:
  "\<exists>s'. sertos_scheduler_wait_list_unblock_highest quiet_env (Some (SemWait 0x900)) demo = Some (0x500, s') \<and>
     kinv ref_bits s' (wake_lists 0x500 6 (lists_of demo_layout)) \<and> tcb_state (tcbs s' 0x500) = SERTOS_TASK_STATE_READY"
  using unblock_highest_correct [OF quiet_kernel_env demo_inv _ demo_facts(8)] demo_sorted
  by (auto simp: demo_facts woken_tcb_def demo_tcbs_def demo_tcb_def)

section \<open>Semaphores\<close>

text \<open>C12: giving a semaphore from an interrupt wakes the first waiter without touching the count and
  reports whether it preempts the interrupted task; with nobody waiting it adds one token up to
  the maximum and refuses beyond it. The count stays within its bounds and is zero whenever a task waits.\<close>

theorem sem_give_from_isr_correct:
  assumes "kernel_env E bits" and "kinv bits s L" and "sem_handle_ok h s" and "sem_inv h s L"
  shows "\<exists>st s' L'. sertos_sem_give_from_isr E h out s = Some (st, s') \<and> kinv bits s' L' \<and> sem_inv h s' L' \<and>
    (if L (SemWait h) = Some []
     then L' = L \<and> tcbs s' = tcbs s \<and>
       (if sem_count (sems s h) < sem_max_count (sems s h)
        then st = SERTOS_STATUS_OK \<and> unat (sem_count (sems s' h)) = unat (sem_count (sems s h)) + 1
        else st = SERTOS_STATUS_ERROR_RESOURCE_BUSY \<and> sem_count (sems s' h) = sem_count (sems s h))
     else st = SERTOS_STATUS_OK \<and> sem_count (sems s' h) = sem_count (sems s h) \<and>
       (\<exists>a. hd (the (L (SemWait h))) = EventNode a \<and> L' = wake_lists a (unat (tcb_priority (tcbs s a))) L \<and>
         tcbs s' = (tcbs s)(a := woken_tcb (tcbs s a)) \<and>
         (out \<noteq> NULL \<longrightarrow> bool_cells s' out = (sertos_current_tcb s \<noteq> NULL \<and>
           tcb_priority (tcbs s (sertos_current_tcb s)) < tcb_priority (tcbs s a)))))"
proof -
  have wl: "is_wait_list (SemWait h)" "L (SemWait h) \<noteq> None" using assms(4) by (simp_all add: sem_inv_def)
  show ?thesis
  proof (rule wait_list_cases [OF assms(2) wl], goal_cases empty waiter)
  case empty
  obtain s' where "sertos_sem_give_from_isr E h out s =
      Some (if sem_count (sems s h) < sem_max_count (sems s h) then SERTOS_STATUS_OK
            else SERTOS_STATUS_ERROR_RESOURCE_BUSY, s')" "kinv bits s' L" "tcbs s' = tcbs s"
    "sems s' = (if sem_count (sems s h) < sem_max_count (sems s h)
      then (sems s)(h := (sems s h)\<lparr>sem_count := sem_count (sems s h) + 1\<rparr>) else sems s)"
    using kernel_env.sem_give_isr_empty [OF assms(1,2,3) empty] by blast
  moreover have "unat (sem_count (sems s h) + 1) = unat (sem_count (sems s h)) + 1"
    if "sem_count (sems s h) < sem_max_count (sems s h)" using unat_Suc_less [OF that] by simp
  ultimately show ?thesis using empty assms(4)
    by (intro exI conjI) (auto simp: sem_inv_def word_le_nat_alt word_less_nat_alt)
next
  case (waiter a ns)
  let ?L = "wake_lists a (unat (tcb_priority (tcbs s a))) L"
  obtain s' where s': "sertos_sem_give_from_isr E h out s = Some (SERTOS_STATUS_OK, s')" "kinv bits s' ?L"
    "sems s' = sems s" "tcbs s' = (tcbs s)(a := woken_tcb (tcbs s a))"
    "out \<noteq> NULL \<Longrightarrow> bool_cells s' out = (sertos_current_tcb s \<noteq> NULL \<and>
      tcb_priority (tcbs s (sertos_current_tcb s)) < tcb_priority (tcbs s a))"
    using kernel_env.sem_give_isr_waiter [OF assms(1,2,3) waiter] by blast
  have "?L (SemWait h) = Some ns" using waiter(1) by (simp add: wake_lists_wait)
  then have "sem_inv h s' ?L" using assms(4) waiter(1) s'(3) by (simp add: sem_inv_def)
  then show ?thesis using s' waiter(1) by (intro exI conjI) auto
qed
qed

lemma demo_sem_inv: "sem_inv 0x900 demo (lists_of demo_layout)"
  by (simp add: sem_inv_def demo_facts) (simp add: demo_def demo_state_def)

theorem sem_give_from_isr_correct_witness:
  "\<exists>s'. sertos_sem_give_from_isr quiet_env 0x900 0x700 demo = Some (SERTOS_STATUS_OK, s') \<and>
     bool_cells s' 0x700 \<and> tcb_state (tcbs s' 0x500) = SERTOS_TASK_STATE_READY"
  using sem_give_from_isr_correct [OF quiet_kernel_env demo_inv demo_facts(5) demo_sem_inv, of "0x700"]
  by (auto simp: demo_facts woken_tcb_def demo_tcbs_def demo_tcb_def)

text \<open>C13: taking a semaphore: with a token the take succeeds at once and consumes exactly one; without one
  a take that must not wait fails and changes nothing; otherwise the caller is parked on the
  semaphore's wait list (in the state that is handed to the scheduler the count is still
  zero and the semaphore well formed).\<close>

theorem sem_take_correct:
  assumes "kernel_env E bits" and "kinv bits s L" and "sem_handle_ok h s" and "sem_inv h s L"
    and "s_is_running s" and "sertos_current_tcb s = c" and "on_list L (ReadyQ p) (StateNode c)"
  shows "if 0 < sem_count (sems s h)
    then \<exists>s'. sertos_sem_take E h timeout s = Some (SERTOS_STATUS_OK, s') \<and> kinv bits s' L \<and> sem_inv h s' L \<and>
      tcbs s' = tcbs s \<and> unat (sem_count (sems s' h)) = unat (sem_count (sems s h)) - 1
    else if timeout = SERTOS_NO_WAIT
    then \<exists>s'. sertos_sem_take E h timeout s = Some (SERTOS_STATUS_ERROR_TIMEOUT, s') \<and> kinv bits s' L \<and>
      sems s' = sems s \<and> tcbs s' = tcbs s
    else \<exists>s' L'. L' = blocked_lists (tcbs s) c p (Some (SemWait h)) (timeout \<noteq> SERTOS_WAIT_FOREVER) L \<and>
      map_option snd (sertos_sem_take E h timeout s) = sertos_scheduler_switch_context E s' \<and>
      kinv bits s' L' \<and> sem_inv h s' L' \<and> tcb_state (tcbs s' c) = SERTOS_TASK_STATE_BLOCKED"
proof -
  let ?s1 = "exit_critical E (fst (sertos_port_enter_critical E (port s)))
    (s\<lparr>port := snd (sertos_port_enter_critical E (port s))\<rparr>)"
  let ?L = "blocked_lists (tcbs s) c p (Some (SemWait h)) (timeout \<noteq> SERTOS_WAIT_FOREVER) L"
  have inv1: "kinv bits ?s1 L" using assms(2) by simp
  consider (token) "0 < sem_count (sems s h)" | (refused) "sem_count (sems s h) = 0" "timeout = SERTOS_NO_WAIT"
    | (parked) "sem_count (sems s h) = 0" "timeout \<noteq> 0" 
    unfolding SERTOS_NO_WAIT_def by (metis word_neq_0_conv)
  then show ?thesis
  proof cases
    case token
    have "unat (sem_count (sems s h) - 1) = unat (sem_count (sems s h)) - 1" by (rule unat_minus_one_pos [OF token])
    moreover from this have "sem_count (sems s h) - 1 \<le> sem_max_count (sems s h)"
      using assms(4) unfolding sem_inv_def word_le_nat_alt by linarith
    ultimately show ?thesis
      using token assms(2,3,4) by (auto simp: sertos_sem_take_def enter_critical_eq sem_inv_def)
  next
    case refused
    then show ?thesis using assms(2,3) by (simp add: sertos_sem_take_def enter_critical_eq)
  next
    case parked
    have wl: "is_wait_list (SemWait h)" "L (SemWait h) \<noteq> None" using assms(4) by (simp_all add: sem_inv_def)
    have c: "s_is_running ?s1" "sertos_current_tcb ?s1 = c" using assms(5,6) by simp_all
    obtain s' where s': "sertos_scheduler_wait_list_block E (Some (SemWait h)) timeout ?s1 =
        map_option (\<lambda>s''. (if timeout \<noteq> SERTOS_WAIT_FOREVER \<and> tcb_delay_ticks (tcbs s'' c) = 0 \<and>
            tcb_wait_list (tcbs s'' c) = None then SERTOS_STATUS_ERROR_TIMEOUT else SERTOS_STATUS_OK, s''))
          (sertos_scheduler_switch_context E s')"
      "kinv bits s' (blocked_lists (tcbs ?s1) c p (Some (SemWait h)) (timeout \<noteq> SERTOS_WAIT_FOREVER) L)"
      "tcbs s' = (tcbs ?s1)(c := (tcbs ?s1 c)\<lparr>tcb_state := SERTOS_TASK_STATE_BLOCKED, tcb_wait_list := Some (SemWait h),
         tcb_delay_ticks := (if timeout = SERTOS_WAIT_FOREVER then 0 else timeout)\<rparr>)" "sems s' = sems ?s1"
      using kernel_env.wait_list_block_refines [OF assms(1) inv1 c assms(7) wl parked(2)] by blast
    have "sertos_sem_take E h timeout s = sertos_scheduler_wait_list_block E (Some (SemWait h)) timeout ?s1"
      using parked assms(3) by (simp add: sertos_sem_take_def enter_critical_eq SERTOS_NO_WAIT_def)
    then have "map_option snd (sertos_sem_take E h timeout s) = sertos_scheduler_switch_context E s'"
      by (simp add: s'(1) option.map_comp comp_def option.map_ident)
    moreover have "sem_inv h s' ?L"
      using assms(4) s'(4) parked(1) by (auto simp: sem_inv_def blocked_lists_def Let_def)
    ultimately show ?thesis using parked s'(2,3) by (intro if_not_P [THEN iffD2]) (auto simp: SERTOS_NO_WAIT_def)
  qed
qed

theorem sem_take_correct_witness:
  "\<exists>s' L'. L' = blocked_lists demo_tcbs 0x100 5 (Some (SemWait 0x900)) True (lists_of demo_layout) \<and>
     map_option snd (sertos_sem_take quiet_env 0x900 10 demo) = sertos_scheduler_switch_context quiet_env s' \<and>
     kinv ref_bits s' L' \<and> tcb_state (tcbs s' 0x100) = SERTOS_TASK_STATE_BLOCKED"
proof -
  have "sem_count (sems demo 0x900) = 0" by (simp add: demo_def demo_state_def)
  then show ?thesis
    using sem_take_correct [OF quiet_kernel_env demo_inv demo_facts(5) demo_sem_inv demo_facts(3,2,7), of 10]
    by (simp add: demo_facts SERTOS_NO_WAIT_def SERTOS_WAIT_FOREVER_def) blast
qed

text \<open>C14: deleting a semaphore wakes every waiter: in the state from which the call reschedules the wait
  list is empty, every task that was on it is READY with its timeout cancelled, and the handle is
  no longer accepted.\<close>

theorem sem_delete_wakes_all:
  assumes "kernel_env E bits" and "kinv bits s L" and "sem_handle_ok h s" and "L (SemWait h) = Some ns"
  shows "\<exists>s' L'. sertos_sem_delete E h s = map_option (Pair SERTOS_STATUS_OK) (reschedule_if_running E s') \<and>
    kinv bits s' L' \<and> L' (SemWait h) = Some [] \<and> \<not> sem_handle_ok h s' \<and>
    (\<forall>a. EventNode a \<in> set ns \<longrightarrow> tcb_state (tcbs s' a) = SERTOS_TASK_STATE_READY \<and>
       tcb_delay_ticks (tcbs s' a) = 0 \<and> tcb_wait_list (tcbs s' a) = None)"
proof -
  let ?s2 = "upd_sem h (\<lambda>t. t\<lparr>sem_magic := 0\<rparr>) (s\<lparr>port := snd (sertos_port_enter_critical E (port s))\<rparr>)"
  have inv2: "kinv bits ?s2 L" using assms(2) by simp
  obtain s3 where s3: "unblock_all E (SemWait h) ?s2 = Some s3" "kinv bits s3 (wake_all (tcbs ?s2) ns L)"
    "wake_all (tcbs ?s2) ns L (SemWait h) = Some []" "sched_frame ?s2 s3"
    "tcbs s3 = (\<lambda>a. if EventNode a \<in> set ns then woken_tcb (tcbs ?s2 a) else tcbs ?s2 a)"
    using kernel_env.unblock_all_refines [OF assms(1) inv2 assms(4)] by auto
  let ?s4 = "if \<not> sem_is_statically_allocated (sems s3 h)
    then s3\<lparr>pool := memory_pool_free E h (pool s3)\<rparr> else s3"
  let ?s5 = "exit_critical E (fst (sertos_port_enter_critical E (port s))) ?s4"
  have "sertos_sem_delete E h s = map_option (Pair SERTOS_STATUS_OK) (reschedule_if_running E ?s5)"
    using assms(3) s3(1) by (simp add: sertos_sem_delete_def enter_critical_eq map_option_bind Let_def)
  moreover have "kinv bits ?s5 (wake_all (tcbs ?s2) ns L)" using s3(2) by simp
  moreover have "\<not> sem_handle_ok h ?s5"
    using sched_frameD(7) [OF s3(4)] by (simp add: sem_handle_ok_def SERTOS_SEM_MAGIC_WORD_def)
  moreover have "tcbs ?s5 = tcbs s3" by simp
  ultimately show ?thesis using s3(3,5) by (intro exI [of _ ?s5] exI [of _ "wake_all (tcbs ?s2) ns L"] conjI) (auto simp: woken_tcb_def)
qed

theorem sem_delete_wakes_all_witness:
  "\<exists>s' L'. sertos_sem_delete quiet_env 0x900 demo = map_option (Pair SERTOS_STATUS_OK) (reschedule_if_running quiet_env s') \<and>
     kinv ref_bits s' L' \<and> L' (SemWait 0x900) = Some [] \<and> tcb_state (tcbs s' 0x500) = SERTOS_TASK_STATE_READY"
  using sem_delete_wakes_all [OF quiet_kernel_env demo_inv demo_facts(5,8)] by auto

text \<open>C37: a wait with a finite timeout cannot report success. If the caller of a timed take is
  parked, an interrupt gives the semaphore, and the caller is resumed, the waking has cleared both
  fields that \<open>wait_list_block\<close> reads as the mark of a timeout: the take answers TIMEOUT although the
  token was handed to the caller, and the token is gone.\<close>

theorem timed_take_loses_token:
  assumes "kernel_env E bits" and "kinv bits s L" and "sem_handle_ok h s" and "L (SemWait h) = Some []"
    and "sem_count (sems s h) = 0" and "s_is_running s" and "s_lock_nesting s = 0"
    and "sertos_current_tcb s = c" and "on_list L (ReadyQ p) (StateNode c)"
    and "timeout \<noteq> 0" and "timeout \<noteq> SERTOS_WAIT_FOREVER" and "\<not> port_is_host E"
    and "abs_select (blocked_lists (tcbs s) c p (Some (SemWait h)) True L) \<noteq> NULL"
    and "kernel_env E' bits"
    and "\<And>s. sertos_port_yield E s = map_option snd (sertos_sem_give_from_isr E' h NULL s)"
  shows "\<exists>s'. sertos_sem_take E h timeout s = Some (SERTOS_STATUS_ERROR_TIMEOUT, s') \<and>
    sem_count (sems s' h) = 0 \<and> tcb_state (tcbs s' c) = SERTOS_TASK_STATE_READY"
proof -
  let ?s1 = "exit_critical E (fst (sertos_port_enter_critical E (port s)))
    (s\<lparr>port := snd (sertos_port_enter_critical E (port s))\<rparr>)"
  let ?L = "blocked_lists (tcbs s) c p (Some (SemWait h)) True L"
  have inv1: "kinv bits ?s1 L" using assms(2) by simp
  have wl: "is_wait_list (SemWait h)" "L (SemWait h) \<noteq> None" using assms(4) by simp_all
  have c: "s_is_running ?s1" "sertos_current_tcb ?s1 = c" using assms(6,8) by simp_all
  obtain s' where s': "sertos_scheduler_wait_list_block E (Some (SemWait h)) timeout ?s1 =
      map_option (\<lambda>s''. (if timeout \<noteq> SERTOS_WAIT_FOREVER \<and> tcb_delay_ticks (tcbs s'' c) = 0 \<and>
          tcb_wait_list (tcbs s'' c) = None then SERTOS_STATUS_ERROR_TIMEOUT else SERTOS_STATUS_OK, s''))
        (sertos_scheduler_switch_context E s')"
    "kinv bits s' (blocked_lists (tcbs ?s1) c p (Some (SemWait h)) (timeout \<noteq> SERTOS_WAIT_FOREVER) L)"
    "sertos_current_tcb s' = c" "s_lock_nesting s' = s_lock_nesting ?s1" "sems s' = sems ?s1"
    using kernel_env.wait_list_block_refines [OF assms(1) inv1 c assms(9) wl assms(10)] by blast
  have inv': "kinv bits s' ?L" using s'(2) assms(11) by simp
  have "abs_select ?L \<noteq> c"
    by (rule kernel_env.blocked_not_selected [OF assms(1,2,9) inv']) simp
  then obtain q where q: "sertos_scheduler_switch_context E s' = sertos_port_yield E (s'\<lparr>port := q\<rparr>)"
    using kernel_env.switch_context_yields [OF assms(1) inv' _ assms(12,13)] s'(3,4) assms(7) by auto
  let ?s2 = "s'\<lparr>port := q\<rparr>"
  have w: "?L (SemWait h) = Some [EventNode c]" "c \<noteq> NULL"
    using assms(4) kinv_typed [OF assms(2,9)] by (simp_all add: blocked_lists_def Let_def insert_by_priority_def)
  have k2: "kinv bits ?s2 ?L" and h2: "sem_handle_ok h ?s2"
    using inv' assms(3) s'(5) by (simp_all add: sem_handle_ok_def)
  obtain s3 where s3: "sertos_sem_give_from_isr E' h NULL ?s2 = Some (SERTOS_STATUS_OK, s3)"
    "sems s3 = sems ?s2" "tcbs s3 = (tcbs ?s2)(c := woken_tcb (tcbs ?s2 c))"
    using kernel_env.sem_give_isr_waiter [OF assms(14) k2 h2 w] by blast
  have "sertos_sem_take E h timeout s = sertos_scheduler_wait_list_block E (Some (SemWait h)) timeout ?s1"
    using assms(3,5,10) by (simp add: sertos_sem_take_def enter_critical_eq SERTOS_NO_WAIT_def)
  also have "\<dots> = Some (SERTOS_STATUS_ERROR_TIMEOUT, s3)"
    by (simp add: s'(1) q assms(11,15) s3(1,3) woken_tcb_def)
  finally show ?thesis using s3(2,3) s'(5) assms(5) by (simp add: woken_tcb_def)
qed

definition isr_gives :: ref_envt where
  "isr_gives = ref_env (\<lambda>s. map_option snd (sertos_sem_give_from_isr quiet_env 0x901 NULL s)) (\<lambda>cb h p s. Some s)"

theorem timed_take_loses_token_witness:
  "\<exists>s'. sertos_sem_take isr_gives 0x901 10 demo = Some (SERTOS_STATUS_ERROR_TIMEOUT, s') \<and>
     sem_count (sems s' 0x901) = 0 \<and> tcb_state (tcbs s' 0x100) = SERTOS_TASK_STATE_READY"
proof (rule timed_take_loses_token [OF _ demo_inv demo_facts(6,9) _ demo_facts(3,4,2,7) _ _ _ _ quiet_kernel_env])
  show "kernel_env isr_gives ref_bits" unfolding isr_gives_def by (rule ref_kernel_env)
  have rp: "ready_priorities (blocked_lists demo_tcbs 0x100 5 (Some (SemWait 0x901)) True (lists_of demo_layout)) = [2, 5]"
    by (simp add: ready_priorities_def SERTOS_CONFIG_MAX_PRIORITIES_def upt_conv_Cons blocked_lists_def lists_of_def
        demo_layout_def)
  show "abs_select (blocked_lists (tcbs demo) 0x100 5 (Some (SemWait 0x901)) True (lists_of demo_layout)) \<noteq> NULL"
    unfolding demo_facts(1) by (simp add: abs_select_def rp) (simp add: blocked_lists_def lists_of_def demo_layout_def)
qed (simp_all add: isr_gives_def ref_env_def demo_def demo_state_def SERTOS_WAIT_FOREVER_def)

end
