(* ===== verification/Sertos_Mutex.thy ===== *)
theory Sertos_Mutex
  imports Sertos_Sem
begin

text \<open>
  Mutexes with recursive locking and priority inheritance (\<open>src/sertos_mutex.c\<close>).
\<close>

definition upd_mutex :: "addr \<Rightarrow> (mutex \<Rightarrow> mutex) \<Rightarrow> ('b, 'r, 'm, 'p) kstate \<Rightarrow> ('b, 'r, 'm, 'p) kstate" where
  "upd_mutex a f s = s\<lparr>mutexes := (mutexes s)(a := f (mutexes s a))\<rparr>"

definition mutex_handle_ok :: "addr \<Rightarrow> ('b, 'r, 'm, 'p) kstate \<Rightarrow> bool" where
  "mutex_handle_ok handle s \<longleftrightarrow> \<not> (handle = NULL \<or> mtx_magic (mutexes s handle) \<noteq> SERTOS_MUTEX_MAGIC_WORD)"

text \<open>Both priority changes of this file requeue a READY task around the update of its priority.\<close>

definition change_priority ::
  "('b, 'r, 'm, 'p) env \<Rightarrow> addr \<Rightarrow> SertosPriority \<Rightarrow> ('b, 'r, 'm, 'p) kstate \<Rightarrow> ('b, 'r, 'm, 'p) kstate" where
  "change_priority E tcb prio s =
     (let was_ready = (tcb_state (tcbs s tcb) = SERTOS_TASK_STATE_READY);
          s1 = (if was_ready then snd (sertos_scheduler_remove_ready E tcb s) else s);
          s2 = upd_tcb tcb (\<lambda>t. t\<lparr>tcb_priority := prio\<rparr>) s1
      in if was_ready then snd (sertos_scheduler_add_ready E tcb s2) else s2)"

definition apply_priority_inheritance ::
  "('b, 'r, 'm, 'p) env \<Rightarrow> addr \<Rightarrow> addr \<Rightarrow> ('b, 'r, 'm, 'p) kstate \<Rightarrow> ('b, 'r, 'm, 'p) kstate" where
  "apply_priority_inheritance E mutex cur s =
     (let owner = mtx_owner (mutexes s mutex)
      in if tcb_priority (tcbs s owner) < tcb_priority (tcbs s cur)
         then change_priority E owner (tcb_priority (tcbs s cur)) s else s)"

definition restore_owner_priority ::
  "('b, 'r, 'm, 'p) env \<Rightarrow> addr \<Rightarrow> addr \<Rightarrow> ('b, 'r, 'm, 'p) kstate \<Rightarrow> ('b, 'r, 'm, 'p) kstate" where
  "restore_owner_priority E mutex cur s =
     (if tcb_priority (tcbs s cur) \<noteq> mtx_original_owner_priority (mutexes s mutex)
      then change_priority E cur (mtx_original_owner_priority (mutexes s mutex)) s else s)"

definition sertos_mutex_create_static ::
  "('b, 'r, 'm, 'p) env \<Rightarrow> addr \<Rightarrow> addr \<Rightarrow> ('b, 'r, 'm, 'p) kstate \<Rightarrow> SertosStatus \<times> ('b, 'r, 'm, 'p) kstate" where
  "sertos_mutex_create_static E mutex out_handle s =
     (if mutex = NULL \<or> out_handle = NULL then (SERTOS_STATUS_ERROR_NULL_PTR, s)
      else let s1 = upd_mutex mutex (\<lambda>_. \<lparr>mtx_owner = NULL, mtx_lock_count = 0, mtx_original_owner_priority = 0,
                       mtx_is_statically_allocated = True, mtx_magic = SERTOS_MUTEX_MAGIC_WORD\<rparr>) s;
               s2 = upd_heap (linked_list_init E (MutexWait mutex)) s1
           in (SERTOS_STATUS_OK, s2\<lparr>ptr_cells := (ptr_cells s2)(out_handle := mutex)\<rparr>))"

definition sertos_mutex_create ::
  "('b, 'r, 'm, 'p) env \<Rightarrow> addr \<Rightarrow> ('b, 'r, 'm, 'p) kstate \<Rightarrow> SertosStatus \<times> ('b, 'r, 'm, 'p) kstate" where
  "sertos_mutex_create E out_handle s =
     (if out_handle = NULL then (SERTOS_STATUS_ERROR_NULL_PTR, s)
      else let (mutex, m) = memory_pool_malloc E (sizeof_mutex E) (pool s);
               s1 = s\<lparr>pool := m\<rparr>
           in if mutex = NULL then (SERTOS_STATUS_ERROR_NO_MEMORY, s1)
              else let (status, s2) = sertos_mutex_create_static E mutex out_handle s1
                   in if status \<noteq> SERTOS_STATUS_OK
                      then (status, s2\<lparr>pool := memory_pool_free E mutex (pool s2)\<rparr>)
                      else (SERTOS_STATUS_OK, upd_mutex mutex (\<lambda>t. t\<lparr>mtx_is_statically_allocated := False\<rparr>) s2))"

definition sertos_mutex_delete ::
  "('b, 'r, 'm, 'p) env \<Rightarrow> addr \<Rightarrow> ('b, 'r, 'm, 'p) kstate \<Rightarrow> (SertosStatus \<times> ('b, 'r, 'm, 'p) kstate) option" where
  "sertos_mutex_delete E handle s =
     (if \<not> mutex_handle_ok handle s then Some (SERTOS_STATUS_ERROR_INVALID_PARAM, s)
      else do {
        let (crit_status, s1) = enter_critical E s;
        let s2 = (if mtx_owner (mutexes s1 handle) \<noteq> NULL
                  then restore_owner_priority E handle (mtx_owner (mutexes s1 handle)) s1 else s1);
        let s3 = upd_mutex handle (\<lambda>t. t\<lparr>mtx_magic := 0\<rparr>) s2;
        s4 \<leftarrow> unblock_all E (MutexWait handle) s3;
        let s5 = (if \<not> mtx_is_statically_allocated (mutexes s4 handle)
                  then s4\<lparr>pool := memory_pool_free E handle (pool s4)\<rparr> else s4);
        s6 \<leftarrow> reschedule_if_running E (exit_critical E crit_status s5);
        Some (SERTOS_STATUS_OK, s6)
      })"

definition sertos_mutex_lock ::
  "('b, 'r, 'm, 'p) env \<Rightarrow> addr \<Rightarrow> SertosTick \<Rightarrow> ('b, 'r, 'm, 'p) kstate \<Rightarrow>
   (SertosStatus \<times> ('b, 'r, 'm, 'p) kstate) option" where
  "sertos_mutex_lock E handle timeout s =
     (if \<not> mutex_handle_ok handle s then Some (SERTOS_STATUS_ERROR_INVALID_PARAM, s)
      else let cur = sertos_scheduler_get_current_tcb s
           in if cur = NULL then Some (SERTOS_STATUS_ERROR_NOT_INITIALIZED, s)
              else let (crit_status, s1) = enter_critical E s
                   in if mtx_owner (mutexes s1 handle) = NULL
                      then Some (SERTOS_STATUS_OK, exit_critical E crit_status
                             (upd_mutex handle (\<lambda>t. t\<lparr>mtx_owner := cur, mtx_lock_count := 1,
                                mtx_original_owner_priority := tcb_priority (tcbs s1 cur)\<rparr>) s1))
                      else if mtx_owner (mutexes s1 handle) = cur
                      then Some (SERTOS_STATUS_OK, exit_critical E crit_status
                             (upd_mutex handle (\<lambda>t. t\<lparr>mtx_lock_count := mtx_lock_count t + 1\<rparr>) s1))
                      else let s2 = apply_priority_inheritance E handle cur s1
                           in if timeout = SERTOS_NO_WAIT
                              then Some (SERTOS_STATUS_ERROR_TIMEOUT, exit_critical E crit_status s2)
                              else do {
                                (status, s3) \<leftarrow> sertos_scheduler_wait_list_block E (Some (MutexWait handle)) timeout
                                                  (exit_critical E crit_status s2);
                                if status = SERTOS_STATUS_OK
                                then Some (status, upd_mutex handle (\<lambda>t. t\<lparr>mtx_owner := cur, mtx_lock_count := 1,
                                       mtx_original_owner_priority := tcb_base_priority (tcbs s3 cur)\<rparr>) s3)
                                else Some (status, s3)
                              })"

definition sertos_mutex_unlock ::
  "('b, 'r, 'm, 'p) env \<Rightarrow> addr \<Rightarrow> ('b, 'r, 'm, 'p) kstate \<Rightarrow> (SertosStatus \<times> ('b, 'r, 'm, 'p) kstate) option" where
  "sertos_mutex_unlock E handle s =
     (if \<not> mutex_handle_ok handle s then Some (SERTOS_STATUS_ERROR_INVALID_PARAM, s)
      else let cur = sertos_scheduler_get_current_tcb s
           in if cur = NULL \<or> mtx_owner (mutexes s handle) \<noteq> cur then Some (SERTOS_STATUS_ERROR_INVALID_PARAM, s)
              else do {
                let (crit_status, s1) = enter_critical E s;
                let s2 = upd_mutex handle (\<lambda>t. t\<lparr>mtx_lock_count := mtx_lock_count t - 1\<rparr>) s1;
                if 0 < mtx_lock_count (mutexes s2 handle)
                then Some (SERTOS_STATUS_OK, exit_critical E crit_status s2)
                else do {
                  let s3 = restore_owner_priority E handle cur s2;
                  (next_owner, s4) \<leftarrow> sertos_scheduler_wait_list_unblock_highest E (Some (MutexWait handle)) s3;
                  let s5 = (if next_owner \<noteq> NULL
                            then upd_mutex handle (\<lambda>t. t\<lparr>mtx_owner := next_owner, mtx_lock_count := 1,
                                   mtx_original_owner_priority := tcb_base_priority (tcbs s4 next_owner)\<rparr>) s4
                            else upd_mutex handle (\<lambda>t. t\<lparr>mtx_owner := NULL\<rparr>) s4);
                  s6 \<leftarrow> reschedule_if_running E (exit_critical E crit_status s5);
                  Some (SERTOS_STATUS_OK, s6)
                }
              })"

definition sertos_mutex_get_owner :: "addr \<Rightarrow> ('b, 'r, 'm, 'p) kstate \<Rightarrow> addr" where
  "sertos_mutex_get_owner handle s = (if \<not> mutex_handle_ok handle s then NULL else mtx_owner (mutexes s handle))"

section \<open>Lemmas\<close>

lemma upd_mutex_simps [simp]:
  "kinv bits (upd_mutex a f s) L \<longleftrightarrow> kinv bits s L" "tcbs (upd_mutex a f s) = tcbs s"
  "mutexes (upd_mutex a f s) = (mutexes s)(a := f (mutexes s a))" "list_heap (upd_mutex a f s) = list_heap s"
  "s_ready_bitmap (upd_mutex a f s) = s_ready_bitmap s" "port (upd_mutex a f s) = port s"
  "sertos_current_tcb (upd_mutex a f s) = sertos_current_tcb s" "s_is_running (upd_mutex a f s) = s_is_running s"
  "s_lock_nesting (upd_mutex a f s) = s_lock_nesting s"
  by (simp_all add: upd_mutex_def)

lemma select_upd [simp]:
  "sertos_scheduler_select_next_task E (upd_tcb a f s) = sertos_scheduler_select_next_task E s"
  "sertos_scheduler_select_next_task E (upd_mutex m g s) = sertos_scheduler_select_next_task E s"
  by (simp_all add: sertos_scheduler_select_next_task_def split: option.splits)

lemma change_priority_not_ready:
  "tcb_state (tcbs s a) \<noteq> SERTOS_TASK_STATE_READY \<Longrightarrow>
   change_priority E a prio s = upd_tcb a (\<lambda>t. t\<lparr>tcb_priority := prio\<rparr>) s"
  by (simp add: change_priority_def)

text \<open>Waking the first waiter commutes with an update of the control block of a task that is not that waiter.\<close>

lemma upd_tcb_id: "f (tcbs s a) = tcbs s a \<Longrightarrow> upd_tcb a f s = s"
  by (simp add: upd_tcb_def fun_upd_idem)

lemma unblock_highest_upd:
  assumes "linked_list_peek_head E wl (list_heap s) \<noteq> Some (EventNode c)"
  shows "sertos_scheduler_wait_list_unblock_highest E (Some wl) (upd_tcb c f s) =
    map_option (\<lambda>(a, s'). (a, upd_tcb c f s')) (sertos_scheduler_wait_list_unblock_highest E (Some wl) s)"
proof (cases "linked_list_peek_head E wl (list_heap s)")
  case None
  then show ?thesis by (simp add: sertos_scheduler_wait_list_unblock_highest_def)
next
  case (Some n)
  have heap: "upd_heap g (upd_tcb c f x) = upd_tcb c f (upd_heap g x)" for g and x :: "('a, 'b, 'c, 'd) kstate"
    by (simp add: upd_heap_def upd_tcb_def)
  have tcb: "upd_tcb a g (upd_tcb c f x) = upd_tcb c f (upd_tcb a g x)" if "a \<noteq> c" for a g and x :: "('a, 'b, 'c, 'd) kstate"
    using that by (simp add: upd_tcb_def fun_upd_twist)
  have remove: "sertos_scheduler_wait_list_remove E w a (upd_tcb c f x) = upd_tcb c f (sertos_scheduler_wait_list_remove E w a x)"
    for w a and x :: "('a, 'b, 'c, 'd) kstate"
    by (simp add: sertos_scheduler_wait_list_remove_def heap split: option.splits)
  have add: "snd (sertos_scheduler_add_ready E a (upd_tcb c f x)) = upd_tcb c f (snd (sertos_scheduler_add_ready E a x))"
    if "a \<noteq> c" for a and x :: "('a, 'b, 'c, 'd) kstate"
    using that by (auto simp: sertos_scheduler_add_ready_def Let_def upd_heap_def upd_tcb_def fun_upd_twist)
  show ?thesis
  proof (cases n)
    case (EventNode a)
    then have ac: "a \<noteq> c" using assms Some by auto
    then have same: "tcbs (upd_tcb c f x) a = tcbs x a" for x :: "('a, 'b, 'c, 'd) kstate" by (simp add: upd_tcb_def)
    show ?thesis using Some EventNode ac
      by (simp add: sertos_scheduler_wait_list_unblock_highest_def remove same Let_def)
        (simp add: heap tcb add)
  qed (use Some in \<open>simp_all add: sertos_scheduler_wait_list_unblock_highest_def\<close>)
qed

context kernel_env
begin

lemma change_priority_ready:
  assumes inv: "kinv bits s L" and on: "on_list L (ReadyQ q) (StateNode a)"
    and st: "tcb_state (tcbs s a) = SERTOS_TASK_STATE_READY" and p: "unat prio < SERTOS_CONFIG_MAX_PRIORITIES"
  shows "kinv bits (change_priority E a prio s) (requeue_lists a q (unat prio) L)"
    "sched_frame s (change_priority E a prio s)"
    "tcbs (change_priority E a prio s) = (tcbs s)(a := (tcbs s a)\<lparr>tcb_priority := prio\<rparr>)"
proof -
  have eq: "change_priority E a prio s = snd (sertos_scheduler_add_ready E a
      (upd_tcb a (\<lambda>t. t\<lparr>tcb_priority := prio\<rparr>) (snd (sertos_scheduler_remove_ready E a s))))"
    using st by (simp add: change_priority_def)
  note rq = requeue_refines [OF inv on, of "\<lambda>t. t\<lparr>tcb_priority := prio\<rparr>", OF _ p]
  show "kinv bits (change_priority E a prio s) (requeue_lists a q (unat prio) L)"
    "sched_frame s (change_priority E a prio s)" unfolding eq by (rule rq; simp)+
  show "tcbs (change_priority E a prio s) = (tcbs s)(a := (tcbs s a)\<lparr>tcb_priority := prio\<rparr>)"
    unfolding eq using rq(3) st by (cases "tcbs s a") simp
qed

end

end
