(* ===== verification/Sertos_Mutex_Spec.thy ===== *)
theory Sertos_Mutex_Spec
  imports Sertos_Sem_Spec Sertos_Mutex
begin

text \<open>
  What mutexes guarantee: recursive locking nests, unlocking hands the mutex to the waiter of highest
  priority, contention lends the waiter's priority to a READY owner; and where priority
  inheritance goes wrong.
\<close>

section \<open>States of the witnesses\<close>

text \<open>As \<open>demo\<close>, but 0x500 waits without a timeout on the mutex at 0x800, which a task holds.\<close>

definition mutex_tcbs :: "addr \<Rightarrow> tcb" where
  "mutex_tcbs = demo_tcbs(0x500 := (demo_tcb 6 SERTOS_TASK_STATE_BLOCKED)\<lparr>tcb_wait_list := Some (MutexWait 0x800)\<rparr>)"

definition mutex_layout :: layout where
  "mutex_layout = [(MutexWait 0x800, EventNode 0x500), (DelayList, StateNode 0x400), (ReadyQ 2, StateNode 0x300),
     (ReadyQ 5, StateNode 0x200), (ReadyQ 5, StateNode 0x100)]"

definition mutex_demo :: "addr \<Rightarrow> SertosPriority \<Rightarrow> ref_state" where
  "mutex_demo owner orig = (demo_state mutex_layout mutex_tcbs 0x100)\<lparr>mutexes := (\<lambda>a. \<lparr>mtx_owner = owner,
     mtx_lock_count = 1, mtx_original_owner_priority = orig, mtx_is_statically_allocated = True,
     mtx_magic = SERTOS_MUTEX_MAGIC_WORD\<rparr>)\<rparr>"

lemma mutex_demo_inv: "kinv ref_bits (mutex_demo o1 p1) (lists_of mutex_layout)"
proof -
  have "layout_ok mutex_tcbs mutex_layout"
    by (simp add: layout_ok_def mutex_layout_def op_ok_def mutex_tcbs_def demo_tcbs_def demo_tcb_def
        SERTOS_CONFIG_MAX_PRIORITIES_def)
  then show ?thesis unfolding mutex_demo_def using demo_kinv by simp
qed

lemma mutex_demo_facts:
  "tcbs (mutex_demo o1 p1) = mutex_tcbs" "sertos_current_tcb (mutex_demo o1 p1) = 0x100" "s_is_running (mutex_demo o1 p1)"
  "mutex_handle_ok 0x800 (mutex_demo o1 p1)" "mutex_handle_ok 0x801 (mutex_demo o1 p1)"
  "mtx_owner (mutexes (mutex_demo o1 p1) m) = o1" "mtx_lock_count (mutexes (mutex_demo o1 p1) m) = 1"
  "mtx_original_owner_priority (mutexes (mutex_demo o1 p1) m) = p1"
  "on_list (lists_of mutex_layout) (ReadyQ 5) (StateNode 0x100)"
  "on_list (lists_of mutex_layout) (ReadyQ 2) (StateNode 0x300)"
  "lists_of mutex_layout (MutexWait 0x800) = Some [EventNode 0x500]"
  "lists_of mutex_layout (MutexWait 0x801) = Some []"
  by (simp_all add: mutex_demo_def demo_state_def mutex_handle_ok_def on_lists_of mutex_layout_def lists_of_def)

section \<open>Locking and unlocking\<close>

text \<open>C15: the owner may lock again without waiting, and the matching unlock restores the kernel state
  exactly (up to the port's own state): locks of one owner nest.\<close>

theorem mutex_lock_nests:
  assumes "mutex_handle_ok h s" and "sertos_current_tcb s = c" and "c \<noteq> NULL" and "mtx_owner (mutexes s h) = c"
    and "0 < mtx_lock_count (mutexes s h)"
  shows "\<exists>s1 q. sertos_mutex_lock E h timeout s = Some (SERTOS_STATUS_OK, s1) \<and>
    mtx_owner (mutexes s1 h) = c \<and> mtx_lock_count (mutexes s1 h) = mtx_lock_count (mutexes s h) + 1 \<and>
    sertos_mutex_unlock E h s1 = Some (SERTOS_STATUS_OK, s\<lparr>port := q\<rparr>)"
proof -
  let ?f = "\<lambda>t :: mutex. t\<lparr>mtx_lock_count := mtx_lock_count t + 1\<rparr>"
  let ?g = "\<lambda>t :: mutex. t\<lparr>mtx_lock_count := mtx_lock_count t - 1\<rparr>"
  let ?s1 = "exit_critical E (fst (sertos_port_enter_critical E (port s)))
    (upd_mutex h ?f (s\<lparr>port := snd (sertos_port_enter_critical E (port s))\<rparr>))"
  have lock: "sertos_mutex_lock E h timeout s = Some (SERTOS_STATUS_OK, ?s1)"
    using assms by (simp add: sertos_mutex_lock_def enter_critical_eq sertos_scheduler_get_current_tcb_def Let_def)
  have ok: "mutex_handle_ok h ?s1" using assms(1) by (simp add: mutex_handle_ok_def)
  have undo: "upd_mutex h ?g (?s1\<lparr>port := q\<rparr>) = s\<lparr>port := q\<rparr>" for q
    by (cases s) (simp add: upd_mutex_def exit_critical_def)
  have "sertos_mutex_unlock E h ?s1 = Some (SERTOS_STATUS_OK, exit_critical E (fst (sertos_port_enter_critical E (port ?s1)))
      (s\<lparr>port := snd (sertos_port_enter_critical E (port ?s1))\<rparr>))"
    using assms ok undo
    by (simp add: sertos_mutex_unlock_def enter_critical_eq sertos_scheduler_get_current_tcb_def Let_def)
  then show ?thesis using lock assms(4) by (auto simp: exit_critical_def)
qed

theorem mutex_lock_nests_witness:
  "\<exists>s1 q. sertos_mutex_lock quiet_env 0x800 0 (mutex_demo 0x100 5) = Some (SERTOS_STATUS_OK, s1) \<and>
     sertos_mutex_unlock quiet_env 0x800 s1 = Some (SERTOS_STATUS_OK, (mutex_demo 0x100 5)\<lparr>port := q\<rparr>)"
  using mutex_lock_nests [OF mutex_demo_facts(4,2) [of "0x100" 5], where E = quiet_env and timeout = 0]
  by (auto simp: mutex_demo_facts)

text \<open>C16: the outermost unlock of the running owner writes the priority recorded at the lock back into its control block, which takes
  any boost away, and hands the mutex to the first waiter, which becomes READY and
  owns it with a count of one and its base priority recorded; without waiters the mutex is free. If the wait list is in priority order, no waiter
  has a higher priority than the new owner. The lists are well formed and those of the new owner's wake-up; if the old owner was not boosted the whole
  kernel invariant holds (for a boosted one it does not, see the last theorem).\<close>

theorem mutex_unlock_hands_over:
  assumes "kernel_env E bits" and "kinv bits s L" and "mutex_handle_ok h s" and "sertos_current_tcb s = c"
    and "mtx_owner (mutexes s h) = c" and "mtx_lock_count (mutexes s h) = 1" and "on_list L (ReadyQ q) (StateNode c)"
    and "tcb_state (tcbs s c) = SERTOS_TASK_STATE_RUNNING" and "L (MutexWait h) = Some ns"
  shows "\<exists>s' L'. sertos_mutex_unlock E h s = map_option (Pair SERTOS_STATUS_OK) (reschedule_if_running E s') \<and>
    heap_ok (list_heap s') L' \<and> (tcb_priority (tcbs s c) = mtx_original_owner_priority (mutexes s h) \<longrightarrow> kinv bits s' L') \<and>
    tcbs s' c = (tcbs s c)\<lparr>tcb_priority := mtx_original_owner_priority (mutexes s h)\<rparr> \<and>
    (if ns = [] then L' = L \<and> (\<forall>b. b \<noteq> c \<longrightarrow> tcbs s' b = tcbs s b) \<and> mtx_owner (mutexes s' h) = NULL
     else \<exists>a. hd ns = EventNode a \<and> a \<noteq> c \<and> L' = wake_lists a (unat (tcb_priority (tcbs s a))) L \<and>
       (wait_sorted (tcbs s) ns \<longrightarrow> (\<forall>b. EventNode b \<in> set ns \<longrightarrow> tcb_priority (tcbs s b) \<le> tcb_priority (tcbs s a))) \<and>
       tcbs s' a = woken_tcb (tcbs s a) \<and> (\<forall>b. b \<noteq> a \<and> b \<noteq> c \<longrightarrow> tcbs s' b = tcbs s b) \<and>
       mtx_owner (mutexes s' h) = a \<and> mtx_lock_count (mutexes s' h) = 1 \<and>
       mtx_original_owner_priority (mutexes s' h) = tcb_base_priority (tcbs s a))"
proof -
  let ?orig = "mtx_original_owner_priority (mutexes s h)"
  let ?f = "\<lambda>t. t\<lparr>tcb_priority := ?orig\<rparr>"
  let ?s2 = "upd_mutex h (\<lambda>t. t\<lparr>mtx_lock_count := mtx_lock_count t - 1\<rparr>)
    (s\<lparr>port := snd (sertos_port_enter_critical E (port s))\<rparr>)"
  let ?s3 = "upd_tcb c ?f ?s2"
  let ?x = "exit_critical E (fst (sertos_port_enter_critical E (port s)))"
  have inv2: "kinv bits ?s2 L" using assms(2) by simp
  have c0: "c \<noteq> NULL" using kinv_typed [OF assms(2,7)] by auto
  have noE: "\<not> on_list L wl (EventNode c)" for wl using kinv_wait_not_ready [OF assms(2)] assms(7) by blast
  have same: "?s3 = ?s2" if "tcb_priority (tcbs s c) = ?orig" by (rule upd_tcb_id) (use that in \<open>cases "tcbs s c"; simp\<close>)
  have restore: "restore_owner_priority E h c ?s2 = ?s3"
    using same assms(8) by (auto simp: restore_owner_priority_def change_priority_not_ready)
  have wl: "is_wait_list (MutexWait h)" "L (MutexWait h) \<noteq> None" using assms(9) by simp_all
  have peek: "linked_list_peek_head E (MutexWait h) (list_heap ?s2) \<noteq> Some (EventNode c)"
    using linked_list.heap_ok_peek_head [OF kernel_env.axioms(1) [OF assms(1)] kinv_heap [OF inv2] assms(9)] noE [of "MutexWait h"] assms(9)
    by (auto simp: on_list_def split: list.splits)
  have eq: "sertos_mutex_unlock E h s = map_option (Pair SERTOS_STATUS_OK) (reschedule_if_running E (?x s5))"
    if "sertos_scheduler_wait_list_unblock_highest E (Some (MutexWait h)) ?s2 = Some (a, s4)"
      "s5 = (if a \<noteq> NULL then upd_mutex h (\<lambda>t. t\<lparr>mtx_owner := a, mtx_lock_count := 1,
               mtx_original_owner_priority := tcb_base_priority (tcbs (upd_tcb c ?f s4) a)\<rparr>) (upd_tcb c ?f s4)
             else upd_mutex h (\<lambda>t. t\<lparr>mtx_owner := NULL\<rparr>) (upd_tcb c ?f s4))" for a s4 s5
    using assms(3-6) c0 that restore unblock_highest_upd [OF peek, of ?f]
    by (simp add: sertos_mutex_unlock_def enter_critical_eq sertos_scheduler_get_current_tcb_def map_option_bind Let_def)
  show ?thesis
  proof (rule wait_list_cases [OF assms(2) wl], goal_cases empty waiter)
    case empty
    let ?s5 = "upd_mutex h (\<lambda>t. t\<lparr>mtx_owner := NULL\<rparr>) ?s3"
    have "kinv bits (?x ?s5) L" if "tcb_priority (tcbs s c) = ?orig" using inv2 same [OF that] by simp
    moreover have "heap_ok (list_heap (?x ?s5)) L" using kinv_heap [OF assms(2)] by simp
    moreover note eq [OF kernel_env.unblock_highest_empty [OF assms(1) inv2 empty], of ?s5]
    ultimately show ?case using assms(9) empty by (intro exI [of _ "?x ?s5"] exI [of _ L]) simp
  next
    case (waiter a ms)
    let ?L = "wake_lists a (unat (tcb_priority (tcbs s a))) L"
    obtain s4 where s4: "sertos_scheduler_wait_list_unblock_highest E (Some (MutexWait h)) ?s2 = Some (a, s4)"
      "kinv bits s4 ?L" "tcbs s4 = (tcbs s)(a := woken_tcb (tcbs s a))"
      using kernel_env.unblock_highest_head [OF assms(1) inv2 waiter(1) refl] unfolding woken_tcb_def by auto
    let ?s5 = "upd_mutex h (\<lambda>t. t\<lparr>mtx_owner := a, mtx_lock_count := 1,
      mtx_original_owner_priority := tcb_base_priority (tcbs (upd_tcb c ?f s4) a)\<rparr>) (upd_tcb c ?f s4)"
    have ns: "ns = EventNode a # ms" using waiter(1) assms(9) by simp
    have ac: "a \<noteq> c" using noE [of "MutexWait h"] ns assms(9) by (auto simp: on_list_def)
    have "kinv bits (?x ?s5) ?L" if "tcb_priority (tcbs s c) = ?orig"
    proof -
      have "upd_tcb c ?f s4 = s4" by (rule upd_tcb_id) (use ac that s4(3) in \<open>cases "tcbs s c"; simp\<close>)
      then show ?thesis using s4(2) by simp
    qed
    moreover have "heap_ok (list_heap (?x ?s5)) ?L" using kinv_heap [OF s4(2)] by simp
    moreover have "tcb_priority (tcbs s b) \<le> tcb_priority (tcbs s a)" if "EventNode b \<in> set ns" "wait_sorted (tcbs s) ns" for b
      using that by (auto simp: ns wait_sorted_def node_priority_def word_le_nat_alt)
    moreover have "tcbs (?x ?s5) c = ?f (tcbs s c)" "tcbs (?x ?s5) a = woken_tcb (tcbs s a)"
      "b \<noteq> a \<and> b \<noteq> c \<longrightarrow> tcbs (?x ?s5) b = tcbs s b" for b using ac s4(3) by simp_all
    moreover have "tcb_base_priority (tcbs (upd_tcb c ?f s4) a) = tcb_base_priority (tcbs s a)"
      using ac s4(3) by (simp add: woken_tcb_def)
    moreover note eq [OF s4(1), of ?s5]
    ultimately show ?case using ac ns waiter(2)
      by (intro exI [of _ "?x ?s5"] exI [of _ ?L]) simp
  qed
qed

text \<open>The owner 0x100 of priority 5 was boosted from priority 1.\<close>

theorem mutex_unlock_hands_over_witness:
  "\<exists>s'. sertos_mutex_unlock quiet_env 0x800 (mutex_demo 0x100 1) =
       map_option (Pair SERTOS_STATUS_OK) (reschedule_if_running quiet_env s') \<and>
     heap_ok (list_heap s') (wake_lists 0x500 6 (lists_of mutex_layout)) \<and> mtx_owner (mutexes s' 0x800) = 0x500 \<and>
     tcb_priority (tcbs s' 0x100) = 1"
proof -
  have d: "tcb_state (tcbs (mutex_demo 0x100 1) 0x100) = SERTOS_TASK_STATE_RUNNING"
    "unat (tcb_priority (tcbs (mutex_demo 0x100 1) 0x500)) = 6"
    by (simp_all add: mutex_demo_facts mutex_tcbs_def demo_tcbs_def demo_tcb_def)
  show ?thesis
    using mutex_unlock_hands_over [OF quiet_kernel_env mutex_demo_inv mutex_demo_facts(4,2,6,7,9) d(1) mutex_demo_facts(11)]
    by (auto simp: mutex_demo_facts(8) d(2))
qed

section \<open>Priority inheritance\<close>

lemma inheritance_refines:
  assumes "kernel_env E bits" and "kinv bits s L" and "mtx_owner (mutexes s h) = a"
    and "on_list L (ReadyQ q) (StateNode a)" and "tcb_state (tcbs s a) = SERTOS_TASK_STATE_READY"
    and "on_list L (ReadyQ p) (StateNode c)" and "q < p"
  shows "kinv bits (apply_priority_inheritance E h c s) (requeue_lists a q p L)"
    "sched_frame s (apply_priority_inheritance E h c s)"
    "tcbs (apply_priority_inheritance E h c s) = (tcbs s)(a := (tcbs s a)\<lparr>tcb_priority := tcb_priority (tcbs s c)\<rparr>)"
proof -
  have pc: "unat (tcb_priority (tcbs s c)) = p" "p < SERTOS_CONFIG_MAX_PRIORITIES"
    and pa: "unat (tcb_priority (tcbs s a)) = q" using kinv_ready [OF assms(2)] assms(4,6) by auto
  then have eq: "apply_priority_inheritance E h c s = change_priority E a (tcb_priority (tcbs s c)) s"
    using assms(3,7) by (simp add: apply_priority_inheritance_def word_less_nat_alt)
  note cp = kernel_env.change_priority_ready [OF assms(1,2,4,5), of "tcb_priority (tcbs s c)", unfolded pc(1), OF pc(2)]
  show "kinv bits (apply_priority_inheritance E h c s) (requeue_lists a q p L)"
    "sched_frame s (apply_priority_inheritance E h c s)"
    "tcbs (apply_priority_inheritance E h c s) = (tcbs s)(a := (tcbs s a)\<lparr>tcb_priority := tcb_priority (tcbs s c)\<rparr>)"
    unfolding eq by (rule cp)+
qed

lemma inheritance_cases:
  assumes "kernel_env E bits" and "kinv bits s L" and "mtx_owner (mutexes s h) = a"
    and "on_list L (ReadyQ q) (StateNode a)" and "tcb_state (tcbs s a) = SERTOS_TASK_STATE_READY"
    and "on_list L (ReadyQ p) (StateNode c)"
  shows "kinv bits (apply_priority_inheritance E h c s) (if q < p then requeue_lists a q p L else L)"
    "sched_frame s (apply_priority_inheritance E h c s)"
    "tcbs (apply_priority_inheritance E h c s) =
      (tcbs s)(a := (tcbs s a)\<lparr>tcb_priority := max (tcb_priority (tcbs s a)) (tcb_priority (tcbs s c))\<rparr>)"
proof -
  have pr: "unat (tcb_priority (tcbs s a)) = q" "unat (tcb_priority (tcbs s c)) = p" using kinv_ready [OF assms(2)] assms(4,6) by auto
  have "kinv bits (apply_priority_inheritance E h c s) (if q < p then requeue_lists a q p L else L) \<and>
    sched_frame s (apply_priority_inheritance E h c s) \<and> tcbs (apply_priority_inheritance E h c s) =
      (tcbs s)(a := (tcbs s a)\<lparr>tcb_priority := max (tcb_priority (tcbs s a)) (tcb_priority (tcbs s c))\<rparr>)"
  proof (cases "q < p")
    case True
    then have "tcb_priority (tcbs s a) \<le> tcb_priority (tcbs s c)" using pr by (simp add: word_le_nat_alt)
    then show ?thesis using inheritance_refines [OF assms True] True by (simp add: max_def)
  next
    case False
    then have le: "tcb_priority (tcbs s c) \<le> tcb_priority (tcbs s a)" using pr by (simp add: word_le_nat_alt)
    then have "max (tcb_priority (tcbs s a)) (tcb_priority (tcbs s c)) = tcb_priority (tcbs s a)" by (rule max_absorb1)
    moreover have "(tcbs s a)\<lparr>tcb_priority := tcb_priority (tcbs s a)\<rparr> = tcbs s a" by simp
    moreover have "apply_priority_inheritance E h c s = s" using le assms(3) by (simp add: apply_priority_inheritance_def not_less)
    ultimately show ?thesis using assms(2) False by simp
  qed
  then show "kinv bits (apply_priority_inheritance E h c s) (if q < p then requeue_lists a q p L else L)"
    "sched_frame s (apply_priority_inheritance E h c s)"
    "tcbs (apply_priority_inheritance E h c s) =
      (tcbs s)(a := (tcbs s a)\<lparr>tcb_priority := max (tcb_priority (tcbs s a)) (tcb_priority (tcbs s c))\<rparr>)" by blast+
qed

text \<open>The position in a wait list depends on the priorities of the waiters and of the caller only, not on that of a task in a ready queue.\<close>

lemma blocked_lists_waiters:
  assumes inv: "kinv bits s L" and same: "L2 (MutexWait h) = L (MutexWait h)" and c: "T c = tcbs s c"
    and other: "\<And>b. b \<noteq> a \<Longrightarrow> T b = tcbs s b" and a: "on_list L (ReadyQ q) (StateNode a)"
  shows "blocked_lists T c p (Some (MutexWait h)) timed L2 = blocked_lists (tcbs s) c p (Some (MutexWait h)) timed L2"
proof -
  have "insert_by_priority T c ns = insert_by_priority (tcbs s) c ns" if ns: "L (MutexWait h) = Some ns" for ns
  proof -
    have "node_priority T n = node_priority (tcbs s) n" if "n \<in> set ns" for n
    proof -
      have on: "on_list L (MutexWait h) n" using that ns by (simp add: on_list_Some)
      then obtain b where b: "n = EventNode b" using kinv_typed [OF inv on] by (cases n) auto
      then have "b \<noteq> a" using kinv_wait [OF inv, of "MutexWait h" b] kinv_ready [OF inv a] on by auto
      then show ?thesis using other by (simp add: b node_priority_def)
    qed
    then show ?thesis unfolding insert_by_priority_def c by (metis (no_types, lifting) dropWhile_cong takeWhile_cong)
  qed
  then show ?thesis using same by (cases "L (MutexWait h)") (auto simp: blocked_lists_def Let_def)
qed

text \<open>C17: a task that finds a mutex held by a READY owner first raises that owner to its own priority, if it is lower, which moves the owner to the
  ready queue of that priority. If the caller must not wait, the call then fails at once: nobody is parked, no mutex has
  changed, and the owner stays raised. Otherwise the caller is parked on the mutex, on the delay list as well exactly for a finite timeout.
  When it is resumed, it records itself as the owner, except that with a finite timeout and its delay and wait list
  cleared (as every wake-up leaves them) it reports a timeout instead.\<close>

theorem mutex_lock_contended:
  assumes "kernel_env E bits" and "kinv bits s L" and "mutex_handle_ok h s" and "s_is_running s"
    and "sertos_current_tcb s = c" and "on_list L (ReadyQ p) (StateNode c)" and "mtx_owner (mutexes s h) = a" and "a \<noteq> c"
    and "on_list L (ReadyQ q) (StateNode a)" and "tcb_state (tcbs s a) = SERTOS_TASK_STATE_READY" and "L (MutexWait h) \<noteq> None"
  shows "\<exists>s' L2. L2 = (if q < p then requeue_lists a q p L else L) \<and>
    tcb_priority (tcbs s' a) = max (tcb_priority (tcbs s a)) (tcb_priority (tcbs s c)) \<and>
    (if timeout = SERTOS_NO_WAIT
     then sertos_mutex_lock E h timeout s = Some (SERTOS_STATUS_ERROR_TIMEOUT, s') \<and> kinv bits s' L2 \<and>
       tcbs s' c = tcbs s c \<and> mutexes s' = mutexes s \<and> L2 (MutexWait h) = L (MutexWait h)
     else sertos_mutex_lock E h timeout s =
         map_option (\<lambda>s''. if timeout \<noteq> SERTOS_WAIT_FOREVER \<and> tcb_delay_ticks (tcbs s'' c) = 0 \<and> tcb_wait_list (tcbs s'' c) = None
             then (SERTOS_STATUS_ERROR_TIMEOUT, s'')
             else (SERTOS_STATUS_OK, upd_mutex h (\<lambda>t. t\<lparr>mtx_owner := c, mtx_lock_count := 1,
               mtx_original_owner_priority := tcb_base_priority (tcbs s'' c)\<rparr>) s''))
           (sertos_scheduler_switch_context E s') \<and>
       kinv bits s' (blocked_lists (tcbs s) c p (Some (MutexWait h)) (timeout \<noteq> SERTOS_WAIT_FOREVER) L2) \<and>
       tcbs s' c = (tcbs s c)\<lparr>tcb_state := SERTOS_TASK_STATE_BLOCKED, tcb_wait_list := Some (MutexWait h),
         tcb_delay_ticks := (if timeout = SERTOS_WAIT_FOREVER then 0 else timeout)\<rparr>)"
proof -
  let ?s1 = "s\<lparr>port := snd (sertos_port_enter_critical E (port s))\<rparr>"
  let ?s2 = "apply_priority_inheritance E h c ?s1"
  let ?s3 = "exit_critical E (fst (sertos_port_enter_critical E (port s))) ?s2"
  let ?L = "if q < p then requeue_lists a q p L else L"
  have inv1: "kinv bits ?s1 L" and st1: "mtx_owner (mutexes ?s1 h) = a" "tcb_state (tcbs ?s1 a) = SERTOS_TASK_STATE_READY"
    using assms(2,7,10) by simp_all
  note pi = inheritance_cases [OF assms(1) inv1 st1(1) assms(9) st1(2) assms(6)]
  have c0: "c \<noteq> NULL" "a \<noteq> NULL" using kinv_typed [OF assms(2,6)] kinv_typed [OF assms(2,9)] by auto
  have inv3: "kinv bits ?s3 ?L" using pi(1) by simp
  have T3: "tcbs ?s3 c = tcbs s c" "tcb_priority (tcbs ?s3 a) = max (tcb_priority (tcbs s a)) (tcb_priority (tcbs s c))"
    "b \<noteq> a \<Longrightarrow> tcbs ?s3 b = tcbs s b" for b using assms(8) pi(3) by simp_all
  have lock: "sertos_mutex_lock E h timeout s = (if timeout = SERTOS_NO_WAIT then Some (SERTOS_STATUS_ERROR_TIMEOUT, ?s3)
      else do {
        (status, s3) \<leftarrow> sertos_scheduler_wait_list_block E (Some (MutexWait h)) timeout ?s3;
        if status = SERTOS_STATUS_OK
        then Some (status, upd_mutex h (\<lambda>t. t\<lparr>mtx_owner := c, mtx_lock_count := 1,
               mtx_original_owner_priority := tcb_base_priority (tcbs s3 c)\<rparr>) s3)
        else Some (status, s3)
      })"
    using assms(3,5,7,8) c0
    by (simp add: sertos_mutex_lock_def enter_critical_eq sertos_scheduler_get_current_tcb_def Let_def)
  show ?thesis
  proof (cases "timeout = SERTOS_NO_WAIT")
    case True
    have "mutexes ?s3 = mutexes s" using sched_frameD(8) [OF pi(2)] by simp
    then show ?thesis using True lock inv3 T3 by (intro exI [of _ ?s3] exI [of _ ?L]) simp
  next
    case False
    have on3: "on_list ?L (ReadyQ p) (StateNode c)"
      using assms(6,8) by (auto simp: requeue_lists_def on_list_def Let_def split: option.splits)
    have cur3: "s_is_running ?s3" "sertos_current_tcb ?s3 = c" using sched_frameD(1,2) [OF pi(2)] assms(4,5) by simp_all
    have wl: "is_wait_list (MutexWait h)" "?L (MutexWait h) \<noteq> None" using assms(11) by simp_all
    have t0: "timeout \<noteq> 0" using False by (simp add: SERTOS_NO_WAIT_def)
    obtain s' where s': "sertos_scheduler_wait_list_block E (Some (MutexWait h)) timeout ?s3 =
        map_option (\<lambda>s''. (if timeout \<noteq> SERTOS_WAIT_FOREVER \<and> tcb_delay_ticks (tcbs s'' c) = 0 \<and>
            tcb_wait_list (tcbs s'' c) = None then SERTOS_STATUS_ERROR_TIMEOUT else SERTOS_STATUS_OK, s''))
          (sertos_scheduler_switch_context E s')"
      "kinv bits s' (blocked_lists (tcbs ?s3) c p (Some (MutexWait h)) (timeout \<noteq> SERTOS_WAIT_FOREVER) ?L)"
      "tcbs s' = (tcbs ?s3)(c := (tcbs ?s3 c)\<lparr>tcb_state := SERTOS_TASK_STATE_BLOCKED, tcb_wait_list := Some (MutexWait h),
         tcb_delay_ticks := (if timeout = SERTOS_WAIT_FOREVER then 0 else timeout)\<rparr>)"
      using kernel_env.wait_list_block_refines [OF assms(1) inv3 cur3 on3 wl t0] by blast
    have "sertos_mutex_lock E h timeout s =
        map_option (\<lambda>s''. if timeout \<noteq> SERTOS_WAIT_FOREVER \<and> tcb_delay_ticks (tcbs s'' c) = 0 \<and> tcb_wait_list (tcbs s'' c) = None
             then (SERTOS_STATUS_ERROR_TIMEOUT, s'')
             else (SERTOS_STATUS_OK, upd_mutex h (\<lambda>t. t\<lparr>mtx_owner := c, mtx_lock_count := 1,
               mtx_original_owner_priority := tcb_base_priority (tcbs s'' c)\<rparr>) s''))
          (sertos_scheduler_switch_context E s')"
      using lock False s'(1) by (cases "sertos_scheduler_switch_context E s'") simp_all
    moreover have "blocked_lists (tcbs ?s3) c p (Some (MutexWait h)) b ?L = blocked_lists (tcbs s) c p (Some (MutexWait h)) b ?L" for b
      by (rule blocked_lists_waiters [OF assms(2) _ T3(1,3) assms(9)]) simp_all
    ultimately show ?thesis using False s'(2,3) T3 assms(8) by (intro exI [of _ s'] exI [of _ ?L]) simp
  qed
qed

theorem mutex_lock_contended_witness:
  "\<exists>s'. sertos_mutex_lock quiet_env 0x800 10 (mutex_demo 0x300 2) \<noteq> None \<and>
     kinv ref_bits (s' :: ref_state) (blocked_lists mutex_tcbs 0x100 5 (Some (MutexWait 0x800)) True
       (requeue_lists 0x300 2 5 (lists_of mutex_layout))) \<and> tcb_priority (tcbs s' 0x300) = 5"
proof -
  let ?s = "mutex_demo 0x300 2"
  have d: "tcb_state (tcbs ?s 0x300) = SERTOS_TASK_STATE_READY" "lists_of mutex_layout (MutexWait 0x800) \<noteq> None"
    "max (tcb_priority (mutex_tcbs 0x300)) (tcb_priority (mutex_tcbs 0x100)) = 5"
    by (simp_all add: mutex_demo_facts mutex_tcbs_def demo_tcbs_def demo_tcb_def)
  obtain s' where s': "sertos_mutex_lock quiet_env 0x800 10 ?s =
         map_option (\<lambda>s''. if (10 :: SertosTick) \<noteq> SERTOS_WAIT_FOREVER \<and> tcb_delay_ticks (tcbs s'' 0x100) = 0 \<and> tcb_wait_list (tcbs s'' 0x100) = None
             then (SERTOS_STATUS_ERROR_TIMEOUT, s'')
             else (SERTOS_STATUS_OK, upd_mutex 0x800 (\<lambda>t. t\<lparr>mtx_owner := 0x100, mtx_lock_count := 1,
               mtx_original_owner_priority := tcb_base_priority (tcbs s'' 0x100)\<rparr>) s''))
           (sertos_scheduler_switch_context quiet_env s')"
    "kinv ref_bits s' (blocked_lists mutex_tcbs 0x100 5 (Some (MutexWait 0x800)) True
       (requeue_lists 0x300 2 5 (lists_of mutex_layout)))" "tcb_priority (tcbs s' 0x300) = 5"
    using mutex_lock_contended [OF quiet_kernel_env mutex_demo_inv mutex_demo_facts(4,3,2,9,6) _ mutex_demo_facts(10) d(1,2),
        where timeout = 10] d(3)
    by (auto simp: mutex_demo_facts(1) SERTOS_NO_WAIT_def SERTOS_WAIT_FOREVER_def)
  have "returns (sertos_scheduler_switch_context quiet_env s') (\<lambda>s'. \<exists>L'. kinv ref_bits s' L')"
    by (rule kernel_env.switch_context_returns [OF quiet_kernel_env s'(2) quiet_env_fair(3)])
  then have "sertos_scheduler_switch_context quiet_env s' \<noteq> None" by (auto simp: returns_iff)
  then show ?thesis using s' by auto
qed

text \<open>Priority inheritance is applied before the timeout is looked at: a lock that must not wait fails,
  nobody waits for the mutex, and still its READY owner has been moved up to the caller's priority.\<close>

theorem try_lock_boosts_owner:
  assumes "kernel_env E bits" and "kinv bits s L" and "mutex_handle_ok h s"
    and "sertos_current_tcb s = c" and "on_list L (ReadyQ p) (StateNode c)" and "mtx_owner (mutexes s h) = a"
    and "on_list L (ReadyQ q) (StateNode a)" and "tcb_state (tcbs s a) = SERTOS_TASK_STATE_READY" and "q < p"
  shows "\<exists>s'. sertos_mutex_lock E h SERTOS_NO_WAIT s = Some (SERTOS_STATUS_ERROR_TIMEOUT, s') \<and>
    kinv bits s' (requeue_lists a q p L) \<and> requeue_lists a q p L (MutexWait h) = L (MutexWait h) \<and>
    tcb_priority (tcbs s' a) = tcb_priority (tcbs s c)"
proof -
  let ?s1 = "s\<lparr>port := snd (sertos_port_enter_critical E (port s))\<rparr>"
  have inv1: "kinv bits ?s1 L" and st1: "mtx_owner (mutexes ?s1 h) = a" "tcb_state (tcbs ?s1 a) = SERTOS_TASK_STATE_READY"
    using assms(2,6,8) by simp_all
  note pi = inheritance_refines [OF assms(1) inv1 st1(1) assms(7) st1(2) assms(5,9)]
  have "c \<noteq> a" using kinv_unique [OF assms(2,5), of "ReadyQ q"] assms(7,9) by auto
  moreover have "c \<noteq> NULL" "a \<noteq> NULL" using kinv_typed [OF assms(2,5)] kinv_typed [OF assms(2,7)] by auto
  ultimately have "sertos_mutex_lock E h SERTOS_NO_WAIT s = Some (SERTOS_STATUS_ERROR_TIMEOUT,
      exit_critical E (fst (sertos_port_enter_critical E (port s))) (apply_priority_inheritance E h c ?s1))"
    using assms(3,4,6)
    by (simp add: sertos_mutex_lock_def enter_critical_eq sertos_scheduler_get_current_tcb_def Let_def)
  then show ?thesis using pi(1,3) by simp
qed

theorem try_lock_boosts_owner_witness:
  "\<exists>s'. sertos_mutex_lock quiet_env 0x801 SERTOS_NO_WAIT (mutex_demo 0x300 2) = Some (SERTOS_STATUS_ERROR_TIMEOUT, s') \<and>
     tcb_priority (tcbs s' 0x300) = 5"
proof -
  have "tcb_state (tcbs (mutex_demo 0x300 2) 0x300) = SERTOS_TASK_STATE_READY"
    by (simp add: mutex_demo_facts mutex_tcbs_def demo_tcbs_def demo_tcb_def)
  then show ?thesis
    using try_lock_boosts_owner [OF quiet_kernel_env mutex_demo_inv [of "0x300" 2] mutex_demo_facts(5,2,9,6,10)]
    by (auto simp: mutex_demo_facts) (auto simp: mutex_tcbs_def demo_tcbs_def demo_tcb_def)
qed

text \<open>C38: the outermost unlock of a boosted owner only rewrites the priority field of the running task. Its node
  stays in the ready queue of the inherited priority, so the scheduler goes on selecting it ahead of
  every ready task between its restored and its inherited priority.\<close>

theorem unlock_leaves_owner_boosted:
  assumes "kernel_env E bits" and "kinv bits s L" and "mutex_handle_ok h s" and "sertos_current_tcb s = c"
    and "tcb_state (tcbs s c) = SERTOS_TASK_STATE_RUNNING" and "mtx_owner (mutexes s h) = c"
    and "mtx_lock_count (mutexes s h) = 1" and "L (MutexWait h) = Some []" and "abs_select L = c" and "c \<noteq> NULL"
    and "on_list L (ReadyQ q) (StateNode b)" and "unat (mtx_original_owner_priority (mutexes s h)) < q"
    and "q < unat (tcb_priority (tcbs s c))"
  shows "\<exists>s'. sertos_mutex_unlock E h s = Some (SERTOS_STATUS_OK, s') \<and>
    tcb_priority (tcbs s' c) = mtx_original_owner_priority (mutexes s h) \<and>
    tcb_priority (tcbs s' c) < tcb_priority (tcbs s' b) \<and> list_heap s' = list_heap s \<and>
    sertos_scheduler_select_next_task E s' = Some c"
proof -
  let ?s2 = "upd_mutex h (\<lambda>t. t\<lparr>mtx_lock_count := mtx_lock_count t - 1\<rparr>)
    (s\<lparr>port := snd (sertos_port_enter_critical E (port s))\<rparr>)"
  let ?s3 = "upd_tcb c (\<lambda>t. t\<lparr>tcb_priority := mtx_original_owner_priority (mutexes s h)\<rparr>) ?s2"
  let ?s5 = "upd_mutex h (\<lambda>t. t\<lparr>mtx_owner := NULL\<rparr>) ?s3"
  let ?s6 = "exit_critical E (fst (sertos_port_enter_critical E (port s))) ?s5"
  have lt: "mtx_original_owner_priority (mutexes s h) < tcb_priority (tcbs s c)"
    using assms(12,13) by (simp add: word_less_nat_alt)
  have r: "restore_owner_priority E h c ?s2 = ?s3"
    using lt assms(5) by (simp add: restore_owner_priority_def change_priority_not_ready)
  have head: "linked_list_peek_head E (MutexWait h) (list_heap s) = None"
    using linked_list.heap_ok_peek_head [OF kernel_env.axioms(1) [OF assms(1)] kinv_heap [OF assms(2)], of "MutexWait h"]
      assms(8) by simp
  then have u: "sertos_scheduler_wait_list_unblock_highest E (Some (MutexWait h)) ?s3 = Some (NULL, ?s3)"
    by (simp add: sertos_scheduler_wait_list_unblock_highest_def)
  have sel: "sertos_scheduler_select_next_task E s = Some c"
    using kernel_env.select_next_refines [OF assms(1,2)] assms(9) by simp
  have "\<exists>p. reschedule_if_running E ?s6 = Some (?s6\<lparr>port := p\<rparr>)"
    by (rule reschedule_stays) (use sel assms(4,10) in simp_all)
  then obtain p where p: "reschedule_if_running E ?s6 = Some (?s6\<lparr>port := p\<rparr>)" ..
  have "sertos_mutex_unlock E h s = Some (SERTOS_STATUS_OK, ?s6\<lparr>port := p\<rparr>)"
    using assms(3,4,6,7,10) r u p
    by (simp add: sertos_mutex_unlock_def enter_critical_eq sertos_scheduler_get_current_tcb_def Let_def)
  moreover have "b \<noteq> c" and "unat (tcb_priority (tcbs s b)) = q" using kinv_ready [OF assms(2,11)] assms(13) by auto
  ultimately show ?thesis using sel assms(12) by (simp add: word_less_nat_alt)
qed

theorem unlock_leaves_owner_boosted_witness:
  "\<exists>s'. sertos_mutex_unlock quiet_env 0x801 (mutex_demo 0x100 1) = Some (SERTOS_STATUS_OK, s') \<and>
     tcb_priority (tcbs s' 0x100) = 1 \<and> sertos_scheduler_select_next_task quiet_env s' = Some 0x100"
proof -
  have "ready_priorities (lists_of mutex_layout) = [2, 5]"
    by (simp add: ready_priorities_def SERTOS_CONFIG_MAX_PRIORITIES_def upt_conv_Cons lists_of_def mutex_layout_def)
  then have "abs_select (lists_of mutex_layout) = 0x100"
    by (simp add: abs_select_def lists_of_def mutex_layout_def)
  then show ?thesis
    using unlock_leaves_owner_boosted [OF quiet_kernel_env mutex_demo_inv [of "0x100" 1] mutex_demo_facts(5,2) _
        mutex_demo_facts(6,7,12) _ _ mutex_demo_facts(10)]
    by (auto simp: mutex_demo_facts mutex_tcbs_def demo_tcbs_def demo_tcb_def)
qed

end
