(* ===== verification/Sertos_Queue.thy ===== *)
theory Sertos_Queue
  imports Sertos_Sem Sertos_Ring
begin

text \<open>
  Message queues (\<open>src/sertos_queue.c\<close>): fixed-size items over the \<open>ring_buffer\<close> submodule, with one
  wait list for senders and one for receivers. The blocking loops of send, receive and peek are
  partial functions: a caller that is woken re-checks the buffer and may block again.
\<close>

definition upd_queue :: "addr \<Rightarrow> ('r queue \<Rightarrow> 'r queue) \<Rightarrow> ('b, 'r, 'm, 'p) kstate \<Rightarrow> ('b, 'r, 'm, 'p) kstate" where
  "upd_queue a f s = s\<lparr>queues := (queues s)(a := f (queues s a))\<rparr>"

definition queue_handle_ok :: "addr \<Rightarrow> ('b, 'r, 'm, 'p) kstate \<Rightarrow> bool" where
  "queue_handle_ok handle s \<longleftrightarrow> \<not> (handle = NULL \<or> q_magic (queues s handle) \<noteq> SERTOS_QUEUE_MAGIC_WORD)"

section \<open>Helpers\<close>

definition queue_free_bytes :: "('b, 'r, 'm, 'p) env \<Rightarrow> 'r \<Rightarrow> size_t" where
  "queue_free_bytes E rb =
     (let cap = ring_buffer_capacity E rb; c = ring_buffer_count E rb in if c < cap then cap - c else 0)"

text \<open>The copy loop of \<open>queue_peek_bytes\<close> from index \<open>i\<close> for the remaining \<open>k\<close> bytes.\<close>

fun peek_loop :: "('b, 'r, 'm, 'p) env \<Rightarrow> 'r \<Rightarrow> addr \<Rightarrow> nat \<Rightarrow> size_t \<Rightarrow> (addr \<Rightarrow> byte) \<Rightarrow> addr \<Rightarrow> byte" where
  "peek_loop E rb dest 0 i m = m"
| "peek_loop E rb dest (Suc k) i m =
     peek_loop E rb dest k (i + 1)
       (m(dest + i := m (ring_buffer_data E rb + ((ring_buffer_tail E rb + i) AND ring_buffer_mask E rb))))"

definition queue_peek_bytes ::
  "('b, 'r, 'm, 'p) env \<Rightarrow> 'r \<Rightarrow> addr \<Rightarrow> size_t \<Rightarrow> (addr \<Rightarrow> byte) \<Rightarrow> addr \<Rightarrow> byte" where
  "queue_peek_bytes E rb dest n m = peek_loop E rb dest (unat n) 0 m"

text \<open>\<open>while (p < value) p <<= 1;\<close>: above \<open>2 ^ 31\<close> the shift drops the only bit and the loop never ends.\<close>

partial_function (option) next_power_loop :: "size_t \<Rightarrow> size_t \<Rightarrow> size_t option" where
  "next_power_loop v p = (if p < v then next_power_loop v (push_bit 1 p) else Some p)"

definition next_power_of_two :: "size_t \<Rightarrow> size_t option" where
  "next_power_of_two v = next_power_loop v 2"

section \<open>Creation and deletion\<close>

definition sertos_queue_create_static ::
  "('b, 'r, 'm, 'p) env \<Rightarrow> addr \<Rightarrow> addr \<Rightarrow> size_t \<Rightarrow> size_t \<Rightarrow> addr \<Rightarrow> ('b, 'r, 'm, 'p) kstate \<Rightarrow>
   SertosStatus \<times> ('b, 'r, 'm, 'p) kstate" where
  "sertos_queue_create_static E queue storage_buffer storage_size item_size out_handle s =
     (if queue = NULL \<or> storage_buffer = NULL \<or> out_handle = NULL then (SERTOS_STATUS_ERROR_NULL_PTR, s)
      else if item_size = 0 \<or> storage_size < 2 then (SERTOS_STATUS_ERROR_INVALID_PARAM, s)
      else let (ok, rb) = ring_buffer_init E storage_buffer storage_size (q_ring_buf (queues s queue));
               s1 = upd_queue queue (\<lambda>q. q\<lparr>q_ring_buf := rb\<rparr>) s
           in if \<not> ok then (SERTOS_STATUS_ERROR_INVALID_PARAM, s1)
              else let s2 = upd_queue queue (\<lambda>q. q\<lparr>q_item_size := item_size,
                              q_max_items := ring_buffer_capacity E rb div item_size,
                              q_storage_buffer := storage_buffer\<rparr>) s1;
                       s3 = upd_heap (linked_list_init E (QueueSend queue)) s2;
                       s4 = upd_heap (linked_list_init E (QueueRecv queue)) s3;
                       s5 = upd_queue queue (\<lambda>q. q\<lparr>q_is_statically_allocated := True,
                              q_magic := SERTOS_QUEUE_MAGIC_WORD\<rparr>) s4
                   in (SERTOS_STATUS_OK, s5\<lparr>ptr_cells := (ptr_cells s5)(out_handle := queue)\<rparr>))"

definition sertos_queue_create ::
  "('b, 'r, 'm, 'p) env \<Rightarrow> size_t \<Rightarrow> size_t \<Rightarrow> addr \<Rightarrow> ('b, 'r, 'm, 'p) kstate \<Rightarrow>
   (SertosStatus \<times> ('b, 'r, 'm, 'p) kstate) option" where
  "sertos_queue_create E item_size max_items out_handle s =
     (if out_handle = NULL then Some (SERTOS_STATUS_ERROR_NULL_PTR, s)
      else if item_size = 0 \<or> max_items = 0 then Some (SERTOS_STATUS_ERROR_INVALID_PARAM, s)
      else do {
        let needed_bytes = item_size * max_items + 1;
        power_capacity \<leftarrow> next_power_of_two needed_bytes;
        let (queue, m1) = memory_pool_malloc E (sizeof_queue E) (pool s);
        let s1 = s\<lparr>pool := m1\<rparr>;
        if queue = NULL then Some (SERTOS_STATUS_ERROR_NO_MEMORY, s1)
        else let (storage, m2) = memory_pool_malloc E power_capacity (pool s1);
                 s2 = s1\<lparr>pool := m2\<rparr>
             in if storage = NULL
                then Some (SERTOS_STATUS_ERROR_NO_MEMORY, s2\<lparr>pool := memory_pool_free E queue (pool s2)\<rparr>)
                else let (status, s3) = sertos_queue_create_static E queue storage power_capacity item_size out_handle s2
                     in if status \<noteq> SERTOS_STATUS_OK
                        then Some (status, s3\<lparr>pool := memory_pool_free E queue (memory_pool_free E storage (pool s3))\<rparr>)
                        else Some (SERTOS_STATUS_OK, upd_queue queue (\<lambda>q. q\<lparr>q_is_statically_allocated := False\<rparr>) s3)
      })"

definition sertos_queue_delete ::
  "('b, 'r, 'm, 'p) env \<Rightarrow> addr \<Rightarrow> ('b, 'r, 'm, 'p) kstate \<Rightarrow> (SertosStatus \<times> ('b, 'r, 'm, 'p) kstate) option" where
  "sertos_queue_delete E handle s =
     (if \<not> queue_handle_ok handle s then Some (SERTOS_STATUS_ERROR_INVALID_PARAM, s)
      else do {
        let (crit_status, s1) = enter_critical E s;
        let s2 = upd_queue handle (\<lambda>q. q\<lparr>q_magic := 0\<rparr>) s1;
        s3 \<leftarrow> unblock_all E (QueueSend handle) s2;
        s4 \<leftarrow> unblock_all E (QueueRecv handle) s3;
        let s5 = (if \<not> q_is_statically_allocated (queues s4 handle)
                  then s4\<lparr>pool := memory_pool_free E handle
                           (memory_pool_free E (q_storage_buffer (queues s4 handle)) (pool s4))\<rparr> else s4);
        s6 \<leftarrow> reschedule_if_running E (exit_critical E crit_status s5);
        Some (SERTOS_STATUS_OK, s6)
      })"

section \<open>Send, receive, peek\<close>

text \<open>The end of a successful send: write the item, wake the highest-priority receiver.\<close>

definition queue_put ::
  "('b, 'r, 'm, 'p) env \<Rightarrow> addr \<Rightarrow> addr \<Rightarrow> ('b, 'r, 'm, 'p) kstate \<Rightarrow> (addr \<times> ('b, 'r, 'm, 'p) kstate) option" where
  "queue_put E handle item s =
     (let q = queues s handle;
          (n, rb, m) = ring_buffer_write E item (q_item_size q) (q_ring_buf q) (mem s);
          s1 = (upd_queue handle (\<lambda>q. q\<lparr>q_ring_buf := rb\<rparr>) s)\<lparr>mem := m\<rparr>
      in sertos_scheduler_wait_list_unblock_highest E (Some (QueueRecv handle)) s1)"

definition queue_get ::
  "('b, 'r, 'm, 'p) env \<Rightarrow> addr \<Rightarrow> addr \<Rightarrow> ('b, 'r, 'm, 'p) kstate \<Rightarrow> (addr \<times> ('b, 'r, 'm, 'p) kstate) option" where
  "queue_get E handle item s =
     (let q = queues s handle;
          (n, rb, m) = ring_buffer_read E item (q_item_size q) (q_ring_buf q) (mem s);
          s1 = (upd_queue handle (\<lambda>q. q\<lparr>q_ring_buf := rb\<rparr>) s)\<lparr>mem := m\<rparr>
      in sertos_scheduler_wait_list_unblock_highest E (Some (QueueSend handle)) s1)"

text \<open>\<open>if ((unblocked != NULL) && sertos_scheduler_is_running()) sertos_scheduler_reschedule();\<close>\<close>

definition reschedule_if_unblocked ::
  "('b, 'r, 'm, 'p) env \<Rightarrow> addr \<Rightarrow> ('b, 'r, 'm, 'p) kstate \<Rightarrow> ('b, 'r, 'm, 'p) kstate option" where
  "reschedule_if_unblocked E unblocked s =
     (if unblocked \<noteq> NULL \<and> sertos_scheduler_is_running s then sertos_scheduler_reschedule E s else Some s)"

partial_function (option) queue_send_loop ::
  "('b, 'r, 'm, 'p) env \<Rightarrow> addr \<Rightarrow> addr \<Rightarrow> SertosTick \<Rightarrow> 32 word \<Rightarrow> ('b, 'r, 'm, 'p) kstate \<Rightarrow>
   (SertosStatus \<times> ('b, 'r, 'm, 'p) kstate) option" where
  "queue_send_loop E handle item timeout crit_status s =
     (if queue_free_bytes E (q_ring_buf (queues s handle)) < q_item_size (queues s handle)
      then if timeout = SERTOS_NO_WAIT then Some (SERTOS_STATUS_ERROR_TIMEOUT, exit_critical E crit_status s)
           else do {
             (status, s1) \<leftarrow> sertos_scheduler_wait_list_block E (Some (QueueSend handle)) timeout
                              (exit_critical E crit_status s);
             if status \<noteq> SERTOS_STATUS_OK then Some (status, s1)
             else let (crit_status', s2) = enter_critical E s1
                  in queue_send_loop E handle item timeout crit_status' s2
           }
      else do {
        (unblocked, s1) \<leftarrow> queue_put E handle item s;
        s2 \<leftarrow> reschedule_if_unblocked E unblocked (exit_critical E crit_status s1);
        Some (SERTOS_STATUS_OK, s2)
      })"

definition sertos_queue_send ::
  "('b, 'r, 'm, 'p) env \<Rightarrow> addr \<Rightarrow> addr \<Rightarrow> SertosTick \<Rightarrow> ('b, 'r, 'm, 'p) kstate \<Rightarrow>
   (SertosStatus \<times> ('b, 'r, 'm, 'p) kstate) option" where
  "sertos_queue_send E handle item timeout s =
     (if handle = NULL \<or> item = NULL \<or> \<not> queue_handle_ok handle s
      then Some (SERTOS_STATUS_ERROR_INVALID_PARAM, s)
      else let (crit_status, s1) = enter_critical E s in queue_send_loop E handle item timeout crit_status s1)"

partial_function (option) queue_receive_loop ::
  "('b, 'r, 'm, 'p) env \<Rightarrow> addr \<Rightarrow> addr \<Rightarrow> SertosTick \<Rightarrow> 32 word \<Rightarrow> ('b, 'r, 'm, 'p) kstate \<Rightarrow>
   (SertosStatus \<times> ('b, 'r, 'm, 'p) kstate) option" where
  "queue_receive_loop E handle item timeout crit_status s =
     (if ring_buffer_count E (q_ring_buf (queues s handle)) < q_item_size (queues s handle)
      then if timeout = SERTOS_NO_WAIT then Some (SERTOS_STATUS_ERROR_TIMEOUT, exit_critical E crit_status s)
           else do {
             (status, s1) \<leftarrow> sertos_scheduler_wait_list_block E (Some (QueueRecv handle)) timeout
                              (exit_critical E crit_status s);
             if status \<noteq> SERTOS_STATUS_OK then Some (status, s1)
             else let (crit_status', s2) = enter_critical E s1
                  in queue_receive_loop E handle item timeout crit_status' s2
           }
      else do {
        (unblocked, s1) \<leftarrow> queue_get E handle item s;
        s2 \<leftarrow> reschedule_if_unblocked E unblocked (exit_critical E crit_status s1);
        Some (SERTOS_STATUS_OK, s2)
      })"

definition sertos_queue_receive ::
  "('b, 'r, 'm, 'p) env \<Rightarrow> addr \<Rightarrow> addr \<Rightarrow> SertosTick \<Rightarrow> ('b, 'r, 'm, 'p) kstate \<Rightarrow>
   (SertosStatus \<times> ('b, 'r, 'm, 'p) kstate) option" where
  "sertos_queue_receive E handle item timeout s =
     (if handle = NULL \<or> item = NULL \<or> \<not> queue_handle_ok handle s
      then Some (SERTOS_STATUS_ERROR_INVALID_PARAM, s)
      else let (crit_status, s1) = enter_critical E s in queue_receive_loop E handle item timeout crit_status s1)"

partial_function (option) queue_peek_wait_loop ::
  "('b, 'r, 'm, 'p) env \<Rightarrow> addr \<Rightarrow> addr \<Rightarrow> SertosTick \<Rightarrow> 32 word \<Rightarrow> ('b, 'r, 'm, 'p) kstate \<Rightarrow>
   (SertosStatus \<times> ('b, 'r, 'm, 'p) kstate) option" where
  "queue_peek_wait_loop E handle item timeout crit_status s =
     (if ring_buffer_count E (q_ring_buf (queues s handle)) < q_item_size (queues s handle)
      then if timeout = SERTOS_NO_WAIT then Some (SERTOS_STATUS_ERROR_TIMEOUT, exit_critical E crit_status s)
           else do {
             (status, s1) \<leftarrow> sertos_scheduler_wait_list_block E (Some (QueueRecv handle)) timeout
                              (exit_critical E crit_status s);
             if status \<noteq> SERTOS_STATUS_OK then Some (status, s1)
             else let (crit_status', s2) = enter_critical E s1
                  in queue_peek_wait_loop E handle item timeout crit_status' s2
           }
      else Some (SERTOS_STATUS_OK, exit_critical E crit_status
             (s\<lparr>mem := queue_peek_bytes E (q_ring_buf (queues s handle)) item (q_item_size (queues s handle)) (mem s)\<rparr>)))"

definition sertos_queue_peek ::
  "('b, 'r, 'm, 'p) env \<Rightarrow> addr \<Rightarrow> addr \<Rightarrow> SertosTick \<Rightarrow> ('b, 'r, 'm, 'p) kstate \<Rightarrow>
   (SertosStatus \<times> ('b, 'r, 'm, 'p) kstate) option" where
  "sertos_queue_peek E handle item timeout s =
     (if handle = NULL \<or> item = NULL \<or> \<not> queue_handle_ok handle s
      then Some (SERTOS_STATUS_ERROR_INVALID_PARAM, s)
      else let (crit_status, s1) = enter_critical E s in queue_peek_wait_loop E handle item timeout crit_status s1)"

section \<open>Calls from interrupts\<close>

text \<open>The flag tells the interrupt that a task of higher priority than the running one was woken.\<close>

definition flag_if_higher ::
  "addr \<Rightarrow> addr \<Rightarrow> ('b, 'r, 'm, 'p) kstate \<Rightarrow> ('b, 'r, 'm, 'p) kstate" where
  "flag_if_higher unblocked out s =
     (let cur = sertos_scheduler_get_current_tcb s
      in if unblocked \<noteq> NULL \<and> out \<noteq> NULL \<and> cur \<noteq> NULL \<and>
            tcb_priority (tcbs s cur) < tcb_priority (tcbs s unblocked)
         then set_flag out True s else s)"

definition sertos_queue_send_from_isr ::
  "('b, 'r, 'm, 'p) env \<Rightarrow> addr \<Rightarrow> addr \<Rightarrow> addr \<Rightarrow> ('b, 'r, 'm, 'p) kstate \<Rightarrow>
   (SertosStatus \<times> ('b, 'r, 'm, 'p) kstate) option" where
  "sertos_queue_send_from_isr E handle item out_higher_prio_woken s =
     (if handle = NULL \<or> item = NULL \<or> \<not> queue_handle_ok handle s
      then Some (SERTOS_STATUS_ERROR_INVALID_PARAM, s)
      else let s0 = set_flag out_higher_prio_woken False s;
               (crit_status, s1) = enter_critical E s0
           in if queue_free_bytes E (q_ring_buf (queues s1 handle)) < q_item_size (queues s1 handle)
              then Some (SERTOS_STATUS_ERROR_RESOURCE_BUSY, exit_critical E crit_status s1)
              else do {
                (unblocked, s2) \<leftarrow> queue_put E handle item s1;
                Some (SERTOS_STATUS_OK, exit_critical E crit_status (flag_if_higher unblocked out_higher_prio_woken s2))
              })"

definition sertos_queue_receive_from_isr ::
  "('b, 'r, 'm, 'p) env \<Rightarrow> addr \<Rightarrow> addr \<Rightarrow> addr \<Rightarrow> ('b, 'r, 'm, 'p) kstate \<Rightarrow>
   (SertosStatus \<times> ('b, 'r, 'm, 'p) kstate) option" where
  "sertos_queue_receive_from_isr E handle item out_higher_prio_woken s =
     (if handle = NULL \<or> item = NULL \<or> \<not> queue_handle_ok handle s
      then Some (SERTOS_STATUS_ERROR_INVALID_PARAM, s)
      else let s0 = set_flag out_higher_prio_woken False s;
               (crit_status, s1) = enter_critical E s0
           in if ring_buffer_count E (q_ring_buf (queues s1 handle)) < q_item_size (queues s1 handle)
              then Some (SERTOS_STATUS_ERROR_RESOURCE_BUSY, exit_critical E crit_status s1)
              else do {
                (unblocked, s2) \<leftarrow> queue_get E handle item s1;
                Some (SERTOS_STATUS_OK, exit_critical E crit_status (flag_if_higher unblocked out_higher_prio_woken s2))
              })"

section \<open>Queries and reset\<close>

definition sertos_queue_get_count :: "('b, 'r, 'm, 'p) env \<Rightarrow> addr \<Rightarrow> ('b, 'r, 'm, 'p) kstate \<Rightarrow> size_t" where
  "sertos_queue_get_count E handle s =
     (if \<not> queue_handle_ok handle s then 0
      else ring_buffer_count E (q_ring_buf (queues s handle)) div q_item_size (queues s handle))"

definition sertos_queue_get_spaces_available ::
  "('b, 'r, 'm, 'p) env \<Rightarrow> addr \<Rightarrow> ('b, 'r, 'm, 'p) kstate \<Rightarrow> size_t" where
  "sertos_queue_get_spaces_available E handle s =
     (if \<not> queue_handle_ok handle s then 0
      else queue_free_bytes E (q_ring_buf (queues s handle)) div q_item_size (queues s handle))"

definition sertos_queue_reset ::
  "('b, 'r, 'm, 'p) env \<Rightarrow> addr \<Rightarrow> ('b, 'r, 'm, 'p) kstate \<Rightarrow> SertosStatus \<times> ('b, 'r, 'm, 'p) kstate" where
  "sertos_queue_reset E handle s =
     (if \<not> queue_handle_ok handle s then (SERTOS_STATUS_ERROR_INVALID_PARAM, s)
      else let (crit_status, s1) = enter_critical E s;
               s2 = upd_queue handle (\<lambda>q. q\<lparr>q_ring_buf := ring_buffer_clear E (q_ring_buf q)\<rparr>) s1
           in (SERTOS_STATUS_OK, exit_critical E crit_status s2))"

section \<open>Capacities are powers of two\<close>

lemma unat_pow2: "e < 32 \<Longrightarrow> unat ((2 :: size_t) ^ e) = 2 ^ e"
proof -
  assume "e < 32"
  then have "(2 :: nat) ^ e < 2 ^ 32" by (intro power_strict_increasing) auto
  then have "unat (of_nat (2 ^ e) :: size_t) = 2 ^ e" by (simp only: unat_of_nat) (simp add: take_bit_nat_eq_self)
  then show ?thesis by (simp only: of_nat_power of_nat_numeral)
qed

lemma next_power_loop_zero:
  assumes "0 < v" shows "next_power_loop v 0 = None"
proof -
  have "\<not> (p = 0 \<and> 0 < v)" if "next_power_loop v p = Some y" for v p y
    by (rule next_power_loop.raw_induct [OF _ that, where P = "\<lambda>v p y. \<not> (p = 0 \<and> 0 < v)"]) (auto split: if_splits)
  then show ?thesis using assms by (cases "next_power_loop v 0") auto
qed

lemma next_power_loop_step:
  assumes "e < 32"
  shows "next_power_loop v (2 ^ e) =
    (if unat v \<le> 2 ^ e then Some (2 ^ e) else if e < 31 then next_power_loop v (2 ^ (e + 1)) else None)"
proof (cases "unat v \<le> 2 ^ e")
  case True
  then show ?thesis by (subst next_power_loop.simps) (simp add: word_less_nat_alt unat_pow2 [OF assms])
next
  case False
  then have lt: "(2 :: size_t) ^ e < v" by (simp add: word_less_nat_alt unat_pow2 [OF assms])
  have "push_bit 1 ((2 :: size_t) ^ e) = 2 ^ (e + 1)" by (simp add: push_bit_eq_mult)
  then have step: "next_power_loop v (2 ^ e) = next_power_loop v (2 ^ (e + 1))"
    using lt by (subst next_power_loop.simps) (simp only: if_True)
  have zero: "next_power_loop v (2 ^ (e + 1)) = None" if "e = 31"
  proof -
    have "(2 :: size_t) ^ (e + 1) = 0" using that by simp
    moreover have "0 < v" using lt by (rule le_less_trans [OF word_zero_le])
    ultimately show ?thesis using next_power_loop_zero by metis
  qed
  have "e < 31 \<or> e = 31" using assms by linarith
  then show ?thesis
    unfolding if_not_P [OF False] step using zero by (elim disjE) (simp only: if_True, simp only: if_False less_irrefl)
qed

lemma next_power_loop_result:
  assumes "e < 32" and "e = 1 \<or> 2 ^ (e - 1) < unat v" and "0 < e"
  shows "case next_power_loop v (2 ^ e) of
      Some y \<Rightarrow> \<exists>k. 0 < k \<and> k < 32 \<and> y = 2 ^ k \<and> unat v \<le> 2 ^ k \<and> (k = 1 \<or> 2 ^ (k - 1) < unat v)
    | None \<Rightarrow> 2 ^ 31 < unat v"
  using assms
proof (induction "31 - e" arbitrary: e)
  case 0
  then have "e = 31" by simp
  with 0 show ?case using next_power_loop_step [of e v] by (auto intro: exI [of _ 31])
next
  case (Suc n)
  show ?case
  proof (cases "unat v \<le> 2 ^ e")
    case True
    then show ?thesis using Suc.prems next_power_loop_step [of e v] by auto
  next
    case False
    then have "next_power_loop v (2 ^ e) = next_power_loop v (2 ^ (e + 1))"
      using Suc.hyps(2) next_power_loop_step [OF Suc.prems(1), of v] by (simp split: if_splits)
    moreover have "n = 31 - (e + 1)" "e + 1 < 32" using Suc.hyps(2) by simp_all
    ultimately show ?thesis using Suc.hyps(1) [of "e + 1"] False by simp
  qed
qed

section \<open>A queue is a bounded FIFO of bytes\<close>

text \<open>The environment of the buffered IPC objects: the kernel's, and a ring buffer that meets its contract.\<close>

locale ipc_env =
  kernel_env E bits +
  rg: ring "ring_buffer_init E" "ring_buffer_capacity E" "ring_buffer_count E" "ring_buffer_write E" "ring_buffer_read E"
    "ring_buffer_clear E" "ring_buffer_data E" "ring_buffer_tail E" "ring_buffer_mask E" ok storage contents
  for E :: "('b, 'r, 'm, 'p) env" and bits :: "'b \<Rightarrow> nat set" and ok :: "'r \<Rightarrow> bool" and storage :: "'r \<Rightarrow> addr set"
    and contents :: "'r \<Rightarrow> (addr \<Rightarrow> byte) \<Rightarrow> byte list"

lemma upd_queue_simps [simp]:
  "kinv bits (upd_queue a f s) L \<longleftrightarrow> kinv bits s L" "tcbs (upd_queue a f s) = tcbs s"
  "queues (upd_queue a f s) = (queues s)(a := f (queues s a))" "list_heap (upd_queue a f s) = list_heap s"
  "mem (upd_queue a f s) = mem s" "port (upd_queue a f s) = port s" "ptr_cells (upd_queue a f s) = ptr_cells s"
  "sertos_current_tcb (upd_queue a f s) = sertos_current_tcb s" "s_is_running (upd_queue a f s) = s_is_running s"
  by (simp_all add: upd_queue_def)

lemma flag_if_higher_simps [simp]:
  "kinv bits (flag_if_higher a out s) L \<longleftrightarrow> kinv bits s L" "tcbs (flag_if_higher a out s) = tcbs s"
  "queues (flag_if_higher a out s) = queues s" "mem (flag_if_higher a out s) = mem s"
  by (simp_all add: flag_if_higher_def Let_def)

context ipc_env
begin

lemma free_bytes_unat:
  "ok rb \<Longrightarrow> unat (queue_free_bytes E rb) = unat (ring_buffer_capacity E rb) - unat (ring_buffer_count E rb)"
  using rg.count_capacity [of rb]
  by (auto simp: queue_free_bytes_def Let_def unat_sub word_less_nat_alt word_le_nat_alt)

lemma queue_put_refines:
  assumes inv: "kinv bits s L" and wl: "L (QueueRecv h) \<noteq> None" and rb: "ok (q_ring_buf (queues s h))"
    and room: "q_item_size (queues s h) \<le> queue_free_bytes E (q_ring_buf (queues s h))"
    and disj: "region item (unat (q_item_size (queues s h))) \<inter> storage (q_ring_buf (queues s h)) = {}"
  obtains a s' L' where "queue_put E h item s = Some (a, s')" and "kinv bits s' L'"
    and "wakes_first (QueueRecv h) (tcbs s) L a (tcbs s') L'" and "ok (q_ring_buf (queues s' h))"
    and "contents (q_ring_buf (queues s' h)) (mem s') =
      contents (q_ring_buf (queues s h)) (mem s) @ bytes_at (mem s) item (unat (q_item_size (queues s h)))"
    and "queues s' = (queues s)(h := (queues s h)\<lparr>q_ring_buf := q_ring_buf (queues s' h)\<rparr>)"
    and "storage (q_ring_buf (queues s' h)) = storage (q_ring_buf (queues s h))"
    and "ring_buffer_capacity E (q_ring_buf (queues s' h)) = ring_buffer_capacity E (q_ring_buf (queues s h))"
    and "\<And>x. x \<notin> storage (q_ring_buf (queues s h)) \<Longrightarrow> mem s' x = mem s x"
    and "sertos_current_tcb s' = sertos_current_tcb s" and "s_is_running s' = s_is_running s"
proof -
  let ?q = "queues s h"
  obtain n rb' m where w: "ring_buffer_write E item (q_item_size ?q) (q_ring_buf ?q) (mem s) = (n, rb', m)"
    by (metis prod_cases3)
  note wok = rg.write_ok [OF rb disj w]
  have n: "unat n = unat (q_item_size ?q)"
    using wok room free_bytes_unat [OF rb] by (simp add: word_le_nat_alt)
  let ?s1 = "(upd_queue h (\<lambda>q. q\<lparr>q_ring_buf := rb'\<rparr>) s)\<lparr>mem := m\<rparr>"
  have inv1: "kinv bits ?s1 L" using inv by simp
  obtain a s' L' where u: "sertos_scheduler_wait_list_unblock_highest E (Some (QueueRecv h)) ?s1 = Some (a, s')"
    "kinv bits s' L'" "sched_frame ?s1 s'" "wakes_first (QueueRecv h) (tcbs ?s1) L a (tcbs s') L'"
    using unblock_highest_wakes [OF inv1 _ wl] by (metis is_wait_list.simps(4))
  have fr: "queues s' = (queues s)(h := ?q\<lparr>q_ring_buf := rb'\<rparr>)" "mem s' = m"
    "sertos_current_tcb s' = sertos_current_tcb s" "s_is_running s' = s_is_running s"
    using sched_frameD(1,2,9,12) [OF u(3)] by simp_all
  have "queue_put E h item s = Some (a, s')" using u(1) w by (simp add: queue_put_def)
  then show thesis
    by (rule that [OF _ u(2)]) (use u(4) wok n fr in simp_all)
qed

lemma queue_get_refines:
  assumes inv: "kinv bits s L" and wl: "L (QueueSend h) \<noteq> None" and rb: "ok (q_ring_buf (queues s h))"
    and some: "q_item_size (queues s h) \<le> ring_buffer_count E (q_ring_buf (queues s h))"
    and disj: "region item (unat (q_item_size (queues s h))) \<inter> storage (q_ring_buf (queues s h)) = {}"
  obtains a s' L' where "queue_get E h item s = Some (a, s')" and "kinv bits s' L'"
    and "wakes_first (QueueSend h) (tcbs s) L a (tcbs s') L'" and "ok (q_ring_buf (queues s' h))"
    and "contents (q_ring_buf (queues s' h)) (mem s') =
      drop (unat (q_item_size (queues s h))) (contents (q_ring_buf (queues s h)) (mem s))"
    and "bytes_at (mem s') item (unat (q_item_size (queues s h))) =
      take (unat (q_item_size (queues s h))) (contents (q_ring_buf (queues s h)) (mem s))"
    and "queues s' = (queues s)(h := (queues s h)\<lparr>q_ring_buf := q_ring_buf (queues s' h)\<rparr>)"
    and "sertos_current_tcb s' = sertos_current_tcb s" and "s_is_running s' = s_is_running s"
proof -
  let ?q = "queues s h"
  obtain n rb' m where w: "ring_buffer_read E item (q_item_size ?q) (q_ring_buf ?q) (mem s) = (n, rb', m)"
    by (metis prod_cases3)
  note rok = rg.read_ok [OF rb disj w]
  have n: "unat n = unat (q_item_size ?q)" using rok some by (simp add: word_le_nat_alt)
  let ?s1 = "(upd_queue h (\<lambda>q. q\<lparr>q_ring_buf := rb'\<rparr>) s)\<lparr>mem := m\<rparr>"
  have inv1: "kinv bits ?s1 L" using inv by simp
  obtain a s' L' where u: "sertos_scheduler_wait_list_unblock_highest E (Some (QueueSend h)) ?s1 = Some (a, s')"
    "kinv bits s' L'" "sched_frame ?s1 s'" "wakes_first (QueueSend h) (tcbs ?s1) L a (tcbs s') L'"
    using unblock_highest_wakes [OF inv1 _ wl] by (metis is_wait_list.simps(3))
  have fr: "queues s' = (queues s)(h := ?q\<lparr>q_ring_buf := rb'\<rparr>)" "mem s' = m"
    "sertos_current_tcb s' = sertos_current_tcb s" "s_is_running s' = s_is_running s"
    using sched_frameD(1,2,9,12) [OF u(3)] by simp_all
  have "queue_get E h item s = Some (a, s')" using u(1) w by (simp add: queue_get_def)
  then show thesis
    by (rule that [OF _ u(2)]) (use u(4) rok n fr in simp_all)
qed

text \<open>The in-place copy of \<open>queue_peek_bytes\<close>, from index \<open>i\<close> on.\<close>

lemma peek_loop_bytes:
  assumes "ok rb" and "region dest (i + k) \<inter> storage rb = {}" and "i + k \<le> length (contents rb m)"
    and "i + k < 2 ^ 32"
  shows "peek_loop E rb dest k (of_nat i) m =
    (\<lambda>x. if \<exists>j. i \<le> j \<and> j < i + k \<and> x = dest + of_nat j then contents rb m ! unat (x - dest) else m x)"
  using assms
proof (induction k arbitrary: i m)
  case 0
  show ?case by (intro ext) auto
next
  case (Suc k)
  let ?m = "m(dest + of_nat i := m (ring_buffer_data E rb + ((ring_buffer_tail E rb + of_nat i) AND ring_buffer_mask E rb)))"
  have "dest + of_nat i \<in> region dest (i + Suc k)" by (auto simp: region_def)
  then have "dest + of_nat i \<notin> storage rb" using Suc.prems(2) by blast
  then have c: "contents rb ?m = contents rb m" by (intro rg.contents_frame [OF Suc.prems(1)]) auto
  have v: "?m = m(dest + of_nat i := contents rb m ! i)"
    using rg.contents_nth [OF Suc.prems(1), of i m] Suc.prems(3) by simp
  have "peek_loop E rb dest k (of_nat (Suc i)) ?m =
      (\<lambda>x. if \<exists>j. Suc i \<le> j \<and> j < Suc i + k \<and> x = dest + of_nat j then contents rb m ! unat (x - dest) else ?m x)"
    unfolding c [symmetric]
  proof (rule Suc.IH [OF Suc.prems(1)])
    show "Suc i + k \<le> length (contents rb ?m)" unfolding c using Suc.prems(3) by simp
  qed (use Suc.prems in simp_all)
  moreover have "unat (of_nat i :: size_t) = i" using Suc.prems(4) by (simp add: unat_of_nat take_bit_nat_eq_self)
  ultimately show ?case unfolding peek_loop.simps v
    by (auto simp: fun_eq_iff add.commute) (metis Suc_leI le_eq_less_or_eq add.commute)+
qed

lemma room_iff:
  assumes "ok rb"
  shows "unat n \<le> unat (ring_buffer_capacity E rb) - length (contents rb m) \<longleftrightarrow> \<not> queue_free_bytes E rb < n"
  using free_bytes_unat [OF assms] rg.count_contents [OF assms, of m] by (simp add: word_less_nat_alt not_less)

lemma item_iff:
  assumes "ok rb" shows "unat n \<le> length (contents rb m) \<longleftrightarrow> \<not> ring_buffer_count E rb < n"
  using rg.count_contents [OF assms, of m] by (simp add: word_less_nat_alt not_less)

lemma send_from_isr_refines:
  assumes inv: "kinv bits s L" and h: "queue_handle_ok h s" and item: "item \<noteq> NULL" and wl: "L (QueueRecv h) \<noteq> None"
    and q: "q_ring_buf (queues s h) = rb" "q_item_size (queues s h) = n" and rb: "ok rb"
    and disj: "region item (unat n) \<inter> storage rb = {}"
  shows "\<exists>s'. if unat n \<le> unat (ring_buffer_capacity E rb) - length (contents rb (mem s))
    then sertos_queue_send_from_isr E h item out s = Some (SERTOS_STATUS_OK, s') \<and>
      ok (q_ring_buf (queues s' h)) \<and>
      contents (q_ring_buf (queues s' h)) (mem s') = contents rb (mem s) @ bytes_at (mem s) item (unat n) \<and>
      (\<exists>a L'. kinv bits s' L' \<and> wakes_first (QueueRecv h) (tcbs s) L a (tcbs s') L')
    else sertos_queue_send_from_isr E h item out s = Some (SERTOS_STATUS_ERROR_RESOURCE_BUSY, s') \<and>
      kinv bits s' L \<and> queues s' = queues s \<and> mem s' = mem s"
proof (cases "queue_free_bytes E rb < n")
  case True
  let ?s1 = "(set_flag out False s)\<lparr>port := snd (sertos_port_enter_critical E (port s))\<rparr>"
  have "sertos_queue_send_from_isr E h item out s =
      Some (SERTOS_STATUS_ERROR_RESOURCE_BUSY, exit_critical E (fst (sertos_port_enter_critical E (port s))) ?s1)"
    using True h item q by (simp add: sertos_queue_send_from_isr_def enter_critical_eq queue_handle_ok_def)
  then show ?thesis using True inv by (simp add: room_iff [OF rb])
next
  case False
  let ?s1 = "(set_flag out False s)\<lparr>port := snd (sertos_port_enter_critical E (port s))\<rparr>"
  have inv1: "kinv bits ?s1 L" using inv by simp
  obtain a s' L' where s': "queue_put E h item ?s1 = Some (a, s')" "kinv bits s' L'"
    "wakes_first (QueueRecv h) (tcbs ?s1) L a (tcbs s') L'" "ok (q_ring_buf (queues s' h))"
    "contents (q_ring_buf (queues s' h)) (mem s') =
      contents (q_ring_buf (queues ?s1 h)) (mem ?s1) @ bytes_at (mem ?s1) item (unat (q_item_size (queues ?s1 h)))"
    by (rule queue_put_refines [OF inv1 wl, of item]) (use False q rb disj in auto)
  have "sertos_queue_send_from_isr E h item out s = Some (SERTOS_STATUS_OK,
      exit_critical E (fst (sertos_port_enter_critical E (port s))) (flag_if_higher a out s'))"
    using False h item q s'(1) by (simp add: sertos_queue_send_from_isr_def enter_critical_eq queue_handle_ok_def)
  then show ?thesis
    unfolding room_iff [OF rb] if_P [OF False] using s'(2-5) q by simp blast
qed

lemma receive_from_isr_refines:
  assumes inv: "kinv bits s L" and h: "queue_handle_ok h s" and item: "item \<noteq> NULL" and wl: "L (QueueSend h) \<noteq> None"
    and q: "q_ring_buf (queues s h) = rb" "q_item_size (queues s h) = n" and rb: "ok rb"
    and disj: "region item (unat n) \<inter> storage rb = {}"
  shows "\<exists>s'. if unat n \<le> length (contents rb (mem s))
    then sertos_queue_receive_from_isr E h item out s = Some (SERTOS_STATUS_OK, s') \<and>
      ok (q_ring_buf (queues s' h)) \<and> bytes_at (mem s') item (unat n) = take (unat n) (contents rb (mem s)) \<and>
      contents (q_ring_buf (queues s' h)) (mem s') = drop (unat n) (contents rb (mem s)) \<and>
      (\<exists>a L'. kinv bits s' L' \<and> wakes_first (QueueSend h) (tcbs s) L a (tcbs s') L')
    else sertos_queue_receive_from_isr E h item out s = Some (SERTOS_STATUS_ERROR_RESOURCE_BUSY, s') \<and>
      kinv bits s' L \<and> queues s' = queues s \<and> mem s' = mem s"
proof (cases "ring_buffer_count E rb < n")
  case True
  let ?s1 = "(set_flag out False s)\<lparr>port := snd (sertos_port_enter_critical E (port s))\<rparr>"
  have "sertos_queue_receive_from_isr E h item out s =
      Some (SERTOS_STATUS_ERROR_RESOURCE_BUSY, exit_critical E (fst (sertos_port_enter_critical E (port s))) ?s1)"
    using True h item q by (simp add: sertos_queue_receive_from_isr_def enter_critical_eq queue_handle_ok_def)
  then show ?thesis using True inv by (simp add: item_iff [OF rb])
next
  case False
  let ?s1 = "(set_flag out False s)\<lparr>port := snd (sertos_port_enter_critical E (port s))\<rparr>"
  have inv1: "kinv bits ?s1 L" using inv by simp
  obtain a s' L' where s': "queue_get E h item ?s1 = Some (a, s')" "kinv bits s' L'"
    "wakes_first (QueueSend h) (tcbs ?s1) L a (tcbs s') L'" "ok (q_ring_buf (queues s' h))"
    "contents (q_ring_buf (queues s' h)) (mem s') =
      drop (unat (q_item_size (queues ?s1 h))) (contents (q_ring_buf (queues ?s1 h)) (mem ?s1))"
    "bytes_at (mem s') item (unat (q_item_size (queues ?s1 h))) =
      take (unat (q_item_size (queues ?s1 h))) (contents (q_ring_buf (queues ?s1 h)) (mem ?s1))"
    by (rule queue_get_refines [OF inv1 wl, of item]) (use False q rb disj in auto)
  have "sertos_queue_receive_from_isr E h item out s = Some (SERTOS_STATUS_OK,
      exit_critical E (fst (sertos_port_enter_critical E (port s))) (flag_if_higher a out s'))"
    using False h item q s'(1) by (simp add: sertos_queue_receive_from_isr_def enter_critical_eq queue_handle_ok_def)
  then show ?thesis
    unfolding item_iff [OF rb] if_P [OF False] using s'(2-6) q by simp blast
qed

lemma send_room_refines:
  assumes inv: "kinv bits s L" and h: "queue_handle_ok h s" and item: "item \<noteq> NULL" and wl: "L (QueueRecv h) \<noteq> None"
    and q: "q_ring_buf (queues s h) = rb" "q_item_size (queues s h) = n" and rb: "ok rb"
    and disj: "region item (unat n) \<inter> storage rb = {}" and room: "\<not> queue_free_bytes E rb < n"
  obtains a s' L' where "sertos_queue_send E h item timeout s =
      map_option (Pair SERTOS_STATUS_OK) (reschedule_if_unblocked E a s')"
    and "kinv bits s' L'" and "wakes_first (QueueRecv h) (tcbs s) L a (tcbs s') L'" and "ok (q_ring_buf (queues s' h))"
    and "contents (q_ring_buf (queues s' h)) (mem s') = contents rb (mem s) @ bytes_at (mem s) item (unat n)"
proof -
  let ?s1 = "s\<lparr>port := snd (sertos_port_enter_critical E (port s))\<rparr>"
  let ?st = "fst (sertos_port_enter_critical E (port s))"
  have inv1: "kinv bits ?s1 L" using inv by simp
  obtain a s' L' where s': "queue_put E h item ?s1 = Some (a, s')" "kinv bits s' L'"
    "wakes_first (QueueRecv h) (tcbs ?s1) L a (tcbs s') L'" "ok (q_ring_buf (queues s' h))"
    "contents (q_ring_buf (queues s' h)) (mem s') =
      contents (q_ring_buf (queues ?s1 h)) (mem ?s1) @ bytes_at (mem ?s1) item (unat (q_item_size (queues ?s1 h)))"
    by (rule queue_put_refines [OF inv1 wl, of item]) (use room q rb disj in auto)
  have "queue_send_loop E h item timeout ?st ?s1 =
      map_option (Pair SERTOS_STATUS_OK) (reschedule_if_unblocked E a (exit_critical E ?st s'))"
    using room q s'(1) by (subst queue_send_loop.simps) (simp add: map_option_bind)
  then have "sertos_queue_send E h item timeout s =
      map_option (Pair SERTOS_STATUS_OK) (reschedule_if_unblocked E a (exit_critical E ?st s'))"
    using h item by (simp add: sertos_queue_send_def enter_critical_eq queue_handle_ok_def)
  then show thesis by (rule that) (use s'(2-5) q in simp_all)
qed

lemma send_full_refines:
  assumes inv: "kinv bits s L" and h: "queue_handle_ok h s" and item: "item \<noteq> NULL"
    and full: "queue_free_bytes E (q_ring_buf (queues s h)) < q_item_size (queues s h)"
    and run: "s_is_running s" and c: "sertos_current_tcb s = c" and on: "on_list L (ReadyQ p) (StateNode c)"
    and wl: "L (QueueSend h) \<noteq> None" and timeout: "timeout \<noteq> 0"
  obtains s' where "sertos_queue_send E h item timeout s = Option.bind (sertos_scheduler_switch_context E s')
      (\<lambda>s''. if timeout \<noteq> SERTOS_WAIT_FOREVER \<and> tcb_delay_ticks (tcbs s'' c) = 0 \<and> tcb_wait_list (tcbs s'' c) = None
             then Some (SERTOS_STATUS_ERROR_TIMEOUT, s'')
             else (case enter_critical E s'' of (st, s3) \<Rightarrow> queue_send_loop E h item timeout st s3))"
    and "kinv bits s' (blocked_lists (tcbs s) c p (Some (QueueSend h)) (timeout \<noteq> SERTOS_WAIT_FOREVER) L)"
    and "tcb_state (tcbs s' c) = SERTOS_TASK_STATE_BLOCKED" and "queues s' = queues s" and "mem s' = mem s"
proof -
  let ?s1 = "s\<lparr>port := snd (sertos_port_enter_critical E (port s))\<rparr>"
  let ?st = "fst (sertos_port_enter_critical E (port s))"
  let ?s2 = "exit_critical E ?st ?s1"
  have inv2: "kinv bits ?s2 L" and r2: "s_is_running ?s2" "sertos_current_tcb ?s2 = c" using inv run c by simp_all
  have w: "is_wait_list (QueueSend h)" by simp
  obtain s' where s': "sertos_scheduler_wait_list_block E (Some (QueueSend h)) timeout ?s2 =
      map_option (\<lambda>s''. (if timeout \<noteq> SERTOS_WAIT_FOREVER \<and> tcb_delay_ticks (tcbs s'' c) = 0 \<and>
          tcb_wait_list (tcbs s'' c) = None then SERTOS_STATUS_ERROR_TIMEOUT else SERTOS_STATUS_OK, s''))
        (sertos_scheduler_switch_context E s')"
    "kinv bits s' (blocked_lists (tcbs ?s2) c p (Some (QueueSend h)) (timeout \<noteq> SERTOS_WAIT_FOREVER) L)"
    "tcbs s' = (tcbs ?s2)(c := (tcbs ?s2 c)\<lparr>tcb_state := SERTOS_TASK_STATE_BLOCKED, tcb_wait_list := Some (QueueSend h),
       tcb_delay_ticks := (if timeout = SERTOS_WAIT_FOREVER then 0 else timeout)\<rparr>)"
    "queues s' = queues ?s2" "mem s' = mem ?s2"
    using wait_list_block_refines [OF inv2 r2 on w wl timeout] by blast
  have "queue_send_loop E h item timeout ?st ?s1 = Option.bind (sertos_scheduler_switch_context E s')
      (\<lambda>s''. if timeout \<noteq> SERTOS_WAIT_FOREVER \<and> tcb_delay_ticks (tcbs s'' c) = 0 \<and> tcb_wait_list (tcbs s'' c) = None
             then Some (SERTOS_STATUS_ERROR_TIMEOUT, s'')
             else (case enter_critical E s'' of (st, s3) \<Rightarrow> queue_send_loop E h item timeout st s3))"
    using full timeout s'(1)
    by (subst queue_send_loop.simps, cases "sertos_scheduler_switch_context E s'") (auto simp: SERTOS_NO_WAIT_def)
  then have "sertos_queue_send E h item timeout s = Option.bind (sertos_scheduler_switch_context E s')
      (\<lambda>s''. if timeout \<noteq> SERTOS_WAIT_FOREVER \<and> tcb_delay_ticks (tcbs s'' c) = 0 \<and> tcb_wait_list (tcbs s'' c) = None
             then Some (SERTOS_STATUS_ERROR_TIMEOUT, s'')
             else (case enter_critical E s'' of (st, s3) \<Rightarrow> queue_send_loop E h item timeout st s3))"
    using h item by (simp add: sertos_queue_send_def enter_critical_eq queue_handle_ok_def)
  then show thesis by (rule that) (use s'(2-5) in simp_all)
qed

lemma peek_refines:
  assumes inv: "kinv bits s L" and h: "queue_handle_ok h s" and item: "item \<noteq> NULL"
    and q: "q_ring_buf (queues s h) = rb" "q_item_size (queues s h) = n" and rb: "ok rb"
    and disj: "region item (unat n) \<inter> storage rb = {}" and some: "unat n \<le> length (contents rb (mem s))"
  obtains s' where "sertos_queue_peek E h item timeout s = Some (SERTOS_STATUS_OK, s')" and "kinv bits s' L"
    and "bytes_at (mem s') item (unat n) = take (unat n) (contents rb (mem s))"
    and "queues s' = queues s" and "contents rb (mem s') = contents rb (mem s)"
proof -
  let ?s1 = "s\<lparr>port := snd (sertos_port_enter_critical E (port s))\<rparr>"
  let ?st = "fst (sertos_port_enter_critical E (port s))"
  let ?m = "queue_peek_bytes E rb item n (mem s)"
  let ?s2 = "exit_critical E ?st (?s1\<lparr>mem := ?m\<rparr>)"
  have n: "unat n < 2 ^ LENGTH(32)" by (rule unsigned_less)
  have m: "?m = (\<lambda>x. if \<exists>j < unat n. x = item + of_nat j then contents rb (mem s) ! unat (x - item) else mem s x)"
    using peek_loop_bytes [OF rb, of item 0 "unat n" "mem s"] disj some n by (simp add: queue_peek_bytes_def)
  have "unat (of_nat j :: size_t) = j" if "j < unat n" for j
    using that n by (simp add: unat_of_nat take_bit_nat_eq_self)
  then have "bytes_at ?m item (unat n) = take (unat n) (contents rb (mem s))"
    using some by (intro nth_equalityI) (auto simp: bytes_at_def m)
  moreover have "contents rb ?m = contents rb (mem s)"
    by (rule rg.contents_frame [OF rb]) (use disj in \<open>auto simp: m region_def\<close>)
  moreover have "queue_peek_wait_loop E h item timeout ?st ?s1 = Some (SERTOS_STATUS_OK, ?s2)"
    using some q by (subst queue_peek_wait_loop.simps) (simp add: item_iff [OF rb])
  then have "sertos_queue_peek E h item timeout s = Some (SERTOS_STATUS_OK, ?s2)"
    using h item by (simp add: sertos_queue_peek_def enter_critical_eq queue_handle_ok_def)
  ultimately show thesis using that [of ?s2] inv by simp
qed

end

end
