(* ===== verification/Sertos_Queue_Spec.thy ===== *)
theory Sertos_Queue_Spec
  imports Sertos_Sem_Spec Sertos_Queue
begin

text \<open>
  What message queues guarantee: a queue is a FIFO of whole items bounded by its capacity, a send wakes
  the first receiver and a receive the first sender, peeking does not consume, and how
  the capacity of a dynamically created queue is computed.
\<close>

interpretation ref_ipc: ipc_env "ref_env y t" ref_bits rr_ok rr_storage rr_contents for y t
proof -
  have "ring (ring_buffer_init (ref_env y t)) (ring_buffer_capacity (ref_env y t)) (ring_buffer_count (ref_env y t))
      (ring_buffer_write (ref_env y t)) (ring_buffer_read (ref_env y t)) (ring_buffer_clear (ref_env y t))
      (ring_buffer_data (ref_env y t)) (ring_buffer_tail (ref_env y t)) (ring_buffer_mask (ref_env y t))
      rr_ok rr_storage rr_contents"
    by (simp add: ref_env_def rr.ring_axioms)
  then show "ipc_env (ref_env y t) ref_bits rr_ok rr_storage rr_contents"
    by (intro ipc_env.intro ref_kernel_env)
qed

lemma quiet_ipc_env: "ipc_env quiet_env ref_bits rr_ok rr_storage rr_contents"
  unfolding quiet_env_def by (rule ref_ipc.ipc_env_axioms)

section \<open>Capacities\<close>

text \<open>C18: \<open>next_power_of_two\<close> returns the least power of two that is at least its argument and at
  least 2, for arguments up to 2 ^ 31; for every larger argument its loop never ends.\<close>

theorem next_power_of_two_correct:
  "if unat v \<le> 2 ^ 31
   then \<exists>k. next_power_of_two v = Some (2 ^ k) \<and> 0 < k \<and> k < 32 \<and> unat v \<le> 2 ^ k \<and> (k = 1 \<or> 2 ^ (k - 1) < unat v)
   else next_power_of_two v = None"
proof -
  have r: "case next_power_of_two v of
      Some y \<Rightarrow> \<exists>k. 0 < k \<and> k < 32 \<and> y = 2 ^ k \<and> unat v \<le> 2 ^ k \<and> (k = 1 \<or> 2 ^ (k - 1) < unat v)
    | None \<Rightarrow> 2 ^ 31 < unat v"
    using next_power_loop_result [of 1 v] by (simp add: next_power_of_two_def)
  have big: "unat v \<le> 2 ^ 31" if "unat v \<le> 2 ^ k" "k < 32" for k
  proof -
    have "(2 :: nat) ^ k \<le> 2 ^ 31" using that(2) by (intro power_increasing) auto
    with that(1) show ?thesis by (rule order_trans)
  qed
  show ?thesis
  proof (cases "next_power_of_two v")
    case None
    with r have "\<not> unat v \<le> 2 ^ 31" by simp
    with None show ?thesis by (simp only: if_False simp_thms)
  next
    case (Some y)
    with r obtain k where k: "0 < k" "k < 32" "y = 2 ^ k" "unat v \<le> 2 ^ k" "k = 1 \<or> 2 ^ (k - 1) < unat v" by auto
    from big [OF k(4,2)] Some k show ?thesis by (simp only: if_True) blast
  qed
qed

text \<open>The size computation of \<open>sertos_queue_create\<close> wraps: 65536 items of 65536 bytes need
  2 ^ 32 + 1 bytes, the code computes 1, and the call reports success with a queue that can hold no item.\<close>

theorem queue_create_wraps:
  assumes "out \<noteq> NULL" and "memory_pool_malloc E (sizeof_queue E) (pool s) = (q, m1)" and "q \<noteq> NULL"
    and "memory_pool_malloc E 2 m1 = (st, m2)" and "st \<noteq> NULL"
    and "ring_buffer_init E st 2 (q_ring_buf (queues s q)) = (True, rb)" and "ring_buffer_capacity E rb \<le> 2"
  shows "\<exists>s'. sertos_queue_create E 65536 65536 out s = Some (SERTOS_STATUS_OK, s') \<and>
    ptr_cells s' out = q \<and> queue_handle_ok q s' \<and> q_max_items (queues s' q) = 0"
proof -
  have p: "next_power_of_two (65536 * 65536 + 1) = Some 2"
    by (simp add: next_power_of_two_def next_power_loop.simps)
  have "ring_buffer_capacity E rb div 65536 = 0"
  proof -
    have "unat (ring_buffer_capacity E rb) \<le> 2" using assms(7) by (simp add: word_le_nat_alt)
    then have "unat (ring_buffer_capacity E rb div 65536) = 0" by (simp add: unat_div)
    then show ?thesis by (simp add: word_unat_eq_iff)
  qed
  then show ?thesis
    using assms p by (simp add: sertos_queue_create_def sertos_queue_create_static_def Let_def queue_handle_ok_def)
qed

theorem queue_create_wraps_witness:
  "\<exists>s'. sertos_queue_create quiet_env 65536 65536 0x700 demo = Some (SERTOS_STATUS_OK, s') \<and>
     q_max_items (queues s' (ptr_cells s' 0x700)) = 0"
proof -
  have "memory_pool_malloc quiet_env (sizeof_queue quiet_env) (pool demo) = (0x30000000, 0x30000040)"
    "memory_pool_malloc quiet_env 2 0x30000040 = (0x30000040, 0x30000042)"
    by (simp_all add: quiet_env_def ref_env_def ref_malloc_def demo_def demo_state_def align_down_def
        SERTOS_CONFIG_STACK_ALIGNMENT_BYTES_def Let_def)
  then show ?thesis
    using queue_create_wraps [of "0x700" quiet_env demo "0x30000000" "0x30000040" "0x30000040" "0x30000042"
        "snd (rr_init 0x30000040 2 demo_ring)"]
    by (auto simp: quiet_env_def ref_env_def demo_def demo_state_def rr_init_def)
qed

section \<open>The FIFO\<close>

text \<open>C19: sending from an interrupt appends the item's bytes to the queue and wakes the first waiting
  receiver when there is room for a whole item; otherwise it is refused and the queue keeps its contents.\<close>

theorem queue_send_from_isr_appends:
  assumes "ipc_env E bits ok storage contents" and "kinv bits s L" and "queue_handle_ok h s" and "item \<noteq> NULL"
    and "L (QueueRecv h) \<noteq> None" and "q_ring_buf (queues s h) = rb" and "q_item_size (queues s h) = n" and "ok rb"
    and "region item (unat n) \<inter> storage rb = {}"
  shows "\<exists>s'. if unat n \<le> unat (ring_buffer_capacity E rb) - length (contents rb (mem s))
    then sertos_queue_send_from_isr E h item out s = Some (SERTOS_STATUS_OK, s') \<and>
      ok (q_ring_buf (queues s' h)) \<and>
      contents (q_ring_buf (queues s' h)) (mem s') = contents rb (mem s) @ bytes_at (mem s) item (unat n) \<and>
      (\<exists>a L'. kinv bits s' L' \<and> wakes_first (QueueRecv h) (tcbs s) L a (tcbs s') L')
    else sertos_queue_send_from_isr E h item out s = Some (SERTOS_STATUS_ERROR_RESOURCE_BUSY, s') \<and>
      kinv bits s' L \<and> queues s' = queues s \<and> mem s' = mem s"
  by (rule ipc_env.send_from_isr_refines [OF assms])

lemma region_two: "region a (unat (2 :: size_t)) = {a, a + 1}"
proof -
  have "unat (2 :: size_t) = Suc (Suc 0)" by simp
  then show ?thesis by (simp only: region_def) (simp add: lessThan_Suc insert_commute)
qed

lemma demo_queue:
  "queue_handle_ok 0x600 demo" "lists_of demo_layout (QueueRecv 0x600) \<noteq> None" "lists_of demo_layout (QueueSend 0x600) \<noteq> None"
  "q_ring_buf (queues demo 0x600) = demo_ring" "q_item_size (queues demo 0x600) = 2" "rr_ok demo_ring"
  "region 0x2000 (unat (2 :: size_t)) \<inter> rr_storage demo_ring = {}" "rr_contents demo_ring m = []"
proof -
  show "rr_ok demo_ring"
    by (auto simp: rr_ok_def demo_ring_def rr_count_def mask_eq_exp_minus_1 intro: exI [of _ 3])
  show "region 0x2000 (unat (2 :: size_t)) \<inter> rr_storage demo_ring = {}"
    unfolding region_two by (simp add: rr_storage_def demo_ring_def word_le_nat_alt)
qed (simp_all add: demo_def demo_state_def queue_handle_ok_def lists_of_def demo_ring_def rr_contents_def rr_count_def)

theorem queue_send_from_isr_appends_witness:
  "\<exists>s'. sertos_queue_send_from_isr quiet_env 0x600 0x2000 0 demo = Some (SERTOS_STATUS_OK, s') \<and>
     rr_contents (q_ring_buf (queues s' 0x600)) (mem s') = [0, 0]"
proof -
  have "bytes_at (mem demo) 0x2000 2 = [0, 0]"
    by (simp add: bytes_at_def demo_def demo_state_def numeral_2_eq_2)
  moreover have "ring_buffer_capacity quiet_env demo_ring = 7" by (simp add: quiet_env_def ref_env_def demo_ring_def)
  ultimately show ?thesis
    using queue_send_from_isr_appends [OF quiet_ipc_env demo_inv demo_queue(1) _ demo_queue(2,4,5,6,7), of 0]
    by (auto simp: demo_queue(8))
qed

text \<open>Receiving from an interrupt delivers the oldest item, byte for byte, removes exactly it and wakes the
  first waiting sender; a queue without a whole item is left alone.\<close>

theorem queue_receive_from_isr_pops:
  assumes "ipc_env E bits ok storage contents" and "kinv bits s L" and "queue_handle_ok h s" and "item \<noteq> NULL"
    and "L (QueueSend h) \<noteq> None" and "q_ring_buf (queues s h) = rb" and "q_item_size (queues s h) = n" and "ok rb"
    and "region item (unat n) \<inter> storage rb = {}"
  shows "\<exists>s'. if unat n \<le> length (contents rb (mem s))
    then sertos_queue_receive_from_isr E h item out s = Some (SERTOS_STATUS_OK, s') \<and>
      ok (q_ring_buf (queues s' h)) \<and> bytes_at (mem s') item (unat n) = take (unat n) (contents rb (mem s)) \<and>
      contents (q_ring_buf (queues s' h)) (mem s') = drop (unat n) (contents rb (mem s)) \<and>
      (\<exists>a L'. kinv bits s' L' \<and> wakes_first (QueueSend h) (tcbs s) L a (tcbs s') L')
    else sertos_queue_receive_from_isr E h item out s = Some (SERTOS_STATUS_ERROR_RESOURCE_BUSY, s') \<and>
      kinv bits s' L \<and> queues s' = queues s \<and> mem s' = mem s"
  by (rule ipc_env.receive_from_isr_refines [OF assms])

definition full_ring :: ref_ring where
  "full_ring = \<lparr>rr_buf = 0x1000, rr_mask = 7, rr_head = 2, rr_tail = 0\<rparr>"

definition full_demo :: ref_state where
  "full_demo = demo\<lparr>mem := (\<lambda>a. ucast a), queues := (\<lambda>a. (queues demo a)\<lparr>q_ring_buf := full_ring\<rparr>)\<rparr>"

lemma full_queue:
  "kinv ref_bits full_demo (lists_of demo_layout)" "queue_handle_ok 0x600 full_demo"
  "q_ring_buf (queues full_demo 0x600) = full_ring" "q_item_size (queues full_demo 0x600) = 2" "rr_ok full_ring"
  "region 0x2000 (unat (2 :: size_t)) \<inter> rr_storage full_ring = {}" "rr_contents full_ring (mem full_demo) = [0, 1]"
proof -
  show "kinv ref_bits full_demo (lists_of demo_layout)" using demo_inv by (simp add: full_demo_def)
  show "rr_ok full_ring"
    by (auto simp: rr_ok_def full_ring_def rr_count_def mask_eq_exp_minus_1 word_le_nat_alt intro: exI [of _ 3])
  show "region 0x2000 (unat (2 :: size_t)) \<inter> rr_storage full_ring = {}"
    unfolding region_two by (simp add: rr_storage_def full_ring_def word_le_nat_alt)
  show "rr_contents full_ring (mem full_demo) = [0, 1]"
    by (simp add: full_ring_def rr_contents_def rr_count_def full_demo_def upt_conv_Cons)
qed (simp_all add: full_demo_def demo_def demo_state_def queue_handle_ok_def)

theorem queue_receive_from_isr_pops_witness:
  "\<exists>s'. sertos_queue_receive_from_isr quiet_env 0x600 0x2000 0 full_demo = Some (SERTOS_STATUS_OK, s') \<and>
     bytes_at (mem s') 0x2000 2 = [0, 1] \<and> rr_contents (q_ring_buf (queues s' 0x600)) (mem s') = []"
  using queue_receive_from_isr_pops [OF quiet_ipc_env full_queue(1,2) _ demo_queue(3) full_queue(3-6), of 0]
  by (auto simp: full_queue(7))


text \<open>C20: a task's send with room appends at once, whatever the timeout, and reschedules if it woke a
  receiver; on a full queue it fails without effect when it must not wait, and otherwise parks the caller on the
  queue's senders. When the caller is resumed, a send with a finite timeout that finds the delay and the wait list of the caller
  cleared, as every wake-up leaves them, reports a timeout without looking at the queue; otherwise the caller checks for room again.\<close>

theorem queue_send_correct:
  assumes "ipc_env E bits ok storage contents" and "kinv bits s L" and "queue_handle_ok h s" and "item \<noteq> NULL"
    and "L (QueueRecv h) \<noteq> None" and "L (QueueSend h) \<noteq> None" and "q_ring_buf (queues s h) = rb"
    and "q_item_size (queues s h) = n" and "ok rb" and "region item (unat n) \<inter> storage rb = {}"
    and "s_is_running s" and "sertos_current_tcb s = c" and "on_list L (ReadyQ p) (StateNode c)"
  shows "\<exists>s'. if unat n \<le> unat (ring_buffer_capacity E rb) - length (contents rb (mem s))
    then (\<exists>a L'. sertos_queue_send E h item timeout s = map_option (Pair SERTOS_STATUS_OK) (reschedule_if_unblocked E a s') \<and>
      kinv bits s' L' \<and> wakes_first (QueueRecv h) (tcbs s) L a (tcbs s') L' \<and>
      contents (q_ring_buf (queues s' h)) (mem s') = contents rb (mem s) @ bytes_at (mem s) item (unat n))
    else if timeout = SERTOS_NO_WAIT
    then sertos_queue_send E h item timeout s = Some (SERTOS_STATUS_ERROR_TIMEOUT, s') \<and> kinv bits s' L \<and>
      queues s' = queues s \<and> mem s' = mem s
    else sertos_queue_send E h item timeout s = Option.bind (sertos_scheduler_switch_context E s')
        (\<lambda>s''. if timeout \<noteq> SERTOS_WAIT_FOREVER \<and> tcb_delay_ticks (tcbs s'' c) = 0 \<and> tcb_wait_list (tcbs s'' c) = None
               then Some (SERTOS_STATUS_ERROR_TIMEOUT, s'')
               else (case enter_critical E s'' of (st, s3) \<Rightarrow> queue_send_loop E h item timeout st s3)) \<and>
      kinv bits s' (blocked_lists (tcbs s) c p (Some (QueueSend h)) (timeout \<noteq> SERTOS_WAIT_FOREVER) L) \<and>
      queues s' = queues s \<and> mem s' = mem s"
proof (cases "queue_free_bytes E rb < n")
  case False
  note room = ipc_env.room_iff [OF assms(1,9), of n "mem s", THEN iffD2, OF False]
  obtain a s' L' where "sertos_queue_send E h item timeout s =
      map_option (Pair SERTOS_STATUS_OK) (reschedule_if_unblocked E a s')" "kinv bits s' L'"
    "wakes_first (QueueRecv h) (tcbs s) L a (tcbs s') L'"
    "contents (q_ring_buf (queues s' h)) (mem s') = contents rb (mem s) @ bytes_at (mem s) item (unat n)"
    using ipc_env.send_room_refines [OF assms(1-5,7-10) False] by blast
  then show ?thesis unfolding if_P [OF room] by blast
next
  case True
  have full: "\<not> unat n \<le> unat (ring_buffer_capacity E rb) - length (contents rb (mem s))"
    using ipc_env.room_iff [OF assms(1,9), of n "mem s"] True by blast
  have ff: "queue_free_bytes E (q_ring_buf (queues s h)) < q_item_size (queues s h)" using True assms(7,8) by simp
  show ?thesis
  proof (cases "timeout = SERTOS_NO_WAIT")
    case False
    then have t: "timeout \<noteq> 0" by (simp add: SERTOS_NO_WAIT_def)
    show ?thesis unfolding if_not_P [OF full] if_not_P [OF False]
      by (rule ipc_env.send_full_refines [OF assms(1-4) ff assms(11-13,6) t]) blast
  next
    case nowait: True
    let ?s1 = "s\<lparr>port := snd (sertos_port_enter_critical E (port s))\<rparr>"
    have "sertos_queue_send E h item timeout s =
        Some (SERTOS_STATUS_ERROR_TIMEOUT, exit_critical E (fst (sertos_port_enter_critical E (port s))) ?s1)"
      using assms(3,4) ff nowait
      by (simp add: sertos_queue_send_def enter_critical_eq queue_handle_ok_def queue_send_loop.simps)
    then show ?thesis unfolding if_not_P [OF full] if_P [OF nowait] using assms(2) by simp
  qed
qed

theorem queue_send_correct_witness:
  "\<exists>a s' L'. sertos_queue_send quiet_env 0x600 0x2000 10 demo =
       map_option (Pair SERTOS_STATUS_OK) (reschedule_if_unblocked quiet_env a s') \<and> kinv ref_bits s' L' \<and>
     rr_contents (q_ring_buf (queues s' 0x600)) (mem s') = bytes_at (mem demo) 0x2000 2"
proof -
  have "ring_buffer_capacity quiet_env demo_ring = 7" by (simp add: quiet_env_def ref_env_def demo_ring_def)
  then show ?thesis
    using queue_send_correct [OF quiet_ipc_env demo_inv demo_queue(1) _ demo_queue(2,3,4,5,6,7) demo_facts(3,2,7), of 10]
    by (auto simp: demo_queue(8))
qed

text \<open>C21: if the queue holds a whole item, a peek copies the oldest item to the caller's buffer, whatever the timeout, and leaves the queue and its contents
  as they are; a receive from an interrupt handler, before or after the peek, succeeds, delivers the same bytes to its own buffer and removes exactly them. (Both buffers lie
  outside the storage of the ring.)\<close>

theorem queue_peek_keeps:
  assumes "ipc_env E bits ok storage contents" and "kinv bits s L" and "queue_handle_ok h s" and "item \<noteq> NULL"
    and "q_ring_buf (queues s h) = rb" and "q_item_size (queues s h) = n" and "ok rb"
    and "region item (unat n) \<inter> storage rb = {}" and "unat n \<le> length (contents rb (mem s))"
    and "L (QueueSend h) \<noteq> None" and "dest \<noteq> NULL" and "region dest (unat n) \<inter> storage rb = {}"
  shows "\<exists>s'. sertos_queue_peek E h item timeout s = Some (SERTOS_STATUS_OK, s') \<and> kinv bits s' L \<and>
    bytes_at (mem s') item (unat n) = take (unat n) (contents rb (mem s)) \<and>
    queues s' = queues s \<and> contents rb (mem s') = contents rb (mem s) \<and>
    (\<forall>x \<in> {s, s'}. \<exists>r. sertos_queue_receive_from_isr E h dest out x = Some (SERTOS_STATUS_OK, r) \<and>
      bytes_at (mem r) dest (unat n) = bytes_at (mem s') item (unat n) \<and>
      contents (q_ring_buf (queues r h)) (mem r) = drop (unat n) (contents rb (mem s')))"
proof -
  obtain s' where s': "sertos_queue_peek E h item timeout s = Some (SERTOS_STATUS_OK, s')" "kinv bits s' L"
    "bytes_at (mem s') item (unat n) = take (unat n) (contents rb (mem s))"
    "queues s' = queues s" "contents rb (mem s') = contents rb (mem s)"
    by (rule ipc_env.peek_refines [OF assms(1-9)])
  have "\<exists>r. sertos_queue_receive_from_isr E h dest out x = Some (SERTOS_STATUS_OK, r) \<and>
      bytes_at (mem r) dest (unat n) = take (unat n) (contents rb (mem s)) \<and>
      contents (q_ring_buf (queues r h)) (mem r) = drop (unat n) (contents rb (mem s))"
    if x: "kinv bits x L" "queues x = queues s" "contents rb (mem x) = contents rb (mem s)" for x
  proof -
    have "queue_handle_ok h x" "q_ring_buf (queues x h) = rb" "q_item_size (queues x h) = n"
      using assms(3,5,6) x(2) by (simp_all add: queue_handle_ok_def)
    from ipc_env.receive_from_isr_refines [OF assms(1) x(1) this(1) assms(11,10) this(2,3) assms(7,12), of out]
    show ?thesis using assms(9) unfolding x(3) by auto
  qed
  then show ?thesis using s' assms(2) by (intro exI [of _ s']) simp
qed

theorem queue_peek_keeps_witness:
  "\<exists>s' r. sertos_queue_peek quiet_env 0x600 0x2000 0 full_demo = Some (SERTOS_STATUS_OK, s') \<and>
     bytes_at (mem s') 0x2000 2 = [0, 1] \<and> rr_contents full_ring (mem s') = [0, 1] \<and>
     sertos_queue_receive_from_isr quiet_env 0x600 0x2000 0 s' = Some (SERTOS_STATUS_OK, r) \<and> bytes_at (mem r) 0x2000 2 = [0, 1]"
  using queue_peek_keeps [OF quiet_ipc_env full_queue(1,2) _ full_queue(3-6) _ demo_queue(3) _ full_queue(6), of 0 0]
  by (auto simp: full_queue(7))

end
