(* ===== verification/Sertos_Stream.thy ===== *)
theory Sertos_Stream
  imports Sertos_Queue
begin

text \<open>
  Stream buffers (\<open>src/sertos_stream_buffer.c\<close>): a byte stream over the \<open>ring_buffer\<close> submodule in
  which receivers wait for a trigger level. Partial transfers are allowed, so send and receive
  return byte counts.
\<close>

definition upd_stream ::
  "addr \<Rightarrow> ('r stream_buffer \<Rightarrow> 'r stream_buffer) \<Rightarrow> ('b, 'r, 'm, 'p) kstate \<Rightarrow> ('b, 'r, 'm, 'p) kstate" where
  "upd_stream a f s = s\<lparr>streams := (streams s)(a := f (streams s a))\<rparr>"

section \<open>Helpers\<close>

definition is_valid_handle :: "addr \<Rightarrow> ('b, 'r, 'm, 'p) kstate \<Rightarrow> bool" where
  "is_valid_handle handle s =
     (if handle = NULL then False else sb_magic (streams s handle) = SERTOS_STREAM_BUFFER_MAGIC_WORD)"

definition is_send_params_valid :: "addr \<Rightarrow> addr \<Rightarrow> size_t \<Rightarrow> ('b, 'r, 'm, 'p) kstate \<Rightarrow> bool" where
  "is_send_params_valid handle data len s =
     (if \<not> is_valid_handle handle s then False else data \<noteq> NULL \<and> 0 < len)"

definition is_recv_params_valid :: "addr \<Rightarrow> addr \<Rightarrow> size_t \<Rightarrow> ('b, 'r, 'm, 'p) kstate \<Rightarrow> bool" where
  "is_recv_params_valid handle buffer max_length s =
     (if \<not> is_valid_handle handle s then False else buffer \<noteq> NULL \<and> 0 < max_length)"

definition notify_unblocked_task ::
  "('b, 'r, 'm, 'p) env \<Rightarrow> addr \<Rightarrow> ('b, 'r, 'm, 'p) kstate \<Rightarrow> ('b, 'r, 'm, 'p) kstate option" where
  "notify_unblocked_task E unblocked s =
     (if unblocked \<noteq> NULL \<and> sertos_scheduler_is_running s then sertos_scheduler_reschedule E s else Some s)"

definition update_higher_prio_woken ::
  "addr \<Rightarrow> addr \<Rightarrow> ('b, 'r, 'm, 'p) kstate \<Rightarrow> ('b, 'r, 'm, 'p) kstate" where
  "update_higher_prio_woken unblocked out_higher_prio_woken s =
     (if unblocked \<noteq> NULL \<and> out_higher_prio_woken \<noteq> NULL
      then let cur = sertos_scheduler_get_current_tcb s
           in if cur \<noteq> NULL \<and> tcb_priority (tcbs s cur) < tcb_priority (tcbs s unblocked)
              then set_flag out_higher_prio_woken True s else s
      else s)"

definition stream_buffer_free_bytes :: "('b, 'r, 'm, 'p) env \<Rightarrow> 'r \<Rightarrow> size_t" where
  "stream_buffer_free_bytes E rb =
     (let cap = ring_buffer_capacity E rb; c = ring_buffer_count E rb in if c < cap then cap - c else 0)"

section \<open>Creation and deletion\<close>

definition sertos_stream_buffer_create_static ::
  "('b, 'r, 'm, 'p) env \<Rightarrow> addr \<Rightarrow> addr \<Rightarrow> size_t \<Rightarrow> size_t \<Rightarrow> addr \<Rightarrow> ('b, 'r, 'm, 'p) kstate \<Rightarrow>
   SertosStatus \<times> ('b, 'r, 'm, 'p) kstate" where
  "sertos_stream_buffer_create_static E stream_buf storage_buffer storage_size trigger_level_bytes out_handle s =
     (if stream_buf = NULL \<or> storage_buffer = NULL \<or> out_handle = NULL then (SERTOS_STATUS_ERROR_NULL_PTR, s)
      else if storage_size < 2 then (SERTOS_STATUS_ERROR_INVALID_PARAM, s)
      else let (ok, rb) = ring_buffer_init E storage_buffer storage_size (sb_ring_buf (streams s stream_buf));
               s1 = upd_stream stream_buf (\<lambda>b. b\<lparr>sb_ring_buf := rb\<rparr>) s
           in if \<not> ok then (SERTOS_STATUS_ERROR_INVALID_PARAM, s1)
              else let trigger = (if trigger_level_bytes = 0 then 1 else trigger_level_bytes)
                   in if ring_buffer_capacity E rb < trigger then (SERTOS_STATUS_ERROR_INVALID_PARAM, s1)
                      else let s2 = upd_stream stream_buf (\<lambda>b. b\<lparr>sb_trigger_level_bytes := trigger,
                                      sb_storage_buffer := storage_buffer\<rparr>) s1;
                               s3 = upd_heap (linked_list_init E (StreamSend stream_buf)) s2;
                               s4 = upd_heap (linked_list_init E (StreamRecv stream_buf)) s3;
                               s5 = upd_stream stream_buf (\<lambda>b. b\<lparr>sb_is_statically_allocated := True,
                                      sb_magic := SERTOS_STREAM_BUFFER_MAGIC_WORD\<rparr>) s4
                           in (SERTOS_STATUS_OK, s5\<lparr>ptr_cells := (ptr_cells s5)(out_handle := stream_buf)\<rparr>))"

definition sertos_stream_buffer_create ::
  "('b, 'r, 'm, 'p) env \<Rightarrow> size_t \<Rightarrow> size_t \<Rightarrow> addr \<Rightarrow> ('b, 'r, 'm, 'p) kstate \<Rightarrow>
   (SertosStatus \<times> ('b, 'r, 'm, 'p) kstate) option" where
  "sertos_stream_buffer_create E buffer_size trigger_level_bytes out_handle s =
     (if out_handle = NULL then Some (SERTOS_STATUS_ERROR_NULL_PTR, s)
      else if buffer_size = 0 then Some (SERTOS_STATUS_ERROR_INVALID_PARAM, s)
      else do {
        let needed_bytes = buffer_size + 1;
        power_capacity \<leftarrow> next_power_of_two needed_bytes;
        let (stream_buf, m1) = memory_pool_malloc E (sizeof_stream_buffer E) (pool s);
        let s1 = s\<lparr>pool := m1\<rparr>;
        if stream_buf = NULL then Some (SERTOS_STATUS_ERROR_NO_MEMORY, s1)
        else let (storage, m2) = memory_pool_malloc E power_capacity (pool s1);
                 s2 = s1\<lparr>pool := m2\<rparr>
             in if storage = NULL
                then Some (SERTOS_STATUS_ERROR_NO_MEMORY, s2\<lparr>pool := memory_pool_free E stream_buf (pool s2)\<rparr>)
                else let (status, s3) = sertos_stream_buffer_create_static E stream_buf storage power_capacity
                                          trigger_level_bytes out_handle s2
                     in if status \<noteq> SERTOS_STATUS_OK
                        then Some (status, s3\<lparr>pool := memory_pool_free E stream_buf (memory_pool_free E storage (pool s3))\<rparr>)
                        else Some (SERTOS_STATUS_OK, upd_stream stream_buf (\<lambda>b. b\<lparr>sb_is_statically_allocated := False\<rparr>) s3)
      })"

definition sertos_stream_buffer_delete ::
  "('b, 'r, 'm, 'p) env \<Rightarrow> addr \<Rightarrow> ('b, 'r, 'm, 'p) kstate \<Rightarrow> (SertosStatus \<times> ('b, 'r, 'm, 'p) kstate) option" where
  "sertos_stream_buffer_delete E handle s =
     (if \<not> is_valid_handle handle s then Some (SERTOS_STATUS_ERROR_INVALID_PARAM, s)
      else do {
        let (crit_status, s1) = enter_critical E s;
        let s2 = upd_stream handle (\<lambda>b. b\<lparr>sb_magic := 0\<rparr>) s1;
        s3 \<leftarrow> unblock_all E (StreamSend handle) s2;
        s4 \<leftarrow> unblock_all E (StreamRecv handle) s3;
        let s5 = (if \<not> sb_is_statically_allocated (streams s4 handle)
                  then s4\<lparr>pool := memory_pool_free E handle
                           (memory_pool_free E (sb_storage_buffer (streams s4 handle)) (pool s4))\<rparr> else s4);
        s6 \<leftarrow> reschedule_if_running E (exit_critical E crit_status s5);
        Some (SERTOS_STATUS_OK, s6)
      })"

section \<open>Send and receive\<close>

definition stream_write ::
  "('b, 'r, 'm, 'p) env \<Rightarrow> addr \<Rightarrow> addr \<Rightarrow> size_t \<Rightarrow> ('b, 'r, 'm, 'p) kstate \<Rightarrow> size_t \<times> ('b, 'r, 'm, 'p) kstate" where
  "stream_write E handle data len s =
     (let (n, rb, m) = ring_buffer_write E data len (sb_ring_buf (streams s handle)) (mem s)
      in (n, (upd_stream handle (\<lambda>b. b\<lparr>sb_ring_buf := rb\<rparr>) s)\<lparr>mem := m\<rparr>))"

definition stream_read ::
  "('b, 'r, 'm, 'p) env \<Rightarrow> addr \<Rightarrow> addr \<Rightarrow> size_t \<Rightarrow> ('b, 'r, 'm, 'p) kstate \<Rightarrow> size_t \<times> ('b, 'r, 'm, 'p) kstate" where
  "stream_read E handle buffer max_length s =
     (let (n, rb, m) = ring_buffer_read E buffer max_length (sb_ring_buf (streams s handle)) (mem s)
      in (n, (upd_stream handle (\<lambda>b. b\<lparr>sb_ring_buf := rb\<rparr>) s)\<lparr>mem := m\<rparr>))"

partial_function (option) stream_send_loop ::
  "('b, 'r, 'm, 'p) env \<Rightarrow> addr \<Rightarrow> addr \<Rightarrow> size_t \<Rightarrow> SertosTick \<Rightarrow> 32 word \<Rightarrow> ('b, 'r, 'm, 'p) kstate \<Rightarrow>
   (size_t \<times> ('b, 'r, 'm, 'p) kstate) option" where
  "stream_send_loop E handle data len timeout crit_status s =
     (if stream_buffer_free_bytes E (sb_ring_buf (streams s handle)) = 0
      then if timeout = SERTOS_NO_WAIT then Some (0, exit_critical E crit_status s)
           else do {
             (status, s1) \<leftarrow> sertos_scheduler_wait_list_block E (Some (StreamSend handle)) timeout
                              (exit_critical E crit_status s);
             let (crit_status', s2) = enter_critical E s1;
             if status \<noteq> SERTOS_STATUS_OK \<or> \<not> is_valid_handle handle s2
             then Some (0, exit_critical E crit_status' s2)
             else stream_send_loop E handle data len timeout crit_status' s2
           }
      else do {
        let (bytes_sent, s1) = stream_write E handle data len s;
        (unblocked, s2) \<leftarrow>
          (if sb_trigger_level_bytes (streams s1 handle) \<le> ring_buffer_count E (sb_ring_buf (streams s1 handle))
           then sertos_scheduler_wait_list_unblock_highest E (Some (StreamRecv handle)) s1 else Some (NULL, s1));
        s3 \<leftarrow> notify_unblocked_task E unblocked (exit_critical E crit_status s2);
        Some (bytes_sent, s3)
      })"

definition sertos_stream_buffer_send ::
  "('b, 'r, 'm, 'p) env \<Rightarrow> addr \<Rightarrow> addr \<Rightarrow> size_t \<Rightarrow> SertosTick \<Rightarrow> ('b, 'r, 'm, 'p) kstate \<Rightarrow>
   (size_t \<times> ('b, 'r, 'm, 'p) kstate) option" where
  "sertos_stream_buffer_send E handle data len timeout s =
     (if \<not> is_send_params_valid handle data len s then Some (0, s)
      else let (crit_status, s1) = enter_critical E s in stream_send_loop E handle data len timeout crit_status s1)"

definition stream_take ::
  "('b, 'r, 'm, 'p) env \<Rightarrow> addr \<Rightarrow> addr \<Rightarrow> size_t \<Rightarrow> 32 word \<Rightarrow> ('b, 'r, 'm, 'p) kstate \<Rightarrow>
   (size_t \<times> ('b, 'r, 'm, 'p) kstate) option" where
  "stream_take E handle buffer max_length crit_status s = do {
     let (bytes_received, s1) = stream_read E handle buffer max_length s;
     (unblocked, s2) \<leftarrow>
       (if 0 < bytes_received
        then sertos_scheduler_wait_list_unblock_highest E (Some (StreamSend handle)) s1 else Some (NULL, s1));
     s3 \<leftarrow> notify_unblocked_task E unblocked (exit_critical E crit_status s2);
     Some (bytes_received, s3)
   }"

partial_function (option) stream_receive_loop ::
  "('b, 'r, 'm, 'p) env \<Rightarrow> addr \<Rightarrow> addr \<Rightarrow> size_t \<Rightarrow> SertosTick \<Rightarrow> 32 word \<Rightarrow> ('b, 'r, 'm, 'p) kstate \<Rightarrow>
   (size_t \<times> ('b, 'r, 'm, 'p) kstate) option" where
  "stream_receive_loop E handle buffer max_length timeout crit_status s =
     (if ring_buffer_count E (sb_ring_buf (streams s handle)) < sb_trigger_level_bytes (streams s handle) \<and>
         timeout \<noteq> SERTOS_NO_WAIT
      then do {
        (status, s1) \<leftarrow> sertos_scheduler_wait_list_block E (Some (StreamRecv handle)) timeout
                         (exit_critical E crit_status s);
        let (crit_status', s2) = enter_critical E s1;
        if \<not> is_valid_handle handle s2 then Some (0, exit_critical E crit_status' s2)
        else if status \<noteq> SERTOS_STATUS_OK then stream_take E handle buffer max_length crit_status' s2
        else stream_receive_loop E handle buffer max_length timeout crit_status' s2
      }
      else stream_take E handle buffer max_length crit_status s)"

definition sertos_stream_buffer_receive ::
  "('b, 'r, 'm, 'p) env \<Rightarrow> addr \<Rightarrow> addr \<Rightarrow> size_t \<Rightarrow> SertosTick \<Rightarrow> ('b, 'r, 'm, 'p) kstate \<Rightarrow>
   (size_t \<times> ('b, 'r, 'm, 'p) kstate) option" where
  "sertos_stream_buffer_receive E handle buffer max_length timeout s =
     (if \<not> is_recv_params_valid handle buffer max_length s then Some (0, s)
      else let (crit_status, s1) = enter_critical E s
           in stream_receive_loop E handle buffer max_length timeout crit_status s1)"

section \<open>Calls from interrupts\<close>

definition sertos_stream_buffer_send_from_isr ::
  "('b, 'r, 'm, 'p) env \<Rightarrow> addr \<Rightarrow> addr \<Rightarrow> size_t \<Rightarrow> addr \<Rightarrow> ('b, 'r, 'm, 'p) kstate \<Rightarrow>
   (size_t \<times> ('b, 'r, 'm, 'p) kstate) option" where
  "sertos_stream_buffer_send_from_isr E handle data len out_higher_prio_woken s =
     (let s0 = set_flag out_higher_prio_woken False s
      in if \<not> is_send_params_valid handle data len s0 then Some (0, s0)
         else do {
           let (crit_status, s1) = enter_critical E s0;
           let (bytes_sent, s2) = stream_write E handle data len s1;
           if 0 < bytes_sent \<and>
              sb_trigger_level_bytes (streams s2 handle) \<le> ring_buffer_count E (sb_ring_buf (streams s2 handle))
           then do {
             (unblocked, s3) \<leftarrow> sertos_scheduler_wait_list_unblock_highest E (Some (StreamRecv handle)) s2;
             Some (bytes_sent, exit_critical E crit_status (update_higher_prio_woken unblocked out_higher_prio_woken s3))
           }
           else Some (bytes_sent, exit_critical E crit_status s2)
         })"

definition sertos_stream_buffer_receive_from_isr ::
  "('b, 'r, 'm, 'p) env \<Rightarrow> addr \<Rightarrow> addr \<Rightarrow> size_t \<Rightarrow> addr \<Rightarrow> ('b, 'r, 'm, 'p) kstate \<Rightarrow>
   (size_t \<times> ('b, 'r, 'm, 'p) kstate) option" where
  "sertos_stream_buffer_receive_from_isr E handle buffer max_length out_higher_prio_woken s =
     (let s0 = set_flag out_higher_prio_woken False s
      in if \<not> is_recv_params_valid handle buffer max_length s0 then Some (0, s0)
         else do {
           let (crit_status, s1) = enter_critical E s0;
           let (bytes_recv, s2) = stream_read E handle buffer max_length s1;
           if 0 < bytes_recv
           then do {
             (unblocked, s3) \<leftarrow> sertos_scheduler_wait_list_unblock_highest E (Some (StreamSend handle)) s2;
             Some (bytes_recv, exit_critical E crit_status (update_higher_prio_woken unblocked out_higher_prio_woken s3))
           }
           else Some (bytes_recv, exit_critical E crit_status s2)
         })"

section \<open>Trigger level, reset and queries\<close>

definition sertos_stream_buffer_set_trigger_level ::
  "('b, 'r, 'm, 'p) env \<Rightarrow> addr \<Rightarrow> size_t \<Rightarrow> ('b, 'r, 'm, 'p) kstate \<Rightarrow>
   (SertosStatus \<times> ('b, 'r, 'm, 'p) kstate) option" where
  "sertos_stream_buffer_set_trigger_level E handle trigger_level_bytes s =
     (if \<not> is_valid_handle handle s then Some (SERTOS_STATUS_ERROR_INVALID_PARAM, s)
      else let trigger = (if trigger_level_bytes = 0 then 1 else trigger_level_bytes)
           in if ring_buffer_capacity E (sb_ring_buf (streams s handle)) < trigger
              then Some (SERTOS_STATUS_ERROR_INVALID_PARAM, s)
              else do {
                let (crit_status, s1) = enter_critical E s;
                let s2 = upd_stream handle (\<lambda>b. b\<lparr>sb_trigger_level_bytes := trigger\<rparr>) s1;
                (unblocked, s3) \<leftarrow>
                  (if trigger \<le> ring_buffer_count E (sb_ring_buf (streams s2 handle))
                   then sertos_scheduler_wait_list_unblock_highest E (Some (StreamRecv handle)) s2 else Some (NULL, s2));
                s4 \<leftarrow> notify_unblocked_task E unblocked (exit_critical E crit_status s3);
                Some (SERTOS_STATUS_OK, s4)
              })"

definition sertos_stream_buffer_reset ::
  "('b, 'r, 'm, 'p) env \<Rightarrow> addr \<Rightarrow> ('b, 'r, 'm, 'p) kstate \<Rightarrow> (SertosStatus \<times> ('b, 'r, 'm, 'p) kstate) option" where
  "sertos_stream_buffer_reset E handle s =
     (if \<not> is_valid_handle handle s then Some (SERTOS_STATUS_ERROR_INVALID_PARAM, s)
      else do {
        let (crit_status, s1) = enter_critical E s;
        let s2 = upd_stream handle (\<lambda>b. b\<lparr>sb_ring_buf := ring_buffer_clear E (sb_ring_buf b)\<rparr>) s1;
        s3 \<leftarrow> unblock_all E (StreamSend handle) s2;
        s4 \<leftarrow> reschedule_if_running E (exit_critical E crit_status s3);
        Some (SERTOS_STATUS_OK, s4)
      })"

definition sertos_stream_buffer_bytes_available ::
  "('b, 'r, 'm, 'p) env \<Rightarrow> addr \<Rightarrow> ('b, 'r, 'm, 'p) kstate \<Rightarrow> size_t" where
  "sertos_stream_buffer_bytes_available E handle s =
     (if \<not> is_valid_handle handle s then 0 else ring_buffer_count E (sb_ring_buf (streams s handle)))"

definition sertos_stream_buffer_spaces_available ::
  "('b, 'r, 'm, 'p) env \<Rightarrow> addr \<Rightarrow> ('b, 'r, 'm, 'p) kstate \<Rightarrow> size_t" where
  "sertos_stream_buffer_spaces_available E handle s =
     (if \<not> is_valid_handle handle s then 0 else stream_buffer_free_bytes E (sb_ring_buf (streams s handle)))"

definition sertos_stream_buffer_is_empty ::
  "('b, 'r, 'm, 'p) env \<Rightarrow> addr \<Rightarrow> ('b, 'r, 'm, 'p) kstate \<Rightarrow> bool" where
  "sertos_stream_buffer_is_empty E handle s =
     (if \<not> is_valid_handle handle s then True else ring_buffer_is_empty E (sb_ring_buf (streams s handle)))"

definition sertos_stream_buffer_is_full ::
  "('b, 'r, 'm, 'p) env \<Rightarrow> addr \<Rightarrow> ('b, 'r, 'm, 'p) kstate \<Rightarrow> bool" where
  "sertos_stream_buffer_is_full E handle s =
     (if \<not> is_valid_handle handle s then False else ring_buffer_is_full E (sb_ring_buf (streams s handle)))"

section \<open>Lemmas\<close>

lemma upd_stream_simps [simp]:
  "kinv bits (upd_stream a f s) L \<longleftrightarrow> kinv bits s L" "tcbs (upd_stream a f s) = tcbs s"
  "streams (upd_stream a f s) = (streams s)(a := f (streams s a))" "mem (upd_stream a f s) = mem s"
  "port (upd_stream a f s) = port s" "sertos_current_tcb (upd_stream a f s) = sertos_current_tcb s"
  by (simp_all add: upd_stream_def)

lemma update_higher_prio_woken_simps [simp]:
  "kinv bits (update_higher_prio_woken a out s) L \<longleftrightarrow> kinv bits s L" "tcbs (update_higher_prio_woken a out s) = tcbs s"
  "streams (update_higher_prio_woken a out s) = streams s" "mem (update_higher_prio_woken a out s) = mem s"
  by (simp_all add: update_higher_prio_woken_def Let_def)

lemma valid_handle_set_flag [simp]: "is_valid_handle h (set_flag out v s) = is_valid_handle h s"
  by (simp add: is_valid_handle_def)

context ipc_env
begin

lemma stream_write_refines:
  assumes q: "sb_ring_buf (streams s h) = rb" "mem s = m0" and rb: "ok rb" and disj: "region data (unat len) \<inter> storage rb = {}"
  obtains k rb' m where "stream_write E h data len s = (k, (upd_stream h (\<lambda>b. b\<lparr>sb_ring_buf := rb'\<rparr>) s)\<lparr>mem := m\<rparr>)"
    and "unat k = min (unat len) (unat (ring_buffer_capacity E rb) - length (contents rb m0))"
    and "ok rb'" and "contents rb' m = contents rb m0 @ bytes_at m0 data (unat k)"
proof -
  obtain k rb' m where w: "ring_buffer_write E data len rb m0 = (k, rb', m)" by (metis prod_cases3)
  note wok = rg.write_ok [OF rb disj w]
  have "stream_write E h data len s = (k, (upd_stream h (\<lambda>b. b\<lparr>sb_ring_buf := rb'\<rparr>) s)\<lparr>mem := m\<rparr>)"
    using w q by (simp add: stream_write_def)
  moreover have "unat k = min (unat len) (unat (ring_buffer_capacity E rb) - length (contents rb m0))"
    using wok rg.count_contents [OF rb, of m0] by simp
  ultimately show thesis by (rule that) (use wok in blast)+
qed

lemma stream_read_refines:
  assumes q: "sb_ring_buf (streams s h) = rb" "mem s = m0" and rb: "ok rb" and disj: "region buf (unat len) \<inter> storage rb = {}"
  obtains k rb' m where "stream_read E h buf len s = (k, (upd_stream h (\<lambda>b. b\<lparr>sb_ring_buf := rb'\<rparr>) s)\<lparr>mem := m\<rparr>)"
    and "unat k = min (unat len) (length (contents rb m0))" and "ok rb'"
    and "contents rb' m = drop (unat k) (contents rb m0)" and "bytes_at m buf (unat k) = take (unat k) (contents rb m0)"
proof -
  obtain k rb' m where w: "ring_buffer_read E buf len rb m0 = (k, rb', m)" by (metis prod_cases3)
  note rok = rg.read_ok [OF rb disj w]
  have "stream_read E h buf len s = (k, (upd_stream h (\<lambda>b. b\<lparr>sb_ring_buf := rb'\<rparr>) s)\<lparr>mem := m\<rparr>)"
    using w q by (simp add: stream_read_def)
  moreover have "unat k = min (unat len) (length (contents rb m0))" using rok rg.count_contents [OF rb, of m0] by simp
  ultimately show thesis by (rule that) (use rok in blast)+
qed

lemma stream_send_isr_refines:
  assumes inv: "kinv bits s L" and valid: "is_send_params_valid h data len s" and wl: "L (StreamRecv h) \<noteq> None"
    and q: "sb_ring_buf (streams s h) = rb" and rb: "ok rb" and disj: "region data (unat len) \<inter> storage rb = {}"
  shows "\<exists>k s' L'. sertos_stream_buffer_send_from_isr E h data len out s = Some (k, s') \<and> kinv bits s' L' \<and>
    unat k = min (unat len) (unat (ring_buffer_capacity E rb) - length (contents rb (mem s))) \<and>
    ok (sb_ring_buf (streams s' h)) \<and>
    contents (sb_ring_buf (streams s' h)) (mem s') = contents rb (mem s) @ bytes_at (mem s) data (unat k) \<and>
    (if 0 < k \<and> unat (sb_trigger_level_bytes (streams s h)) \<le> length (contents rb (mem s)) + unat k
     then \<exists>a. wakes_first (StreamRecv h) (tcbs s) L a (tcbs s') L' else tcbs s' = tcbs s \<and> L' = L)"
proof -
  let ?s0 = "set_flag out False s"
  let ?s1 = "?s0\<lparr>port := snd (sertos_port_enter_critical E (port s))\<rparr>"
  let ?x = "exit_critical E (fst (sertos_port_enter_critical E (port s)))"
  have v: "is_send_params_valid h data len ?s0" using valid by (simp add: is_send_params_valid_def)
  have q1: "sb_ring_buf (streams ?s1 h) = rb" "mem ?s1 = mem s" using q by simp_all
  obtain k rb' m where w: "stream_write E h data len ?s1 = (k, (upd_stream h (\<lambda>b. b\<lparr>sb_ring_buf := rb'\<rparr>) ?s1)\<lparr>mem := m\<rparr>)"
    "unat k = min (unat len) (unat (ring_buffer_capacity E rb) - length (contents rb (mem s)))"
    "ok rb'" "contents rb' m = contents rb (mem s) @ bytes_at (mem s) data (unat k)"
    by (rule stream_write_refines [OF q1 rb disj], rule that)
  let ?s2 = "(upd_stream h (\<lambda>b. b\<lparr>sb_ring_buf := rb'\<rparr>) ?s1)\<lparr>mem := m\<rparr>"
  have inv2: "kinv bits ?s2 L" using inv by simp
  have cnt: "unat (ring_buffer_count E rb') = length (contents rb (mem s)) + unat k"
    using rg.count_contents [OF w(3), of m] w(4) by (simp add: bytes_at_def)
  have trig: "sb_trigger_level_bytes (streams ?s2 h) \<le> ring_buffer_count E (sb_ring_buf (streams ?s2 h)) \<longleftrightarrow>
      unat (sb_trigger_level_bytes (streams s h)) \<le> length (contents rb (mem s)) + unat k"
    using cnt by (simp add: word_le_nat_alt)
  show ?thesis
  proof (cases "0 < k \<and> unat (sb_trigger_level_bytes (streams s h)) \<le> length (contents rb (mem s)) + unat k")
    case True
    obtain a s3 L' where u: "sertos_scheduler_wait_list_unblock_highest E (Some (StreamRecv h)) ?s2 = Some (a, s3)"
      "kinv bits s3 L'" "sched_frame ?s2 s3" "wakes_first (StreamRecv h) (tcbs ?s2) L a (tcbs s3) L'"
      using unblock_highest_wakes [OF inv2 _ wl] by (metis is_wait_list.simps(6))
    have "sertos_stream_buffer_send_from_isr E h data len out s = Some (k, ?x (update_higher_prio_woken a out s3))"
      using v True trig w(1) u(1) by (simp add: sertos_stream_buffer_send_from_isr_def enter_critical_eq)
    moreover have "streams s3 = streams ?s2" "mem s3 = m" using sched_frameD(10,12) [OF u(3)] by simp_all
    ultimately show ?thesis using True u(2,4) w(2-4)
      by (intro exI [of _ k] exI [of _ "?x (update_higher_prio_woken a out s3)"] exI [of _ L']) auto
  next
    case False
    have "sertos_stream_buffer_send_from_isr E h data len out s = Some (k, ?x ?s2)"
      using v False trig w(1) by (auto simp: sertos_stream_buffer_send_from_isr_def enter_critical_eq)
    then show ?thesis using False inv w(2-4)
      by (intro exI [of _ k] exI [of _ "?x ?s2"] exI [of _ L]) auto
  qed
qed

lemma stream_receive_isr_refines:
  assumes inv: "kinv bits s L" and valid: "is_recv_params_valid h buf len s" and wl: "L (StreamSend h) \<noteq> None"
    and q: "sb_ring_buf (streams s h) = rb" and rb: "ok rb" and disj: "region buf (unat len) \<inter> storage rb = {}"
  shows "\<exists>k s' L'. sertos_stream_buffer_receive_from_isr E h buf len out s = Some (k, s') \<and> kinv bits s' L' \<and>
    unat k = min (unat len) (length (contents rb (mem s))) \<and> ok (sb_ring_buf (streams s' h)) \<and>
    bytes_at (mem s') buf (unat k) = take (unat k) (contents rb (mem s)) \<and>
    contents (sb_ring_buf (streams s' h)) (mem s') = drop (unat k) (contents rb (mem s)) \<and>
    (if 0 < k then \<exists>a. wakes_first (StreamSend h) (tcbs s) L a (tcbs s') L' else tcbs s' = tcbs s \<and> L' = L)"
proof -
  let ?s0 = "set_flag out False s"
  let ?s1 = "?s0\<lparr>port := snd (sertos_port_enter_critical E (port s))\<rparr>"
  let ?x = "exit_critical E (fst (sertos_port_enter_critical E (port s)))"
  have v: "is_recv_params_valid h buf len ?s0" using valid by (simp add: is_recv_params_valid_def)
  have q1: "sb_ring_buf (streams ?s1 h) = rb" "mem ?s1 = mem s" using q by simp_all
  obtain k rb' m where w: "stream_read E h buf len ?s1 = (k, (upd_stream h (\<lambda>b. b\<lparr>sb_ring_buf := rb'\<rparr>) ?s1)\<lparr>mem := m\<rparr>)"
    "unat k = min (unat len) (length (contents rb (mem s)))" "ok rb'"
    "contents rb' m = drop (unat k) (contents rb (mem s))" "bytes_at m buf (unat k) = take (unat k) (contents rb (mem s))"
    by (rule stream_read_refines [OF q1 rb disj], rule that)
  let ?s2 = "(upd_stream h (\<lambda>b. b\<lparr>sb_ring_buf := rb'\<rparr>) ?s1)\<lparr>mem := m\<rparr>"
  have inv2: "kinv bits ?s2 L" using inv by simp
  show ?thesis
  proof (cases "0 < k")
    case True
    obtain a s3 L' where u: "sertos_scheduler_wait_list_unblock_highest E (Some (StreamSend h)) ?s2 = Some (a, s3)"
      "kinv bits s3 L'" "sched_frame ?s2 s3" "wakes_first (StreamSend h) (tcbs ?s2) L a (tcbs s3) L'"
      using unblock_highest_wakes [OF inv2 _ wl] by (metis is_wait_list.simps(5))
    have "sertos_stream_buffer_receive_from_isr E h buf len out s = Some (k, ?x (update_higher_prio_woken a out s3))"
      using v True w(1) u(1) by (simp add: sertos_stream_buffer_receive_from_isr_def enter_critical_eq)
    moreover have "streams s3 = streams ?s2" "mem s3 = m" using sched_frameD(10,12) [OF u(3)] by simp_all
    ultimately show ?thesis using True u(2,4) w(2-5)
      by (intro exI [of _ k] exI [of _ "?x (update_higher_prio_woken a out s3)"] exI [of _ L']) auto
  next
    case False
    have "sertos_stream_buffer_receive_from_isr E h buf len out s = Some (k, ?x ?s2)"
      using v False w(1) by (simp add: sertos_stream_buffer_receive_from_isr_def enter_critical_eq)
    then show ?thesis using False inv w(2-5)
      by (intro exI [of _ k] exI [of _ "?x ?s2"] exI [of _ L]) simp
  qed
qed

end

end
