(* ===== verification/Sertos_Stream_Spec.thy ===== *)
theory Sertos_Stream_Spec
  imports Sertos_Queue_Spec Sertos_Stream
begin

text \<open>
  What stream buffers guarantee: a bounded FIFO of bytes with partial transfers, in which a receiver is
  woken once the trigger level is reached.
\<close>

text \<open>C22: sending from an interrupt transfers as many bytes as fit, in order, reports that number, and wakes the
  first receiver exactly when something was sent and the buffer then holds at least the trigger level.\<close>

theorem stream_send_from_isr_correct:
  assumes "ipc_env E bits ok storage contents" and "kinv bits s L" and "is_send_params_valid h data len s"
    and "L (StreamRecv h) \<noteq> None" and "sb_ring_buf (streams s h) = rb" and "ok rb"
    and "region data (unat len) \<inter> storage rb = {}"
  shows "\<exists>k s' L'. sertos_stream_buffer_send_from_isr E h data len out s = Some (k, s') \<and> kinv bits s' L' \<and>
    unat k = min (unat len) (unat (ring_buffer_capacity E rb) - length (contents rb (mem s))) \<and>
    ok (sb_ring_buf (streams s' h)) \<and>
    contents (sb_ring_buf (streams s' h)) (mem s') = contents rb (mem s) @ bytes_at (mem s) data (unat k) \<and>
    (if 0 < k \<and> unat (sb_trigger_level_bytes (streams s h)) \<le> length (contents rb (mem s)) + unat k
     then \<exists>a. wakes_first (StreamRecv h) (tcbs s) L a (tcbs s') L' else tcbs s' = tcbs s \<and> L' = L)"
  by (rule ipc_env.stream_send_isr_refines [OF assms])

lemma demo_stream:
  "is_send_params_valid 0x650 0x2000 2 demo" "lists_of demo_layout (StreamRecv 0x650) \<noteq> None"
  "lists_of demo_layout (StreamSend 0x650) \<noteq> None" "sb_ring_buf (streams demo 0x650) = demo_ring"
  by (simp_all add: is_send_params_valid_def is_valid_handle_def demo_def demo_state_def lists_of_def)

theorem stream_send_from_isr_correct_witness:
  "\<exists>s'. sertos_stream_buffer_send_from_isr quiet_env 0x650 0x2000 2 0 demo = Some (2, s') \<and>
     rr_contents (sb_ring_buf (streams s' 0x650)) (mem s') = bytes_at (mem demo) 0x2000 2"
proof -
  have "ring_buffer_capacity quiet_env demo_ring = 7" by (simp add: quiet_env_def ref_env_def demo_ring_def)
  then show ?thesis
    using stream_send_from_isr_correct [OF quiet_ipc_env demo_inv demo_stream(1,2,4) demo_queue(6,7), of 0]
    by (auto simp: demo_queue(8) word_unat_eq_iff)
qed

text \<open>Receiving from an interrupt delivers the oldest bytes, as many as are there and asked for, removes
  exactly those, and wakes the first sender when it made room.\<close>

theorem stream_receive_from_isr_correct:
  assumes "ipc_env E bits ok storage contents" and "kinv bits s L" and "is_recv_params_valid h buf len s"
    and "L (StreamSend h) \<noteq> None" and "sb_ring_buf (streams s h) = rb" and "ok rb"
    and "region buf (unat len) \<inter> storage rb = {}"
  shows "\<exists>k s' L'. sertos_stream_buffer_receive_from_isr E h buf len out s = Some (k, s') \<and> kinv bits s' L' \<and>
    unat k = min (unat len) (length (contents rb (mem s))) \<and> ok (sb_ring_buf (streams s' h)) \<and>
    bytes_at (mem s') buf (unat k) = take (unat k) (contents rb (mem s)) \<and>
    contents (sb_ring_buf (streams s' h)) (mem s') = drop (unat k) (contents rb (mem s)) \<and>
    (if 0 < k then \<exists>a. wakes_first (StreamSend h) (tcbs s) L a (tcbs s') L' else tcbs s' = tcbs s \<and> L' = L)"
  by (rule ipc_env.stream_receive_isr_refines [OF assms])

theorem stream_receive_from_isr_correct_witness:
  "\<exists>k s'. sertos_stream_buffer_receive_from_isr quiet_env 0x650 0x2000 2 0 demo = Some (k, s') \<and> unat k = 0"
proof -
  have "is_recv_params_valid 0x650 0x2000 2 demo"
    by (simp add: is_recv_params_valid_def is_valid_handle_def demo_def demo_state_def)
  then show ?thesis
    using stream_receive_from_isr_correct [OF quiet_ipc_env demo_inv _ demo_stream(3,4) demo_queue(6,7), of 0]
    by (auto simp: demo_queue(8))
qed

end
