(* ===== verification/Sertos_Task.thy ===== *)
theory Sertos_Task
  imports Sertos_Sem
begin

text \<open>
  Task creation, deletion, suspension, resumption and priority changes (\<open>src/sertos_task.c\<close>), and
  the initialisation of the scheduler (\<open>src/sertos_scheduler.c\<close>), which creates the idle task.
\<close>

definition sertos_task_create_static ::
  "('b, 'r, 'm, 'p) env \<Rightarrow> task_config option \<Rightarrow> addr \<Rightarrow> addr \<Rightarrow> ('b, 'r, 'm, 'p) kstate \<Rightarrow>
   (SertosStatus \<times> ('b, 'r, 'm, 'p) kstate) option" where
  "sertos_task_create_static E config tcb out_handle s =
     (if tcb = NULL \<or> out_handle = NULL then Some (SERTOS_STATUS_ERROR_NULL_PTR, s)
      else case config of
        None \<Rightarrow> Some (SERTOS_STATUS_ERROR_INVALID_PARAM, s)
      | Some c \<Rightarrow>
          if cfg_stack_buffer c = NULL then Some (SERTOS_STATUS_ERROR_INVALID_PARAM, s)
          else let status = validate_task_config config
               in if status \<noteq> SERTOS_STATUS_OK then Some (status, s)
                  else let s1 = init_tcb_and_stack E tcb c True s;
                           (crit_status, s2) = enter_critical E s1;
                           (st, s3) = sertos_scheduler_add_ready E tcb s2;
                           s4 = (if st = SERTOS_STATUS_OK then sertos_scheduler_register_task E tcb s3 else s3);
                           s5 = exit_critical E crit_status s4
                       in if st = SERTOS_STATUS_OK
                          then do {
                            s6 \<leftarrow> reschedule_if_running E (s5\<lparr>ptr_cells := (ptr_cells s5)(out_handle := tcb)\<rparr>);
                            Some (st, s6)
                          }
                          else Some (st, s5))"

definition sertos_task_create ::
  "('b, 'r, 'm, 'p) env \<Rightarrow> task_config option \<Rightarrow> addr \<Rightarrow> ('b, 'r, 'm, 'p) kstate \<Rightarrow>
   (SertosStatus \<times> ('b, 'r, 'm, 'p) kstate) option" where
  "sertos_task_create E config out_handle s =
     (if out_handle = NULL then Some (SERTOS_STATUS_ERROR_NULL_PTR, s)
      else if validate_task_config config \<noteq> SERTOS_STATUS_OK then Some (validate_task_config config, s)
      else do {
        dynamic_cfg \<leftarrow> config;
        let (tcb, m1) = memory_pool_malloc E (sizeof_tcb E) (pool s);
        let s1 = s\<lparr>pool := m1\<rparr>;
        if tcb = NULL then Some (SERTOS_STATUS_ERROR_NO_MEMORY, s1)
        else let (stack_buf, m2) = memory_pool_malloc E (cfg_stack_size dynamic_cfg) (pool s1);
                 s2 = s1\<lparr>pool := m2\<rparr>
             in if stack_buf = NULL
                then Some (SERTOS_STATUS_ERROR_NO_MEMORY, s2\<lparr>pool := memory_pool_free E tcb (pool s2)\<rparr>)
                else let s3 = init_tcb_and_stack E tcb (dynamic_cfg\<lparr>cfg_stack_buffer := stack_buf\<rparr>) False s2;
                         (status, s4) = sertos_scheduler_add_ready E tcb s3
                     in if status \<noteq> SERTOS_STATUS_OK
                        then Some (status, s4\<lparr>pool := memory_pool_free E tcb (memory_pool_free E stack_buf (pool s4))\<rparr>)
                        else let (crit_status, s5) = enter_critical E s4;
                                 s6 = exit_critical E crit_status (sertos_scheduler_register_task E tcb s5)
                             in do {
                               s7 \<leftarrow> reschedule_if_running E (s6\<lparr>ptr_cells := (ptr_cells s6)(out_handle := tcb)\<rparr>);
                               Some (SERTOS_STATUS_OK, s7)
                             }
      })"

text \<open>\<open>tcb = (handle == NULL) ? sertos_scheduler_get_current_tcb() : handle;\<close>\<close>

definition handle_or_current :: "addr \<Rightarrow> ('b, 'r, 'm, 'p) kstate \<Rightarrow> addr" where
  "handle_or_current handle s = (if handle = NULL then sertos_scheduler_get_current_tcb s else handle)"

definition task_change_ok :: "addr \<Rightarrow> SertosTaskState \<Rightarrow> ('b, 'r, 'm, 'p) kstate \<Rightarrow> bool" where
  "task_change_ok tcb to_st s \<longleftrightarrow> \<not> (tcb = NULL \<or> tcb_magic (tcbs s tcb) \<noteq> SERTOS_TASK_MAGIC_WORD \<or>
     \<not> sertos_task_is_valid_transition (tcb_state (tcbs s tcb)) to_st)"

definition sertos_task_delete ::
  "('b, 'r, 'm, 'p) env \<Rightarrow> addr \<Rightarrow> ('b, 'r, 'm, 'p) kstate \<Rightarrow> (SertosStatus \<times> ('b, 'r, 'm, 'p) kstate) option" where
  "sertos_task_delete E handle s =
     (let tcb = handle_or_current handle s
      in if \<not> task_change_ok tcb SERTOS_TASK_STATE_TERMINATED s then Some (SERTOS_STATUS_ERROR_INVALID_PARAM, s)
         else let (crit_status, s1) = enter_critical E s;
                  is_current = (tcb = sertos_scheduler_get_current_tcb s1);
                  s2 = (if tcb_state (tcbs s1 tcb) = SERTOS_TASK_STATE_READY
                        then snd (sertos_scheduler_remove_ready E tcb s1) else s1);
                  s3 = sertos_scheduler_unregister_task E tcb s2;
                  s4 = upd_tcb tcb (\<lambda>t. t\<lparr>tcb_state := SERTOS_TASK_STATE_TERMINATED\<rparr>) s3;
                  (ctx, p) = sertos_port_task_delete_hook E tcb (tcb_port_context (tcbs s4 tcb)) (port s4);
                  s5 = upd_tcb tcb (\<lambda>t. t\<lparr>tcb_port_context := ctx\<rparr>) (s4\<lparr>port := p\<rparr>);
                  s6 = (if \<not> tcb_is_statically_allocated (tcbs s5 tcb)
                        then s5\<lparr>pool := memory_pool_free E tcb (memory_pool_free E (tcb_stack_base (tcbs s5 tcb)) (pool s5))\<rparr>
                        else s5);
                  s7 = exit_critical E crit_status s6
              in if is_current \<and> sertos_scheduler_is_running s7
                 then do { s8 \<leftarrow> sertos_scheduler_yield E s7; Some (SERTOS_STATUS_OK, s8) }
                 else Some (SERTOS_STATUS_OK, s7))"

definition sertos_task_suspend ::
  "('b, 'r, 'm, 'p) env \<Rightarrow> addr \<Rightarrow> ('b, 'r, 'm, 'p) kstate \<Rightarrow> (SertosStatus \<times> ('b, 'r, 'm, 'p) kstate) option" where
  "sertos_task_suspend E handle s =
     (let tcb = handle_or_current handle s
      in if \<not> task_change_ok tcb SERTOS_TASK_STATE_SUSPENDED s then Some (SERTOS_STATUS_ERROR_INVALID_PARAM, s)
         else let (crit_status, s1) = enter_critical E s;
                  is_current = (tcb = sertos_scheduler_get_current_tcb s1);
                  s2 = (if tcb_state (tcbs s1 tcb) = SERTOS_TASK_STATE_READY
                        then snd (sertos_scheduler_remove_ready E tcb s1) else s1);
                  s3 = upd_tcb tcb (\<lambda>t. t\<lparr>tcb_state := SERTOS_TASK_STATE_SUSPENDED\<rparr>) s2;
                  s4 = exit_critical E crit_status s3
              in if is_current \<and> sertos_scheduler_is_running s4
                 then do { s5 \<leftarrow> sertos_scheduler_yield E s4; Some (SERTOS_STATUS_OK, s5) }
                 else Some (SERTOS_STATUS_OK, s4))"

definition sertos_task_resume ::
  "('b, 'r, 'm, 'p) env \<Rightarrow> addr \<Rightarrow> ('b, 'r, 'm, 'p) kstate \<Rightarrow> (SertosStatus \<times> ('b, 'r, 'm, 'p) kstate) option" where
  "sertos_task_resume E handle s =
     (if \<not> task_change_ok handle SERTOS_TASK_STATE_READY s then Some (SERTOS_STATUS_ERROR_INVALID_PARAM, s)
      else let (crit_status, s1) = enter_critical E s;
               (status, s2) = sertos_scheduler_add_ready E handle s1;
               s3 = exit_critical E crit_status s2
           in if status = SERTOS_STATUS_OK \<and> sertos_scheduler_is_running s3
              then do { s4 \<leftarrow> sertos_scheduler_reschedule E s3; Some (status, s4) }
              else Some (status, s3))"

definition sertos_task_set_priority ::
  "('b, 'r, 'm, 'p) env \<Rightarrow> addr \<Rightarrow> SertosPriority \<Rightarrow> ('b, 'r, 'm, 'p) kstate \<Rightarrow>
   (SertosStatus \<times> ('b, 'r, 'm, 'p) kstate) option" where
  "sertos_task_set_priority E handle new_priority s =
     (if SERTOS_CONFIG_MAX_PRIORITIES \<le> unat new_priority then Some (SERTOS_STATUS_ERROR_INVALID_PARAM, s)
      else let tcb = handle_or_current handle s
           in if tcb = NULL \<or> tcb_magic (tcbs s tcb) \<noteq> SERTOS_TASK_MAGIC_WORD
              then Some (SERTOS_STATUS_ERROR_INVALID_PARAM, s)
              else let (crit_status, s1) = enter_critical E s;
                       was_ready = (tcb_state (tcbs s1 tcb) = SERTOS_TASK_STATE_READY);
                       s2 = (if was_ready then snd (sertos_scheduler_remove_ready E tcb s1) else s1);
                       s3 = upd_tcb tcb (\<lambda>t. t\<lparr>tcb_priority := new_priority, tcb_base_priority := new_priority\<rparr>) s2;
                       s4 = (if was_ready then snd (sertos_scheduler_add_ready E tcb s3) else s3)
                   in do {
                     s5 \<leftarrow> reschedule_if_running E (exit_critical E crit_status s4);
                     Some (SERTOS_STATUS_OK, s5)
                   })"

section \<open>Initialisation of the scheduler\<close>

text \<open>The cell that receives the idle task's handle is a local variable of the function; \<open>idle_handle\<close> is its address.\<close>

definition init_lists :: "('b, 'r, 'm, 'p) env \<Rightarrow> lheap \<Rightarrow> lheap" where
  "init_lists E h =
     linked_list_init E TaskRegistry (linked_list_init E SuspendedList (linked_list_init E DelayList
       (fold (\<lambda>i. linked_list_init E (ReadyQ i)) [0..<SERTOS_CONFIG_MAX_PRIORITIES] h)))"

definition configure_scheduler ::
  "('b, 'r, 'm, 'p) env \<Rightarrow> kernel_config option \<Rightarrow> ('b, 'r, 'm, 'p) kstate \<Rightarrow> ('b, 'r, 'm, 'p) kstate" where
  "configure_scheduler E config s = (case config of
     Some c \<Rightarrow> sertos_stats_set_enabled (kc_enable_runtime_stats c)
       (s\<lparr>s_tick_rate_hz := (if 0 < kc_tick_rate_hz c then kc_tick_rate_hz c else SERTOS_CONFIG_TICK_RATE_HZ),
          s_time_slicing_enabled := kc_enable_time_slicing c,
          s_tick_hook := kc_tick_hook c, s_idle_hook := kc_idle_hook c\<rparr>)
   | None \<Rightarrow> sertos_stats_set_enabled False
       (s\<lparr>s_tick_rate_hz := SERTOS_CONFIG_TICK_RATE_HZ,
          s_time_slicing_enabled := (SERTOS_CONFIG_TIME_SLICING \<noteq> 0),
          s_tick_hook := NULL, s_idle_hook := NULL\<rparr>))"

definition idle_config :: "('b, 'r, 'm, 'p) env \<Rightarrow> kernel_config option \<Rightarrow> task_config" where
  "idle_config E config =
     (let custom = (case config of Some c \<Rightarrow>
            kc_idle_task_stack c \<noteq> NULL \<and> SERTOS_CONFIG_MINIMAL_STACK_SIZE \<le> kc_idle_task_stack_size c
          | None \<Rightarrow> False)
      in \<lparr>cfg_name = Some ''Idle'', cfg_entry_func = idle_task_entry_addr E, cfg_param = NULL, cfg_priority = 0,
          cfg_stack_buffer = (if custom then kc_idle_task_stack (the config) else s_idle_stack E),
          cfg_stack_size = (if custom then kc_idle_task_stack_size (the config) else SERTOS_CONFIG_IDLE_TASK_STACK_SIZE)\<rparr>)"

definition sertos_scheduler_init_with_config ::
  "('b, 'r, 'm, 'p) env \<Rightarrow> kernel_config option \<Rightarrow> addr \<Rightarrow> ('b, 'r, 'm, 'p) kstate \<Rightarrow>
   (SertosStatus \<times> ('b, 'r, 'm, 'p) kstate) option" where
  "sertos_scheduler_init_with_config E config idle_handle s =
     (let (ok, b) = bitmap_init E SERTOS_CONFIG_MAX_PRIORITIES (s_ready_bitmap s);
          s1 = s\<lparr>s_ready_bitmap := b\<rparr>
      in if \<not> ok then Some (SERTOS_STATUS_ERROR_INVALID_PARAM, s1)
         else let s2 = upd_heap (init_lists E) s1;
                  s3 = s2\<lparr>sertos_current_tcb := NULL, s_is_running := False, s_lock_nesting := 0,
                          s_reschedule_pending := False, s_system_ticks := atomic_init_size_t E 0\<rparr>;
                  s4 = configure_scheduler E config s3
              in do {
                (status, s5) \<leftarrow> sertos_task_create_static E (Some (idle_config E config)) (s_idle_tcb E) idle_handle s4;
                s6 \<leftarrow> sertos_stats_reset E s5;
                Some (status, s6)
              })"

definition sertos_scheduler_init ::
  "('b, 'r, 'm, 'p) env \<Rightarrow> addr \<Rightarrow> ('b, 'r, 'm, 'p) kstate \<Rightarrow> (SertosStatus \<times> ('b, 'r, 'm, 'p) kstate) option" where
  "sertos_scheduler_init E idle_handle s = sertos_scheduler_init_with_config E None idle_handle s"

section \<open>Lemmas\<close>

text \<open>A control block none of whose nodes is linked.\<close>

definition fresh_task :: "addr \<Rightarrow> lmap \<Rightarrow> bool" where
  "fresh_task t L \<longleftrightarrow> (\<forall>l. \<not> on_list L l (StateNode t) \<and> \<not> on_list L l (EventNode t) \<and> \<not> on_list L l (RegistryNode t))"

definition empty_lists :: lmap where
  "empty_lists l = (case l of
     ReadyQ p \<Rightarrow> if p < SERTOS_CONFIG_MAX_PRIORITIES then Some [] else None
   | DelayList \<Rightarrow> Some []
   | SuspendedList \<Rightarrow> Some []
   | TaskRegistry \<Rightarrow> Some []
   | _ \<Rightarrow> None)"

lemma kinv_registry_change:
  assumes inv: "kinv bits s L" and heap: "heap_ok (list_heap s') (L(TaskRegistry \<mapsto> ns))"
    and ns: "\<And>n. n \<in> set ns \<Longrightarrow> \<exists>a. n = RegistryNode a \<and> a \<noteq> NULL"
    and same: "s_ready_bitmap s' = s_ready_bitmap s" "tcbs s' = tcbs s"
  shows "kinv bits s' (L(TaskRegistry \<mapsto> ns))"
proof -
  let ?L = "L(TaskRegistry \<mapsto> ns)"
  have on: "on_list ?L k x \<longleftrightarrow> (if k = TaskRegistry then x \<in> set ns else on_list L k x)" for k x
    by (simp add: on_list_def)
  have noL: "\<not> on_list L TaskRegistry (StateNode a)" "\<not> on_list L TaskRegistry (EventNode a)" for a
    using kinv_typed [OF inv, of TaskRegistry] by fastforce+
  have ons: "on_list ?L k (StateNode a) \<longleftrightarrow> on_list L k (StateNode a)"
    "on_list ?L k (EventNode a) \<longleftrightarrow> on_list L k (EventNode a)" for k a
    using ns [of "StateNode a"] ns [of "EventNode a"] noL [of a] by (auto simp: on)
  have "list_typed l n" if "on_list ?L l n" for l n
    using that ns [of n] kinv_typed [OF inv, of l n] by (auto simp: on split: if_splits)
  then have "typed_lists ?L" by (simp add: typed_lists_def)
  moreover have "ready_ok (tcbs s') ?L" "delay_ok (tcbs s') ?L" "wait_ok (tcbs s') ?L"
    using inv unfolding kinv_def ready_ok_def delay_ok_def wait_ok_def ons same by blast+
  moreover have "base_lists ?L" "bitmap_ok bits (s_ready_bitmap s') ?L"
    using inv by (simp_all add: kinv_def base_lists_def bitmap_ok_def same)
  ultimately show ?thesis using heap by (simp add: kinv_def)
qed

lemma init_tcb_fields:
  "s_ready_bitmap (init_tcb_and_stack E t c st s) = s_ready_bitmap s"
  "sertos_current_tcb (init_tcb_and_stack E t c st s) = sertos_current_tcb s"
  "s_is_running (init_tcb_and_stack E t c st s) = s_is_running s"
  "s_lock_nesting (init_tcb_and_stack E t c st s) = s_lock_nesting s"
  "list_heap (init_tcb_and_stack E t c st s) =
    clear_node (RegistryNode t) (clear_node (EventNode t) (clear_node (StateNode t) (list_heap s)))"
  "sems (init_tcb_and_stack E t c st s) = sems s" "timers (init_tcb_and_stack E t c st s) = timers s"
  "queues (init_tcb_and_stack E t c st s) = queues s" "streams (init_tcb_and_stack E t c st s) = streams s"
  "s_timer_subsystem_initialized (init_tcb_and_stack E t c st s) = s_timer_subsystem_initialized s"
  "\<exists>sp ctx. tcbs (init_tcb_and_stack E t c st s) = (tcbs s)(t := (new_tcb c sp st)\<lparr>tcb_port_context := ctx\<rparr>)"
  unfolding init_tcb_and_stack_def by (auto simp: Let_def split: prod.splits)

context kernel_env
begin

lemma init_tcb_kinv:
  assumes inv: "kinv bits s L" and fresh: "fresh_task t L"
  shows "kinv bits (init_tcb_and_stack E t c st s) L"
proof -
  let ?s = "init_tcb_and_stack E t c st s"
  have free: "StateNode t \<notin> nodes L" "EventNode t \<notin> nodes L" "RegistryNode t \<notin> nodes L"
    using fresh by (auto simp: fresh_task_def nodes_on_list)
  have heap: "heap_ok (list_heap ?s) L"
    unfolding init_tcb_fields by (intro heap_ok_clear_node kinv_heap [OF inv] free) simp_all
  obtain sp ctx where T: "tcbs ?s = (tcbs s)(t := (new_tcb c sp st)\<lparr>tcb_port_context := ctx\<rparr>)"
    using init_tcb_fields(11) by blast
  have "kinv bits (upd_tcb t (\<lambda>_. (new_tcb c sp st)\<lparr>tcb_port_context := ctx\<rparr>) s) L"
    by (rule kinv_upd_free [OF inv]) (use fresh in \<open>auto simp: fresh_task_def\<close>)
  then show ?thesis using heap T by (simp add: kinv_def init_tcb_fields)
qed

lemma register_kinv:
  assumes inv: "kinv bits s L" and rs: "L TaskRegistry = Some rs" and t: "t \<noteq> NULL"
    and free: "\<And>l. \<not> on_list L l (RegistryNode t)"
  shows "kinv bits (sertos_scheduler_register_task E t s) (L(TaskRegistry \<mapsto> rs @ [RegistryNode t]))"
proof -
  have "\<exists>a. n = RegistryNode a \<and> a \<noteq> NULL" if "n \<in> set rs" for n
    using kinv_typed [OF inv on_listI [of L TaskRegistry, OF rs that]] by (cases n) auto
  then have "\<exists>a. n = RegistryNode a \<and> a \<noteq> NULL" if "n \<in> set (rs @ [RegistryNode t])" for n
    using that t by auto
  moreover have "heap_ok (linked_list_insert_tail_direct E TaskRegistry (RegistryNode t) (list_heap s))
      (L(TaskRegistry \<mapsto> rs @ [RegistryNode t]))"
    by (rule ll.heap_ok_insert_tail [OF kinv_heap [OF inv] rs]) (use free in \<open>auto simp: nodes_on_list\<close>)
  ultimately show ?thesis
    using t by (intro kinv_registry_change [OF inv]) (simp_all add: sertos_scheduler_register_task_def)
qed

lemma create_static_refines:
  assumes inv: "kinv bits s L" and fresh: "fresh_task t L" and t: "t \<noteq> NULL" and out: "out \<noteq> NULL"
    and cfg: "cfg_stack_buffer c \<noteq> NULL" "validate_task_config (Some c) = SERTOS_STATUS_OK"
    and ns: "L (ReadyQ (unat (cfg_priority c))) = Some ns" and rs: "L TaskRegistry = Some rs"
  obtains s' where "sertos_task_create_static E (Some c) t out s =
      map_option (Pair SERTOS_STATUS_OK) (reschedule_if_running E s')"
    and "kinv bits s' (L(ReadyQ (unat (cfg_priority c)) \<mapsto> ns @ [StateNode t], TaskRegistry \<mapsto> rs @ [RegistryNode t]))"
    and "ptr_cells s' out = t" and "\<And>a. a \<noteq> t \<Longrightarrow> tcbs s' a = tcbs s a"
    and "tcb_priority (tcbs s' t) = cfg_priority c" and "tcb_state (tcbs s' t) = SERTOS_TASK_STATE_READY"
    and "tcb_entry_func (tcbs s' t) = cfg_entry_func c" and "tcb_magic (tcbs s' t) = SERTOS_TASK_MAGIC_WORD"
    and "sertos_current_tcb s' = sertos_current_tcb s" and "s_is_running s' = s_is_running s"
    and "s_lock_nesting s' = s_lock_nesting s" and "objects_kept s s'"
proof -
  let ?p = "unat (cfg_priority c)"
  let ?s1 = "init_tcb_and_stack E t c True s"
  let ?s2 = "?s1\<lparr>port := snd (sertos_port_enter_critical E (port ?s1))\<rparr>"
  let ?s3 = "snd (sertos_scheduler_add_ready E t ?s2)"
  let ?s4 = "sertos_scheduler_register_task E t ?s3"
  let ?s5 = "exit_critical E (fst (sertos_port_enter_critical E (port ?s1))) ?s4"
  let ?s6 = "?s5\<lparr>ptr_cells := (ptr_cells ?s5)(out := t)\<rparr>"
  obtain sp ctx where T: "tcbs ?s1 = (tcbs s)(t := (new_tcb c sp True)\<lparr>tcb_port_context := ctx\<rparr>)"
    using init_tcb_fields(11) by blast
  have pM: "?p < SERTOS_CONFIG_MAX_PRIORITIES" using cfg(2) by (simp add: validate_task_config_OK)
  have k2: "kinv bits ?s2 L" using init_tcb_kinv [OF inv fresh] by simp
  have pr: "tcb_priority (tcbs ?s2 t) = cfg_priority c" by (simp add: T new_tcb_def)
  have "kinv bits ?s3 (L(ReadyQ ?p \<mapsto> ns @ [StateNode t]))"
    by (rule add_ready_kinv [OF k2 t _ pM ns]) (use fresh pr in \<open>auto simp: fresh_task_def T new_tcb_def\<close>)
  moreover have "(L(ReadyQ ?p \<mapsto> ns @ [StateNode t])) TaskRegistry = Some rs" using rs by simp
  moreover have "\<not> on_list (L(ReadyQ ?p \<mapsto> ns @ [StateNode t])) l (RegistryNode t)" for l
    using fresh ns by (auto simp: fresh_task_def on_list_def split: option.splits if_splits)
  ultimately have k4: "kinv bits ?s4 (L(ReadyQ ?p \<mapsto> ns @ [StateNode t], TaskRegistry \<mapsto> rs @ [RegistryNode t]))"
    using register_kinv t by blast
  have ok: "fst (sertos_scheduler_add_ready E t ?s2) = SERTOS_STATUS_OK"
    by (rule add_ready_eq(1) [OF t]) (use pM pr in simp)
  have eq: "sertos_task_create_static E (Some c) t out s = map_option (Pair SERTOS_STATUS_OK) (reschedule_if_running E ?s6)"
    using t out cfg ok prod.collapse [of "sertos_scheduler_add_ready E t ?s2"]
    by (simp add: sertos_task_create_static_def enter_critical_eq Let_def map_option_bind case_prod_beta)
  have T3: "tcbs ?s3 = (tcbs ?s2)(t := (tcbs ?s2 t)\<lparr>tcb_state := SERTOS_TASK_STATE_READY\<rparr>)"
    by (rule add_ready_eq(2) [OF t]) (use pM pr in simp)
  have T6: "tcbs ?s6 = tcbs ?s3" by (simp add: sertos_scheduler_register_task_def)
  have fr: "sched_frame ?s2 ?s4" by (simp add: sertos_scheduler_register_task_def)
  show thesis
    by (rule that [OF eq])
      (use k4 T sched_frameD(1-3,7,9-11) [OF fr] sched_frame_timer [OF fr] in \<open>simp_all add: T3 T6 new_tcb_def init_tcb_fields objects_kept_def\<close>)
qed

text \<open>Suspension of a READY task and its resumption.\<close>

lemma suspend_ready_refines:
  assumes inv: "kinv bits s L" and t: "tcb_magic (tcbs s t) = SERTOS_TASK_MAGIC_WORD" "t \<noteq> sertos_current_tcb s"
    and on: "on_list L (ReadyQ q) (StateNode t)" and st: "tcb_state (tcbs s t) = SERTOS_TASK_STATE_READY"
  obtains s' where "sertos_task_suspend E t s = Some (SERTOS_STATUS_OK, s')"
    and "kinv bits s' (L(ReadyQ q := map_option (remove1 (StateNode t)) (L (ReadyQ q))))"
    and "\<And>l. \<not> on_list (L(ReadyQ q := map_option (remove1 (StateNode t)) (L (ReadyQ q)))) l (StateNode t)"
    and "tcbs s' = (tcbs s)(t := (tcbs s t)\<lparr>tcb_state := SERTOS_TASK_STATE_SUSPENDED\<rparr>)"
    and "tcb_wait_list (tcbs s t) = None" and "unat (tcb_priority (tcbs s t)) = q" and "t \<noteq> NULL"
    and "s_is_running s' = s_is_running s" and "sertos_current_tcb s' = sertos_current_tcb s" and "call_frame s s'"
proof -
  let ?s1 = "s\<lparr>port := snd (sertos_port_enter_critical E (port s))\<rparr>"
  let ?s2 = "snd (sertos_scheduler_remove_ready E t ?s1)"
  let ?s3 = "upd_tcb t (\<lambda>t. t\<lparr>tcb_state := SERTOS_TASK_STATE_SUSPENDED\<rparr>) ?s2"
  let ?s4 = "exit_critical E (fst (sertos_port_enter_critical E (port s))) ?s3"
  have inv1: "kinv bits ?s1 L" using inv by simp
  obtain ns L1 where ns: "L (ReadyQ q) = Some ns" and L1: "L1 = L(ReadyQ q \<mapsto> remove1 (StateNode t) ns)"
    and k2: "kinv bits ?s2 L1" and free: "\<And>l. \<not> on_list L1 l (StateNode t)" "\<And>l. \<not> on_list L1 l (EventNode t)"
    and t0: "t \<noteq> NULL" and "q < SERTOS_CONFIG_MAX_PRIORITIES" and q: "unat (tcb_priority (tcbs ?s1 t)) = q"
    and wn: "tcb_wait_list (tcbs ?s1 t) = None"
    by (rule current_detach [OF inv1 on], rule that)
  have L1': "L1 = L(ReadyQ q := map_option (remove1 (StateNode t)) (L (ReadyQ q)))" using ns by (simp add: L1)
  have valid: "task_change_ok t SERTOS_TASK_STATE_SUSPENDED s"
    using t0 t st by (simp add: task_change_ok_def sertos_task_is_valid_transition_def s_task_transitions_def)
  have "sertos_task_suspend E t s = Some (SERTOS_STATUS_OK, ?s4)"
    using valid t0 t(2) st
    by (simp add: sertos_task_suspend_def handle_or_current_def enter_critical_eq sertos_scheduler_get_current_tcb_def Let_def)
  then show thesis
    by (rule that)
      (use k2 free(1) wn q t0 sched_frameD(1,2) [of ?s1 ?s2] in \<open>simp_all add: L1' call_frameI [where q = "snd (sertos_port_enter_critical E (port s))"]\<close>)
qed

lemma resume_refines:
  assumes inv: "kinv bits s L" and t: "t \<noteq> NULL" "tcb_magic (tcbs s t) = SERTOS_TASK_MAGIC_WORD"
    and st: "tcb_state (tcbs s t) = SERTOS_TASK_STATE_SUSPENDED" and free: "\<And>l. \<not> on_list L l (StateNode t)"
    and wn: "tcb_wait_list (tcbs s t) = None"
    and p: "unat (tcb_priority (tcbs s t)) = p" "p < SERTOS_CONFIG_MAX_PRIORITIES" and ns: "L (ReadyQ p) = Some ns"
  obtains s' where "sertos_task_resume E t s = map_option (Pair SERTOS_STATUS_OK) (reschedule_if_running E s')"
    and "kinv bits s' (L(ReadyQ p \<mapsto> ns @ [StateNode t]))"
    and "tcbs s' = (tcbs s)(t := (tcbs s t)\<lparr>tcb_state := SERTOS_TASK_STATE_READY\<rparr>)" and "call_frame s s'"
proof -
  let ?s1 = "s\<lparr>port := snd (sertos_port_enter_critical E (port s))\<rparr>"
  let ?s2 = "snd (sertos_scheduler_add_ready E t ?s1)"
  let ?s3 = "exit_critical E (fst (sertos_port_enter_critical E (port s))) ?s2"
  have inv1: "kinv bits ?s1 L" using inv by simp
  have k2: "kinv bits ?s2 (L(ReadyQ p \<mapsto> ns @ [StateNode t]))"
    by (rule add_ready_kinv [OF inv1 t(1) _ p(2) ns free]) (use p wn in auto)
  note ar = add_ready_eq [OF t(1), of ?s1]
  have valid: "task_change_ok t SERTOS_TASK_STATE_READY s"
    using t st by (simp add: task_change_ok_def sertos_task_is_valid_transition_def s_task_transitions_def)
  have "sertos_task_resume E t s = map_option (Pair SERTOS_STATUS_OK) (reschedule_if_running E ?s3)"
    using valid ar(1) p prod.collapse [of "sertos_scheduler_add_ready E t ?s1"]
    by (simp add: sertos_task_resume_def enter_critical_eq Let_def map_option_bind reschedule_if_running_def case_prod_beta)
  then show thesis
    by (rule that) (use k2 ar(2) p in \<open>simp_all add: call_frameI [where q = "snd (sertos_port_enter_critical E (port s))"]\<close>)
qed

lemma set_priority_ready_refines:
  assumes inv: "kinv bits s L" and t: "t \<noteq> NULL" "tcb_magic (tcbs s t) = SERTOS_TASK_MAGIC_WORD"
    and on: "on_list L (ReadyQ q) (StateNode t)" and st: "tcb_state (tcbs s t) = SERTOS_TASK_STATE_READY"
    and p: "unat prio < SERTOS_CONFIG_MAX_PRIORITIES"
  obtains s' where "sertos_task_set_priority E t prio s = map_option (Pair SERTOS_STATUS_OK) (reschedule_if_running E s')"
    and "kinv bits s' (requeue_lists t q (unat prio) L)"
    and "tcbs s' = (tcbs s)(t := (tcbs s t)\<lparr>tcb_priority := prio, tcb_base_priority := prio\<rparr>)" and "call_frame s s'"
proof -
  let ?s1 = "s\<lparr>port := snd (sertos_port_enter_critical E (port s))\<rparr>"
  let ?f = "\<lambda>t. t\<lparr>tcb_priority := prio, tcb_base_priority := prio\<rparr>"
  let ?s4 = "snd (sertos_scheduler_add_ready E t (upd_tcb t ?f (snd (sertos_scheduler_remove_ready E t ?s1))))"
  let ?s5 = "exit_critical E (fst (sertos_port_enter_critical E (port s))) ?s4"
  have inv1: "kinv bits ?s1 L" using inv by simp
  note rq = requeue_refines [OF inv1 on, of ?f, OF _ p]
  have T: "(?f (tcbs s t))\<lparr>tcb_state := SERTOS_TASK_STATE_READY\<rparr> = ?f (tcbs s t)" using st by (cases "tcbs s t") simp
  have "sertos_task_set_priority E t prio s = map_option (Pair SERTOS_STATUS_OK) (reschedule_if_running E ?s5)"
    using t st p
    by (simp add: sertos_task_set_priority_def handle_or_current_def enter_critical_eq Let_def map_option_bind)
  then show thesis
    by (rule that) (use rq(1,3) T in \<open>simp_all add: call_frameI [where q = "snd (sertos_port_enter_critical E (port s))"]\<close>)
qed

lemma unregister_kinv:
  assumes inv: "kinv bits s L" and rs: "L TaskRegistry = Some rs" and t: "RegistryNode t \<in> set rs"
  shows "kinv bits (sertos_scheduler_unregister_task E t s) (L(TaskRegistry \<mapsto> remove1 (RegistryNode t) rs))"
proof -
  let ?L = "L(TaskRegistry \<mapsto> remove1 (RegistryNode t) rs)"
  have on: "on_list L TaskRegistry (RegistryNode t)" using rs t by (simp add: on_list_def)
  have t0: "t \<noteq> NULL" using kinv_typed [OF inv on] by simp
  have h1: "heap_ok (linked_list_remove_direct E TaskRegistry (RegistryNode t) (list_heap s)) ?L"
    by (rule ll.heap_ok_remove [OF kinv_heap [OF inv] rs t])
  have "\<not> on_list ?L k (RegistryNode t)" for k
    unfolding on_list_lose [of L TaskRegistry, OF rs heap_ok_distinct [OF kinv_heap [OF inv] rs]]
    using kinv_unique [OF inv on, of k] by auto
  then have "heap_ok (clear_node (RegistryNode t) (linked_list_remove_direct E TaskRegistry (RegistryNode t) (list_heap s))) ?L"
    by (intro heap_ok_clear_node [OF h1]) (auto simp: nodes_on_list)
  moreover have "\<exists>a. n = RegistryNode a \<and> a \<noteq> NULL" if "n \<in> set (remove1 (RegistryNode t) rs)" for n
  proof -
    have "n \<in> set rs" using that by (rule subsetD [OF set_remove1_subset])
    from kinv_typed [OF inv on_listI [of L TaskRegistry, OF rs this]] show ?thesis by (cases n) auto
  qed
  ultimately show ?thesis
    using t0 kinv_linked [OF inv on]
    by (intro kinv_registry_change [OF inv]) (simp_all add: sertos_scheduler_unregister_task_def)
qed

text \<open>The deletion of a task that is not running and waits for nothing.\<close>

lemma delete_refines:
  assumes inv: "kinv bits s L" and t: "t \<noteq> NULL" "tcb_magic (tcbs s t) = SERTOS_TASK_MAGIC_WORD" "t \<noteq> sertos_current_tcb s"
    and st: "if tcb_state (tcbs s t) = SERTOS_TASK_STATE_READY then on_list L (ReadyQ q) (StateNode t) \<and>
        L1 = L(ReadyQ q := map_option (remove1 (StateNode t)) (L (ReadyQ q)))
      else tcb_state (tcbs s t) = SERTOS_TASK_STATE_SUSPENDED \<and> L1 = L"
    and rs: "L TaskRegistry = Some rs" "RegistryNode t \<in> set rs"
  obtains s' where "sertos_task_delete E t s = Some (SERTOS_STATUS_OK, s')"
    and "kinv bits s' (L1(TaskRegistry \<mapsto> remove1 (RegistryNode t) rs))" and "\<And>a. a \<noteq> t \<Longrightarrow> tcbs s' a = tcbs s a"
    and "tcb_state (tcbs s' t) = SERTOS_TASK_STATE_TERMINATED" and "tcb_magic (tcbs s' t) = SERTOS_TASK_MAGIC_WORD"
    and "tcb_priority (tcbs s' t) = tcb_priority (tcbs s t)" and "tcb_wait_list (tcbs s' t) = tcb_wait_list (tcbs s t)"
    and "objects_kept s s'"
proof -
  let ?s1 = "s\<lparr>port := snd (sertos_port_enter_critical E (port s))\<rparr>"
  let ?s2 = "if tcb_state (tcbs s t) = SERTOS_TASK_STATE_READY then snd (sertos_scheduler_remove_ready E t ?s1) else ?s1"
  let ?s3 = "sertos_scheduler_unregister_task E t ?s2"
  let ?s4 = "upd_tcb t (\<lambda>t. t\<lparr>tcb_state := SERTOS_TASK_STATE_TERMINATED\<rparr>) ?s3"
  let ?h = "sertos_port_task_delete_hook E t (tcb_port_context (tcbs ?s4 t)) (port ?s4)"
  let ?s5 = "upd_tcb t (\<lambda>t. t\<lparr>tcb_port_context := fst ?h\<rparr>) (?s4\<lparr>port := snd ?h\<rparr>)"
  let ?s6 = "if \<not> tcb_is_statically_allocated (tcbs ?s5 t)
    then ?s5\<lparr>pool := memory_pool_free E t (memory_pool_free E (tcb_stack_base (tcbs ?s5 t)) (pool ?s5))\<rparr> else ?s5"
  let ?s7 = "exit_critical E (fst (sertos_port_enter_critical E (port s))) ?s6"
  have inv1: "kinv bits ?s1 L" using inv by simp
  have k2: "kinv bits ?s2 L1 \<and> L1 TaskRegistry = Some rs"
  proof (cases "tcb_state (tcbs s t) = SERTOS_TASK_STATE_READY")
    case True
    then have on: "on_list L (ReadyQ q) (StateNode t)" and L1: "L1 = L(ReadyQ q := map_option (remove1 (StateNode t)) (L (ReadyQ q)))"
      using st by auto
    obtain ns where ns: "L (ReadyQ q) = Some ns" "StateNode t \<in> set ns" using on by (rule on_listE)
    have "kinv bits (snd (sertos_scheduler_remove_ready E t ?s1)) (L(ReadyQ q \<mapsto> remove1 (StateNode t) ns))"
      by (rule remove_ready_kinv [OF inv1 _ ns]) (use kinv_ready [OF inv on] in simp)
    then show ?thesis using True ns rs by (simp add: L1)
  qed (use st inv1 rs in auto)
  then have "kinv bits ?s3 (L1(TaskRegistry \<mapsto> remove1 (RegistryNode t) rs))" using unregister_kinv rs(2) by blast
  then have "kinv bits ?s5 (L1(TaskRegistry \<mapsto> remove1 (RegistryNode t) rs))"
    by (intro kinv_upd_tcb) (simp_all add: same_sched_def)
  then have k7: "kinv bits ?s7 (L1(TaskRegistry \<mapsto> remove1 (RegistryNode t) rs))" by simp
  have valid: "task_change_ok t SERTOS_TASK_STATE_TERMINATED s"
    using t st by (auto simp: task_change_ok_def sertos_task_is_valid_transition_def s_task_transitions_def split: if_splits)
  have eq: "sertos_task_delete E t s = Some (SERTOS_STATUS_OK, ?s7)"
    using valid t(1,3)
    by (simp add: sertos_task_delete_def handle_or_current_def enter_critical_eq sertos_scheduler_get_current_tcb_def Let_def case_prod_beta)
  have fr: "sched_frame ?s1 ?s3" by (simp add: sertos_scheduler_unregister_task_def)
  have T: "tcbs ?s3 = tcbs s" by (simp add: sertos_scheduler_unregister_task_def)
  show thesis
    by (rule that [OF eq k7]) (use t(2) T sched_frameD(1,7,9-11) [OF fr] sched_frame_timer [OF fr] in \<open>simp_all add: objects_kept_def\<close>)
qed

text \<open>The lists after initialisation: all empty, nothing else known.\<close>

lemma init_ready_lists:
  "heap_ok h L \<Longrightarrow> heap_ok (fold (\<lambda>i. linked_list_init E (ReadyQ i)) ps h)
     (\<lambda>l. if l \<in> ReadyQ ` set ps then Some [] else L l)"
proof (induction ps arbitrary: h L)
  case (Cons p ps)
  have "(\<lambda>l. if l \<in> ReadyQ ` set ps then Some [] else (L(ReadyQ p \<mapsto> [])) l) =
      (\<lambda>l. if l \<in> ReadyQ ` set (p # ps) then Some [] else L l)" by (auto simp: fun_eq_iff)
  then show ?case using Cons.IH [OF ll.heap_ok_init [OF Cons.prems, of "ReadyQ p"]] by simp
qed simp

lemma init_lists_heap: "heap_ok (init_lists E h) empty_lists"
proof -
  have none: "heap_ok h (\<lambda>l. None)" by (simp add: heap_ok_def)
  have eq: "(\<lambda>l. if l \<in> ReadyQ ` set [0..<SERTOS_CONFIG_MAX_PRIORITIES] then Some [] else None)
      (DelayList \<mapsto> [], SuspendedList \<mapsto> [], TaskRegistry \<mapsto> []) = empty_lists"
    by (auto simp: fun_eq_iff empty_lists_def split: lst.splits)
  show ?thesis
    unfolding init_lists_def eq [symmetric] by (intro ll.heap_ok_init init_ready_lists none)
qed

lemma empty_lists_kinv:
  assumes "heap_ok (list_heap s) empty_lists" and "bits (s_ready_bitmap s) = {}"
  shows "kinv bits s empty_lists"
proof -
  have no: "\<not> on_list empty_lists l n" for l n by (auto simp: on_list_def empty_lists_def split: option.splits lst.splits)
  have "empty_lists (ReadyQ p) = Some []" if "p < SERTOS_CONFIG_MAX_PRIORITIES" for p
    using that by (simp add: empty_lists_def)
  then show ?thesis using assms
    by (auto simp: kinv_def base_lists_def typed_lists_def ready_ok_def delay_ok_def wait_ok_def bitmap_ok_def no)
      (simp_all add: empty_lists_def)
qed

text \<open>What the last step of the initialisation leaves alone.\<close>

definition boot_frame :: "('b, 'r, 'm, 'p) kstate \<Rightarrow> ('b, 'r, 'm, 'p) kstate \<Rightarrow> bool" where
  "boot_frame s s' \<longleftrightarrow> objects_kept s s' \<and>
     (\<forall>a. tcb_magic (tcbs s' a) = tcb_magic (tcbs s a) \<and> tcb_state (tcbs s' a) = tcb_state (tcbs s a) \<and>
        tcb_priority (tcbs s' a) = tcb_priority (tcbs s a))"

lemma stats_reset_kinv:
  assumes inv: "kinv bits s L"
  obtains s' where "sertos_stats_reset E s = Some s'" and "kinv bits s' L"
    and "sertos_current_tcb s' = sertos_current_tcb s" and "s_is_running s' = s_is_running s" and "boot_frame s s'"
proof -
  obtain rs where rs: "L TaskRegistry = Some rs" using inv by (auto simp: kinv_def base_lists_def)
  have "\<exists>a. n = RegistryNode a" if "n \<in> set rs" for n
    using kinv_typed [OF inv on_listI [of L TaskRegistry, OF rs that]] by (cases n) auto
  then have "\<exists>ts. rs = map RegistryNode ts" by (metis ex_map_conv)
  then obtain ts where ts: "rs = map RegistryNode ts" ..
  let ?st = "fst (sertos_port_enter_critical E (port s))"
  let ?s1 = "s\<lparr>port := snd (sertos_port_enter_critical E (port s))\<rparr>"
  let ?now = "sertos_port_runtime_counter E s"
  let ?s2 = "snd (fold (\<lambda>a (c, s). reset_visitor a c s) ts (?now, ?s1))"
  have fld: "kinv bits (snd (fold (\<lambda>a (c, s). reset_visitor a c s) ts (c, u))) L \<and>
      sertos_current_tcb (snd (fold (\<lambda>a (c, s). reset_visitor a c s) ts (c, u))) = sertos_current_tcb u \<and>
      s_is_running (snd (fold (\<lambda>a (c, s). reset_visitor a c s) ts (c, u))) = s_is_running u \<and>
      boot_frame u (snd (fold (\<lambda>a (c, s). reset_visitor a c s) ts (c, u)))"
    if "kinv bits u L" for u :: "('b, 'r, 'm, 'p) kstate" and c
    using that
  proof (induction ts arbitrary: u c)
    case (Cons t ts)
    have "kinv bits (snd (reset_visitor t c u)) L"
      unfolding reset_visitor_def using kinv_upd_tcb [OF Cons.prems] by (simp add: same_sched_def)
    then show ?case using Cons.IH by (simp add: reset_visitor_def boot_frame_def objects_kept_def)
  qed (simp add: boot_frame_def objects_kept_def)
  have "sertos_scheduler_visit_all_tasks E (Some reset_visitor) ?now s =
      Some (case fold (\<lambda>a (c, s). reset_visitor a c s) ts (?now, ?s1) of (c', s2) \<Rightarrow> (c', exit_critical E ?st s2))"
    by (rule visit_all_tasks_fold [OF inv]) (use rs ts in \<open>simp_all add: reset_visitor_def enter_critical_eq\<close>)
  then have "sertos_stats_reset E s = Some ((exit_critical E ?st ?s2)\<lparr>s_total_switches := 0\<rparr>)"
    by (simp add: sertos_stats_reset_def case_prod_beta)
  then show thesis by (rule that) (use fld [of ?s1 ?now] inv in \<open>simp_all add: boot_frame_def objects_kept_def\<close>)
qed

lemma init_refines:
  assumes idle: "s_idle_tcb E \<noteq> NULL" "idle_handle \<noteq> NULL" "cfg_stack_buffer (idle_config E config) \<noteq> NULL"
    and valid: "validate_task_config (Some (idle_config E config)) = SERTOS_STATUS_OK"
  obtains s' where "sertos_scheduler_init_with_config E config idle_handle s = Some (SERTOS_STATUS_OK, s')"
    and "kinv bits s' (empty_lists(ReadyQ 0 \<mapsto> [StateNode (s_idle_tcb E)], TaskRegistry \<mapsto> [RegistryNode (s_idle_tcb E)]))"
    and "sertos_current_tcb s' = NULL" and "\<not> s_is_running s'"
    and "sems s' = sems s" and "timers s' = timers s" and "queues s' = queues s" and "streams s' = streams s"
    and "s_timer_subsystem_initialized s' = s_timer_subsystem_initialized s"
    and "\<And>a. a \<noteq> s_idle_tcb E \<Longrightarrow> tcb_magic (tcbs s' a) = tcb_magic (tcbs s a)"
    and "tcb_magic (tcbs s' (s_idle_tcb E)) = SERTOS_TASK_MAGIC_WORD"
    and "tcb_state (tcbs s' (s_idle_tcb E)) = SERTOS_TASK_STATE_READY" and "tcb_priority (tcbs s' (s_idle_tcb E)) = 0"
proof -
  obtain b where b: "bitmap_init E SERTOS_CONFIG_MAX_PRIORITIES (s_ready_bitmap s) = (True, b)" "bits b = {}"
    using bm.init_bits [of "s_ready_bitmap s"] by (metis prod.collapse)
  let ?s3 = "(upd_heap (init_lists E) (s\<lparr>s_ready_bitmap := b\<rparr>))\<lparr>sertos_current_tcb := NULL, s_is_running := False,
    s_lock_nesting := 0, s_reschedule_pending := False, s_system_ticks := atomic_init_size_t E 0\<rparr>"
  let ?s4 = "configure_scheduler E config ?s3"
  have same: "list_heap ?s4 = init_lists E (list_heap s)" "s_ready_bitmap ?s4 = b" "sertos_current_tcb ?s4 = NULL"
    "\<not> s_is_running ?s4" "sems ?s4 = sems s" "timers ?s4 = timers s" "queues ?s4 = queues s" "streams ?s4 = streams s" "tcbs ?s4 = tcbs s"
    "s_timer_subsystem_initialized ?s4 = s_timer_subsystem_initialized s"
    by (simp_all add: configure_scheduler_def sertos_stats_set_enabled_def split: option.splits)
  have k4: "kinv bits ?s4 empty_lists"
    by (rule empty_lists_kinv) (use same b(2) init_lists_heap in simp_all)
  have fresh: "fresh_task (s_idle_tcb E) empty_lists"
    by (auto simp: fresh_task_def on_list_def empty_lists_def split: option.splits lst.splits)
  have pr: "cfg_priority (idle_config E config) = 0" by (simp add: idle_config_def Let_def)
  have l0: "empty_lists (ReadyQ (unat (cfg_priority (idle_config E config)))) = Some []"
    "empty_lists TaskRegistry = Some []" by (simp_all add: pr empty_lists_def SERTOS_CONFIG_MAX_PRIORITIES_def)
  obtain s5 where s5: "sertos_task_create_static E (Some (idle_config E config)) (s_idle_tcb E) idle_handle ?s4 =
      map_option (Pair SERTOS_STATUS_OK) (reschedule_if_running E s5)"
    "kinv bits s5 (empty_lists(ReadyQ (unat (cfg_priority (idle_config E config))) \<mapsto> [] @ [StateNode (s_idle_tcb E)],
      TaskRegistry \<mapsto> [] @ [RegistryNode (s_idle_tcb E)]))"
    "sertos_current_tcb s5 = sertos_current_tcb ?s4" "s_is_running s5 = s_is_running ?s4"
    "objects_kept ?s4 s5"
    "\<And>a. a \<noteq> s_idle_tcb E \<Longrightarrow> tcbs s5 a = tcbs ?s4 a" "tcb_magic (tcbs s5 (s_idle_tcb E)) = SERTOS_TASK_MAGIC_WORD"
    "tcb_state (tcbs s5 (s_idle_tcb E)) = SERTOS_TASK_STATE_READY"
    "tcb_priority (tcbs s5 (s_idle_tcb E)) = cfg_priority (idle_config E config)"
    by (rule create_static_refines [OF k4 fresh idle(1,2,3) valid l0], rule that)
  have r5: "reschedule_if_running E s5 = Some s5"
    using s5(4) same(4) by (simp add: reschedule_if_running_def sertos_scheduler_is_running_def)
  obtain s6 where s6: "sertos_stats_reset E s5 = Some s6"
    "kinv bits s6 (empty_lists(ReadyQ 0 \<mapsto> [StateNode (s_idle_tcb E)], TaskRegistry \<mapsto> [RegistryNode (s_idle_tcb E)]))"
    "sertos_current_tcb s6 = sertos_current_tcb s5" "s_is_running s6 = s_is_running s5" "boot_frame s5 s6"
    using stats_reset_kinv [OF s5(2)] by (simp add: pr) blast
  have "sertos_scheduler_init_with_config E config idle_handle s = Some (SERTOS_STATUS_OK, s6)"
    using b(1) s5(1) r5 s6(1) by (simp add: sertos_scheduler_init_with_config_def Let_def)
  then show thesis
    by (rule that) (use s6(2-4) s6(5) s5(3-9) same pr in \<open>simp_all add: boot_frame_def objects_kept_def\<close>)
qed

end

end
