(* ===== verification/Sertos_Task_Spec.thy ===== *)
theory Sertos_Task_Spec
  imports Sertos_Sem_Spec Sertos_Task
begin

text \<open>
  What task management guarantees: initialisation and creation establish the representation
  invariant, a new stack is painted and framed inside its buffer, suspension and resumption are inverse
  for a READY task, a priority change moves the task to the queue of its new priority; and
  what happens when a task suspends itself.
\<close>

section \<open>Initialisation and creation\<close>

text \<open>Whatever the state before, initialising the scheduler succeeds and leaves a consistent kernel with
  the idle task as the only one, READY at priority 0 and registered, nothing running yet.\<close>

theorem scheduler_init_establishes:
  assumes "kernel_env E bits" and "s_idle_tcb E \<noteq> NULL" and "idle_handle \<noteq> NULL"
    and "cfg_stack_buffer (idle_config E config) \<noteq> NULL"
    and "validate_task_config (Some (idle_config E config)) = SERTOS_STATUS_OK"
  shows "\<exists>s'. sertos_scheduler_init_with_config E config idle_handle s = Some (SERTOS_STATUS_OK, s') \<and>
    kinv bits s' (empty_lists(ReadyQ 0 \<mapsto> [StateNode (s_idle_tcb E)], TaskRegistry \<mapsto> [RegistryNode (s_idle_tcb E)])) \<and>
    sertos_current_tcb s' = NULL \<and> \<not> s_is_running s'"
  by (rule kernel_env.init_refines [OF assms]) blast

lemma quiet_idle:
  "s_idle_tcb quiet_env = 0x20000000" "cfg_stack_buffer (idle_config quiet_env None) \<noteq> NULL"
  "validate_task_config (Some (idle_config quiet_env None)) = SERTOS_STATUS_OK"
  by (simp_all add: validate_task_config_OK idle_config_def quiet_env_def ref_env_def SERTOS_CONFIG_MAX_PRIORITIES_def
      SERTOS_CONFIG_MINIMAL_STACK_SIZE_def SERTOS_CONFIG_IDLE_TASK_STACK_SIZE_def SERTOS_CONFIG_STACK_ALIGNMENT_BYTES_def
      word_le_nat_alt)

theorem scheduler_init_establishes_witness:
  "\<exists>s' L'. sertos_scheduler_init_with_config quiet_env None 0x700 demo = Some (SERTOS_STATUS_OK, s') \<and>
     kinv ref_bits s' L' \<and> L' (ReadyQ 0) = Some [StateNode 0x20000000]"
  using scheduler_init_establishes [OF quiet_kernel_env, of "0x700" None demo] quiet_idle by fastforce

text \<open>C23: creating a task from a valid configuration in an unused control block appends it, READY at its configured
  priority, to that ready queue and to the registry, publishes its handle and reschedules from a consistent state.\<close>

theorem task_create_static_correct:
  assumes "kernel_env E bits" and "kinv bits s L" and "fresh_task t L" and "t \<noteq> NULL" and "out \<noteq> NULL"
    and "cfg_stack_buffer c \<noteq> NULL" and "validate_task_config (Some c) = SERTOS_STATUS_OK"
    and "L (ReadyQ (unat (cfg_priority c))) = Some ns" and "L TaskRegistry = Some rs"
  shows "\<exists>s'. sertos_task_create_static E (Some c) t out s =
      map_option (Pair SERTOS_STATUS_OK) (reschedule_if_running E s') \<and>
    kinv bits s' (L(ReadyQ (unat (cfg_priority c)) \<mapsto> ns @ [StateNode t], TaskRegistry \<mapsto> rs @ [RegistryNode t])) \<and>
    ptr_cells s' out = t \<and> (\<forall>a. a \<noteq> t \<longrightarrow> tcbs s' a = tcbs s a) \<and>
    tcb_priority (tcbs s' t) = cfg_priority c \<and> tcb_state (tcbs s' t) = SERTOS_TASK_STATE_READY"
  by (rule kernel_env.create_static_refines [OF assms]) blast

definition demo_config :: task_config where
  "demo_config = \<lparr>cfg_name = None, cfg_entry_func = 0x8000200, cfg_param = 0, cfg_priority = 9,
     cfg_stack_buffer = 0x20002000, cfg_stack_size = 512\<rparr>"

lemma demo_config_ok: "validate_task_config (Some demo_config) = SERTOS_STATUS_OK" "cfg_stack_buffer demo_config \<noteq> NULL"
  by (simp_all add: validate_task_config_OK demo_config_def SERTOS_CONFIG_MAX_PRIORITIES_def word_le_nat_alt
      SERTOS_CONFIG_MINIMAL_STACK_SIZE_def SERTOS_CONFIG_STACK_ALIGNMENT_BYTES_def)

theorem task_create_static_correct_witness:
  "\<exists>s' L'. sertos_task_create_static quiet_env (Some demo_config) 0xA00 0x700 demo =
       map_option (Pair SERTOS_STATUS_OK) (reschedule_if_running quiet_env s') \<and>
     kinv ref_bits s' L' \<and> L' (ReadyQ 9) = Some [StateNode 0xA00] \<and> ptr_cells s' 0x700 = 0xA00"
proof -
  have "fresh_task 0xA00 (lists_of demo_layout)" by (auto simp: fresh_task_def on_lists_of demo_layout_def)
  moreover have "lists_of demo_layout (ReadyQ (unat (cfg_priority demo_config))) = Some []"
    "lists_of demo_layout TaskRegistry = Some []" by (simp_all add: lists_of_def demo_layout_def demo_config_def)
  moreover have "unat (cfg_priority demo_config) = 9" by (simp add: demo_config_def)
  ultimately show ?thesis
    using task_create_static_correct [OF quiet_kernel_env demo_inv, of "0xA00" "0x700" demo_config "[]" "[]"] demo_config_ok
    by fastforce
qed

text \<open>C24: the stack of a new task lies in its buffer: the stack pointer leaves exactly the port's frame below the aligned
  top, and the high-water mark reports at least everything below that frame as unused.\<close>

theorem new_stack_painted:
  assumes "stack_port (sertos_port_stack_init E) fs" and "validate_task_config (Some c) = SERTOS_STATUS_OK"
    and "cfg_stack_buffer c \<noteq> NULL" and "unat (cfg_stack_buffer c) + unat (cfg_stack_size c) < 2 ^ 32" and "t \<noteq> NULL"
  shows "unat (cfg_stack_buffer c) \<le> unat (tcb_stack_ptr (tcbs (init_tcb_and_stack E t c st s) t)) \<and>
    unat (tcb_stack_ptr (tcbs (init_tcb_and_stack E t c st s) t)) + fs \<le> unat (cfg_stack_buffer c) + unat (cfg_stack_size c) \<and>
    unat (cfg_stack_size c) - unat (cfg_stack_size c) mod 8 - fs \<le>
      unat (sertos_task_get_stack_high_water_mark t (init_tcb_and_stack E t c st s))"
proof -
  have v: "cfg_stack_buffer c mod SERTOS_CONFIG_STACK_ALIGNMENT_BYTES = 0" "SERTOS_CONFIG_MINIMAL_STACK_SIZE \<le> cfg_stack_size c"
    using assms(2) by (simp_all add: validate_task_config_OK)
  note sp = stack_port.stack_ptr_in_buffer [OF assms(1) v assms(4)]
  note hw = stack_port.high_water_new_stack [OF assms(1) v assms(4)]
  show ?thesis
    using sp hw assms(5)
    by (simp add: init_tcb_and_stack_def Let_def new_tcb_def sertos_task_get_stack_high_water_mark_def split: prod.splits)
      (metis fst_conv snd_conv)
qed

theorem new_stack_painted_witness:
  "440 \<le> unat (sertos_task_get_stack_high_water_mark 0xA00 (init_tcb_and_stack quiet_env 0xA00 demo_config True demo))"
proof -
  have "sertos_port_stack_init quiet_env = cortex_m4_stack_init" by (simp add: quiet_env_def ref_env_def)
  then have "stack_port (sertos_port_stack_init quiet_env) 68" using m4_stack.stack_port_axioms by simp
  then show ?thesis
    using new_stack_painted [of quiet_env 68 demo_config "0xA00" True demo] demo_config_ok by (simp add: demo_config_def)
qed

section \<open>Suspension, resumption and priorities\<close>

text \<open>C25: suspending a READY task takes it out of its ready queue, and resuming it puts it back at the tail of that queue;
  all control blocks are then as before.\<close>

theorem suspend_resume_roundtrip:
  assumes "kernel_env E bits" and "kinv bits s L" and "tcb_magic (tcbs s t) = SERTOS_TASK_MAGIC_WORD"
    and "t \<noteq> sertos_current_tcb s" and "L (ReadyQ q) = Some ns" and "StateNode t \<in> set ns"
    and "tcb_state (tcbs s t) = SERTOS_TASK_STATE_READY"
  shows "\<exists>s1 s2. sertos_task_suspend E t s = Some (SERTOS_STATUS_OK, s1) \<and>
    kinv bits s1 (L(ReadyQ q \<mapsto> remove1 (StateNode t) ns)) \<and>
    tcb_state (tcbs s1 t) = SERTOS_TASK_STATE_SUSPENDED \<and>
    sertos_task_resume E t s1 = map_option (Pair SERTOS_STATUS_OK) (reschedule_if_running E s2) \<and>
    kinv bits s2 (L(ReadyQ q \<mapsto> remove1 (StateNode t) ns @ [StateNode t])) \<and> tcbs s2 = tcbs s"
proof -
  have on: "on_list L (ReadyQ q) (StateNode t)" using assms(5,6) by (simp add: on_list_Some)
  let ?L1 = "L(ReadyQ q := map_option (remove1 (StateNode t)) (L (ReadyQ q)))"
  obtain s1 where s1: "sertos_task_suspend E t s = Some (SERTOS_STATUS_OK, s1)" "kinv bits s1 ?L1"
    "\<And>l. \<not> on_list ?L1 l (StateNode t)"
    "tcbs s1 = (tcbs s)(t := (tcbs s t)\<lparr>tcb_state := SERTOS_TASK_STATE_SUSPENDED\<rparr>)"
    "tcb_wait_list (tcbs s t) = None" "unat (tcb_priority (tcbs s t)) = q" "t \<noteq> NULL"
    by (rule kernel_env.suspend_ready_refines [OF assms(1-4) on assms(7)], rule that)
  have t1: "tcb_magic (tcbs s1 t) = SERTOS_TASK_MAGIC_WORD" "tcb_state (tcbs s1 t) = SERTOS_TASK_STATE_SUSPENDED"
    "tcb_wait_list (tcbs s1 t) = None" "unat (tcb_priority (tcbs s1 t)) = q" using s1(4-6) assms(3) by simp_all
  have q: "q < SERTOS_CONFIG_MAX_PRIORITIES" using kinv_ready [OF assms(2) on] by simp
  have L1: "?L1 (ReadyQ q) = Some (remove1 (StateNode t) ns)" using assms(5) by simp
  obtain s2 where s2: "sertos_task_resume E t s1 = map_option (Pair SERTOS_STATUS_OK) (reschedule_if_running E s2)"
    "kinv bits s2 (?L1(ReadyQ q \<mapsto> remove1 (StateNode t) ns @ [StateNode t]))"
    "tcbs s2 = (tcbs s1)(t := (tcbs s1 t)\<lparr>tcb_state := SERTOS_TASK_STATE_READY\<rparr>)"
    by (rule kernel_env.resume_refines [OF assms(1) s1(2,7) t1(1,2) s1(3) t1(3,4) q L1], rule that)
  have "tcbs s2 = tcbs s" using assms(7) by (auto simp: s2(3) s1(4) fun_eq_iff)
  then show ?thesis using s1(1,2) s2(1,2) t1(2) assms(5) by (intro exI [of _ s1] exI [of _ s2]) simp
qed

theorem suspend_resume_roundtrip_witness:
  "\<exists>s1 s2. sertos_task_suspend quiet_env 0x200 demo = Some (SERTOS_STATUS_OK, s1) \<and>
     sertos_task_resume quiet_env 0x200 s1 = map_option (Pair SERTOS_STATUS_OK) (reschedule_if_running quiet_env s2) \<and>
     kinv ref_bits s2 (lists_of demo_layout)"
proof -
  have "lists_of demo_layout (ReadyQ 5) = Some [StateNode 0x100, StateNode 0x200]"
    by (simp add: lists_of_def demo_layout_def)
  moreover from this have "(lists_of demo_layout)(ReadyQ 5 \<mapsto> [StateNode 0x100, StateNode 0x200]) = lists_of demo_layout"
    by (simp add: fun_upd_idem)
  moreover have "tcb_magic (demo_tcbs 0x200) = SERTOS_TASK_MAGIC_WORD" "tcb_state (demo_tcbs 0x200) = SERTOS_TASK_STATE_READY"
    by (simp_all add: demo_tcbs_def demo_tcb_def)
  ultimately show ?thesis
    using suspend_resume_roundtrip [OF quiet_kernel_env demo_inv, of "0x200" 5] by (fastforce simp: demo_facts)
qed

text \<open>Changing the priority of a READY task moves it to the tail of the ready queue of the new priority.\<close>

theorem set_priority_moves_ready:
  assumes "kernel_env E bits" and "kinv bits s L" and "t \<noteq> NULL" and "tcb_magic (tcbs s t) = SERTOS_TASK_MAGIC_WORD"
    and "on_list L (ReadyQ q) (StateNode t)" and "tcb_state (tcbs s t) = SERTOS_TASK_STATE_READY"
    and "unat prio < SERTOS_CONFIG_MAX_PRIORITIES"
  shows "\<exists>s'. sertos_task_set_priority E t prio s = map_option (Pair SERTOS_STATUS_OK) (reschedule_if_running E s') \<and>
    kinv bits s' (requeue_lists t q (unat prio) L) \<and>
    tcbs s' = (tcbs s)(t := (tcbs s t)\<lparr>tcb_priority := prio, tcb_base_priority := prio\<rparr>)"
  by (rule kernel_env.set_priority_ready_refines [OF assms]) blast

theorem set_priority_moves_ready_witness:
  "\<exists>s'. sertos_task_set_priority quiet_env 0x200 9 demo = map_option (Pair SERTOS_STATUS_OK) (reschedule_if_running quiet_env s') \<and>
     kinv ref_bits s' (requeue_lists 0x200 5 9 (lists_of demo_layout))"
proof -
  have "on_list (lists_of demo_layout) (ReadyQ 5) (StateNode 0x200)" by (simp add: on_lists_of demo_layout_def)
  moreover have "tcb_magic (demo_tcbs 0x200) = SERTOS_TASK_MAGIC_WORD" "tcb_state (demo_tcbs 0x200) = SERTOS_TASK_STATE_READY"
    by (simp_all add: demo_tcbs_def demo_tcb_def)
  ultimately show ?thesis
    using set_priority_moves_ready [OF quiet_kernel_env demo_inv, of "0x200" 5 9]
    by (auto simp: demo_facts SERTOS_CONFIG_MAX_PRIORITIES_def)
qed

text \<open>C39: a task that suspends itself is marked SUSPENDED but not taken out of its ready queue, because only READY tasks
  are. When it heads the highest non-empty queue (and no rotation intervenes) the scheduler selects it again: the call
  returns at once and the task goes on running.\<close>

theorem self_suspend_keeps_running:
  assumes "kernel_env E bits" and "kinv bits s L" and "sertos_current_tcb s = c" and "c \<noteq> NULL"
    and "tcb_magic (tcbs s c) = SERTOS_TASK_MAGIC_WORD" and "tcb_state (tcbs s c) = SERTOS_TASK_STATE_RUNNING"
    and "s_is_running s" and "s_lock_nesting s = 0" and "\<not> s_time_slicing_enabled s" and "abs_select L = c"
  shows "\<exists>s'. sertos_task_suspend E NULL s = Some (SERTOS_STATUS_OK, s') \<and> kinv bits s' L \<and>
    sertos_current_tcb s' = c \<and> tcb_state (tcbs s' c) = SERTOS_TASK_STATE_SUSPENDED \<and>
    sertos_scheduler_select_next_task E s' = Some c"
proof -
  let ?s1 = "s\<lparr>port := snd (sertos_port_enter_critical E (port s))\<rparr>"
  let ?s3 = "upd_tcb c (\<lambda>t. t\<lparr>tcb_state := SERTOS_TASK_STATE_SUSPENDED\<rparr>) ?s1"
  let ?s4 = "exit_critical E (fst (sertos_port_enter_critical E (port s))) ?s3"
  let ?s5 = "exit_critical E (fst (sertos_port_enter_critical E (port ?s4)))
    (?s4\<lparr>port := snd (sertos_port_enter_critical E (port ?s4))\<rparr>)"
  have k5: "kinv bits ?s5 L" using assms(2) by simp
  have c5: "s_lock_nesting ?s5 = 0" "abs_select L = NULL \<or> abs_select L = sertos_current_tcb ?s5" using assms(3,8,10) by simp_all
  obtain p where p: "sertos_scheduler_switch_context E ?s5 = Some (?s5\<lparr>port := p\<rparr>)"
    using kernel_env.switch_context_stays [OF assms(1) k5 c5] by blast
  have y: "sertos_scheduler_yield E ?s4 = sertos_scheduler_switch_context E ?s5"
    using assms(9) by (simp add: sertos_scheduler_yield_def enter_critical_eq process_time_slicing_def)
  have "task_change_ok c SERTOS_TASK_STATE_SUSPENDED s"
    using assms(4-6) by (simp add: task_change_ok_def sertos_task_is_valid_transition_def s_task_transitions_def)
  then have "sertos_task_suspend E NULL s = Some (SERTOS_STATUS_OK, ?s5\<lparr>port := p\<rparr>)"
    using assms(3,6,7) y p
    by (simp add: sertos_task_suspend_def handle_or_current_def enter_critical_eq sertos_scheduler_get_current_tcb_def
        sertos_scheduler_is_running_def Let_def)
  moreover have "kinv bits (?s5\<lparr>port := p\<rparr>) L" using k5 by simp
  moreover from this have "sertos_scheduler_select_next_task E (?s5\<lparr>port := p\<rparr>) = Some c"
    using kernel_env.select_next_refines [OF assms(1)] assms(10) by blast
  ultimately show ?thesis using assms(3) by (intro exI [of _ "?s5\<lparr>port := p\<rparr>"]) simp
qed

theorem self_suspend_keeps_running_witness:
  "\<exists>s'. sertos_task_suspend quiet_env NULL (demo\<lparr>s_time_slicing_enabled := False\<rparr>) = Some (SERTOS_STATUS_OK, s') \<and>
     sertos_current_tcb s' = 0x100 \<and> tcb_state (tcbs s' 0x100) = SERTOS_TASK_STATE_SUSPENDED"
proof -
  let ?d = "demo\<lparr>s_time_slicing_enabled := False\<rparr>"
  have k: "kinv ref_bits ?d (lists_of demo_layout)" using demo_inv by (simp add: kinv_def)
  show ?thesis
    using demo_select self_suspend_keeps_running [OF quiet_kernel_env k, of "0x100"]
    by (auto simp: demo_facts demo_tcbs_def demo_tcb_def)
qed

end
