(* ===== verification/Sertos_Timer_Calls.thy ===== *)
theory Sertos_Timer_Calls
  imports Sertos_Sched
begin

text \<open>
  What the calls that start, stop, delete and create software timers do to the kernel: they change the list of active timers and one
  control block, and keep \<open>timer_inv\<close>, by which a timer is active exactly if it is on that list.
\<close>

definition timer_frame :: "('b, 'r, 'm, 'p) kstate \<Rightarrow> ('b, 'r, 'm, 'p) kstate \<Rightarrow> bool" where
  "timer_frame s s' \<longleftrightarrow> tcbs s' = tcbs s \<and> sertos_current_tcb s' = sertos_current_tcb s \<and> sems s' = sems s \<and>
     queues s' = queues s \<and> streams s' = streams s"

lemma upd_timer_frame [simp]:
  "sems (upd_timer a f s) = sems s" "s_timer_subsystem_initialized (upd_timer a f s) = s_timer_subsystem_initialized s"
  "pool (upd_timer a f s) = pool s" "ptr_cells (upd_timer a f s) = ptr_cells s"
  "queues (upd_timer a f s) = queues s" "streams (upd_timer a f s) = streams s"
  by (simp_all add: upd_timer_def)

lemma timer_inv_upd:
  assumes ti: "timer_inv s L" and ns: "L ActiveTimers = Some ns" and t: "timers s' = (timers s)(a := t)"
    and others: "\<And>b. b \<noteq> a \<Longrightarrow> (TimerNode b \<in> set ns') = (TimerNode b \<in> set ns)"
    and this_one: "tmr_magic t = SERTOS_TIMER_MAGIC_WORD \<Longrightarrow> tmr_is_active t = (TimerNode a \<in> set ns')"
  shows "timer_inv s' (L(ActiveTimers \<mapsto> ns'))"
proof -
  have "tmr_is_active (timers s' b) = (TimerNode b \<in> set ns')" if "timer_handle_ok b s'" for b
  proof (cases "b = a")
    case True
    then show ?thesis using that this_one t by (simp add: timer_handle_ok_def)
  next
    case False
    then have "timer_handle_ok b s" using that t by (simp add: timer_handle_ok_def)
    then show ?thesis using ti ns others [OF False] False t by (simp add: timer_inv_def on_list_Some)
  qed
  then show ?thesis by (simp add: timer_inv_def on_list_Some)
qed

lemma timer_inv_active: "timer_inv s L \<Longrightarrow> timer_handle_ok a s \<Longrightarrow> L ActiveTimers = Some ns \<Longrightarrow>
  tmr_is_active (timers s a) = (TimerNode a \<in> set ns)"
  by (simp add: timer_inv_def on_list_Some)

context kernel_env
begin

text \<open>Taking a timer off the list if it is active, as each of the calls does first.\<close>

lemma timer_detach:
  assumes inv: "kinv bits s L" and ns: "L ActiveTimers = Some ns" and act: "tmr_is_active (timers s a) = (TimerNode a \<in> set ns)"
    and s': "s' = (if tmr_is_active (timers s a) then upd_heap g s else s)"
    and g: "g \<in> {linked_list_remove_direct E ActiveTimers (TimerNode a),
      \<lambda>h. clear_node (TimerNode a) (linked_list_remove_direct E ActiveTimers (TimerNode a) h)}"
  shows "kinv bits s' (L(ActiveTimers \<mapsto> remove1 (TimerNode a) ns))"
proof (cases "tmr_is_active (timers s a)")
  case True
  then show ?thesis using act s' g by (intro timer_unlink [OF inv ns]) auto
next
  case False
  then have "L(ActiveTimers \<mapsto> remove1 (TimerNode a) ns) = L" using act ns by (simp add: remove1_idem fun_upd_idem)
  then show ?thesis using inv s' False by simp
qed

lemma timer_start_refines:
  assumes inv: "kinv bits s L" and h: "timer_handle_ok a s" and ns: "L ActiveTimers = Some ns"
    and act: "tmr_is_active (timers s a) = (TimerNode a \<in> set ns)"
  obtains s' where "sertos_timer_start E a s = (SERTOS_STATUS_OK, s')"
    and "kinv bits s' (L(ActiveTimers \<mapsto> remove1 (TimerNode a) ns @ [TimerNode a]))"
    and "timers s' = (timers s)(a := (timers s a)\<lparr>tmr_remaining_ticks := tmr_period_ticks (timers s a), tmr_is_active := True\<rparr>)"
    and "timer_frame s s'" and "s_timer_subsystem_initialized s' = s_timer_subsystem_initialized s"
proof -
  let ?st = "fst (sertos_port_enter_critical E (port s))"
  let ?s = "s\<lparr>port := snd (sertos_port_enter_critical E (port s))\<rparr>"
  let ?s2 = "if tmr_is_active (timers ?s a) then upd_heap (linked_list_remove_direct E ActiveTimers (TimerNode a)) ?s else ?s"
  let ?s3 = "upd_timer a (\<lambda>t. t\<lparr>tmr_remaining_ticks := tmr_period_ticks t, tmr_is_active := True\<rparr>) ?s2"
  let ?s4 = "upd_heap (linked_list_insert_tail_direct E ActiveTimers (TimerNode a)) ?s3"
  let ?L = "L(ActiveTimers \<mapsto> remove1 (TimerNode a) ns)"
  have "kinv bits ?s2 ?L"
    by (rule timer_detach [of ?s L ns a ?s2 "linked_list_remove_direct E ActiveTimers (TimerNode a)"]) (use inv ns act in simp_all)
  then have k3: "kinv bits ?s3 ?L" by simp
  have "TimerNode a \<notin> set (remove1 (TimerNode a) ns)" using heap_ok_distinct [OF kinv_heap [OF inv] ns] by simp
  moreover have "a \<noteq> NULL" using h by (simp add: timer_handle_ok_def)
  ultimately have "kinv bits ?s4 (?L(ActiveTimers \<mapsto> remove1 (TimerNode a) ns @ [TimerNode a]))"
    by (intro timer_link [OF k3]) simp_all
  then have k4: "kinv bits (exit_critical E ?st ?s4) (L(ActiveTimers \<mapsto> remove1 (TimerNode a) ns @ [TimerNode a]))" by simp
  have "sertos_timer_start E a s = (SERTOS_STATUS_OK, exit_critical E ?st ?s4)"
    using h by (simp add: sertos_timer_start_def enter_critical_eq Let_def)
  then show thesis by (rule that [OF _ k4]) (simp_all add: timer_frame_def)
qed

lemma timer_stop_refines:
  assumes inv: "kinv bits s L" and h: "timer_handle_ok a s" and ns: "L ActiveTimers = Some ns"
    and act: "tmr_is_active (timers s a) = (TimerNode a \<in> set ns)"
  obtains s' where "sertos_timer_stop E a s = (SERTOS_STATUS_OK, s')"
    and "kinv bits s' (L(ActiveTimers \<mapsto> remove1 (TimerNode a) ns))"
    and "timers s' = (timers s)(a := (timers s a)\<lparr>tmr_is_active := False\<rparr>)"
    and "timer_frame s s'" and "s_timer_subsystem_initialized s' = s_timer_subsystem_initialized s"
proof -
  let ?st = "fst (sertos_port_enter_critical E (port s))"
  let ?s = "s\<lparr>port := snd (sertos_port_enter_critical E (port s))\<rparr>"
  let ?g = "\<lambda>h. clear_node (TimerNode a) (linked_list_remove_direct E ActiveTimers (TimerNode a) h)"
  let ?s2 = "if tmr_is_active (timers ?s a) then upd_heap ?g ?s else ?s"
  let ?s3 = "if tmr_is_active (timers ?s a) then upd_timer a (\<lambda>t. t\<lparr>tmr_is_active := False\<rparr>) ?s2 else ?s2"
  have "kinv bits ?s2 (L(ActiveTimers \<mapsto> remove1 (TimerNode a) ns))"
    by (rule timer_detach [of ?s L ns a ?s2 ?g]) (use inv ns act in simp_all)
  then have k: "kinv bits (exit_critical E ?st ?s3) (L(ActiveTimers \<mapsto> remove1 (TimerNode a) ns))" by (simp split: if_splits)
  have "sertos_timer_stop E a s = (SERTOS_STATUS_OK, exit_critical E ?st ?s3)"
    using h by (simp add: sertos_timer_stop_def enter_critical_eq Let_def)
  moreover have "timers (exit_critical E ?st ?s3) = (timers s)(a := (timers s a)\<lparr>tmr_is_active := False\<rparr>)"
    by (cases "timers s a") (simp add: fun_eq_iff)
  ultimately show thesis by (rule that [OF _ k]) (simp_all add: timer_frame_def)
qed

lemma timer_delete_refines:
  assumes inv: "kinv bits s L" and h: "timer_handle_ok a s" and ns: "L ActiveTimers = Some ns"
    and act: "tmr_is_active (timers s a) = (TimerNode a \<in> set ns)"
  obtains s' where "sertos_timer_delete E a s = (SERTOS_STATUS_OK, s')"
    and "kinv bits s' (L(ActiveTimers \<mapsto> remove1 (TimerNode a) ns))"
    and "timers s' = (timers s)(a := (timers s a)\<lparr>tmr_is_active := False, tmr_magic := 0\<rparr>)"
    and "timer_frame s s'" and "s_timer_subsystem_initialized s' = s_timer_subsystem_initialized s"
proof -
  let ?st = "fst (sertos_port_enter_critical E (port s))"
  let ?s = "s\<lparr>port := snd (sertos_port_enter_critical E (port s))\<rparr>"
  let ?g = "linked_list_remove_direct E ActiveTimers (TimerNode a)"
  let ?s2 = "if tmr_is_active (timers ?s a) then upd_heap ?g ?s else ?s"
  let ?s3 = "if tmr_is_active (timers ?s a) then upd_timer a (\<lambda>t. t\<lparr>tmr_is_active := False\<rparr>) ?s2 else ?s2"
  let ?s4 = "upd_timer a (\<lambda>t. t\<lparr>tmr_magic := 0\<rparr>) ?s3"
  let ?s5 = "if \<not> tmr_is_statically_allocated (timers ?s4 a) then ?s4\<lparr>pool := memory_pool_free E a (pool ?s4)\<rparr> else ?s4"
  have "kinv bits ?s2 (L(ActiveTimers \<mapsto> remove1 (TimerNode a) ns))"
    by (rule timer_detach [of ?s L ns a ?s2 ?g]) (use inv ns act in simp_all)
  then have k: "kinv bits (exit_critical E ?st ?s5) (L(ActiveTimers \<mapsto> remove1 (TimerNode a) ns))" by (simp split: if_splits)
  have "sertos_timer_delete E a s = (SERTOS_STATUS_OK, exit_critical E ?st ?s5)"
    using h by (simp add: sertos_timer_delete_def enter_critical_eq Let_def)
  moreover have "timers (exit_critical E ?st ?s5) = (timers s)(a := (timers s a)\<lparr>tmr_is_active := False, tmr_magic := 0\<rparr>)"
    by (cases "timers s a") (simp add: fun_eq_iff)
  ultimately show thesis by (rule that [OF _ k]) (simp_all add: timer_frame_def)
qed

text \<open>Initialising the service, and a control block that is not on the list.\<close>

lemma timer_init_refines:
  assumes "kinv bits s L"
  shows "kinv bits (sertos_timer_init E s) (L(ActiveTimers \<mapsto> []))"
  by (rule kinv_timers_change [OF assms])
    (simp_all add: sertos_timer_init_def ll.heap_ok_init [OF kinv_heap [OF assms]])

lemma timer_clear_refines:
  assumes inv: "kinv bits s L" and "\<not> on_list L ActiveTimers (TimerNode a)"
    and s': "list_heap s' = clear_node (TimerNode a) (list_heap s)" "s_ready_bitmap s' = s_ready_bitmap s" "tcbs s' = tcbs s"
  shows "kinv bits s' L"
proof -
  have "\<not> on_list L k (TimerNode a)" for k
    using kinv_typed [OF inv, of k "TimerNode a"] assms(2) by (cases k) auto
  then have "heap_ok (list_heap s') L"
    unfolding s'(1) by (intro heap_ok_clear_node [OF kinv_heap [OF inv]]) (auto simp: nodes_on_list)
  then show ?thesis using inv s'(2,3) by (simp add: kinv_def)
qed

end

end
