(* ===== verification/Sertos_Timer_Spec.thy ===== *)
theory Sertos_Timer_Spec
  imports Sertos_Sem_Spec Sertos_Timer_Calls
begin

text \<open>
  What the timer service guarantees: one tick counts every active timer down once and runs the callbacks of
  those that are due, starting and stopping keep the list of active timers exact, a started timer is due
  after exactly its period; and what a callback that stops another timer does to the walk.
\<close>

section \<open>States of the witnesses\<close>

definition timer_layout :: layout where
  "timer_layout = (ActiveTimers, TimerNode 0xB10) # (ActiveTimers, TimerNode 0xB00) # demo_layout"

definition timer_demo :: ref_state where
  "timer_demo = (demo_state timer_layout demo_tcbs 0x100)\<lparr>timers := (\<lambda>a. \<lparr>tmr_name = None, tmr_period_ticks = 5,
     tmr_remaining_ticks = 1, tmr_is_periodic = True, tmr_is_active = (a = 0xB00 \<or> a = 0xB10), tmr_callback = a, tmr_param = 0,
     tmr_is_statically_allocated = True, tmr_magic = SERTOS_TIMER_MAGIC_WORD\<rparr>)\<rparr>"

lemma timer_demo_inv: "kinv ref_bits timer_demo (lists_of timer_layout)"
proof -
  have "layout_ok demo_tcbs timer_layout"
    by (simp add: layout_ok_def timer_layout_def demo_layout_def op_ok_def demo_tcbs_def demo_tcb_def
        SERTOS_CONFIG_MAX_PRIORITIES_def)
  from demo_kinv [OF this, of "0x100"] show ?thesis by (simp add: timer_demo_def kinv_def)
qed

lemma timer_demo_facts:
  "s_timer_subsystem_initialized timer_demo"
  "lists_of timer_layout ActiveTimers = Some [TimerNode 0xB00, TimerNode 0xB10]"
  "timer_handle_ok 0xB00 timer_demo" "timer_handle_ok 0xB10 timer_demo"
  by (simp_all add: timer_demo_def demo_state_def lists_of_def timer_layout_def demo_layout_def timer_handle_ok_def)

section \<open>The tick\<close>

text \<open>C26: with callbacks that return, keep the kernel consistent and leave all timers and the timer list alone, one tick is one step of every active timer in list order:
  it returns, every active timer has counted down or reloaded, the expired one-shot timers and only they have
  left the list, and the kernel is consistent.\<close>

theorem timer_tick_correct:
  assumes "kernel_env E bits" and "kinv bits s L" and "s_timer_subsystem_initialized s"
    and "L ActiveTimers = Some (map TimerNode ts)" and "calm_callbacks E bits"
  shows "\<exists>s' L'. sertos_timer_tick E s = Some s' \<and> timer_tick_each E ts s = Some s' \<and> kinv bits s' L' \<and>
    L' ActiveTimers = Some (map TimerNode (filter (\<lambda>a. \<not> timer_leaves (timers s a)) ts)) \<and>
    timers s' = (\<lambda>a. if a \<in> set ts then timer_after_tick (timers s a) else timers s a)"
  by (rule timer_walk.timer_tick_refines [OF kinv_timer_walk [OF assms(1,5)] assms(2-4)])

theorem timer_tick_correct_witness:
  "\<exists>s' L'. sertos_timer_tick quiet_env timer_demo = Some s' \<and> kinv ref_bits s' L' \<and>
     L' ActiveTimers = Some [TimerNode 0xB00, TimerNode 0xB10] \<and> tmr_remaining_ticks (timers s' 0xB00) = 5"
proof -
  have "tmr_is_periodic (timers timer_demo a)" "timer_due (timers timer_demo a)" "tmr_period_ticks (timers timer_demo a) = 5" for a
    by (simp_all add: timer_demo_def timer_due_def)
  then show ?thesis
    using timer_tick_correct [OF quiet_kernel_env timer_demo_inv timer_demo_facts(1), of "[0xB00, 0xB10]"] quiet_env_fair(1)
    by (auto simp: timer_demo_facts timer_leaves_def timer_after_tick_def)
qed

section \<open>Starting and stopping\<close>

text \<open>A timer counts down from its remaining ticks and is due in the last of them.\<close>

lemma after_ticks_remaining:
  "k < unat (tmr_remaining_ticks t) \<Longrightarrow>
   unat (tmr_remaining_ticks ((timer_after_tick ^^ k) t)) = unat (tmr_remaining_ticks t) - k"
proof (induction k)
  case (Suc k)
  let ?u = "(timer_after_tick ^^ k) t"
  have u: "unat (tmr_remaining_ticks ?u) = unat (tmr_remaining_ticks t) - k" using Suc by simp
  then have "\<not> timer_due ?u" using Suc.prems by (simp add: timer_due_def word_le_nat_alt)
  moreover have "0 < tmr_remaining_ticks ?u" using u Suc.prems by (simp add: word_less_nat_alt)
  ultimately show ?case using u by (simp add: timer_after_tick_def [of ?u] unat_minus_one_pos)
qed simp

lemma due_after_remaining:
  "k < unat (tmr_remaining_ticks t) \<Longrightarrow>
   timer_due ((timer_after_tick ^^ k) t) \<longleftrightarrow> Suc k = unat (tmr_remaining_ticks t)"
  using after_ticks_remaining [of k t] by (auto simp: timer_due_def word_le_nat_alt)

text \<open>C27: starting a timer puts it once at the tail of the active timers (a running one is moved there), stopping removes
  it; in both cases "active" stays the same as "on the list", and a started timer is due in exactly the
  tick given by its period.\<close>

theorem timer_start_stop_correct:
  assumes "kernel_env E bits" and "kinv bits s L" and "timer_inv s L" and "timer_handle_ok a s"
    and "L ActiveTimers = Some ns"
  shows "\<exists>s1 s2. sertos_timer_start E a s = (SERTOS_STATUS_OK, s1) \<and>
    kinv bits s1 (L(ActiveTimers \<mapsto> remove1 (TimerNode a) ns @ [TimerNode a])) \<and>
    timer_inv s1 (L(ActiveTimers \<mapsto> remove1 (TimerNode a) ns @ [TimerNode a])) \<and>
    (\<forall>k < unat (tmr_period_ticks (timers s a)).
       timer_due ((timer_after_tick ^^ k) (timers s1 a)) \<longleftrightarrow> Suc k = unat (tmr_period_ticks (timers s a))) \<and>
    sertos_timer_stop E a s = (SERTOS_STATUS_OK, s2) \<and> kinv bits s2 (L(ActiveTimers \<mapsto> remove1 (TimerNode a) ns)) \<and>
    timer_inv s2 (L(ActiveTimers \<mapsto> remove1 (TimerNode a) ns)) \<and> \<not> sertos_timer_is_active a s2"
proof -
  let ?L1 = "L(ActiveTimers \<mapsto> remove1 (TimerNode a) ns)"
  let ?L2 = "L(ActiveTimers \<mapsto> remove1 (TimerNode a) ns @ [TimerNode a])"
  note act = timer_inv_active [OF assms(3,4,5)] and upd = timer_inv_upd [OF assms(3,5)]
  have gone: "TimerNode a \<notin> set (remove1 (TimerNode a) ns)" using heap_ok_distinct [OF kinv_heap [OF assms(2)] assms(5)] by simp
  have others: "TimerNode b \<in> set (remove1 (TimerNode a) ns) \<longleftrightarrow> TimerNode b \<in> set ns" if "b \<noteq> a" for b
    using that by (induction ns) auto
  obtain s1 where s1: "sertos_timer_start E a s = (SERTOS_STATUS_OK, s1)" "kinv bits s1 ?L2"
    "timers s1 = (timers s)(a := (timers s a)\<lparr>tmr_remaining_ticks := tmr_period_ticks (timers s a), tmr_is_active := True\<rparr>)"
    by (rule kernel_env.timer_start_refines [OF assms(1,2,4,5) act], rule that)
  obtain s2 where s2: "sertos_timer_stop E a s = (SERTOS_STATUS_OK, s2)" "kinv bits s2 ?L1"
    "timers s2 = (timers s)(a := (timers s a)\<lparr>tmr_is_active := False\<rparr>)"
    by (rule kernel_env.timer_stop_refines [OF assms(1,2,4,5) act], rule that)
  have "timer_inv s1 ?L2" by (rule upd [OF s1(3)]) (use others in auto)
  moreover have "timer_inv s2 ?L1" by (rule upd [OF s2(3)]) (use others gone in auto)
  moreover have "\<not> sertos_timer_is_active a s2" using s2(3) by (simp add: sertos_timer_is_active_def)
  moreover have "\<forall>k < unat (tmr_period_ticks (timers s a)).
      timer_due ((timer_after_tick ^^ k) (timers s1 a)) \<longleftrightarrow> Suc k = unat (tmr_period_ticks (timers s a))"
    using due_after_remaining [of _ "timers s1 a"] by (simp add: s1(3))
  ultimately show ?thesis using s1(1,2) s2(1,2) by blast
qed

theorem timer_start_stop_correct_witness:
  "\<exists>s1 L'. sertos_timer_start quiet_env 0xB00 timer_demo = (SERTOS_STATUS_OK, s1) \<and> kinv ref_bits s1 L' \<and>
     L' ActiveTimers = Some [TimerNode 0xB10, TimerNode 0xB00]"
proof -
  have "timer_inv timer_demo (lists_of timer_layout)"
    by (auto simp: timer_inv_def timer_demo_facts on_list_def) (auto simp: timer_demo_def)
  then show ?thesis
    using timer_start_stop_correct [OF quiet_kernel_env timer_demo_inv _ timer_demo_facts(3,2)] by fastforce
qed

text \<open>The walk remembers the successor before it runs a callback. If the callback of a due timer stops the next one, the
  walk still visits that stopped timer, runs its callback although it is inactive, and then ends
  early, because the stopped timer's node has no successor any more: the timers behind it miss this tick.\<close>

theorem stopped_timer_still_fires:
  assumes "kernel_env E bits" and "kinv bits s L" and "s_timer_subsystem_initialized s"
    and "L ActiveTimers = Some (TimerNode a # TimerNode b # ns)"
    and "tmr_remaining_ticks (timers s a) = 1" and "tmr_is_periodic (timers s a)" and "tmr_callback (timers s a) = cb" and "cb \<noteq> NULL"
    and "\<And>u arg. call_timer_callback E cb a arg u = Some (snd (sertos_timer_stop E' b u))"
    and "timer_handle_ok b s" and "tmr_is_active (timers s b)" and "tmr_remaining_ticks (timers s b) = 1"
    and "tmr_is_periodic (timers s b)" and "tmr_callback (timers s b) \<noteq> NULL"
  shows "\<exists>s3. \<not> sertos_timer_is_active b s3 \<and>
    sertos_timer_tick E s = call_timer_callback E (tmr_callback (timers s b)) b (tmr_param (timers s b)) s3"
proof -
  have d: "dll (list_heap s) ActiveTimers (TimerNode a # TimerNode b # ns)"
    by (rule heap_ok_dll [OF kinv_heap [OF assms(2)] assms(4)])
  have nxa: "nxt (list_heap s) (TimerNode a) = Some (TimerNode b)"
    using dll_nxt [of "list_heap s" ActiveTimers "[]" "TimerNode a" "TimerNode b # ns"] d by simp
  have ab: "a \<noteq> b" using heap_ok_distinct [OF kinv_heap [OF assms(2)] assms(4)] by simp
  let ?s1 = "upd_timer a (\<lambda>t. t\<lparr>tmr_remaining_ticks := tmr_period_ticks t\<rparr>)
    (upd_timer a (\<lambda>t. t\<lparr>tmr_remaining_ticks := tmr_remaining_ticks t - 1\<rparr>) s)"
  let ?s2 = "snd (sertos_timer_stop E' b ?s1)"
  have one: "timer_tick_one E (TimerNode a) a s = Some ?s2"
    using assms(5-9) by (simp add: timer_tick_one_def Let_def)
  have ok1: "timer_handle_ok b ?s1" "tmr_is_active (timers ?s1 b)" using assms(10,11) ab by (simp_all add: timer_handle_ok_def)
  have st: "timers ?s2 b = (timers s b)\<lparr>tmr_is_active := False\<rparr>" "nxt (list_heap ?s2) (TimerNode b) = None"
    using ok1 ab by (simp_all add: sertos_timer_stop_def enter_critical_eq Let_def)
  let ?s3 = "upd_timer b (\<lambda>t. t\<lparr>tmr_remaining_ticks := tmr_period_ticks t\<rparr>)
    (upd_timer b (\<lambda>t. t\<lparr>tmr_remaining_ticks := tmr_remaining_ticks t - 1\<rparr>) ?s2)"
  have two: "timer_tick_one E (TimerNode b) b ?s2 =
      call_timer_callback E (tmr_callback (timers s b)) b (tmr_param (timers s b)) ?s3"
    using assms(12-14) st(1) by (simp add: timer_tick_one_def Let_def)
  have head: "linked_list_peek_head E ActiveTimers (list_heap s) = Some (TimerNode a)"
    using linked_list.heap_ok_peek_head [OF kernel_env.axioms(1) [OF assms(1)] kinv_heap [OF assms(2)], of ActiveTimers] assms(4)
    by simp
  have "timer_tick_loop E (Some (TimerNode b)) ?s2 = Option.bind (timer_tick_one E (TimerNode b) b ?s2) (timer_tick_loop E None)"
    using st(2) by (subst timer_tick_loop.simps) simp
  also have "\<dots> = call_timer_callback E (tmr_callback (timers s b)) b (tmr_param (timers s b)) ?s3"
    unfolding two by (cases "call_timer_callback E (tmr_callback (timers s b)) b (tmr_param (timers s b)) ?s3")
      (simp_all add: timer_tick_loop.simps [of E None])
  finally have "sertos_timer_tick E s = call_timer_callback E (tmr_callback (timers s b)) b (tmr_param (timers s b)) ?s3"
    using assms(3) head one nxa by (simp add: sertos_timer_tick_def timer_tick_loop.simps [of E "Some (TimerNode a)"])
  moreover have "\<not> sertos_timer_is_active b ?s3" using st(1) by (simp add: sertos_timer_is_active_def)
  ultimately show ?thesis by blast
qed

definition stopping_env :: ref_envt where
  "stopping_env = ref_env Some (\<lambda>cb h p s. if h = 0xB00 then Some (snd (sertos_timer_stop quiet_env 0xB10 s))
     else Some (s\<lparr>bool_cells := (bool_cells s)(0x700 := True)\<rparr>))"

theorem stopped_timer_still_fires_witness:
  "\<exists>s3 s'. \<not> sertos_timer_is_active 0xB10 s3 \<and> sertos_timer_tick stopping_env timer_demo = Some s' \<and>
     s' = s3\<lparr>bool_cells := (bool_cells s3)(0x700 := True)\<rparr>"
proof -
  have "kernel_env stopping_env ref_bits" unfolding stopping_env_def by (rule ref_kernel_env)
  from stopped_timer_still_fires [OF this timer_demo_inv timer_demo_facts(1), of "0xB00" "0xB10" "[]" "0xB00" quiet_env]
  show ?thesis
    by (auto simp: timer_demo_facts) (auto simp: timer_demo_def stopping_env_def ref_env_def)
qed

end
