(* ===== verification/Sertos_Time_Spec.thy ===== *)
theory Sertos_Time_Spec
  imports Sertos_Sem_Spec
begin

text \<open>
  What the kernel guarantees about time: the conversion of durations to ticks, the deadlines of
  \<open>sertos_scheduler_delay_until\<close>, and the run-time accounting of \<open>src/sertos_stats.c\<close>.
\<close>

section \<open>Durations\<close>

text \<open>C28: \<open>SERTOS_MS_TO_TICKS\<close> is the exact number of ticks, rounded up and truncated to 32 bits. While the
  result fits, the ticks cover the duration, exceed it by less than one tick, and are at least one for a
  non-zero duration. At 2000 Hz a duration of \<open>2 ^ 31\<close> milliseconds converts to no tick at all.\<close>

theorem ms_to_ticks_exact:
  fixes s :: "('b, 'r, 'm, 'p) kstate"
  defines "rate \<equiv> unat (sertos_scheduler_get_tick_rate_hz s)"
  shows "unat (SERTOS_MS_TO_TICKS ms s) = (unat ms * rate + 999) div 1000 mod 2 ^ 32 \<and> 0 < rate \<and>
    (unat ms * rate \<le> 1000 * (2 ^ 32 - 1) \<longrightarrow>
       unat ms * rate \<le> 1000 * unat (SERTOS_MS_TO_TICKS ms s) \<and>
       1000 * unat (SERTOS_MS_TO_TICKS ms s) < unat ms * rate + 1000 \<and>
       (ms \<noteq> 0 \<longrightarrow> SERTOS_MS_TO_TICKS ms s \<noteq> 0)) \<and>
    (rate = 2000 \<longrightarrow> SERTOS_MS_TO_TICKS (2 ^ 31) s = 0)"
proof -
  have u: "unat (SERTOS_MS_TO_TICKS d s) = (unat d * rate + 999) div 1000 mod 2 ^ 32" for d
    unfolding rate_def by (rule ms_to_ticks_unat)
  have pos: "0 < rate"
    by (auto simp: rate_def sertos_scheduler_get_tick_rate_hz_def SERTOS_CONFIG_TICK_RATE_HZ_def unat_gt_0)
  have fits: "unat ms * rate \<le> 1000 * unat (SERTOS_MS_TO_TICKS ms s) \<and>
      1000 * unat (SERTOS_MS_TO_TICKS ms s) < unat ms * rate + 1000 \<and> (ms \<noteq> 0 \<longrightarrow> SERTOS_MS_TO_TICKS ms s \<noteq> 0)"
    if small: "unat ms * rate \<le> 1000 * (2 ^ 32 - 1)"
  proof -
    have "(unat ms * rate + 999) div 1000 < 2 ^ 32" using small by simp
    then have t: "unat (SERTOS_MS_TO_TICKS ms s) = (unat ms * rate + 999) div 1000" using u by simp
    moreover have "(unat ms * rate + 999) div 1000 \<noteq> 0" if "ms \<noteq> 0"
    proof -
      have "0 < unat ms * rate" using that pos by (simp add: unat_gt_0)
      then show ?thesis by linarith
    qed
    ultimately show ?thesis by (auto simp: word_unat_eq_iff)
  qed
  have "unat (SERTOS_MS_TO_TICKS (2 ^ 31) s) = 0" if "rate = 2000" using u [of "2 ^ 31"] that by simp
  then show ?thesis using u pos fits by (simp add: word_unat_eq_iff)
qed

theorem ms_to_ticks_exact_witness:
  "unat (SERTOS_MS_TO_TICKS 3 demo) = 3 \<and> SERTOS_MS_TO_TICKS (2 ^ 31) (demo\<lparr>s_tick_rate_hz := 2000\<rparr>) = 0"
proof -
  have "unat (sertos_scheduler_get_tick_rate_hz demo) = 1000"
    by (simp add: demo_def demo_state_def sertos_scheduler_get_tick_rate_hz_def SERTOS_CONFIG_TICK_RATE_HZ_def)
  then show ?thesis
    using ms_to_ticks_exact [of 3 demo] ms_to_ticks_exact [of 0 "demo\<lparr>s_tick_rate_hz := 2000\<rparr>"]
    by (simp add: sertos_scheduler_get_tick_rate_hz_def)
qed

section \<open>Deadlines\<close>

text \<open>C29: \<open>sertos_scheduler_delay_until\<close> of the running task advances the wake time by one period. Before the deadline it parks the
  caller for exactly the ticks that are missing, also when the tick counter wraps in between, and requests the switch. From the deadline on it does not
  park the caller but does exactly what \<open>sertos_scheduler_yield\<close> does, which may rotate the ready queue and switch to another task, and reports OK when the
  yield returns. A task that is two or more periods late finds the next deadline passed as well.\<close>

theorem delay_until_deadlines:
  assumes "kernel_env E bits" and "kinv bits s L" and "s_is_running s" and "sertos_current_tcb s = c"
    and "on_list L (ReadyQ p) (StateNode c)" and "w \<noteq> NULL" and "period \<noteq> 0"
    and now: "now = sertos_scheduler_get_tick_count E s" and dl: "deadline = tick_cells s w + period"
  shows "if now - tick_cells s w < period
    then \<exists>s'. sertos_scheduler_delay_until E w period s =
        map_option (Pair SERTOS_STATUS_OK) (sertos_scheduler_switch_context E s') \<and>
      tick_cells s' = (tick_cells s)(w := deadline) \<and>
      kinv bits s' (blocked_lists (tcbs s) c p None True L) \<and>
      tcb_state (tcbs s' c) = SERTOS_TASK_STATE_BLOCKED \<and> now + tcb_delay_ticks (tcbs s' c) = deadline
    else sertos_scheduler_delay_until E w period s = map_option (Pair SERTOS_STATUS_OK)
        (sertos_scheduler_yield E (s\<lparr>tick_cells := (tick_cells s)(w := deadline)\<rparr>)) \<and>
      (2 * unat period \<le> unat (now - tick_cells s w) \<longrightarrow> \<not> now - deadline < period)"
proof (cases "now - tick_cells s w < period")
  case True
  let ?s = "s\<lparr>tick_cells := (tick_cells s)(w := deadline)\<rparr>"
  let ?d = "period - (now - tick_cells s w)"
  have d: "?d \<noteq> 0" using True by auto
  have k: "kinv bits ?s L" using assms(2) by (simp add: kinv_def)
  obtain s' where s': "sertos_scheduler_delay E ?d ?s =
      map_option (Pair SERTOS_STATUS_OK) (sertos_scheduler_switch_context E s')"
    "kinv bits s' (blocked_lists (tcbs ?s) c p None True L)"
    "tcbs s' = (tcbs ?s)(c := (tcbs ?s c)\<lparr>tcb_state := SERTOS_TASK_STATE_BLOCKED, tcb_delay_ticks := ?d\<rparr>)"
    "tick_cells s' = tick_cells ?s"
    by (rule kernel_env.delay_refines [OF assms(1) k _ _ assms(5) d]) (use assms(3,4) in auto)
  moreover have "sertos_scheduler_delay_until E w period s = sertos_scheduler_delay E ?d ?s"
    using True assms(6,7) by (simp add: sertos_scheduler_delay_until_def now dl Let_def)
  moreover have "now + ?d = deadline" by (simp add: dl)
  ultimately show ?thesis unfolding if_P [OF True] by (intro exI [of _ s']) simp
next
  case False
  have late: "\<not> now - deadline < period" if "2 * unat period \<le> unat (now - tick_cells s w)"
  proof -
    have eq: "now - deadline = (now - tick_cells s w) - period" by (simp add: dl)
    have "period \<le> now - tick_cells s w" using False by simp
    then have "unat (now - deadline) = unat (now - tick_cells s w) - unat period" unfolding eq by (rule unat_sub)
    then show ?thesis using that by (simp add: word_less_nat_alt)
  qed
  have "sertos_scheduler_delay_until E w period s = map_option (Pair SERTOS_STATUS_OK)
      (sertos_scheduler_yield E (s\<lparr>tick_cells := (tick_cells s)(w := deadline)\<rparr>))"
    using False assms(6,7) by (simp add: sertos_scheduler_delay_until_def now dl Let_def map_option_bind)
  then show ?thesis using late unfolding if_not_P [OF False] by blast
qed

theorem delay_until_deadlines_witness:
  "\<exists>s'. sertos_scheduler_delay_until quiet_env 0x40 10
      (demo\<lparr>s_system_ticks := 2, tick_cells := (\<lambda>a. - 3)\<rparr>) =
      map_option (Pair SERTOS_STATUS_OK) (sertos_scheduler_switch_context quiet_env s') \<and>
    tick_cells s' 0x40 = 7 \<and> tcb_delay_ticks (tcbs s' 0x100) = 5"
proof -
  let ?s = "demo\<lparr>s_system_ticks := 2, tick_cells := (\<lambda>a. - 3)\<rparr>"
  have k: "kinv ref_bits ?s (lists_of demo_layout)" using demo_inv by (simp add: kinv_def)
  have on: "on_list (lists_of demo_layout) (ReadyQ 5) (StateNode 0x100)" by (simp add: on_lists_of demo_layout_def)
  have t: "sertos_scheduler_get_tick_count quiet_env ?s = 2"
    by (simp add: sertos_scheduler_get_tick_count_def quiet_env_def ref_env_def)
  have r: "s_is_running ?s" "sertos_current_tcb ?s = 0x100" by (simp_all add: demo_def demo_state_def)
  have five: "d = 5" if "2 + d = 7" for d :: "32 word"
  proof -
    have "d = (2 + d) - 2" by simp
    also have "\<dots> = 5" unfolding that by simp
    finally show ?thesis .
  qed
  have early: "2 - tick_cells ?s 0x40 < (10 :: 32 word)" by (simp add: word_less_nat_alt)
  have dl: "7 = tick_cells ?s 0x40 + 10" by simp
  have nz: "(0x40 :: addr) \<noteq> NULL" "(10 :: SertosTick) \<noteq> 0" by simp_all
  from delay_until_deadlines [OF quiet_kernel_env k r on nz t [symmetric] dl, unfolded if_P [OF early]]
  obtain s' where s': "sertos_scheduler_delay_until quiet_env 0x40 10 ?s =
      map_option (Pair SERTOS_STATUS_OK) (sertos_scheduler_switch_context quiet_env s')"
    "tick_cells s' = (tick_cells ?s)(0x40 := 7)" "2 + tcb_delay_ticks (tcbs s' 0x100) = 7"
    by blast
  have "tick_cells s' 0x40 = 7" unfolding s'(2) by simp
  then show ?thesis using s'(1) five [OF s'(3)] by blast
qed

section \<open>Run-time accounting\<close>

lemma unat_sum_list:
  "sum_list (map (unat \<circ> f) xs) < 2 ^ 64 \<Longrightarrow> unat (sum_list (map f xs) :: 64 word) = sum_list (map (unat \<circ> f) xs)"
  by (induction xs) (simp_all add: unat_word_ariths)

text \<open>C30: with statistics enabled, the idle task registered and the sum of all run times below \<open>2 ^ 64 / 10000\<close> (beyond, the product in the
  code wraps), a snapshot returns and reports the sum of the run times of all registered tasks and their number; the idle share is the exact quotient in hundredths
  of a percent, rounded down, at most 10000, and the CPU load is its complement.\<close>

theorem stats_get_system_correct:
  assumes "kinv bits s L" and "L TaskRegistry = Some (map RegistryNode ts)" and "s_stats_enabled s"
    and idle: "sertos_scheduler_get_idle_tcb E \<in> set ts"
    and small: "(\<Sum>a\<leftarrow>ts. unat (tcb_run_time_total (tcbs s a))) * 10000 < 2 ^ 64"
    and all: "all = (\<Sum>a\<leftarrow>ts. unat (tcb_run_time_total (tcbs s a)))"
    and part: "part = unat (tcb_run_time_total (tcbs s (sertos_scheduler_get_idle_tcb E)))"
  shows "\<exists>y s'. sertos_stats_get_system E (Some out) s = Some (SERTOS_STATUS_OK, Some y, s') \<and>
    tcbs s' = tcbs s \<and> kinv bits s' L \<and>
    unat (ss_total_run_time y) = all \<and> ss_task_count y = of_nat (length ts) \<and>
    unat (ss_idle_percent_x100 y) = (if all = 0 then 0 else part * 10000 div all) \<and>
    unat (ss_idle_percent_x100 y) \<le> 10000 \<and>
    sertos_stats_get_cpu_load_x100 E s = Some (10000 - ss_idle_percent_x100 y, s')"
proof -
  let ?i = "sertos_scheduler_get_idle_tcb E"
  let ?f = "\<lambda>a. tcb_run_time_total (tcbs s a)"
  let ?tot = "sum_list (map ?f ts)"
  obtain st s1 where cr: "enter_critical E s = (st, s1)" by (cases "enter_critical E s")
  then have s1: "tcbs s1 = tcbs s" "kinv bits s1 L" using assms(1) by (auto simp: enter_critical_eq)
  have tot: "unat ?tot = all" using small unat_sum_list [of ?f ts] by (simp add: all comp_def)
  have le: "part \<le> all" using member_le_sum_list [of "unat (?f ?i)" "map (unat \<circ> ?f) ts"] idle by (simp add: all part comp_def)
  have visit: "sertos_scheduler_visit_all_tasks E (Some sum_visitor) \<lparr>sum_total = 0, sum_count = 0\<rparr> s =
      Some (\<lparr>sum_total = ?tot, sum_count = of_nat (length ts)\<rparr>, exit_critical E st s1)"
    using visit_all_tasks_fold [OF assms(1,2) _ cr, of sum_visitor] s1 by (simp add: sum_visitor_fold) (simp add: sum_visitor_def)
  have pct: "unat (compute_percent_x100 (?f ?i) ?tot) = (if all = 0 then 0 else part * 10000 div all) \<and>
      unat (compute_percent_x100 (?f ?i) ?tot) \<le> 10000"
  proof (cases "?tot = 0")
    case True
    then show ?thesis using tot by (simp add: compute_percent_x100_def)
  next
    case False
    have "unat (?f ?i) * 10000 < 2 ^ 64" using le small by (simp add: all part)
    moreover have "?f ?i \<le> ?tot" using le tot by (simp add: word_le_nat_alt part)
    ultimately show ?thesis using compute_percent_unat False tot by (auto simp: part)
  qed
  show ?thesis
    using visit s1 tot pct assms(3) by (simp add: sertos_stats_get_system_def sertos_stats_get_cpu_load_x100_def Let_def)
qed

theorem stats_get_system_correct_witness:
  "\<exists>y s'. sertos_stats_get_system quiet_env (Some zero_system_stats)
      (demo_state ((TaskRegistry, RegistryNode (s_idle_tcb quiet_env)) # demo_layout)
        (demo_tcbs(s_idle_tcb quiet_env := (demo_tcbs (s_idle_tcb quiet_env))\<lparr>tcb_run_time_total := 7\<rparr>)) 0x100) =
      Some (SERTOS_STATUS_OK, Some y, s') \<and> ss_idle_percent_x100 y = 10000"
proof -
  let ?T = "demo_tcbs(s_idle_tcb quiet_env := (demo_tcbs (s_idle_tcb quiet_env))\<lparr>tcb_run_time_total := 7\<rparr>)"
  let ?ops = "(TaskRegistry, RegistryNode (s_idle_tcb quiet_env)) # demo_layout"
  let ?s = "demo_state ?ops ?T 0x100"
  have "layout_ok ?T ?ops"
    by (simp add: layout_ok_def demo_layout_def op_ok_def demo_tcbs_def demo_tcb_def SERTOS_CONFIG_MAX_PRIORITIES_def
        quiet_env_def ref_env_def)
  from demo_kinv [OF this] have k: "kinv ref_bits ?s (lists_of ?ops)" .
  have reg: "lists_of ?ops TaskRegistry = Some (map RegistryNode [s_idle_tcb quiet_env])"
    by (simp add: lists_of_def demo_layout_def)
  have en: "s_stats_enabled ?s" by (simp add: demo_state_def)
  have idle: "sertos_scheduler_get_idle_tcb quiet_env \<in> set [s_idle_tcb quiet_env]"
    by (simp add: sertos_scheduler_get_idle_tcb_def)
  have run: "unat (tcb_run_time_total (tcbs ?s (s_idle_tcb quiet_env))) = 7" by (simp add: demo_state_def)
  then have small: "(\<Sum>a\<leftarrow>[s_idle_tcb quiet_env]. unat (tcb_run_time_total (tcbs ?s a))) * 10000 < 2 ^ 64" by simp
  from stats_get_system_correct [OF k reg en idle small refl refl, of zero_system_stats]
  obtain y s' where y: "sertos_stats_get_system quiet_env (Some zero_system_stats) ?s = Some (SERTOS_STATUS_OK, Some y, s')"
    "unat (ss_idle_percent_x100 y) = 10000"
    using run by (auto simp: sertos_scheduler_get_idle_tcb_def)
  have "ss_idle_percent_x100 y = 10000" using y(2) by (simp add: word_unat_eq_iff)
  then show ?thesis using y(1) by blast
qed

end
