(* ===== verification/Sertos_Ports.thy ===== *)
theory Sertos_Ports
  imports Sertos_Cortex
begin

text \<open>
  The eight Cortex-M ports, one \<open>port_cpu.c\<close> each. A port is what the kernel gets to see of it: the operations of
  \<open>port/sertos_port.h\<close> in the environment. Their bodies are those of Sertos_Cortex, except for the words of the
  first stack frame (in the order of the frame structure) and for the run-time counter, which is the DWT cycle
  counter where the core has one and the tick count elsewhere. \<open>hw\<close> is what the hardware does during one round
  of the waiting loop of the counter set-up, \<open>resume\<close> is everything that happens between the switch request and
  the moment the requesting task runs again. The first task is started by assembly (Sertos_Switch).
\<close>

definition sertos_port_tick_clock_hz :: "32 word" where
  "sertos_port_tick_clock_hz = 25000000"

section \<open>Cortex-M0\<close>

definition cortex_m0_frame :: "addr \<Rightarrow> addr \<Rightarrow> 32 word list" where
  "cortex_m0_frame entry param =
     [0x08080808, 0x09090909, 0x10101010, 0x11111111,
      0x04040404, 0x05050505, 0x06060606, 0x07070707,
      param, 0, 0, 0, 0, 0, entry, CORTEX_M_DEFAULT_XPSR]"

definition cortex_m0_port ::
  "(cortex_port \<Rightarrow> cortex_port) \<Rightarrow>
   (('b, 'r, 'm, cortex_port) kstate \<Rightarrow> ('b, 'r, 'm, cortex_port) kstate option) \<Rightarrow>
   ('b, 'r, 'm, cortex_port) env \<Rightarrow> ('b, 'r, 'm, cortex_port) env" where
  "cortex_m0_port hw resume E = E\<lparr>
     sertos_port_stack_init := framed_stack_init cortex_m0_frame,
     sertos_port_yield := (\<lambda>s. resume (s\<lparr>port := cortex_m_yield (port s)\<rparr>)),
     sertos_port_enter_critical := cortex_m_enter_critical,
     sertos_port_exit_critical := cortex_m_exit_critical,
     sertos_port_runtime_counter := sertos_scheduler_get_tick_count E,
     sertos_port_runtime_counter_init := (\<lambda>p. p),
     sertos_port_tick_init := cortex_m_tick_init sertos_port_tick_clock_hz,
     sertos_port_task_create_hook := (\<lambda>tcb ctx p. (ctx, p)),
     sertos_port_task_delete_hook := (\<lambda>tcb ctx p. (ctx, p)),
     sertos_port_stop_scheduler := cortex_m_stop_scheduler,
     port_is_host := False\<rparr>"

section \<open>Cortex-M0+\<close>

definition cortex_m0plus_frame :: "addr \<Rightarrow> addr \<Rightarrow> 32 word list" where
  "cortex_m0plus_frame entry param =
     [0x04040404, 0x05050505, 0x06060606, 0x07070707,
      0x08080808, 0x09090909, 0x10101010, 0x11111111,
      param, 0, 0, 0, 0, 0, entry, CORTEX_M_DEFAULT_XPSR]"

definition cortex_m0plus_port ::
  "(cortex_port \<Rightarrow> cortex_port) \<Rightarrow>
   (('b, 'r, 'm, cortex_port) kstate \<Rightarrow> ('b, 'r, 'm, cortex_port) kstate option) \<Rightarrow>
   ('b, 'r, 'm, cortex_port) env \<Rightarrow> ('b, 'r, 'm, cortex_port) env" where
  "cortex_m0plus_port hw resume E = E\<lparr>
     sertos_port_stack_init := framed_stack_init cortex_m0plus_frame,
     sertos_port_yield := (\<lambda>s. resume (s\<lparr>port := cortex_m_yield (port s)\<rparr>)),
     sertos_port_enter_critical := cortex_m_enter_critical,
     sertos_port_exit_critical := cortex_m_exit_critical,
     sertos_port_runtime_counter := sertos_scheduler_get_tick_count E,
     sertos_port_runtime_counter_init := (\<lambda>p. p),
     sertos_port_tick_init := cortex_m_tick_init sertos_port_tick_clock_hz,
     sertos_port_task_create_hook := (\<lambda>tcb ctx p. (ctx, p)),
     sertos_port_task_delete_hook := (\<lambda>tcb ctx p. (ctx, p)),
     sertos_port_stop_scheduler := cortex_m_stop_scheduler,
     port_is_host := False\<rparr>"

section \<open>Cortex-M3\<close>

definition cortex_m3_frame :: "addr \<Rightarrow> addr \<Rightarrow> 32 word list" where
  "cortex_m3_frame entry param =
     [0x04040404, 0x05050505, 0x06060606, 0x07070707,
      0x08080808, 0x09090909, 0x10101010, 0x11111111,
      CORTEX_M_EXC_RETURN_THREAD_PSP,
      param, 0, 0, 0, 0, 0, entry, CORTEX_M_DEFAULT_XPSR]"

definition cortex_m3_port ::
  "(cortex_port \<Rightarrow> cortex_port) \<Rightarrow>
   (('b, 'r, 'm, cortex_port) kstate \<Rightarrow> ('b, 'r, 'm, cortex_port) kstate option) \<Rightarrow>
   ('b, 'r, 'm, cortex_port) env \<Rightarrow> ('b, 'r, 'm, cortex_port) env" where
  "cortex_m3_port hw resume E = E\<lparr>
     sertos_port_stack_init := framed_stack_init cortex_m3_frame,
     sertos_port_yield := (\<lambda>s. resume (s\<lparr>port := cortex_m_yield (port s)\<rparr>)),
     sertos_port_enter_critical := cortex_m_enter_critical,
     sertos_port_exit_critical := cortex_m_exit_critical,
     sertos_port_runtime_counter := cortex_m_dwt_counter E,
     sertos_port_runtime_counter_init := cortex_m_dwt_init hw,
     sertos_port_tick_init := cortex_m_tick_init sertos_port_tick_clock_hz,
     sertos_port_task_create_hook := (\<lambda>tcb ctx p. (ctx, p)),
     sertos_port_task_delete_hook := (\<lambda>tcb ctx p. (ctx, p)),
     sertos_port_stop_scheduler := cortex_m_stop_scheduler,
     port_is_host := False\<rparr>"

section \<open>Cortex-M4\<close>

definition cortex_m4_port ::
  "(cortex_port \<Rightarrow> cortex_port) \<Rightarrow>
   (('b, 'r, 'm, cortex_port) kstate \<Rightarrow> ('b, 'r, 'm, cortex_port) kstate option) \<Rightarrow>
   ('b, 'r, 'm, cortex_port) env \<Rightarrow> ('b, 'r, 'm, cortex_port) env" where
  "cortex_m4_port hw resume E = E\<lparr>
     sertos_port_stack_init := framed_stack_init cortex_m4_frame,
     sertos_port_yield := (\<lambda>s. resume (s\<lparr>port := cortex_m_yield (port s)\<rparr>)),
     sertos_port_enter_critical := cortex_m_enter_critical,
     sertos_port_exit_critical := cortex_m_exit_critical,
     sertos_port_runtime_counter := cortex_m_dwt_counter E,
     sertos_port_runtime_counter_init := cortex_m_dwt_init hw,
     sertos_port_tick_init := cortex_m_tick_init sertos_port_tick_clock_hz,
     sertos_port_task_create_hook := (\<lambda>tcb ctx p. (ctx, p)),
     sertos_port_task_delete_hook := (\<lambda>tcb ctx p. (ctx, p)),
     sertos_port_stop_scheduler := cortex_m_stop_scheduler,
     port_is_host := False\<rparr>"

section \<open>Cortex-M7\<close>

definition cortex_m7_frame :: "addr \<Rightarrow> addr \<Rightarrow> 32 word list" where
  "cortex_m7_frame entry param =
     [0x04040404, 0x05050505, 0x06060606, 0x07070707,
      0x08080808, 0x09090909, 0x10101010, 0x11111111,
      CORTEX_M_EXC_RETURN_THREAD_PSP,
      param, 0, 0, 0, 0, 0, entry, CORTEX_M_DEFAULT_XPSR]"

definition cortex_m7_port ::
  "(cortex_port \<Rightarrow> cortex_port) \<Rightarrow>
   (('b, 'r, 'm, cortex_port) kstate \<Rightarrow> ('b, 'r, 'm, cortex_port) kstate option) \<Rightarrow>
   ('b, 'r, 'm, cortex_port) env \<Rightarrow> ('b, 'r, 'm, cortex_port) env" where
  "cortex_m7_port hw resume E = E\<lparr>
     sertos_port_stack_init := framed_stack_init cortex_m7_frame,
     sertos_port_yield := (\<lambda>s. resume (s\<lparr>port := cortex_m_yield (port s)\<rparr>)),
     sertos_port_enter_critical := cortex_m_enter_critical,
     sertos_port_exit_critical := cortex_m_exit_critical,
     sertos_port_runtime_counter := cortex_m_dwt_counter E,
     sertos_port_runtime_counter_init := cortex_m_dwt_init hw,
     sertos_port_tick_init := cortex_m_tick_init sertos_port_tick_clock_hz,
     sertos_port_task_create_hook := (\<lambda>tcb ctx p. (ctx, p)),
     sertos_port_task_delete_hook := (\<lambda>tcb ctx p. (ctx, p)),
     sertos_port_stop_scheduler := cortex_m_stop_scheduler,
     port_is_host := False\<rparr>"

section \<open>Cortex-M23\<close>

definition cortex_m23_frame :: "addr \<Rightarrow> addr \<Rightarrow> 32 word list" where
  "cortex_m23_frame entry param =
     [0x04040404, 0x05050505, 0x06060606, 0x07070707,
      0x08080808, 0x09090909, 0x10101010, 0x11111111,
      CORTEX_M_EXC_RETURN_THREAD_PSP,
      param, 0, 0, 0, 0, 0, entry, CORTEX_M_DEFAULT_XPSR]"

definition cortex_m23_port ::
  "(cortex_port \<Rightarrow> cortex_port) \<Rightarrow>
   (('b, 'r, 'm, cortex_port) kstate \<Rightarrow> ('b, 'r, 'm, cortex_port) kstate option) \<Rightarrow>
   ('b, 'r, 'm, cortex_port) env \<Rightarrow> ('b, 'r, 'm, cortex_port) env" where
  "cortex_m23_port hw resume E = E\<lparr>
     sertos_port_stack_init := framed_stack_init cortex_m23_frame,
     sertos_port_yield := (\<lambda>s. resume (s\<lparr>port := cortex_m_yield (port s)\<rparr>)),
     sertos_port_enter_critical := cortex_m_enter_critical,
     sertos_port_exit_critical := cortex_m_exit_critical,
     sertos_port_runtime_counter := sertos_scheduler_get_tick_count E,
     sertos_port_runtime_counter_init := (\<lambda>p. p),
     sertos_port_tick_init := cortex_m_tick_init sertos_port_tick_clock_hz,
     sertos_port_task_create_hook := (\<lambda>tcb ctx p. (ctx, p)),
     sertos_port_task_delete_hook := (\<lambda>tcb ctx p. (ctx, p)),
     sertos_port_stop_scheduler := cortex_m_stop_scheduler,
     port_is_host := False\<rparr>"

section \<open>Cortex-M33\<close>

definition cortex_m33_frame :: "addr \<Rightarrow> addr \<Rightarrow> 32 word list" where
  "cortex_m33_frame entry param =
     [0x04040404, 0x05050505, 0x06060606, 0x07070707,
      0x08080808, 0x09090909, 0x10101010, 0x11111111,
      CORTEX_M_EXC_RETURN_THREAD_PSP,
      param, 0, 0, 0, 0, 0, entry, CORTEX_M_DEFAULT_XPSR]"

definition cortex_m33_port ::
  "(cortex_port \<Rightarrow> cortex_port) \<Rightarrow>
   (('b, 'r, 'm, cortex_port) kstate \<Rightarrow> ('b, 'r, 'm, cortex_port) kstate option) \<Rightarrow>
   ('b, 'r, 'm, cortex_port) env \<Rightarrow> ('b, 'r, 'm, cortex_port) env" where
  "cortex_m33_port hw resume E = E\<lparr>
     sertos_port_stack_init := framed_stack_init cortex_m33_frame,
     sertos_port_yield := (\<lambda>s. resume (s\<lparr>port := cortex_m_yield (port s)\<rparr>)),
     sertos_port_enter_critical := cortex_m_enter_critical,
     sertos_port_exit_critical := cortex_m_exit_critical,
     sertos_port_runtime_counter := cortex_m_dwt_counter E,
     sertos_port_runtime_counter_init := cortex_m_dwt_init hw,
     sertos_port_tick_init := cortex_m_tick_init sertos_port_tick_clock_hz,
     sertos_port_task_create_hook := (\<lambda>tcb ctx p. (ctx, p)),
     sertos_port_task_delete_hook := (\<lambda>tcb ctx p. (ctx, p)),
     sertos_port_stop_scheduler := cortex_m_stop_scheduler,
     port_is_host := False\<rparr>"

section \<open>Cortex-M55\<close>

definition cortex_m55_frame :: "addr \<Rightarrow> addr \<Rightarrow> 32 word list" where
  "cortex_m55_frame entry param =
     [0x04040404, 0x05050505, 0x06060606, 0x07070707,
      0x08080808, 0x09090909, 0x10101010, 0x11111111,
      CORTEX_M_EXC_RETURN_THREAD_PSP,
      param, 0, 0, 0, 0, 0, entry, CORTEX_M_DEFAULT_XPSR]"

definition cortex_m55_port ::
  "(cortex_port \<Rightarrow> cortex_port) \<Rightarrow>
   (('b, 'r, 'm, cortex_port) kstate \<Rightarrow> ('b, 'r, 'm, cortex_port) kstate option) \<Rightarrow>
   ('b, 'r, 'm, cortex_port) env \<Rightarrow> ('b, 'r, 'm, cortex_port) env" where
  "cortex_m55_port hw resume E = E\<lparr>
     sertos_port_stack_init := framed_stack_init cortex_m55_frame,
     sertos_port_yield := (\<lambda>s. resume (s\<lparr>port := cortex_m_yield (port s)\<rparr>)),
     sertos_port_enter_critical := cortex_m_enter_critical,
     sertos_port_exit_critical := cortex_m_exit_critical,
     sertos_port_runtime_counter := cortex_m_dwt_counter E,
     sertos_port_runtime_counter_init := cortex_m_dwt_init hw,
     sertos_port_tick_init := cortex_m_tick_init sertos_port_tick_clock_hz,
     sertos_port_task_create_hook := (\<lambda>tcb ctx p. (ctx, p)),
     sertos_port_task_delete_hook := (\<lambda>tcb ctx p. (ctx, p)),
     sertos_port_stop_scheduler := cortex_m_stop_scheduler,
     port_is_host := False\<rparr>"

section \<open>The contracts\<close>

interpretation m0_stack: framed_stack cortex_m0_frame 64
  by unfold_locales (simp_all add: cortex_m0_frame_def SERTOS_CONFIG_MINIMAL_STACK_SIZE_def)

interpretation m0plus_stack: framed_stack cortex_m0plus_frame 64
  by unfold_locales (simp_all add: cortex_m0plus_frame_def SERTOS_CONFIG_MINIMAL_STACK_SIZE_def)

interpretation m3_stack: framed_stack cortex_m3_frame 68
  by unfold_locales (simp_all add: cortex_m3_frame_def SERTOS_CONFIG_MINIMAL_STACK_SIZE_def)

interpretation m7_stack: framed_stack cortex_m7_frame 68
  by unfold_locales (simp_all add: cortex_m7_frame_def SERTOS_CONFIG_MINIMAL_STACK_SIZE_def)

interpretation m23_stack: framed_stack cortex_m23_frame 68
  by unfold_locales (simp_all add: cortex_m23_frame_def SERTOS_CONFIG_MINIMAL_STACK_SIZE_def)

interpretation m33_stack: framed_stack cortex_m33_frame 68
  by unfold_locales (simp_all add: cortex_m33_frame_def SERTOS_CONFIG_MINIMAL_STACK_SIZE_def)

interpretation m55_stack: framed_stack cortex_m55_frame 68
  by unfold_locales (simp_all add: cortex_m55_frame_def SERTOS_CONFIG_MINIMAL_STACK_SIZE_def)

text \<open>A port leaves the submodules of the kernel alone, so the kernel's contract survives its installation.\<close>

lemma cortex_ports_kernel_env:
  assumes "kernel_env E bits"
  shows "kernel_env (cortex_m0_port hw resume E) bits"
    "kernel_env (cortex_m0plus_port hw resume E) bits"
    "kernel_env (cortex_m3_port hw resume E) bits"
    "kernel_env (cortex_m4_port hw resume E) bits"
    "kernel_env (cortex_m7_port hw resume E) bits"
    "kernel_env (cortex_m23_port hw resume E) bits"
    "kernel_env (cortex_m33_port hw resume E) bits"
    "kernel_env (cortex_m55_port hw resume E) bits"
  using assms by (simp_all add: kernel_env_def cortex_m0_port_def cortex_m0plus_port_def cortex_m3_port_def cortex_m4_port_def cortex_m7_port_def cortex_m23_port_def cortex_m33_port_def cortex_m55_port_def)

end
