(* ===== verification/Sertos_Switch.thy ===== *)
theory Sertos_Switch
  imports Sertos_Ports
begin

text \<open>
  The context switch of the Cortex-M ports (\<open>port/arm/cortex-m*/port_context.s\<close>): \<open>SVC_Handler\<close>, which starts the
  first task, and \<open>PendSV_Handler\<close>, which saves the interrupted task, lets the scheduler choose and restores the
  chosen one. The handlers are transcribed instruction by instruction into \<open>instr\<close>; \<open>exec\<close> runs them on a processor
  (\<open>cpu\<close>) and the kernel state. Task control blocks are not laid out in memory here: the loads and stores that
  address one (\<open>tcb->stack_ptr\<close> at offset 0, \<open>tcb->stack_limit\<close> at offset 12) have instructions of their own. \<open>csym\<close>
  is the address of \<open>sertos_current_tcb\<close>, \<open>clob\<close> what a call leaves in the caller-saved registers. The final
  \<open>bx lr\<close> is the exception return of the hardware, \<open>exception_return\<close>.
\<close>

section \<open>The processor\<close>

datatype creg = R0 | R1 | R2 | R3 | R4 | R5 | R6 | R7 | R8 | R9 | R10 | R11 | R12 | LR

record cpu =
  gpr :: "creg \<Rightarrow> 32 word"
  psp :: addr
  psplim :: addr
  control :: "32 word"
  zflag :: bool
  fpu_s16_s31 :: "32 word list"
  msp_stack :: "32 word list"

datatype instr =
    LDMIA creg "creg list" | STMIA creg "creg list" | STMDB creg "creg list"
  | VLDMIA_EQ creg | VSTMDB_EQ creg
  | MOV creg creg | MOVI creg "32 word" | SUBS creg "32 word" | ADDS creg "32 word"
  | LDR_W creg creg | STR_W creg creg
  | LDR_CURRENT creg creg | LDR_SP creg creg | LDR_LIMIT creg creg | STR_SP creg creg
  | TST creg "32 word" | CMP0 creg | BEQ nat
  | MRS_PSP creg | MSR_PSP creg | MSR_PSPLIM creg | MSR_CONTROL creg
  | CPSID | CPSIE | ISB
  | PUSH "creg list" | POP "creg list" | BL_SWITCH

fun load_words :: "addr \<Rightarrow> nat \<Rightarrow> (addr \<Rightarrow> byte) \<Rightarrow> 32 word list" where
  "load_words a 0 m = []"
| "load_words a (Suc n) m = load32 a m # load_words (a + 4) n m"

fun set_regs :: "creg list \<Rightarrow> 32 word list \<Rightarrow> (creg \<Rightarrow> 32 word) \<Rightarrow> creg \<Rightarrow> 32 word" where
  "set_regs (r # rs) (w # ws) g = set_regs rs ws (g(r := w))"
| "set_regs rs ws g = g"

type_synonym ('b, 'r, 'm) machine = "cpu \<times> ('b, 'r, 'm, cortex_port) kstate"

fun exec1 :: "('b, 'r, 'm, cortex_port) env \<Rightarrow> addr \<Rightarrow> (creg \<Rightarrow> 32 word) \<Rightarrow> instr \<Rightarrow>
    ('b, 'r, 'm) machine \<Rightarrow> ('b, 'r, 'm) machine option" where
  "exec1 E csym clob (LDMIA r rs) (c, s) =
     Some (c\<lparr>gpr := (set_regs rs (load_words (gpr c r) (length rs) (mem s)) (gpr c))
                     (r := gpr c r + 4 * of_nat (length rs))\<rparr>, s)"
| "exec1 E csym clob (STMIA r rs) (c, s) =
     Some (c\<lparr>gpr := (gpr c)(r := gpr c r + 4 * of_nat (length rs))\<rparr>,
           s\<lparr>mem := store_words (gpr c r) (map (gpr c) rs) (mem s)\<rparr>)"
| "exec1 E csym clob (STMDB r rs) (c, s) =
     (let a = gpr c r - 4 * of_nat (length rs)
      in Some (c\<lparr>gpr := (gpr c)(r := a)\<rparr>, s\<lparr>mem := store_words a (map (gpr c) rs) (mem s)\<rparr>))"
| "exec1 E csym clob (VLDMIA_EQ r) (c, s) =
     Some (if zflag c then c\<lparr>fpu_s16_s31 := load_words (gpr c r) 16 (mem s), gpr := (gpr c)(r := gpr c r + 64)\<rparr> else c, s)"
| "exec1 E csym clob (VSTMDB_EQ r) (c, s) =
     Some (if zflag c
           then (c\<lparr>gpr := (gpr c)(r := gpr c r - 64)\<rparr>, s\<lparr>mem := store_words (gpr c r - 64) (fpu_s16_s31 c) (mem s)\<rparr>)
           else (c, s))"
| "exec1 E csym clob (MOV r q) (c, s) = Some (c\<lparr>gpr := (gpr c)(r := gpr c q)\<rparr>, s)"
| "exec1 E csym clob (MOVI r v) (c, s) = Some (c\<lparr>gpr := (gpr c)(r := v)\<rparr>, s)"
| "exec1 E csym clob (SUBS r v) (c, s) = Some (c\<lparr>gpr := (gpr c)(r := gpr c r - v), zflag := (gpr c r = v)\<rparr>, s)"
| "exec1 E csym clob (ADDS r v) (c, s) = Some (c\<lparr>gpr := (gpr c)(r := gpr c r + v), zflag := (gpr c r + v = 0)\<rparr>, s)"
| "exec1 E csym clob (LDR_W r q) (c, s) = Some (c\<lparr>gpr := (gpr c)(r := load32 (gpr c q) (mem s))\<rparr>, s)"
| "exec1 E csym clob (STR_W r q) (c, s) = Some (c, s\<lparr>mem := store32 (gpr c q) (gpr c r) (mem s)\<rparr>)"
| "exec1 E csym clob (LDR_CURRENT q r) (c, s) = Some (c\<lparr>gpr := (gpr c)(q := csym, r := sertos_current_tcb s)\<rparr>, s)"
| "exec1 E csym clob (LDR_SP r q) (c, s) = Some (c\<lparr>gpr := (gpr c)(r := tcb_stack_ptr (tcbs s (gpr c q)))\<rparr>, s)"
| "exec1 E csym clob (LDR_LIMIT r q) (c, s) = Some (c\<lparr>gpr := (gpr c)(r := tcb_stack_limit (tcbs s (gpr c q)))\<rparr>, s)"
| "exec1 E csym clob (STR_SP r q) (c, s) = Some (c, upd_tcb (gpr c q) (\<lambda>t. t\<lparr>tcb_stack_ptr := gpr c r\<rparr>) s)"
| "exec1 E csym clob (TST r v) (c, s) = Some (c\<lparr>zflag := (gpr c r AND v = 0)\<rparr>, s)"
| "exec1 E csym clob (CMP0 r) (c, s) = Some (c\<lparr>zflag := (gpr c r = 0)\<rparr>, s)"
| "exec1 E csym clob (BEQ k) (c, s) = Some (c, s)"
| "exec1 E csym clob (MRS_PSP r) (c, s) = Some (c\<lparr>gpr := (gpr c)(r := psp c)\<rparr>, s)"
| "exec1 E csym clob (MSR_PSP r) (c, s) = Some (c\<lparr>psp := gpr c r\<rparr>, s)"
| "exec1 E csym clob (MSR_PSPLIM r) (c, s) = Some (c\<lparr>psplim := gpr c r\<rparr>, s)"
| "exec1 E csym clob (MSR_CONTROL r) (c, s) = Some (c\<lparr>control := gpr c r\<rparr>, s)"
| "exec1 E csym clob CPSID (c, s) = Some (c, s\<lparr>port := (port s)\<lparr>cm_primask := 1\<rparr>\<rparr>)"
| "exec1 E csym clob CPSIE (c, s) = Some (c, s\<lparr>port := (port s)\<lparr>cm_primask := 0\<rparr>\<rparr>)"
| "exec1 E csym clob ISB (c, s) = Some (c, s)"
| "exec1 E csym clob (PUSH rs) (c, s) = Some (c\<lparr>msp_stack := map (gpr c) rs @ msp_stack c\<rparr>, s)"
| "exec1 E csym clob (POP rs) (c, s) =
     Some (c\<lparr>gpr := set_regs rs (take (length rs) (msp_stack c)) (gpr c), msp_stack := drop (length rs) (msp_stack c)\<rparr>, s)"
| "exec1 E csym clob BL_SWITCH (c, s) = do {
     (next, s') \<leftarrow> sertos_scheduler_perform_switch E s;
     Some (c\<lparr>gpr := (gpr c)(R0 := next, R1 := clob R1, R2 := clob R2, R3 := clob R3, R12 := clob R12, LR := clob LR)\<rparr>, s')
   }"

text \<open>\<open>BEQ k\<close> skips \<open>k\<close> instructions when the zero flag is set.\<close>

function exec :: "('b, 'r, 'm, cortex_port) env \<Rightarrow> addr \<Rightarrow> (creg \<Rightarrow> 32 word) \<Rightarrow> instr list \<Rightarrow>
    ('b, 'r, 'm) machine \<Rightarrow> ('b, 'r, 'm) machine option" where
  "exec E csym clob [] st = Some st"
| "exec E csym clob (i # is) st = (case i of
     BEQ k \<Rightarrow> exec E csym clob (if zflag (fst st) then drop k is else is) st
   | _ \<Rightarrow> Option.bind (exec1 E csym clob i st) (exec E csym clob is))"
  by pat_completeness auto
termination
  by (relation "measure (\<lambda>(E, csym, clob, is, st). length is)") auto

text \<open>Exception return: the hardware pops the basic frame from the process stack (and skips the floating-point
  part of an extended frame, bit 4 of EXC_RETURN clear).\<close>

record thread =
  th_regs :: "creg \<Rightarrow> 32 word"
  th_pc :: addr
  th_xpsr :: "32 word"
  th_sp :: addr

definition exception_return :: "('b, 'r, 'm) machine \<Rightarrow> thread" where
  "exception_return st = (case st of (c, s) \<Rightarrow>
     (let ws = load_words (psp c) 8 (mem s)
      in \<lparr>th_regs = set_regs [R0, R1, R2, R3, R12, LR] (take 6 ws) (gpr c), th_pc = ws ! 6, th_xpsr = ws ! 7,
          th_sp = psp c + (if gpr c LR AND 0x10 = 0 then 104 else 32)\<rparr>))"

section \<open>The handlers\<close>

abbreviation sw_regs :: "creg list" where
  "sw_regs \<equiv> [R4, R5, R6, R7, R8, R9, R10, R11, LR]"

definition m0_SVC_Handler :: "instr list" where
  "m0_SVC_Handler =
     [LDR_CURRENT R0 R1, LDR_SP R0 R1, LDMIA R0 [R4, R5, R6, R7], MOV R8 R4, MOV R9 R5, MOV R10 R6, MOV R11 R7,
      LDMIA R0 [R4, R5, R6, R7], MSR_PSP R0, MOVI R1 2, MSR_CONTROL R1, ISB, MOVI R0 0xFFFFFFFD, MOV LR R0, CPSIE]"

definition m0_PendSV_Handler :: "instr list" where
  "m0_PendSV_Handler =
     [CPSID, MRS_PSP R0, SUBS R0 16, STMIA R0 [R4, R5, R6, R7], MOV R4 R8, MOV R5 R9, MOV R6 R10, MOV R7 R11,
      SUBS R0 32, STMIA R0 [R4, R5, R6, R7], SUBS R0 16, LDR_CURRENT R1 R2, CMP0 R2, BEQ 1, STR_SP R0 R2,
      PUSH [R1, LR], BL_SWITCH, POP [R1, R2], MOV LR R2, LDR_SP R0 R0, LDMIA R0 [R4, R5, R6, R7], MOV R8 R4,
      MOV R9 R5, MOV R10 R6, MOV R11 R7, LDMIA R0 [R4, R5, R6, R7], MSR_PSP R0, MOVI R0 0xFFFFFFFD, MOV LR R0,
      CPSIE]"

definition m0plus_SVC_Handler :: "instr list" where
  "m0plus_SVC_Handler =
     [LDR_CURRENT R0 R1, LDR_SP R0 R1, LDMIA R0 [R4, R5, R6, R7], MOV R8 R4, MOV R9 R5, MOV R10 R6, MOV R11 R7,
      LDMIA R0 [R4, R5, R6, R7], MSR_PSP R0, MOVI R1 2, MSR_CONTROL R1, ISB, MOVI R0 0xFFFFFFFD, MOV LR R0, CPSIE]"

definition m0plus_PendSV_Handler :: "instr list" where
  "m0plus_PendSV_Handler =
     [CPSID, MRS_PSP R0, SUBS R0 16, STMIA R0 [R4, R5, R6, R7], MOV R4 R8, MOV R5 R9, MOV R6 R10, MOV R7 R11,
      SUBS R0 32, STMIA R0 [R4, R5, R6, R7], SUBS R0 16, LDR_CURRENT R1 R2, CMP0 R2, BEQ 1, STR_SP R0 R2,
      PUSH [R1, LR], BL_SWITCH, POP [R1, R2], MOV LR R2, LDR_SP R0 R0, LDMIA R0 [R4, R5, R6, R7], MOV R8 R4,
      MOV R9 R5, MOV R10 R6, MOV R11 R7, LDMIA R0 [R4, R5, R6, R7], MSR_PSP R0, MOVI R0 0xFFFFFFFD, MOV LR R0,
      CPSIE]"

definition m3_SVC_Handler :: "instr list" where
  "m3_SVC_Handler =
     [LDR_CURRENT R0 R1, LDR_SP R0 R1, LDMIA R0 sw_regs, MSR_PSP R0, ISB, MOVI R1 2, MSR_CONTROL R1, ISB, CPSIE]"

definition m3_PendSV_Handler :: "instr list" where
  "m3_PendSV_Handler =
     [CPSID, MRS_PSP R0, ISB, STMDB R0 sw_regs, LDR_CURRENT R1 R2, CMP0 R2, BEQ 1, STR_SP R0 R2, PUSH [LR],
      BL_SWITCH, POP [LR], LDR_SP R2 R0, LDMIA R2 sw_regs, MSR_PSP R2, ISB, CPSIE]"

definition m4_SVC_Handler :: "instr list" where
  "m4_SVC_Handler =
     [LDR_CURRENT R0 R1, LDR_SP R0 R1, LDMIA R0 sw_regs, TST LR 0x10, VLDMIA_EQ R0, MSR_PSP R0, ISB, MOVI R1 2,
      MSR_CONTROL R1, ISB, CPSIE]"

definition m4_PendSV_Handler :: "instr list" where
  "m4_PendSV_Handler =
     [CPSID, MRS_PSP R0, ISB, TST LR 0x10, VSTMDB_EQ R0, STMDB R0 sw_regs, LDR_CURRENT R1 R2, CMP0 R2, BEQ 1,
      STR_SP R0 R2, PUSH [LR], BL_SWITCH, POP [LR], LDR_SP R2 R0, LDMIA R2 sw_regs, TST LR 0x10, VLDMIA_EQ R2,
      MSR_PSP R2, ISB, CPSIE]"

definition m7_SVC_Handler :: "instr list" where
  "m7_SVC_Handler =
     [LDR_CURRENT R0 R1, LDR_SP R0 R1, LDMIA R0 sw_regs, TST LR 0x10, VLDMIA_EQ R0, MSR_PSP R0, ISB, MOVI R1 2,
      MSR_CONTROL R1, ISB, CPSIE]"

definition m7_PendSV_Handler :: "instr list" where
  "m7_PendSV_Handler =
     [CPSID, MRS_PSP R0, ISB, TST LR 0x10, VSTMDB_EQ R0, STMDB R0 sw_regs, LDR_CURRENT R1 R2, CMP0 R2, BEQ 1,
      STR_SP R0 R2, PUSH [LR], BL_SWITCH, POP [LR], LDR_SP R2 R0, LDMIA R2 sw_regs, TST LR 0x10, VLDMIA_EQ R2,
      MSR_PSP R2, ISB, CPSIE]"

definition m23_SVC_Handler :: "instr list" where
  "m23_SVC_Handler =
     [LDR_CURRENT R0 R1, LDR_SP R0 R1, LDR_LIMIT R2 R1, MSR_PSPLIM R2, LDMIA R0 [R4, R5, R6, R7], MOV R8 R4,
      MOV R9 R5, MOV R10 R6, MOV R11 R7, LDMIA R0 [R4, R5, R6, R7], LDR_W R3 R0, ADDS R0 4, MOV LR R3, MSR_PSP R0,
      MOVI R1 2, MSR_CONTROL R1, ISB, CPSIE]"

definition m23_PendSV_Handler :: "instr list" where
  "m23_PendSV_Handler =
     [CPSID, MRS_PSP R0, MOV R3 LR, SUBS R0 4, STR_W R3 R0, SUBS R0 16, STMIA R0 [R4, R5, R6, R7], SUBS R0 16,
      MOV R4 R8, MOV R5 R9, MOV R6 R10, MOV R7 R11, SUBS R0 16, STMIA R0 [R4, R5, R6, R7], SUBS R0 16,
      LDR_CURRENT R1 R2, CMP0 R2, BEQ 1, STR_SP R0 R2, PUSH [R1, LR], BL_SWITCH, POP [R1, R2], MOV LR R2,
      LDR_LIMIT R3 R0, MSR_PSPLIM R3, LDR_SP R0 R0, LDMIA R0 [R4, R5, R6, R7], MOV R8 R4, MOV R9 R5, MOV R10 R6,
      MOV R11 R7, LDMIA R0 [R4, R5, R6, R7], LDR_W R3 R0, ADDS R0 4, MOV LR R3, MSR_PSP R0, CPSIE]"

definition m33_SVC_Handler :: "instr list" where
  "m33_SVC_Handler =
     [LDR_CURRENT R0 R1, LDR_SP R0 R1, LDR_LIMIT R2 R1, MSR_PSPLIM R2, LDMIA R0 sw_regs, TST LR 0x10,
      VLDMIA_EQ R0, MSR_PSP R0, ISB, MOVI R1 2, MSR_CONTROL R1, ISB, CPSIE]"

definition m33_PendSV_Handler :: "instr list" where
  "m33_PendSV_Handler =
     [CPSID, MRS_PSP R0, ISB, TST LR 0x10, VSTMDB_EQ R0, STMDB R0 sw_regs, LDR_CURRENT R1 R2, CMP0 R2, BEQ 1,
      STR_SP R0 R2, PUSH [LR], BL_SWITCH, POP [LR], LDR_SP R2 R0, LDR_LIMIT R3 R0, MSR_PSPLIM R3,
      LDMIA R2 sw_regs, TST LR 0x10, VLDMIA_EQ R2, MSR_PSP R2, ISB, CPSIE]"

definition m55_SVC_Handler :: "instr list" where
  "m55_SVC_Handler =
     [LDR_CURRENT R0 R1, LDR_SP R0 R1, LDR_LIMIT R2 R1, MSR_PSPLIM R2, LDMIA R0 sw_regs, TST LR 0x10,
      VLDMIA_EQ R0, MSR_PSP R0, ISB, MOVI R1 2, MSR_CONTROL R1, ISB, CPSIE]"

definition m55_PendSV_Handler :: "instr list" where
  "m55_PendSV_Handler =
     [CPSID, MRS_PSP R0, ISB, TST LR 0x10, VSTMDB_EQ R0, STMDB R0 sw_regs, LDR_CURRENT R1 R2, CMP0 R2, BEQ 1,
      STR_SP R0 R2, PUSH [LR], BL_SWITCH, POP [LR], LDR_SP R2 R0, LDR_LIMIT R3 R0, MSR_PSPLIM R3,
      LDMIA R2 sw_regs, TST LR 0x10, VLDMIA_EQ R2, MSR_PSP R2, ISB, CPSIE]"

section \<open>Blocks of words\<close>

lemma load_words_nth: "i < n \<Longrightarrow> load_words a n m ! i = load32 (a + 4 * of_nat i) m"
proof (induction n arbitrary: a i)
  case (Suc n)
  then show ?case by (cases i) (simp_all add: algebra_simps)
qed simp

lemma load_words_length [simp]: "length (load_words a n m) = n"
  by (induction n arbitrary: a) simp_all

lemma load_words_store:
  assumes "unat a + 4 * length ws \<le> 2 ^ 32" and "i + n \<le> length ws"
  shows "load_words (a + 4 * of_nat i) n (store_words a ws m) = take n (drop i ws)"
proof (rule nth_equalityI)
  fix j assume "j < length (load_words (a + 4 * of_nat i) n (store_words a ws m))"
  then have j: "j < n" by simp
  have "load_words (a + 4 * of_nat i) n (store_words a ws m) ! j = load32 (a + 4 * of_nat (i + j)) (store_words a ws m)"
    using j by (simp add: load_words_nth algebra_simps)
  also have "\<dots> = ws ! (i + j)" using assms j by (intro store_words_nth) auto
  finally show "load_words (a + 4 * of_nat i) n (store_words a ws m) ! j = take n (drop i ws) ! j"
    using assms j by simp
qed (use assms in simp)

lemma load_words_add: "load_words a (n + k) m = load_words a n m @ load_words (a + 4 * of_nat n) k m"
  by (induction n arbitrary: a) (simp_all add: algebra_simps)

lemma load_words_split:
  assumes "load_words a (length (xs @ ys)) m = xs @ ys"
  shows "load_words a (length xs) m = xs \<and> load_words (a + 4 * of_nat (length xs)) (length ys) m = ys"
  using assms by (simp add: load_words_add)

lemma load32_cong:
  assumes "unat a + 4 \<le> 2 ^ 32" and "\<And>x. unat a \<le> unat x \<Longrightarrow> unat x < unat a + 4 \<Longrightarrow> m x = m' x"
  shows "load32 a m = load32 a m'"
proof -
  have "unat (a + of_nat k) = unat a + k" if "k < 4" for k
    using that assms(1) by (intro unat_add_of_nat) simp
  from this [of 0] this [of 1] this [of 2] this [of 3]
  have "m a = m' a" "m (a + 1) = m' (a + 1)" "m (a + 2) = m' (a + 2)" "m (a + 3) = m' (a + 3)"
    by (auto intro: assms(2))
  then show ?thesis by (simp add: load32_def)
qed

lemma load_words_cong:
  assumes "unat a + 4 * n \<le> 2 ^ 32" and "\<And>x. unat a \<le> unat x \<Longrightarrow> unat x < unat a + 4 * n \<Longrightarrow> m x = m' x"
  shows "load_words a n m = load_words a n m'"
  using assms
proof (induction n arbitrary: a)
  case (Suc n)
  have 1: "load32 a m = load32 a m'" by (rule load32_cong) (use Suc.prems in auto)
  have 2: "load_words (a + 4) n m = load_words (a + 4) n m'"
  proof (cases n)
    case (Suc k)
    then have "unat (a + of_nat 4) = unat a + 4" using Suc.prems(1) by (intro unat_add_of_nat) simp
    then show ?thesis by (intro Suc.IH) (use Suc.prems in auto)
  qed simp
  show ?case using 1 2 by simp
qed simp

text \<open>A block of words has been written to memory and nothing else has changed.\<close>

definition stored :: "addr \<Rightarrow> 32 word list \<Rightarrow> (addr \<Rightarrow> byte) \<Rightarrow> (addr \<Rightarrow> byte) \<Rightarrow> bool" where
  "stored a ws m m' \<longleftrightarrow> load_words a (length ws) m' = ws \<and>
     (\<forall>x. unat x < unat a \<or> unat a + 4 * length ws \<le> unat x \<longrightarrow> m' x = m x)"

lemma stored_store_words:
  assumes "unat a + 4 * length ws \<le> 2 ^ 32" shows "stored a ws m (store_words a ws m)"
  using load_words_store [OF assms, of 0 "length ws"] store_words_other [OF assms] by (auto simp: stored_def)

lemma stored_below:
  assumes "stored b ys m m1" and "unat b = unat a + 4 * length xs" and "unat b + 4 * length ys \<le> 2 ^ 32"
  shows "stored a (xs @ ys) m (store_words a xs m1)"
proof -
  have a: "unat a + 4 * length xs \<le> 2 ^ 32" using assms(2,3) by simp
  have "unat b < 2 ^ LENGTH(32)" by (rule unsigned_less)
  then have "unat (a + of_nat (4 * length xs)) = unat b" using assms(2) by (subst unat_add_of_nat) simp_all
  then have b: "a + 4 * of_nat (length xs) = b" by (simp add: word_unat_eq_iff)
  have "load_words b (length ys) (store_words a xs m1) = load_words b (length ys) m1"
    by (rule load_words_cong [OF assms(3)]) (use assms(2) in \<open>auto intro: store_words_other [OF a]\<close>)
  then have "load_words a (length (xs @ ys)) (store_words a xs m1) = xs @ ys"
    using load_words_store [OF a, of 0 "length xs"] assms(1) by (simp add: load_words_add b stored_def)
  moreover have "store_words a xs m1 x = m x" if "unat x < unat a \<or> unat a + 4 * length (xs @ ys) \<le> unat x" for x
    using that assms(1,2) store_words_other [OF a, of x m1] by (auto simp: stored_def)
  ultimately show ?thesis by (auto simp: stored_def)
qed

section \<open>The cores\<close>

datatype cortex_core = M0 | M0plus | M3 | M4 | M7 | M23 | M33 | M55

fun core_frame :: "cortex_core \<Rightarrow> addr \<Rightarrow> addr \<Rightarrow> 32 word list" where
  "core_frame M0 = cortex_m0_frame" | "core_frame M0plus = cortex_m0plus_frame" | "core_frame M3 = cortex_m3_frame"
| "core_frame M4 = cortex_m4_frame" | "core_frame M7 = cortex_m7_frame" | "core_frame M23 = cortex_m23_frame"
| "core_frame M33 = cortex_m33_frame" | "core_frame M55 = cortex_m55_frame"

fun core_SVC_Handler :: "cortex_core \<Rightarrow> instr list" where
  "core_SVC_Handler M0 = m0_SVC_Handler" | "core_SVC_Handler M0plus = m0plus_SVC_Handler"
| "core_SVC_Handler M3 = m3_SVC_Handler" | "core_SVC_Handler M4 = m4_SVC_Handler"
| "core_SVC_Handler M7 = m7_SVC_Handler" | "core_SVC_Handler M23 = m23_SVC_Handler"
| "core_SVC_Handler M33 = m33_SVC_Handler" | "core_SVC_Handler M55 = m55_SVC_Handler"

fun core_PendSV_Handler :: "cortex_core \<Rightarrow> instr list" where
  "core_PendSV_Handler M0 = m0_PendSV_Handler" | "core_PendSV_Handler M0plus = m0plus_PendSV_Handler"
| "core_PendSV_Handler M3 = m3_PendSV_Handler" | "core_PendSV_Handler M4 = m4_PendSV_Handler"
| "core_PendSV_Handler M7 = m7_PendSV_Handler" | "core_PendSV_Handler M23 = m23_PendSV_Handler"
| "core_PendSV_Handler M33 = m33_PendSV_Handler" | "core_PendSV_Handler M55 = m55_PendSV_Handler"

text \<open>The ARMv8-M cores check the stack pointer against PSPLIM.\<close>

definition core_limits :: "cortex_core set" where
  "core_limits = {M23, M33, M55}"

lemmas core_frame_defs = cortex_m0_frame_def cortex_m0plus_frame_def cortex_m3_frame_def cortex_m4_frame_def
  cortex_m7_frame_def cortex_m23_frame_def cortex_m33_frame_def cortex_m55_frame_def

lemmas svc_defs = m0_SVC_Handler_def m0plus_SVC_Handler_def m3_SVC_Handler_def m4_SVC_Handler_def m7_SVC_Handler_def
  m23_SVC_Handler_def m33_SVC_Handler_def m55_SVC_Handler_def

interpretation core_stack: framed_stack "core_frame k" "if k \<in> {M0, M0plus} then 64 else 68" for k
  by unfold_locales (cases k; simp add: core_frame_defs SERTOS_CONFIG_MINIMAL_STACK_SIZE_def)+

section \<open>Starting a task\<close>

text \<open>The state in which a task begins: what \<open>SVC_Handler\<close> and the exception return leave behind.\<close>

definition begins ::
  "cortex_core \<Rightarrow> addr \<Rightarrow> addr \<Rightarrow> addr \<Rightarrow> addr \<Rightarrow> ('b, 'r, 'm) machine \<Rightarrow> bool" where
  "begins k entry param stk_top limit st \<longleftrightarrow>
     (let th = exception_return st
      in th_pc th = entry \<and> th_regs th R0 = param \<and> th_xpsr th = CORTEX_M_DEFAULT_XPSR \<and> th_sp th = stk_top \<and>
         gpr (fst st) LR = CORTEX_M_EXC_RETURN_THREAD_PSP \<and> control (fst st) = 2 \<and> cm_primask (port (snd st)) = 0 \<and>
         (k \<in> core_limits \<longrightarrow> psplim (fst st) = limit))"

lemma svc_begins:
  assumes sp: "tcb_stack_ptr (tcbs s (sertos_current_tcb s)) = sp"
    and lim: "tcb_stack_limit (tcbs s (sertos_current_tcb s)) = lim"
    and w: "\<And>i n. i + n \<le> length (core_frame k entry param) \<Longrightarrow>
      load_words (sp + 4 * of_nat i) n (mem s) = take n (drop i (core_frame k entry param))"
    and top: "stk_top = sp + 4 * of_nat (length (core_frame k entry param))"
  shows "\<exists>st. exec E csym clob (core_SVC_Handler k) (c, s) = Some st \<and> begins k entry param stk_top lim st"
proof -
  note w' = w [of 0 "length [R4, R5, R6, R7]"] w [of 4 "length [R4, R5, R6, R7]"] w [of 0 "length sw_regs"]
    w [of 8 8] w [of 9 8]
  have w8: "load32 (sp + 32) (mem s) = core_frame k entry param ! 8" using w [of 8 1] by (cases k) (simp_all add: core_frame_defs)
  note s = svc_defs core_frame_defs begins_def core_limits_def exception_return_def
    CORTEX_M_EXC_RETURN_THREAD_PSP_def sp lim Let_def top add.commute [of _ sp]
  show ?thesis
    by (cases k) (use w' w8 in \<open>simp_all add: s del: load_words.simps\<close>)
qed

section \<open>Saving and restoring\<close>

text \<open>A jump that stays inside a block: blocks of code can be run one after the other.\<close>

fun jumps_inside :: "instr list \<Rightarrow> bool" where
  "jumps_inside [] \<longleftrightarrow> True"
| "jumps_inside (i # is) \<longleftrightarrow> (case i of BEQ k \<Rightarrow> k \<le> length is | _ \<Rightarrow> True) \<and> jumps_inside is"

lemma jumps_inside_drop: "jumps_inside is \<Longrightarrow> jumps_inside (drop k is)"
  by (induction "is" arbitrary: k) (auto simp: drop_Cons split: nat.splits)

lemma exec_append:
  "jumps_inside xs \<Longrightarrow> exec E csym clob (xs @ ys) st = Option.bind (exec E csym clob xs st) (exec E csym clob ys)"
proof (induction xs arbitrary: st rule: length_induct)
  case (1 xs)
  show ?case
  proof (cases xs)
    case (Cons i "is")
    have IH: "exec E csym clob (zs @ ys) st' = Option.bind (exec E csym clob zs st') (exec E csym clob ys)"
      if "length zs \<le> length is" "jumps_inside zs" for zs st'
      using 1 that Cons by (cases st') auto
    have ok: "jumps_inside is" using 1(2) Cons by simp
    show ?thesis
    proof (cases "\<exists>k. i = BEQ k")
      case True
      then obtain k where k: "i = BEQ k" by blast
      then have "drop k (is @ ys) = drop k is @ ys" using 1(2) Cons by simp
      then show ?thesis using IH [of "drop k is"] IH [of "is"] ok jumps_inside_drop Cons k by simp
    next
      case False
      then have "exec E csym clob (i # zs) st = Option.bind (exec1 E csym clob i st) (exec E csym clob zs)" for zs
        by (cases i) simp_all
      moreover have "exec E csym clob (is @ ys) = (\<lambda>st'. Option.bind (exec E csym clob is st') (exec E csym clob ys))"
        using IH [OF _ ok] by blast
      ultimately show ?thesis using Cons by (simp del: exec.simps add: bind_assoc)
    qed
  qed simp
qed

text \<open>What a handler saves of the interrupted task, from the lowest address up.\<close>

fun core_context :: "cortex_core \<Rightarrow> cpu \<Rightarrow> 32 word list" where
  "core_context M0 c = map (gpr c) [R8, R9, R10, R11, R4, R5, R6, R7]"
| "core_context M0plus c = map (gpr c) [R8, R9, R10, R11, R4, R5, R6, R7]"
| "core_context M23 c = map (gpr c) [R8, R9, R10, R11, R4, R5, R6, R7, LR]"
| "core_context M3 c = map (gpr c) sw_regs"
| "core_context k c = map (gpr c) sw_regs @ (if gpr c LR AND 0x10 = 0 then fpu_s16_s31 c else [])"

definition core_save :: "cortex_core \<Rightarrow> instr list" where
  "core_save k = takeWhile (\<lambda>i. case i of PUSH rs \<Rightarrow> False | _ \<Rightarrow> True) (core_PendSV_Handler k)"

definition core_rest :: "cortex_core \<Rightarrow> instr list" where
  "core_rest k = dropWhile (\<lambda>i. case i of PUSH rs \<Rightarrow> False | _ \<Rightarrow> True) (core_PendSV_Handler k)"

lemmas pendsv_defs = m0_PendSV_Handler_def m0plus_PendSV_Handler_def m3_PendSV_Handler_def m4_PendSV_Handler_def
  m7_PendSV_Handler_def m23_PendSV_Handler_def m33_PendSV_Handler_def m55_PendSV_Handler_def

lemma pendsv_exec:
  "exec E csym clob (core_PendSV_Handler k) st =
     Option.bind (exec E csym clob (core_save k) st) (exec E csym clob (core_rest k))"
proof -
  have "core_PendSV_Handler k = core_save k @ core_rest k" by (simp add: core_save_def core_rest_def)
  moreover have "jumps_inside (core_save k)" by (cases k) (simp_all add: core_save_def pendsv_defs)
  ultimately show ?thesis using exec_append by simp
qed

lemma unat_sub_small: "n \<le> unat (a :: addr) \<Longrightarrow> unat (a - of_nat n) = unat a - n"
proof -
  assume n: "n \<le> unat a"
  have "unat a < 2 ^ LENGTH(32)" by (rule unsigned_less)
  then have "unat (of_nat n :: addr) = n" using n by (simp add: unat_of_nat)
  then show ?thesis using n by (simp add: unat_sub word_le_nat_alt)
qed

lemma save_stores:
  assumes cur: "sertos_current_tcb s \<noteq> NULL" and fpu: "length (fpu_s16_s31 c) = 16"
    and room: "4 * length (core_context k c) \<le> unat (psp c)"
    and sp: "sp = psp c - of_nat (4 * length (core_context k c))"
  shows "\<exists>c' s'. exec E csym clob (core_save k) (c, s) = Some (c', s') \<and> stored sp (core_context k c) (mem s) (mem s') \<and>
    tcbs s' = (tcbs s)(sertos_current_tcb s := (tcbs s (sertos_current_tcb s))\<lparr>tcb_stack_ptr := sp\<rparr>) \<and>
    list_heap s' = list_heap s \<and> s_ready_bitmap s' = s_ready_bitmap s \<and> sertos_current_tcb s' = sertos_current_tcb s"
proof -
  let ?m = "mem s" and ?p = "psp c" and ?lo = "map (gpr c) [R4, R5, R6, R7]" and ?hi = "map (gpr c) [R8, R9, R10, R11]"
  have p: "unat ?p < 2 ^ 32" using unsigned_less [of ?p] by simp
  note u = unat_sub_small [of _ ?p]
  note d = core_save_def pendsv_defs upd_tcb_def cur sp fpu
  consider "k \<in> {M0, M0plus}" | "k = M23" | "k = M3" | "k \<in> {M4, M7, M33, M55}" by (cases k) auto
  then show ?thesis
  proof cases
    case 1
    then have n: "32 \<le> unat ?p" using room by auto
    have a: "stored (?p - 16) ?lo ?m (store_words (?p - 16) ?lo ?m)"
      by (rule stored_store_words) (use u [of 16] n p in simp)
    have "stored (?p - 32) (?hi @ ?lo) ?m (store_words (?p - 32) ?hi (store_words (?p - 16) ?lo ?m))"
      by (rule stored_below [OF a]) (use u [of 16] u [of 32] n p in simp_all)
    then show ?thesis using 1 by (auto simp: d simp del: store_words.simps)
  next
    case 2
    then have n: "36 \<le> unat ?p" using room by auto
    have a: "stored (?p - 4) [gpr c LR] ?m (store_words (?p - 4) [gpr c LR] ?m)"
      by (rule stored_store_words) (use u [of 4] n p in simp)
    have b: "stored (?p - 20) (?lo @ [gpr c LR]) ?m (store_words (?p - 20) ?lo (store_words (?p - 4) [gpr c LR] ?m))"
      by (rule stored_below [OF a]) (use u [of 4] u [of 20] n p in simp_all)
    have "stored (?p - 36) (?hi @ ?lo @ [gpr c LR]) ?m
        (store_words (?p - 36) ?hi (store_words (?p - 20) ?lo (store_words (?p - 4) [gpr c LR] ?m)))"
      by (rule stored_below [OF b]) (use u [of 20] u [of 36] n p in simp_all)
    then show ?thesis using 2 by (simp add: d)
  next
    case 3
    then have n: "36 \<le> unat ?p" using room by auto
    have "stored (?p - 36) (map (gpr c) sw_regs) ?m (store_words (?p - 36) (map (gpr c) sw_regs) ?m)"
      by (rule stored_store_words) (use u [of 36] n p in simp)
    then show ?thesis using 3 by (simp add: d Let_def del: store_words.simps)
  next
    case 4
    show ?thesis
    proof (cases "gpr c LR AND 0x10 = 0")
      case True
      then have n: "100 \<le> unat ?p" using room 4 fpu by auto
      have a: "stored (?p - 64) (fpu_s16_s31 c) ?m (store_words (?p - 64) (fpu_s16_s31 c) ?m)"
        by (rule stored_store_words) (use u [of 64] n p fpu in simp)
      have "stored (?p - 100) (map (gpr c) sw_regs @ fpu_s16_s31 c) ?m
          (store_words (?p - 100) (map (gpr c) sw_regs) (store_words (?p - 64) (fpu_s16_s31 c) ?m))"
        by (rule stored_below [OF a]) (use u [of 64] u [of 100] n p fpu in simp_all)
      then show ?thesis using 4 True by (auto simp: d Let_def simp del: store_words.simps)
    next
      case False
      then have n: "36 \<le> unat ?p" using room 4 by auto
      have "stored (?p - 36) (map (gpr c) sw_regs) ?m (store_words (?p - 36) (map (gpr c) sw_regs) ?m)"
        by (rule stored_store_words) (use u [of 36] n p in simp)
      then show ?thesis using 4 False by (auto simp: d Let_def simp del: store_words.simps)
    qed
  qed
qed

text \<open>The registers that a task finds as it left them.\<close>

definition restored :: "cortex_core \<Rightarrow> cpu \<Rightarrow> cpu \<Rightarrow> bool" where
  "restored k c c' \<longleftrightarrow>
     map (gpr c') [R4, R5, R6, R7, R8, R9, R10, R11] = map (gpr c) [R4, R5, R6, R7, R8, R9, R10, R11] \<and>
     gpr c' LR = (if k \<in> {M0, M0plus} then CORTEX_M_EXC_RETURN_THREAD_PSP else gpr c LR) \<and>
     (k \<in> {M4, M7, M33, M55} \<and> gpr c LR AND 0x10 = 0 \<longrightarrow> fpu_s16_s31 c' = fpu_s16_s31 c)"

lemma rest_restores:
  assumes sw: "sertos_scheduler_perform_switch E s = Some (n, s')" and sp: "sp = tcb_stack_ptr (tcbs s' n)"
    and w: "load_words sp (length (core_context k c0)) (mem s') = core_context k c0" and fpu: "length (fpu_s16_s31 c0) = 16"
  shows "\<exists>c1 s1. exec E csym clob (core_rest k) (c, s) = Some (c1, s1) \<and> restored k c0 c1 \<and>
    psp c1 = sp + of_nat (4 * length (core_context k c0)) \<and> cm_primask (port s1) = 0 \<and>
    (k \<in> core_limits \<longrightarrow> psplim c1 = tcb_stack_limit (tcbs s' n)) \<and>
    mem s1 = mem s' \<and> tcbs s1 = tcbs s' \<and> sertos_current_tcb s1 = sertos_current_tcb s' \<and>
    list_heap s1 = list_heap s' \<and> s_ready_bitmap s1 = s_ready_bitmap s'"
proof -
  note d = core_rest_def pendsv_defs sw sp [symmetric] restored_def core_limits_def add.commute [of _ sp]
    CORTEX_M_EXC_RETURN_THREAD_PSP_def
  let ?lo = "map (gpr c0) [R4, R5, R6, R7]" and ?hi = "map (gpr c0) [R8, R9, R10, R11]"
  consider "k \<in> {M0, M0plus}" | "k = M23" | "k = M3" | "k \<in> {M4, M7, M33, M55}" by (cases k) auto
  then show ?thesis
  proof cases
    case 1
    then have "load_words sp (length (?hi @ ?lo)) (mem s') = ?hi @ ?lo" using w by auto
    from load_words_split [OF this] show ?thesis using 1 by (auto simp: d simp del: load_words.simps)
  next
    case 2
    then have "load_words sp (length (?hi @ ?lo @ [gpr c0 LR])) (mem s') = ?hi @ ?lo @ [gpr c0 LR]" using w by simp
    from load_words_split [OF this] have hi: "load_words sp (length ?hi) (mem s') = ?hi"
      and lo: "load_words (sp + 16) (length (?lo @ [gpr c0 LR])) (mem s') = ?lo @ [gpr c0 LR]" by simp_all
    from load_words_split [OF lo] have "load_words (sp + 16) (length ?lo) (mem s') = ?lo" "load32 (sp + 32) (mem s') = gpr c0 LR"
      by (simp_all add: add.assoc)
    with hi show ?thesis using 2 by (simp add: d del: load_words.simps)
  next
    case 3
    then show ?thesis using w by (simp add: d del: load_words.simps)
  next
    case 4
    show ?thesis
    proof (cases "gpr c0 LR AND 0x10 = 0")
      case True
      let ?sw = "map (gpr c0) sw_regs"
      have "load_words sp (length (?sw @ fpu_s16_s31 c0)) (mem s') = ?sw @ fpu_s16_s31 c0" using w 4 True by auto
      from load_words_split [OF this] show ?thesis using 4 True fpu by (auto simp: d simp del: load_words.simps)
    next
      case False
      then show ?thesis using w 4 by (auto simp: d simp del: load_words.simps)
    qed
  qed
qed

text \<open>The scheduler touches neither the stacks nor the saved stack pointers.\<close>

lemma perform_switch_stacks:
  assumes "sertos_scheduler_perform_switch E s = Some (n, s')"
  shows "mem s' = mem s" "tcb_stack_ptr (tcbs s' a) = tcb_stack_ptr (tcbs s a)"
    "tcb_stack_limit (tcbs s' a) = tcb_stack_limit (tcbs s a)"
  using assms
  by (auto simp: sertos_scheduler_perform_switch_def sertos_stats_on_switch_def upd_tcb_def Let_def
      split: bind_splits if_splits)

text \<open>A task that does not run is parked: its context lies below the stack pointer \<open>p\<close> it had when it was
  interrupted, where its control block points.\<close>

definition parked :: "cortex_core \<Rightarrow> cpu \<Rightarrow> addr \<Rightarrow> ('b, 'r, 'm, cortex_port) kstate \<Rightarrow> addr \<Rightarrow> bool" where
  "parked k c p s a \<longleftrightarrow> (let n = length (core_context k c)
     in 4 * n \<le> unat p \<and> tcb_stack_ptr (tcbs s a) = p - of_nat (4 * n) \<and>
        load_words (p - of_nat (4 * n)) n (mem s) = core_context k c \<and> length (fpu_s16_s31 c) = 16)"

text \<open>The addresses of the saved context.\<close>

definition frame_of :: "cortex_core \<Rightarrow> cpu \<Rightarrow> addr \<Rightarrow> addr set" where
  "frame_of k c p = {x. unat p - 4 * length (core_context k c) \<le> unat x \<and> unat x < unat p}"

lemma parked_cong:
  assumes "parked k c p s a" and "tcb_stack_ptr (tcbs s' a) = tcb_stack_ptr (tcbs s a)"
    and "\<And>x. x \<in> frame_of k c p \<Longrightarrow> mem s' x = mem s x"
  shows "parked k c p s' a"
proof -
  let ?n = "length (core_context k c)"
  have n: "4 * ?n \<le> unat p" using assms(1) by (simp add: parked_def Let_def)
  have u: "unat (p - of_nat (4 * ?n)) = unat p - 4 * ?n" using n by (rule unat_sub_small)
  have p: "unat p < 2 ^ 32" using unsigned_less [of p] by simp
  have "load_words (p - of_nat (4 * ?n)) ?n (mem s') = load_words (p - of_nat (4 * ?n)) ?n (mem s)"
  proof (rule load_words_cong)
    show "unat (p - of_nat (4 * ?n)) + 4 * ?n \<le> 2 ^ 32" using n p u by simp
    show "mem s' x = mem s x" if "unat (p - of_nat (4 * ?n)) \<le> unat x" "unat x < unat (p - of_nat (4 * ?n)) + 4 * ?n" for x
      using that n u by (intro assms(3)) (simp add: frame_of_def)
  qed
  then show ?thesis using assms(1,2) by (simp add: parked_def Let_def)
qed

end
