(* ===== verification/Sertos_Riscv.thy ===== *)
theory Sertos_Riscv
  imports Sertos_Switch
begin

text \<open>
  The RISC-V port (\<open>port/riscv/port_cpu.c\<close>), with and without floating-point registers (\<open>fpu\<close> is
  \<open>__riscv_flen > 0\<close>): the initial frame, the critical section over \<open>mstatus.MIE\<close>, the machine timer. The 64-bit
  time register runs while it is read in halves; \<open>clock i\<close> is its value at the \<open>i\<close>-th read of the program.
  \<open>ecall\<close> stands for the trap that switches tasks (\<open>port/riscv/port_context.S\<close>).
\<close>

section \<open>The port's state\<close>

record riscv_port =
  rv_mstatus :: "32 word"
  rv_mie :: "32 word"
  rv_mtvec :: "32 word"
  rv_mcycle :: "32 word"
  rv_regs :: "addr \<Rightarrow> 32 word"
  rv_reads :: nat
  rv_critical_nesting :: "32 word"
  s_in_isr :: "32 word"
  s_tick_cycles :: "32 word"

definition MSTATUS_MPP_MACHINE :: "32 word" where
  "MSTATUS_MPP_MACHINE = push_bit 11 3"

definition MSTATUS_MPIE_ENABLE :: "32 word" where
  "MSTATUS_MPIE_ENABLE = push_bit 7 1"

definition MSTATUS_FS_INITIAL :: "32 word" where
  "MSTATUS_FS_INITIAL = push_bit 13 1"

definition riscv_tick_clock_hz :: "32 word" where
  "riscv_tick_clock_hz = 10000000"

section \<open>The initial frame\<close>

text \<open>A cleared frame in which \<open>mepc\<close> (word 28), \<open>mstatus\<close> (word 29) and \<open>a0\<close> (word 6) are set.\<close>

definition riscv_frame :: "bool \<Rightarrow> addr \<Rightarrow> addr \<Rightarrow> 32 word list" where
  "riscv_frame fpu entry param =
     (replicate (if fpu then 64 else 32) 0)
       [28 := entry,
        29 := (if fpu then MSTATUS_MPP_MACHINE OR MSTATUS_MPIE_ENABLE OR MSTATUS_FS_INITIAL
               else MSTATUS_MPP_MACHINE OR MSTATUS_MPIE_ENABLE),
        6 := param]"

section \<open>Critical sections\<close>

text \<open>\<open>csrrci mstatus, 8\<close> returns the register and clears bit 3.\<close>

definition riscv_enter_critical :: "riscv_port \<Rightarrow> 32 word \<times> riscv_port" where
  "riscv_enter_critical p =
     (rv_mstatus p, p\<lparr>rv_mstatus := rv_mstatus p AND NOT 8, rv_critical_nesting := rv_critical_nesting p + 1\<rparr>)"

definition riscv_exit_critical :: "32 word \<Rightarrow> riscv_port \<Rightarrow> riscv_port" where
  "riscv_exit_critical status p =
     (if 0 < rv_critical_nesting p
      then let p1 = p\<lparr>rv_critical_nesting := rv_critical_nesting p - 1\<rparr>
           in if rv_critical_nesting p1 = 0 then p1\<lparr>rv_mstatus := status\<rparr> else p1
      else p)"

section \<open>The machine timer\<close>

definition word_hi :: "64 word \<Rightarrow> 32 word" where
  "word_hi t = ucast (drop_bit 32 t)"

definition word_lo :: "64 word \<Rightarrow> 32 word" where
  "word_lo t = ucast (t AND 0xFFFFFFFF)"

definition join_words :: "32 word \<Rightarrow> 32 word \<Rightarrow> 64 word" where
  "join_words h l = push_bit 32 (ucast h) OR ucast l"

text \<open>The loop that reads the halves until the upper one is stable, from the \<open>n\<close>-th read on.\<close>

partial_function (option) read_mtime :: "(nat \<Rightarrow> 64 word) \<Rightarrow> nat \<Rightarrow> (32 word \<times> 32 word \<times> nat) option" where
  "read_mtime clock n =
     (let now_h = word_hi (clock n); now_l = word_lo (clock (n + 1))
      in if now_h \<noteq> word_hi (clock (n + 2)) then read_mtime clock (n + 3) else Some (now_h, now_l, n + 3))"

definition rv_write :: "addr \<Rightarrow> 32 word \<Rightarrow> riscv_port \<Rightarrow> riscv_port" where
  "rv_write a v p = p\<lparr>rv_regs := (rv_regs p)(a := v)\<rparr>"

text \<open>The three writes to the compare register, with the states after each of them.\<close>

definition mtimecmp_writes :: "64 word \<Rightarrow> riscv_port \<Rightarrow> riscv_port list" where
  "mtimecmp_writes next p =
     (let p1 = rv_write 0x02004004 0xFFFFFFFF p;
          p2 = rv_write 0x02004000 (word_lo next) p1;
          p3 = rv_write 0x02004004 (word_hi next) p2
      in [p1, p2, p3])"

definition mtimecmp :: "riscv_port \<Rightarrow> 64 word" where
  "mtimecmp p = join_words (rv_regs p 0x02004004) (rv_regs p 0x02004000)"

definition riscv_next_tick :: "(nat \<Rightarrow> 64 word) \<Rightarrow> riscv_port \<Rightarrow> riscv_port option" where
  "riscv_next_tick clock p = do {
     (now_h, now_l, n) \<leftarrow> read_mtime clock (rv_reads p);
     let next = join_words now_h now_l + ucast (s_tick_cycles p);
     Some (last (mtimecmp_writes next (p\<lparr>rv_reads := n\<rparr>)))
   }"

definition sertos_port_riscv_timer_handler ::
  "('b, 'r, 'm, riscv_port) env \<Rightarrow> (nat \<Rightarrow> 64 word) \<Rightarrow> ('b, 'r, 'm, riscv_port) kstate \<Rightarrow>
   ('b, 'r, 'm, riscv_port) kstate option" where
  "sertos_port_riscv_timer_handler E clock s = do {
     p \<leftarrow> riscv_next_tick clock (port s);
     s1 \<leftarrow> sertos_scheduler_tick E (s\<lparr>port := p\<lparr>s_in_isr := 1\<rparr>\<rparr>);
     Some (s1\<lparr>port := (port s1)\<lparr>s_in_isr := 0\<rparr>\<rparr>)
   }"

definition riscv_tick_init ::
  "bool \<Rightarrow> addr \<Rightarrow> (nat \<Rightarrow> 64 word) \<Rightarrow> 32 word \<Rightarrow> 32 word \<Rightarrow> riscv_port \<Rightarrow> (SertosStatus \<times> riscv_port) option" where
  "riscv_tick_init fpu trap_addr clock timer_clock_hz tick_rate_hz p =
     (let p1 = p\<lparr>rv_mtvec := trap_addr\<rparr>;
          p2 = (if fpu then p1\<lparr>rv_mstatus := rv_mstatus p1 OR MSTATUS_FS_INITIAL\<rparr> else p1)
      in if tick_rate_hz = 0 \<or> timer_clock_hz < tick_rate_hz then Some (SERTOS_STATUS_ERROR_INVALID_PARAM, p2)
         else do {
           p3 \<leftarrow> riscv_next_tick clock (p2\<lparr>s_tick_cycles := timer_clock_hz div tick_rate_hz\<rparr>);
           Some (SERTOS_STATUS_OK, p3\<lparr>rv_mie := rv_mie p3 OR push_bit 7 1\<rparr>)
         })"

section \<open>The port\<close>

definition riscv_request_exit :: "riscv_port \<Rightarrow> riscv_port" where
  "riscv_request_exit p = rv_write 0x100000 0x5555 (p\<lparr>rv_mstatus := rv_mstatus p AND NOT 8\<rparr>)"

definition riscv_stop_scheduler ::
  "('b, 'r, 'm, riscv_port) kstate \<Rightarrow> ('b, 'r, 'm, riscv_port) kstate option" where
  "riscv_stop_scheduler s = wfi_loop (s\<lparr>port := riscv_request_exit (port s)\<rparr>)"

text \<open>The timer set-up may not return in the model, so it is not among the operations installed here.\<close>

definition riscv_port_of ::
  "bool \<Rightarrow> (('b, 'r, 'm, riscv_port) kstate \<Rightarrow> ('b, 'r, 'm, riscv_port) kstate option) \<Rightarrow>
   ('b, 'r, 'm, riscv_port) env \<Rightarrow> ('b, 'r, 'm, riscv_port) env" where
  "riscv_port_of fpu ecall E = E\<lparr>
     sertos_port_stack_init := framed_stack_init (riscv_frame fpu),
     sertos_port_yield := (\<lambda>s. if s_in_isr (port s) = 0 then ecall s else Some s),
     sertos_port_enter_critical := riscv_enter_critical,
     sertos_port_exit_critical := riscv_exit_critical,
     sertos_port_runtime_counter := (\<lambda>s. rv_mcycle (port s)),
     sertos_port_runtime_counter_init := (\<lambda>p. p),
     sertos_port_task_create_hook := (\<lambda>tcb ctx p. (ctx, p)),
     sertos_port_task_delete_hook := (\<lambda>tcb ctx p. (ctx, p)),
     sertos_port_stop_scheduler := riscv_stop_scheduler,
     port_is_host := False\<rparr>"

section \<open>The contracts\<close>

interpretation riscv_stack: framed_stack "riscv_frame fpu" "if fpu then 256 else 128" for fpu
  by unfold_locales (simp_all add: riscv_frame_def SERTOS_CONFIG_MINIMAL_STACK_SIZE_def)

lemma riscv_kernel_env: "kernel_env E bits \<Longrightarrow> kernel_env (riscv_port_of fpu ecall E) bits"
  by (simp add: kernel_env_def riscv_port_of_def)

definition riscv_wf :: "riscv_port \<Rightarrow> bool" where
  "riscv_wf p \<longleftrightarrow> (0 < rv_critical_nesting p \<longrightarrow> \<not> bit (rv_mstatus p) 3)"

lemma clear_mie: "\<not> bit (w AND (- 9 :: 32 word)) 3"
proof -
  have "bit (8 :: 32 word) 3" by (simp add: bit_numeral_rec)
  then have "\<not> bit (w AND NOT 8) 3" by (simp only: bit_and_iff bit_not_iff) simp
  moreover have "NOT 8 = (- 9 :: 32 word)" by simp
  ultimately show ?thesis by simp
qed

interpretation rv_critical: critical_section riscv_enter_critical riscv_exit_critical
  "\<lambda>p. \<not> bit (rv_mstatus p) 3" "\<lambda>p. unat (rv_critical_nesting p)" riscv_wf
proof
  fix p q :: riscv_port and st :: "32 word"
  show "\<not> bit (rv_mstatus (snd (riscv_enter_critical p))) 3" by (simp add: riscv_enter_critical_def clear_mie)
  show "unat (rv_critical_nesting (snd (riscv_enter_critical p))) = Suc (unat (rv_critical_nesting p))"
    if "Suc (unat (rv_critical_nesting p)) < 2 ^ 32"
    using that by (simp add: riscv_enter_critical_def unat_word_ariths)
  show "\<not> bit (rv_mstatus p) 3" if "riscv_wf p" "0 < unat (rv_critical_nesting p)"
    using that by (simp add: riscv_wf_def word_less_nat_alt)
  show "riscv_wf (snd (riscv_enter_critical p))" by (simp add: riscv_wf_def riscv_enter_critical_def clear_mie)
  show "(\<not> bit (rv_mstatus (riscv_exit_critical (fst (riscv_enter_critical p)) q)) 3) = (\<not> bit (rv_mstatus p) 3)"
    if "unat (rv_critical_nesting q) = 1"
  proof -
    have "rv_critical_nesting q = 1" using that by (simp add: word_unat_eq_iff)
    then show ?thesis by (simp add: riscv_exit_critical_def riscv_enter_critical_def)
  qed
  show "(\<not> bit (rv_mstatus (riscv_exit_critical st q)) 3) = (\<not> bit (rv_mstatus q) 3)"
    if "1 < unat (rv_critical_nesting q)"
  proof -
    have "0 < rv_critical_nesting q" using that by (simp add: word_less_nat_alt)
    then have "unat (rv_critical_nesting q - 1) \<noteq> 0" using that by (simp add: unat_minus_one_pos)
    then have "rv_critical_nesting q - 1 \<noteq> 0" by (metis unat_0)
    then show ?thesis by (simp add: riscv_exit_critical_def Let_def)
  qed
  show "unat (rv_critical_nesting (riscv_exit_critical st q)) = unat (rv_critical_nesting q) - 1"
    by (auto simp: riscv_exit_critical_def Let_def unat_minus_one_pos word_less_nat_alt)
  show "riscv_wf (riscv_exit_critical st q)" if "riscv_wf q"
    using that by (auto simp: riscv_exit_critical_def riscv_wf_def Let_def)
qed

section \<open>Reading the time and setting the alarm\<close>

lemma word_hi_unat: "unat (word_hi t) = unat t div 2 ^ 32"
proof -
  have "unat t < 2 ^ LENGTH(64)" by (rule unsigned_less)
  then have "unat t div 2 ^ 32 < 2 ^ 32" by (simp add: less_mult_imp_div_less)
  then show ?thesis by (simp add: word_hi_def unsigned_ucast_eq unsigned_drop_bit_eq drop_bit_eq_div take_bit_nat_eq_self unat_div)
qed

lemma join_hi_lo: "join_words (word_hi t) (word_lo t) = t"
proof -
  have m: "(0xFFFFFFFF :: 64 word) = mask 32" by (simp add: mask_eq_exp_minus_1)
  show ?thesis
  proof (rule bit_word_eqI)
    fix n assume "n < LENGTH(64)"
    then show "bit (join_words (word_hi t) (word_lo t)) n = bit t n"
      by (cases "n < 32") (auto simp: join_words_def word_hi_def word_lo_def m bit_simps)
  qed
qed

lemma word_hi_join: "word_hi (join_words h l) = h"
proof (rule bit_word_eqI)
  fix n assume "n < LENGTH(32)"
  then show "bit (word_hi (join_words h l)) n = bit h n"
    using bit_imp_le_length [of l "32 + n"] by (auto simp: join_words_def word_hi_def bit_simps)
qed

lemma word_hi_mono: "t \<le> u \<Longrightarrow> unat (word_hi t) \<le> unat (word_hi u)"
  by (simp add: word_hi_unat word_le_nat_alt div_le_mono)

text \<open>The loop ends, because the upper half can change only finitely often, and the value it returns is the time
  at one of its reads: the halves fit together.\<close>

lemma read_mtime_exact:
  assumes mono: "\<And>i. clock i \<le> clock (Suc i)"
  shows "\<exists>i \<ge> n. read_mtime clock n = Some (word_hi (clock i), word_lo (clock i), i + 2)"
proof (induction "2 ^ 32 - unat (word_hi (clock n))" arbitrary: n rule: less_induct)
  case less
  have le: "clock n \<le> clock (n + 1)" "clock (n + 1) \<le> clock (n + 2)" "clock (n + 2) \<le> clock (n + 3)"
    using mono [of n] mono [of "n + 1"] mono [of "n + 2"] by (simp_all add: numeral_eq_Suc)
  note hi = word_hi_mono [OF le(1)] word_hi_mono [OF le(2)] word_hi_mono [OF le(3)]
  show ?case
  proof (cases "word_hi (clock n) = word_hi (clock (n + 2))")
    case True
    then have "word_hi (clock (n + 1)) = word_hi (clock n)" using hi by (simp add: word_unat_eq_iff)
    then show ?thesis using True by (intro exI [of _ "n + 1"]) (subst read_mtime.simps, simp)
  next
    case False
    then have "unat (word_hi (clock n)) < unat (word_hi (clock (n + 3)))" using hi by (simp add: word_unat_eq_iff)
    moreover have "unat (word_hi (clock (n + 3))) < 2 ^ 32" using unsigned_less [of "word_hi (clock (n + 3))"] by simp
    ultimately have "2 ^ 32 - unat (word_hi (clock (n + 3))) < 2 ^ 32 - unat (word_hi (clock n))" by simp
    then obtain i where "n + 3 \<le> i" "read_mtime clock (n + 3) = Some (word_hi (clock i), word_lo (clock i), i + 2)"
      using less by blast
    then show ?thesis using False by (intro exI [of _ i]) (subst read_mtime.simps, simp)
  qed
qed

lemma mtimecmp_final: "mtimecmp (last (mtimecmp_writes t p)) = t"
  by (simp add: mtimecmp_writes_def mtimecmp_def rv_write_def Let_def join_hi_lo)

lemma mtimecmp_between:
  assumes "q \<in> set (butlast (mtimecmp_writes t p))" shows "0xFFFFFFFF00000000 \<le> mtimecmp q"
proof -
  have "rv_regs q 0x02004004 = 0xFFFFFFFF"
    using assms by (auto simp: mtimecmp_writes_def rv_write_def Let_def)
  then have "word_hi (mtimecmp q) = 0xFFFFFFFF" by (simp add: mtimecmp_def word_hi_join)
  then have "unat (mtimecmp q) div 2 ^ 32 = 0xFFFFFFFF" using word_hi_unat [of "mtimecmp q"] by simp
  then show ?thesis by (simp add: word_le_nat_alt)
qed

end
