(* ===== verification/Sertos_Trap.thy ===== *)
theory Sertos_Trap
  imports Sertos_Riscv
begin

text \<open>
  The trap handler of the RISC-V port (\<open>port/riscv/port_context.S\<close>): start of the first task, saving and restoring of
  the frame, and the way from a trap to the scheduler. \<open>fpu\<close> is the build with floating point registers. A run of
  \<open>sw\<close> or \<open>lw\<close> instructions at ascending offsets is \<open>store_words\<close> or \<open>load_words\<close>; \<open>mstatus\<close> and \<open>mtvec\<close> belong to
  the port of Sertos_Riscv. The instruction \<open>mret\<close> is the thread it continues.
\<close>

section \<open>The processor\<close>

datatype rvreg = RA | T0 | T1 | T2 | S0 | S1 | A0 | A1 | A2 | A3 | A4 | A5 | A6 | A7 |
  S2 | S3 | S4 | S5 | S6 | S7 | S8 | S9 | S10 | S11 | T3 | T4 | T5 | T6

record rv_cpu =
  xreg :: "rvreg \<Rightarrow> 32 word"
  xsp :: addr
  mepc :: "32 word"
  mcause :: "32 word"
  fregs :: "32 word list"
  fcsr :: "32 word"

record rv_thread =
  rt_pc :: "32 word"
  rt_regs :: "rvreg \<Rightarrow> 32 word"
  rt_sp :: addr
  rt_mie :: bool
  rt_fregs :: "32 word list"
  rt_fcsr :: "32 word"

type_synonym ('b, 'r, 'm) rv_machine = "rv_cpu \<times> ('b, 'r, 'm, riscv_port) kstate"

definition mret :: "('b, 'r, 'm) rv_machine \<Rightarrow> rv_thread" where
  "mret st = (let (c, s) = st
     in \<lparr>rt_pc = mepc c, rt_regs = xreg c, rt_sp = xsp c, rt_mie = bit (rv_mstatus (port s)) 7,
         rt_fregs = fregs c, rt_fcsr = fcsr c\<rparr>)"

text \<open>The integer registers in the order of their offsets in the frame.\<close>

definition rv_order :: "rvreg list" where
  "rv_order = [RA, T0, T1, T2, S0, S1, A0, A1, A2, A3, A4, A5, A6, A7,
     S2, S3, S4, S5, S6, S7, S8, S9, S10, S11, T3, T4, T5, T6]"

fun set_xregs :: "rvreg list \<Rightarrow> 32 word list \<Rightarrow> (rvreg \<Rightarrow> 32 word) \<Rightarrow> rvreg \<Rightarrow> 32 word" where
  "set_xregs (r # rs) (w # ws) g = set_xregs rs ws (g(r := w))"
| "set_xregs rs ws g = g"

definition FRAME_SIZE :: "bool \<Rightarrow> nat" where
  "FRAME_SIZE fpu = (if fpu then 256 else 128)"

section \<open>Saving and restoring the frame\<close>

text \<open>\<open>csrs mstatus, 3 << 13\<close>: the floating point unit is switched on before its registers are used.\<close>

definition enable_fpu :: "('b, 'r, 'm, riscv_port) kstate \<Rightarrow> ('b, 'r, 'm, riscv_port) kstate" where
  "enable_fpu s = s\<lparr>port := (port s)\<lparr>rv_mstatus := rv_mstatus (port s) OR push_bit 13 3\<rparr>\<rparr>"

text \<open>From \<open>sw t0, 112(sp)\<close> on: \<open>t0\<close> is the address to continue at, \<open>t1\<close> the status.\<close>

definition rv_save_csr ::
  "bool \<Rightarrow> 32 word \<Rightarrow> 32 word \<Rightarrow> rv_cpu \<Rightarrow> ('b, 'r, 'm, riscv_port) kstate \<Rightarrow> ('b, 'r, 'm, riscv_port) kstate" where
  "rv_save_csr fpu t0 t1 c s =
     (let s1 = s\<lparr>mem := store_words (xsp c + 112) [t0, t1] (mem s)\<rparr>
      in if fpu then let s2 = enable_fpu s1 in s2\<lparr>mem := store_words (xsp c + 120) (fregs c @ [fcsr c]) (mem s2)\<rparr> else s1)"

text \<open>From \<open>lw t0, 112(sp)\<close> to \<open>mret\<close>, the same code at the end of \<open>sertos_port_start_first_task\<close> and of the handler.\<close>

definition rv_restore :: "bool \<Rightarrow> ('b, 'r, 'm) rv_machine \<Rightarrow> ('b, 'r, 'm) rv_machine" where
  "rv_restore fpu st =
     (let (c, s) = st;
          sp = xsp c;
          c1 = c\<lparr>mepc := load32 (sp + 112) (mem s)\<rparr>;
          s1 = s\<lparr>port := (port s)\<lparr>rv_mstatus := load32 (sp + 116) (mem s)\<rparr>\<rparr>;
          s2 = (if fpu then enable_fpu s1 else s1);
          c2 = (if fpu then c1\<lparr>fcsr := load32 (sp + 248) (mem s2), fregs := load_words (sp + 120) 32 (mem s2)\<rparr> else c1);
          c3 = c2\<lparr>xreg := set_xregs rv_order (load_words sp (length rv_order) (mem s2)) (xreg c2)\<rparr>
      in (c3\<lparr>xsp := sp + of_nat (FRAME_SIZE fpu)\<rparr>, s2))"

section \<open>The entry points\<close>

definition rv_start_first_task ::
  "bool \<Rightarrow> addr \<Rightarrow> ('b, 'r, 'm) rv_machine \<Rightarrow> ('b, 'r, 'm) rv_machine" where
  "rv_start_first_task fpu trap_addr st =
     (let (c, s) = st;
          s1 = s\<lparr>port := (port s)\<lparr>rv_mtvec := trap_addr\<rparr>\<rparr>
      in rv_restore fpu (c\<lparr>xsp := tcb_stack_ptr (tcbs s1 (sertos_current_tcb s1))\<rparr>, s1))"

definition do_switch ::
  "('b, 'r, 'm, riscv_port) env \<Rightarrow> bool \<Rightarrow> ('b, 'r, 'm) rv_machine \<Rightarrow> ('b, 'r, 'm) rv_machine option" where
  "do_switch E fpu st =
     (let (c, s) = st;
          t1 = sertos_current_tcb s;
          s1 = (if t1 = NULL then s else upd_tcb t1 (\<lambda>t. t\<lparr>tcb_stack_ptr := xsp c\<rparr>) s)
      in do {
        (a0, s2) \<leftarrow> sertos_scheduler_perform_switch E s1;
        Some (rv_restore fpu (c\<lparr>xsp := tcb_stack_ptr (tcbs s2 a0)\<rparr>, s2))
      })"

text \<open>What an interrupt does between the saving and the switch.\<close>

definition rv_interrupt ::
  "('b, 'r, 'm, riscv_port) env \<Rightarrow> (nat \<Rightarrow> 64 word) \<Rightarrow> 32 word \<Rightarrow> ('b, 'r, 'm, riscv_port) kstate \<Rightarrow>
   ('b, 'r, 'm, riscv_port) kstate option" where
  "rv_interrupt E clock cause s =
     (if cause = 0x80000007 then sertos_port_riscv_timer_handler E clock s else Some s)"

definition sertos_riscv_trap_handler ::
  "('b, 'r, 'm, riscv_port) env \<Rightarrow> bool \<Rightarrow> (nat \<Rightarrow> 64 word) \<Rightarrow> ('b, 'r, 'm) rv_machine \<Rightarrow> ('b, 'r, 'm) rv_machine option" where
  "sertos_riscv_trap_handler E fpu clock st =
     (let (c0, s0) = st;
          c = c0\<lparr>xsp := xsp c0 - of_nat (FRAME_SIZE fpu)\<rparr>;
          s = s0\<lparr>mem := store_words (xsp c) (map (xreg c) rv_order) (mem s0)\<rparr>;
          t0 = mepc c; t1 = rv_mstatus (port s); t2 = mcause c
      in if \<not> 0 \<le>s t2
         then do {
           s1 \<leftarrow> rv_interrupt E clock t2 (rv_save_csr fpu t0 t1 c s);
           do_switch E fpu (c, s1)
         }
         else if t2 = 11 \<or> t2 = 8 then do_switch E fpu (c, rv_save_csr fpu (t0 + 4) t1 c s)
         else wfi_loop (c, s))"

section \<open>The tick inside the interrupt\<close>

text \<open>What the tick leaves alone: the memory of a set of frames, the stack pointers, the current task and the interrupt flag.\<close>

definition frames_kept ::
  "addr set \<Rightarrow> ('b, 'r, 'm, riscv_port) kstate \<Rightarrow> ('b, 'r, 'm, riscv_port) kstate \<Rightarrow> bool" where
  "frames_kept F s s' \<longleftrightarrow> (\<forall>x \<in> F. mem s' x = mem s x) \<and> (\<forall>a. tcb_stack_ptr (tcbs s' a) = tcb_stack_ptr (tcbs s a)) \<and>
     sertos_current_tcb s' = sertos_current_tcb s \<and> s_in_isr (port s') = s_in_isr (port s)"

text \<open>Timer callbacks and tick hooks that return in a consistent state, leave the timers alone and keep the frames.\<close>

definition calm_handlers :: "('b, 'r, 'm, riscv_port) env \<Rightarrow> ('b \<Rightarrow> nat set) \<Rightarrow> addr set \<Rightarrow> bool" where
  "calm_handlers E bits F \<longleftrightarrow> calm_callbacks E bits \<and> fair_hooks E bits \<and>
     (\<forall>cb h p s s'. call_timer_callback E cb h p s = Some s' \<longrightarrow> frames_kept F s s') \<and>
     (\<forall>f s s'. call_hook E f s = Some s' \<longrightarrow> frames_kept F s s')"

lemma frames_kept_refl [simp]: "frames_kept F s s"
  by (simp add: frames_kept_def)

lemma frames_kept_trans: "frames_kept F s s' \<Longrightarrow> frames_kept F s' s'' \<Longrightarrow> frames_kept F s s''"
  by (simp add: frames_kept_def)

lemma riscv_critical_keeps [simp]:
  "s_in_isr (snd (riscv_enter_critical p)) = s_in_isr p" "s_in_isr (riscv_exit_critical c p) = s_in_isr p"
  by (simp_all add: riscv_enter_critical_def riscv_exit_critical_def Let_def)

lemma calm_timer_walk:
  assumes E: "kernel_env E bits" and calm: "calm_handlers E bits F"
  shows "timer_walk E bits (\<lambda>s L. kinv bits s L \<and> frames_kept F s0 s)"
proof (intro timer_walk.intro timer_walk_axioms.intro E)
  fix s :: "('a, 'b, 'c, riscv_port) kstate" and L assume I: "kinv bits s L \<and> frames_kept F s0 s"
  then show "kinv bits s L" ..
  show "kinv bits (upd_timer a f s) L \<and> frames_kept F s0 (upd_timer a f s)" for a f
  proof -
    have "frames_kept F s (upd_timer a f s)" by (simp add: frames_kept_def upd_timer_def)
    then show ?thesis using I frames_kept_trans by auto
  qed
  show "kinv bits (upd_heap g s) (L(ActiveTimers \<mapsto> ns)) \<and> frames_kept F s0 (upd_heap g s)"
    if "kinv bits (upd_heap g s) (L(ActiveTimers \<mapsto> ns))" for g ns
    using I that by (simp add: frames_kept_def upd_heap_def)
  fix cb h p
  obtain s' L' where s': "call_timer_callback E cb h p s = Some s'" "kinv bits s' L'" "L' ActiveTimers = L ActiveTimers" "timers s' = timers s"
    using I calm unfolding calm_handlers_def calm_callbacks_def by blast
  moreover have "frames_kept F s s'" using calm s'(1) by (simp add: calm_handlers_def)
  ultimately show "\<exists>s' L'. call_timer_callback E cb h p s = Some s' \<and> (kinv bits s' L' \<and> frames_kept F s0 s') \<and>
      L' ActiveTimers = L ActiveTimers \<and> timers s' = timers s"
    using I frames_kept_trans by blast
qed

text \<open>Inside the interrupt the yield of the port does nothing, so the tick returns to the handler.\<close>

lemma riscv_switch_keeps:
  assumes E: "kernel_env E bits" and k: "kinv bits s L" and isr: "s_in_isr (port s) \<noteq> 0"
  obtains s' where "sertos_scheduler_switch_context (riscv_port_of fpu ecall E) s = Some s'" and "kinv bits s' L" and "frames_kept F s s'"
proof (cases "0 < s_lock_nesting s")
  case True
  then show thesis using that [of "s\<lparr>s_reschedule_pending := True\<rparr>"] k True
    by (simp add: sertos_scheduler_switch_context_def frames_kept_def)
next
  case False
  let ?E = "riscv_port_of fpu ecall E"
  let ?s1 = "s\<lparr>port := snd (sertos_port_enter_critical ?E (port s))\<rparr>"
  let ?s2 = "exit_critical ?E (fst (sertos_port_enter_critical ?E (port s))) ?s1"
  have "kinv bits ?s1 L" using k by simp
  note sel = kernel_env.select_next_refines [OF riscv_kernel_env [OF E] this]
  have i: "s_in_isr (port ?s2) = s_in_isr (port s)" by (simp add: riscv_port_of_def exit_critical_def)
  then have y: "sertos_port_yield ?E ?s2 = Some ?s2" using isr by (simp add: riscv_port_of_def)
  have h: "\<not> port_is_host ?E" by (simp add: riscv_port_of_def)
  have "sertos_scheduler_switch_context ?E s = Some ?s2"
    using False sel y h by (simp add: sertos_scheduler_switch_context_def enter_critical_eq)
  then show thesis by (rule that) (use k i in \<open>simp_all add: frames_kept_def\<close>)
qed

lemma riscv_tick_keeps:
  assumes E0: "kernel_env E0 bits" and k: "kinv bits s L" and cur: "current_ok s L"
    and tm: "s_timer_subsystem_initialized s \<Longrightarrow> L ActiveTimers \<noteq> None"
    and calm: "calm_handlers (riscv_port_of fpu ecall E0) bits F" and isr: "s_in_isr (port s) \<noteq> 0"
  obtains s' L' where "sertos_scheduler_tick (riscv_port_of fpu ecall E0) s = Some s'" and "kinv bits s' L'" and "frames_kept F s s'"
proof -
  let ?E = "riscv_port_of fpu ecall E0"
  have E: "kernel_env ?E bits" by (rule riscv_kernel_env [OF E0])
  obtain ds where ds: "L DelayList = Some ds" using kinv_delay_list [OF k] .
  let ?L4 = "sliced_lists (tcbs s) (sertos_current_tcb s) (s_time_slicing_enabled s) (tick_lists (tcbs s) [] ds L)"
  obtain s4 crit where s4: "kinv bits s4 ?L4" "s_timer_subsystem_initialized s4 = s_timer_subsystem_initialized s"
      "tcbs s4 = (\<lambda>a. if StateNode a \<in> set ds then tick_tcb (tcbs s a) else tcbs s a)" "sertos_current_tcb s4 = sertos_current_tcb s"
      "mem s4 = mem s" "port s4 = snd (sertos_port_enter_critical ?E (port s))"
    and eq: "sertos_scheduler_tick ?E s = do {
      s5 \<leftarrow> sertos_timer_tick ?E s4;
      s6 \<leftarrow> (if s_tick_hook s5 \<noteq> NULL then call_hook ?E (s_tick_hook s5) s5 else Some s5);
      let s7 = exit_critical ?E crit s6;
      if (\<exists>n \<in> set ds. expires (tcbs s) n) \<or> s_time_slicing_enabled s7 then sertos_scheduler_switch_context ?E s7
      else Some s7
    }"
    using kernel_env.tick_refines [OF E k cur ds] by blast
  have f4: "frames_kept F s s4" using s4(3-6) by (simp add: frames_kept_def riscv_port_of_def tick_tcb_def)
  have "?L4 ActiveTimers = L ActiveTimers" by (simp add: sliced_lists_def tick_lists_def Let_def)
  then have t4: "?L4 ActiveTimers \<noteq> None" if "s_timer_subsystem_initialized s4" using tm that s4(2) by simp
  obtain s5 L5 where s5: "sertos_timer_tick ?E s4 = Some s5" "kinv bits s5 L5" "frames_kept F s s5"
  proof (cases "s_timer_subsystem_initialized s4")
    case False
    then show thesis using that s4(1) f4 by (simp add: sertos_timer_tick_def)
  next
    case True
    then obtain ns where ns: "?L4 ActiveTimers = Some ns" using t4 by blast
    have "\<exists>ts. ns = map TimerNode ts" using kinv_timer_nodes [OF s4(1) ns] by (metis ex_map_conv)
    then obtain ts where ts: "ns = map TimerNode ts" ..
    have I: "kinv bits s4 ?L4 \<and> frames_kept F s s4" using s4(1) f4 ..
    show thesis using timer_walk.timer_tick_refines [where I = "\<lambda>x L. kinv bits x L \<and> frames_kept F s x",
        OF calm_timer_walk [OF E calm, of s] I True ns [unfolded ts]] that by blast
  qed
  obtain s6 L6 where s6: "(if s_tick_hook s5 \<noteq> NULL then call_hook ?E (s_tick_hook s5) s5 else Some s5) = Some s6" "kinv bits s6 L6" "frames_kept F s s6"
  proof (cases "s_tick_hook s5 = NULL")
    case True
    then show thesis using that s5(2,3) by simp
  next
    case False
    obtain s6 L6 where "call_hook ?E (s_tick_hook s5) s5 = Some s6" "kinv bits s6 L6"
      using calm s5(2) unfolding calm_handlers_def fair_hooks_def returns_iff by blast
    moreover from this have "frames_kept F s5 s6" using calm by (simp add: calm_handlers_def)
    ultimately show thesis using that False frames_kept_trans [OF s5(3)] by simp
  qed
  let ?s7 = "exit_critical ?E crit s6"
  have k7: "kinv bits ?s7 L6" using s6(2) by simp
  have f7: "frames_kept F s ?s7" using s6(3) by (simp add: frames_kept_def riscv_port_of_def exit_critical_def)
  then have "s_in_isr (port ?s7) \<noteq> 0" using isr by (simp add: frames_kept_def)
  then obtain s8 where s8: "sertos_scheduler_switch_context ?E ?s7 = Some s8" "kinv bits s8 L6" "frames_kept F ?s7 s8"
    by (rule riscv_switch_keeps [OF E0 k7])
  have "sertos_scheduler_tick ?E s \<in> {Some ?s7, Some s8}" unfolding eq using s5(1) s6(1) s8(1) by (simp add: Let_def)
  then show thesis using that k7 f7 s8(2) frames_kept_trans [OF f7 s8(3)] by blast
qed

text \<open>What an interrupt does between the saving of the frame and the switch.\<close>

lemma rv_interrupt_returns:
  assumes E0: "kernel_env E0 bits" and k: "kinv bits s L" and cur: "current_ok s L"
    and tm: "s_timer_subsystem_initialized s \<Longrightarrow> L ActiveTimers \<noteq> None"
    and timer: "cause = 0x80000007 \<Longrightarrow> (\<forall>i. clock i \<le> clock (Suc i)) \<and> calm_handlers (riscv_port_of fpu ecall E0) bits F"
  obtains s' L' where "rv_interrupt (riscv_port_of fpu ecall E0) clock cause s = Some s'" and "kinv bits s' L'"
    and "\<forall>x \<in> F. mem s' x = mem s x" and "\<And>a. tcb_stack_ptr (tcbs s' a) = tcb_stack_ptr (tcbs s a)"
    and "sertos_current_tcb s' = sertos_current_tcb s" and "cause \<noteq> 0x80000007 \<Longrightarrow> L' = L"
proof (cases "cause = 0x80000007")
  case False
  then show thesis using that [of s L] k by (simp add: rv_interrupt_def)
next
  case True
  let ?E = "riscv_port_of fpu ecall E0"
  have mono: "clock i \<le> clock (Suc i)" for i using timer [OF True] by blast
  obtain i where "read_mtime clock (rv_reads (port s)) = Some (word_hi (clock i), word_lo (clock i), i + 2)"
    using read_mtime_exact [of clock, OF mono] by blast
  then obtain p where p: "riscv_next_tick clock (port s) = Some p" by (simp add: riscv_next_tick_def)
  let ?s1 = "s\<lparr>port := p\<lparr>s_in_isr := 1\<rparr>\<rparr>"
  have k1: "kinv bits ?s1 L" and c1: "current_ok ?s1 L" using k cur by (simp_all add: current_ok_def)
  obtain s2 L2 where s2: "sertos_scheduler_tick ?E ?s1 = Some s2" "kinv bits s2 L2" "frames_kept F ?s1 s2"
    by (rule riscv_tick_keeps [OF E0 k1 c1, of fpu ecall F]) (use tm timer [OF True] that in auto)
  have "rv_interrupt ?E clock cause s = Some (s2\<lparr>port := (port s2)\<lparr>s_in_isr := 0\<rparr>\<rparr>)"
    using True p s2(1) by (simp add: rv_interrupt_def sertos_port_riscv_timer_handler_def Let_def)
  then show thesis by (rule that [of _ L2]) (use s2(2,3) True in \<open>auto simp: frames_kept_def\<close>)
qed

section \<open>Saved contexts\<close>

text \<open>The words of a context that continues at \<open>pc\<close> with status \<open>ms\<close>.\<close>

definition rv_context :: "bool \<Rightarrow> 32 word \<Rightarrow> 32 word \<Rightarrow> rv_cpu \<Rightarrow> 32 word list" where
  "rv_context fpu pc ms c = map (xreg c) rv_order @ [pc, ms] @ (if fpu then fregs c @ [fcsr c] else [])"

definition rv_parked ::
  "bool \<Rightarrow> 32 word \<Rightarrow> 32 word \<Rightarrow> rv_cpu \<Rightarrow> ('b, 'r, 'm, riscv_port) kstate \<Rightarrow> addr \<Rightarrow> bool" where
  "rv_parked fpu pc ms c s a \<longleftrightarrow> FRAME_SIZE fpu \<le> unat (xsp c) \<and> length (fregs c) = 32 \<and>
     tcb_stack_ptr (tcbs s a) = xsp c - of_nat (FRAME_SIZE fpu) \<and>
     load_words (xsp c - of_nat (FRAME_SIZE fpu)) (length (rv_context fpu pc ms c)) (mem s) = rv_context fpu pc ms c"

definition rv_frame_of :: "bool \<Rightarrow> rv_cpu \<Rightarrow> addr set" where
  "rv_frame_of fpu c = {x. unat (xsp c) - FRAME_SIZE fpu \<le> unat x \<and> unat x < unat (xsp c)}"

text \<open>The thread that a context describes.\<close>

definition rv_resumes :: "bool \<Rightarrow> 32 word \<Rightarrow> 32 word \<Rightarrow> rv_cpu \<Rightarrow> rv_thread \<Rightarrow> bool" where
  "rv_resumes fpu pc ms c th \<longleftrightarrow> rt_pc th = pc \<and> rt_regs th = xreg c \<and> rt_sp th = xsp c \<and> rt_mie th = bit ms 7 \<and>
     (fpu \<longrightarrow> rt_fregs th = fregs c \<and> rt_fcsr th = fcsr c)"

lemma rv_order_length [simp]: "length rv_order = 28"
  by (simp add: rv_order_def)

lemma store_words_append: "store_words a (xs @ ys) m = store_words (a + 4 * of_nat (length xs)) ys (store_words a xs m)"
  by (induction xs arbitrary: a m) (simp_all add: algebra_simps)

lemma set_xregs_all: "set_xregs rv_order (map g rv_order) h = g"
proof
  fix r show "set_xregs rv_order (map g rv_order) h r = g r" by (cases r) (simp_all add: rv_order_def)
qed

lemma rv_context_length:
  "length (fregs c) = 32 \<Longrightarrow> 4 * length (rv_context fpu pc ms c) \<le> FRAME_SIZE fpu"
  by (simp add: rv_context_def FRAME_SIZE_def)

text \<open>The registers and \<open>rv_save_csr\<close> write exactly the context.\<close>

lemma rv_save_mem:
  assumes "mem s = store_words (xsp c) (map (xreg c) rv_order) m"
  shows "mem (rv_save_csr fpu pc ms c s) = store_words (xsp c) (rv_context fpu pc ms c) m"
  using assms by (simp add: rv_save_csr_def rv_context_def enable_fpu_def store_words_append Let_def add.assoc)

lemma rv_save_keeps [simp]:
  "tcbs (rv_save_csr fpu pc ms c s) = tcbs s" "sertos_current_tcb (rv_save_csr fpu pc ms c s) = sertos_current_tcb s"
  "s_timer_subsystem_initialized (rv_save_csr fpu pc ms c s) = s_timer_subsystem_initialized s"
  "list_heap (rv_save_csr fpu pc ms c s) = list_heap s" "s_ready_bitmap (rv_save_csr fpu pc ms c s) = s_ready_bitmap s"
  by (simp_all add: rv_save_csr_def enable_fpu_def Let_def)

lemma rv_restore_resumes:
  assumes w: "load_words sp (length (rv_context fpu pc ms c0)) (mem s) = rv_context fpu pc ms c0"
    and len: "length (fregs c0) = 32" and sp: "sp + of_nat (FRAME_SIZE fpu) = xsp c0" "xsp c = sp"
  shows "rv_resumes fpu pc ms c0 (mret (rv_restore fpu (c, s)))"
proof -
  let ?f = "if fpu then fregs c0 @ [fcsr c0] else []"
  have "load_words sp (length (map (xreg c0) rv_order @ [pc, ms] @ ?f)) (mem s) = map (xreg c0) rv_order @ [pc, ms] @ ?f"
    using w by (simp add: rv_context_def)
  from load_words_split [OF this] have x: "load_words sp 28 (mem s) = map (xreg c0) rv_order"
    and r: "load_words (sp + 112) (length ([pc, ms] @ ?f)) (mem s) = [pc, ms] @ ?f" by simp_all
  from load_words_split [OF r] have p: "load32 (sp + 112) (mem s) = pc" "load32 (sp + 116) (mem s) = ms"
    and f: "load_words (sp + 120) (length ?f) (mem s) = ?f" by (simp_all add: add.assoc)
  have fp: "load_words (sp + 120) 32 (mem s) = fregs c0 \<and> load32 (sp + 248) (mem s) = fcsr c0" if fpu
    using load_words_split [of "sp + 120" "fregs c0" "[fcsr c0]" "mem s"] f len that by (simp add: add.assoc)
  show ?thesis
    using x p fp sp
    by (auto simp: rv_resumes_def rv_restore_def mret_def enable_fpu_def set_xregs_all Let_def bit_simps)
qed

text \<open>A frame that nobody writes to stays a frame.\<close>

lemma rv_parked_cong:
  assumes "rv_parked fpu pc ms c s a" and "tcb_stack_ptr (tcbs s' a) = tcb_stack_ptr (tcbs s a)"
    and "\<And>x. x \<in> rv_frame_of fpu c \<Longrightarrow> mem s' x = mem s x"
  shows "rv_parked fpu pc ms c s' a"
proof -
  let ?F = "FRAME_SIZE fpu" and ?n = "length (rv_context fpu pc ms c)"
  have F: "?F \<le> unat (xsp c)" "4 * ?n \<le> ?F" using assms(1) rv_context_length by (auto simp: rv_parked_def)
  have u: "unat (xsp c - of_nat ?F) = unat (xsp c) - ?F" using F(1) by (rule unat_sub_small)
  have p: "unat (xsp c) < 2 ^ 32" using unsigned_less [of "xsp c"] by simp
  have "load_words (xsp c - of_nat ?F) ?n (mem s') = load_words (xsp c - of_nat ?F) ?n (mem s)"
  proof (rule load_words_cong)
    show "unat (xsp c - of_nat ?F) + 4 * ?n \<le> 2 ^ 32" using F p u by simp
    show "mem s' x = mem s x" if "unat (xsp c - of_nat ?F) \<le> unat x" "unat x < unat (xsp c - of_nat ?F) + 4 * ?n" for x
      using that F u by (intro assms(3)) (simp add: rv_frame_of_def)
  qed
  then show ?thesis using assms(1,2) by (simp add: rv_parked_def)
qed

text \<open>A new stack is the frame of a context that begins at the entry function.\<close>

definition new_context :: "addr \<Rightarrow> addr \<Rightarrow> rv_cpu" where
  "new_context stack_top param =
     \<lparr>xreg = (\<lambda>r. 0)(A0 := param), xsp = stack_top, mepc = 0, mcause = 0, fregs = replicate 32 0, fcsr = 0\<rparr>"

lemma new_frame_words:
  "rv_context fpu entry (riscv_frame fpu entry param ! 29) (new_context stack_top param) =
     take (if fpu then 63 else 30) (riscv_frame fpu entry param)"
  by (simp add: rv_context_def riscv_frame_def new_context_def rv_order_def numeral_eq_Suc)

text \<open>Where a trap continues (behind an \<open>ecall\<close>), and the state that the saving leaves.\<close>

definition trap_pc :: "rv_cpu \<Rightarrow> 32 word" where
  "trap_pc c = (if 0 \<le>s mcause c then mepc c + 4 else mepc c)"

definition rv_saved :: "bool \<Rightarrow> rv_cpu \<Rightarrow> ('b, 'r, 'm, riscv_port) kstate \<Rightarrow> ('b, 'r, 'm, riscv_port) kstate" where
  "rv_saved fpu c s =
     (let c1 = c\<lparr>xsp := xsp c - of_nat (FRAME_SIZE fpu)\<rparr>
      in rv_save_csr fpu (trap_pc c) (rv_mstatus (port s)) c1
           (s\<lparr>mem := store_words (xsp c1) (map (xreg c) rv_order) (mem s)\<rparr>))"

lemma rv_saved_keeps [simp]:
  "tcbs (rv_saved fpu c s) = tcbs s" "sertos_current_tcb (rv_saved fpu c s) = sertos_current_tcb s"
  "s_timer_subsystem_initialized (rv_saved fpu c s) = s_timer_subsystem_initialized s"
  "list_heap (rv_saved fpu c s) = list_heap s" "s_ready_bitmap (rv_saved fpu c s) = s_ready_bitmap s"
  by (simp_all add: rv_saved_def Let_def)

lemma rv_saved_stored:
  assumes "FRAME_SIZE fpu \<le> unat (xsp c)" and "length (fregs c) = 32"
  shows "stored (xsp c - of_nat (FRAME_SIZE fpu)) (rv_context fpu (trap_pc c) (rv_mstatus (port s)) c) (mem s)
    (mem (rv_saved fpu c s))"
proof -
  let ?c = "c\<lparr>xsp := xsp c - of_nat (FRAME_SIZE fpu)\<rparr>" and ?w = "rv_context fpu (trap_pc c) (rv_mstatus (port s)) c"
  have "mem (rv_saved fpu c s) = store_words (xsp ?c) (rv_context fpu (trap_pc c) (rv_mstatus (port s)) ?c) (mem s)"
    unfolding rv_saved_def Let_def by (rule rv_save_mem) simp
  then have m: "mem (rv_saved fpu c s) = store_words (xsp c - of_nat (FRAME_SIZE fpu)) ?w (mem s)"
    by (simp add: rv_context_def)
  have "unat (xsp c - of_nat (FRAME_SIZE fpu)) = unat (xsp c) - FRAME_SIZE fpu" using assms(1) by (rule unat_sub_small)
  moreover have "unat (xsp c) < 2 ^ 32" using unsigned_less [of "xsp c"] by simp
  ultimately show ?thesis
    unfolding m using assms rv_context_length [OF assms(2), of fpu "trap_pc c" "rv_mstatus (port s)"]
    by (intro stored_store_words) linarith
qed

lemma rv_saved_outside:
  assumes "FRAME_SIZE fpu \<le> unat (xsp c)" and "length (fregs c) = 32" and "x \<notin> rv_frame_of fpu c"
  shows "mem (rv_saved fpu c s) x = mem s x"
proof -
  let ?n = "length (rv_context fpu (trap_pc c) (rv_mstatus (port s)) c)"
  have "unat (xsp c - of_nat (FRAME_SIZE fpu)) = unat (xsp c) - FRAME_SIZE fpu" using assms(1) by (rule unat_sub_small)
  moreover have "4 * ?n \<le> FRAME_SIZE fpu" by (rule rv_context_length [OF assms(2)])
  ultimately have "unat x < unat (xsp c - of_nat (FRAME_SIZE fpu)) \<or> unat (xsp c - of_nat (FRAME_SIZE fpu)) + 4 * ?n \<le> unat x"
    using assms(1,3) unfolding rv_frame_of_def by simp linarith
  then show ?thesis using rv_saved_stored [OF assms(1,2), of s] by (auto simp: stored_def)
qed

lemma trap_eq:
  assumes "mcause c \<in> {8, 11} \<or> \<not> 0 \<le>s mcause c" and "rv_interrupt E clock (mcause c) (rv_saved fpu c s) = Some s1"
  shows "sertos_riscv_trap_handler E fpu clock (c, s) = do_switch E fpu (c\<lparr>xsp := xsp c - of_nat (FRAME_SIZE fpu)\<rparr>, s1)"
  using assms by (auto simp: sertos_riscv_trap_handler_def rv_saved_def trap_pc_def rv_interrupt_def Let_def)

lemma wfi_loop_never: "wfi_loop s = None"
proof (rule ccontr)
  assume "wfi_loop s \<noteq> None"
  then obtain y where "wfi_loop s = Some y" by auto
  then show False by (rule wfi_loop.raw_induct [rotated])
qed

text \<open>Any other exception stops the system.\<close>

lemma trap_fault_hangs:
  assumes "0 \<le>s mcause c" and "mcause c \<notin> {8, 11}"
  shows "sertos_riscv_trap_handler E fpu clock (c, s) = None"
  using assms by (simp add: sertos_riscv_trap_handler_def Let_def wfi_loop_never)

end
