(* ===== verification/Sertos_Port_Spec.thy ===== *)
theory Sertos_Port_Spec
  imports Sertos_Sem_Spec Sertos_Trap
begin

text \<open>
  What the target ports guarantee to the kernel: a new task begins at its entry function with its parameter, a
  preempted task finds its registers as it left them, a critical section restores the interrupt mask (each on Cortex-M
  and on RISC-V), and the RISC-V timer is set for exactly one tick later.
\<close>

section \<open>Critical sections\<close>

text \<open>C31: around code that balances its own critical sections, entering and leaving a critical section masks
  interrupts in between and restores the mask of the entry, at any nesting depth below the counter's range. This
  holds of PRIMASK on every Cortex-M core and of \<open>mstatus.MIE\<close> on RISC-V.\<close>

theorem critical_section_restores:
  assumes "cortex_wf p" and "Suc (unat (s_critical_nesting p)) < 2 ^ 32"
    and "cortex_wf q" and "s_critical_nesting q = s_critical_nesting (snd (cortex_m_enter_critical p))"
    and "riscv_wf p'" and "Suc (unat (rv_critical_nesting p')) < 2 ^ 32"
    and "riscv_wf q'" and "rv_critical_nesting q' = rv_critical_nesting (snd (riscv_enter_critical p'))"
  shows "cm_primask (snd (cortex_m_enter_critical p)) \<noteq> 0 \<and> cm_primask q \<noteq> 0 \<and>
    (cm_primask (cortex_m_exit_critical (fst (cortex_m_enter_critical p)) q) \<noteq> 0) = (cm_primask p \<noteq> 0) \<and>
    s_critical_nesting (cortex_m_exit_critical (fst (cortex_m_enter_critical p)) q) = s_critical_nesting p \<and>
    \<not> bit (rv_mstatus (snd (riscv_enter_critical p'))) 3 \<and> \<not> bit (rv_mstatus q') 3 \<and>
    bit (rv_mstatus (riscv_exit_critical (fst (riscv_enter_critical p')) q')) 3 = bit (rv_mstatus p') 3 \<and>
    rv_critical_nesting (riscv_exit_critical (fst (riscv_enter_critical p')) q') = rv_critical_nesting p'"
proof -
  have d: "unat (s_critical_nesting q) = unat (s_critical_nesting (snd (cortex_m_enter_critical p)))"
    "unat (rv_critical_nesting q') = unat (rv_critical_nesting (snd (riscv_enter_critical p')))" using assms(4,8) by simp_all
  have "0 < unat (s_critical_nesting q)" "0 < unat (rv_critical_nesting q')"
    using d cm_critical.enter_depth [OF assms(2)] rv_critical.enter_depth [OF assms(6)] by simp_all
  then show ?thesis
    using cm_critical.section_restores [OF assms(1,2,3) d(1)] cm_critical.enter_masked [of p] cm_critical.wf_masked [OF assms(3)]
      rv_critical.section_restores [OF assms(5,6,7) d(2)] rv_critical.enter_masked [of p'] rv_critical.wf_masked [OF assms(7)]
    by (simp add: word_unat_eq_iff)
qed

definition demo_rv :: riscv_port where
  "demo_rv = \<lparr>rv_mstatus = 8, rv_mie = 0, rv_mtvec = 0, rv_mcycle = 0, rv_regs = (\<lambda>a. 0), rv_reads = 0,
     rv_critical_nesting = 0, s_in_isr = 0, s_tick_cycles = 10000\<rparr>"

theorem critical_section_restores_witness:
  "cm_primask (cortex_m_exit_critical (fst (cortex_m_enter_critical idle_port)) (snd (cortex_m_enter_critical idle_port))) = 0 \<and>
   bit (rv_mstatus (riscv_exit_critical (fst (riscv_enter_critical demo_rv)) (snd (riscv_enter_critical demo_rv)))) 3"
proof -
  have "cortex_wf idle_port" "Suc (unat (s_critical_nesting idle_port)) < 2 ^ 32" "riscv_wf demo_rv"
    "Suc (unat (rv_critical_nesting demo_rv)) < 2 ^ 32" "cm_primask idle_port = 0" "bit (rv_mstatus demo_rv) 3"
    by (simp_all add: idle_port_def cortex_wf_def riscv_wf_def demo_rv_def bit_numeral_rec)
  then show ?thesis
    using critical_section_restores [of idle_port "snd (cortex_m_enter_critical idle_port)" demo_rv
        "snd (riscv_enter_critical demo_rv)"] cm_critical.enter_wf rv_critical.enter_wf by auto
qed

section \<open>Starting and switching tasks\<close>

text \<open>C32: on every Cortex-M core the stack that \<open>sertos_port_stack_init\<close> prepares is the one \<open>SVC_Handler\<close>
  unpacks: the handler returns, and the exception return continues at the entry function with the parameter in r0,
  in Thumb state, with the whole stack free, interrupts enabled and, on ARMv8-M, the stack limit set.\<close>

theorem first_task_begins:
  assumes "stk_top \<noteq> NULL" and "stk_top mod SERTOS_CONFIG_STACK_ALIGNMENT_BYTES = 0"
    and "(if k \<in> {M0, M0plus} then 64 else 68) \<le> unat stk_top"
    and "framed_stack_init (core_frame k) stk_top limit entry param m =
      (tcb_stack_ptr (tcbs s (sertos_current_tcb s)), mem s)"
    and "tcb_stack_limit (tcbs s (sertos_current_tcb s)) = limit"
  shows "\<exists>st. exec E csym clob (core_SVC_Handler k) (c, s) = Some st \<and> begins k entry param stk_top limit st"
proof (rule svc_begins [OF refl assms(5)])
  let ?n = "if k \<in> {M0, M0plus} then 64 else 68 :: nat"
  let ?sp = "tcb_stack_ptr (tcbs s (sertos_current_tcb s))"
  have sp: "?sp = stk_top - of_nat ?n" and m: "mem s = store_words (stk_top - of_nat ?n) (core_frame k entry param) m"
    using core_stack.framed_sp(2) [OF assms(1,2,3), of limit entry param m] assms(4) by simp_all
  show "load_words (?sp + 4 * of_nat i) n (mem s) = take n (drop i (core_frame k entry param))"
    if "i + n \<le> length (core_frame k entry param)" for i n
    unfolding sp m by (rule load_words_store [OF core_stack.framed_sp(3) [OF assms(1,2,3)] that])
  have "(of_nat (4 * length (core_frame k entry param)) :: addr) = of_nat ?n"
    by (rule arg_cong [OF core_stack.frame_length, of of_nat])
  then have "4 * of_nat (length (core_frame k entry param)) = (of_nat ?n :: addr)"
    by (simp only: of_nat_mult of_nat_numeral)
  then show "stk_top = ?sp + 4 * of_nat (length (core_frame k entry param))" unfolding sp by simp
qed

theorem first_task_begins_witness:
  "\<exists>st. exec quiet_env 0x20000000 (\<lambda>r. 0) (core_SVC_Handler M0plus)
      (\<lparr>gpr = (\<lambda>r. 0), psp = 0, psplim = 0, control = 0, zflag = False, fpu_s16_s31 = [], msp_stack = []\<rparr>,
       demo\<lparr>tcbs := (\<lambda>a. (demo_tcbs a)\<lparr>tcb_stack_ptr := 0x20000FC0\<rparr>),
            mem := snd (framed_stack_init cortex_m0plus_frame 0x20001000 0 0x8000 0x42 (\<lambda>a. 0))\<rparr>) = Some st \<and>
     th_pc (exception_return st) = 0x8000 \<and> th_regs (exception_return st) R0 = 0x42"
proof -
  let ?m = "snd (framed_stack_init cortex_m0plus_frame 0x20001000 0 0x8000 0x42 (\<lambda>a. 0))"
  let ?s = "demo\<lparr>tcbs := (\<lambda>a. (demo_tcbs a)\<lparr>tcb_stack_ptr := 0x20000FC0\<rparr>), mem := ?m\<rparr>"
  have top: "(0x20001000 :: addr) \<noteq> NULL" "(0x20001000 :: addr) mod SERTOS_CONFIG_STACK_ALIGNMENT_BYTES = 0"
    "(if M0plus \<in> {M0, M0plus} then 64 else 68) \<le> unat (0x20001000 :: addr)"
    by (simp_all add: SERTOS_CONFIG_STACK_ALIGNMENT_BYTES_def)
  have fr: "framed_stack_init (core_frame M0plus) 0x20001000 0 0x8000 0x42 (\<lambda>a. 0) =
      (tcb_stack_ptr (tcbs ?s (sertos_current_tcb ?s)), mem ?s)"
    using core_stack.framed_sp(2) [OF top, of 0 "0x8000" "0x42" "\<lambda>a. 0"] by simp
  have "tcb_stack_limit (tcbs ?s (sertos_current_tcb ?s)) = 0"
    by (simp add: demo_def demo_state_def demo_tcbs_def demo_tcb_def)
  from first_task_begins [OF top fr this] show ?thesis unfolding begins_def Let_def by blast
qed

text \<open>C33: \<open>PendSV_Handler\<close> of every core takes the running task \<open>b\<close> out and the scheduler's choice \<open>t\<close> in. It
  returns; \<open>t\<close> finds its registers, its stack pointer and the floating-point registers it was using as it left
  them, \<open>b\<close> is parked with its own, every other parked task stays so, the kernel is consistent and interrupts
  are enabled. The frames of the parked tasks must not overlap the space below the stack pointer of \<open>b\<close>.\<close>

theorem pendsv_switches:
  assumes "kernel_env E bits" and inv: "kinv bits s L"
    and t: "abs_select L = t" "t \<noteq> NULL" "t \<in> A" and b: "sertos_current_tcb s = b" "b \<noteq> NULL" "b \<notin> A"
    and fpu: "length (fpu_s16_s31 c) = 16" and room: "4 * length (core_context k c) \<le> unat (psp c)"
    and others: "\<And>a. a \<in> A \<Longrightarrow> parked k (ctx a) (sps a) s a \<and> frame_of k (ctx a) (sps a) \<inter> frame_of k c (psp c) = {}"
  shows "\<exists>c' s'. exec E csym clob (core_PendSV_Handler k) (c, s) = Some (c', s') \<and>
    sertos_current_tcb s' = t \<and> kinv bits s' L \<and> restored k (ctx t) c' \<and> psp c' = sps t \<and>
    cm_primask (port s') = 0 \<and> (k \<in> core_limits \<longrightarrow> psplim c' = tcb_stack_limit (tcbs s t)) \<and>
    parked k c (psp c) s' b \<and> (\<forall>a \<in> A. parked k (ctx a) (sps a) s' a)"
proof -
  let ?n = "length (core_context k c)"
  let ?sp = "psp c - of_nat (4 * ?n)"
  have u: "unat ?sp = unat (psp c) - 4 * ?n" using room by (rule unat_sub_small)
  obtain c0 s0 where s0: "exec E csym clob (core_save k) (c, s) = Some (c0, s0)"
    and st: "stored ?sp (core_context k c) (mem s) (mem s0)"
    and T: "tcbs s0 = (tcbs s)(b := (tcbs s b)\<lparr>tcb_stack_ptr := ?sp\<rparr>)"
    and fr: "list_heap s0 = list_heap s" "s_ready_bitmap s0 = s_ready_bitmap s"
    using save_stores [OF _ fpu room refl, of s E csym clob] b by auto
  have k0: "kinv bits s0 L" by (rule kinv_cong [OF inv fr]) (simp add: T same_sched_def)
  obtain s1 where sw: "sertos_scheduler_perform_switch E s0 = Some (sertos_current_tcb s1, s1)"
    and k1: "kinv bits s1 L" and cur1: "sertos_current_tcb s1 = t"
    by (rule kernel_env.perform_switch_refines [OF assms(1) k0]) (use t in auto)
  note keep = perform_switch_stacks [OF sw]
  have outside: "mem s0 x = mem s x" if "x \<notin> frame_of k c (psp c)" for x
    using st that u room by (auto simp: stored_def frame_of_def)
  have parked0: "parked k (ctx a) (sps a) s1 a" if "a \<in> A" for a
    by (rule parked_cong [where s = s]) (use others [OF that] b that keep T outside in auto)
  have parkedb: "parked k c (psp c) s1 b"
    using st fpu room keep T by (simp add: parked_def stored_def Let_def)
  have pt: "parked k (ctx t) (sps t) s1 t" using parked0 t by simp
  obtain c2 s2 where s2: "exec E csym clob (core_rest k) (c0, s0) = Some (c2, s2)" "restored k (ctx t) c2"
    "psp c2 = tcb_stack_ptr (tcbs s1 t) + of_nat (4 * length (core_context k (ctx t)))" "cm_primask (port s2) = 0"
    "k \<in> core_limits \<longrightarrow> psplim c2 = tcb_stack_limit (tcbs s1 t)"
    "mem s2 = mem s1" "tcbs s2 = tcbs s1" "sertos_current_tcb s2 = sertos_current_tcb s1"
    "list_heap s2 = list_heap s1" "s_ready_bitmap s2 = s_ready_bitmap s1"
    using rest_restores [OF sw refl, of k "ctx t" csym clob c0] pt by (auto simp: parked_def Let_def cur1)
  have "psp c2 = sps t" using s2(3) pt by (simp add: parked_def Let_def)
  moreover have "kinv bits s2 L" by (rule kinv_cong [OF k1 s2(9,10)]) (simp add: s2(7) same_sched_def)
  moreover have "psplim c2 = tcb_stack_limit (tcbs s t)" if "k \<in> core_limits"
    using s2(5) that keep(3) [of t] T t b by auto
  moreover have "parked k c' p s2 a = parked k c' p s1 a" for c' p a using s2(6,7) by (simp add: parked_def Let_def)
  ultimately show ?thesis
    using s0 s2 parked0 parkedb cur1 by (intro exI [of _ c2] exI [of _ s2]) (simp add: pendsv_exec)
qed

definition demo_cpu :: "32 word \<Rightarrow> addr \<Rightarrow> cpu" where
  "demo_cpu w p = \<lparr>gpr = (\<lambda>r. w), psp = p, psplim = 0, control = 2, zflag = False, fpu_s16_s31 = replicate 16 0, msp_stack = []\<rparr>"

theorem pendsv_switches_witness:
  "\<exists>c' s'. exec quiet_env 0x20000000 (\<lambda>r. 0) (core_PendSV_Handler M3)
      (demo_cpu 9 0x3000, demo\<lparr>sertos_current_tcb := 0x300,
         tcbs := demo_tcbs(0x100 := (demo_tcbs 0x100)\<lparr>tcb_stack_ptr := 0x2000 - 36\<rparr>),
         mem := store_words (0x2000 - 36) (core_context M3 (demo_cpu 7 0)) (\<lambda>a. 0)\<rparr>) = Some (c', s') \<and>
     sertos_current_tcb s' = 0x100 \<and> gpr c' R4 = 7 \<and> psp c' = 0x2000 \<and> parked M3 (demo_cpu 9 0x3000) 0x3000 s' 0x300"
proof -
  let ?T = "demo_tcbs(0x100 := (demo_tcbs 0x100)\<lparr>tcb_stack_ptr := 0x2000 - 36\<rparr>)"
  let ?m = "store_words (0x2000 - 36) (core_context M3 (demo_cpu 7 0)) (\<lambda>a. 0)"
  let ?s = "demo\<lparr>sertos_current_tcb := 0x300, tcbs := ?T, mem := ?m\<rparr>"
  have k: "kinv ref_bits ?s (lists_of demo_layout)"
    by (rule kinv_cong [OF demo_inv]) (simp_all add: demo_facts same_sched_def)
  have "stored (0x2000 - 36) (core_context M3 (demo_cpu 7 0)) (\<lambda>a. 0) ?m" by (rule stored_store_words) simp
  then have "parked M3 (demo_cpu 7 0) 0x2000 ?s 0x100 \<and>
      frame_of M3 (demo_cpu 7 0) 0x2000 \<inter> frame_of M3 (demo_cpu 9 0x3000) (psp (demo_cpu 9 0x3000)) = {}"
    by (auto simp: parked_def stored_def frame_of_def demo_cpu_def simp del: store_words.simps load_words.simps)
  then have "\<exists>c' s'. exec quiet_env 0x20000000 (\<lambda>r. 0) (core_PendSV_Handler M3) (demo_cpu 9 0x3000, ?s) = Some (c', s') \<and>
      sertos_current_tcb s' = 0x100 \<and> kinv ref_bits s' (lists_of demo_layout) \<and> restored M3 (demo_cpu 7 0) c' \<and>
      psp c' = 0x2000 \<and> cm_primask (port s') = 0 \<and>
      (M3 \<in> core_limits \<longrightarrow> psplim c' = tcb_stack_limit (tcbs ?s 0x100)) \<and>
      parked M3 (demo_cpu 9 0x3000) (psp (demo_cpu 9 0x3000)) s' 0x300 \<and>
      (\<forall>a \<in> {0x100}. parked M3 (demo_cpu 7 0) 0x2000 s' a)"
    by (intro pendsv_switches [OF quiet_kernel_env k demo_select]) (simp_all add: demo_cpu_def)
  then show ?thesis by (auto simp: restored_def demo_cpu_def)
qed

section \<open>Traps on RISC-V\<close>

text \<open>The first task on RISC-V begins at its entry function with its parameter, on the whole of its stack and with
  interrupts enabled.\<close>

theorem rv_first_task_begins:
  assumes top: "stack_top \<noteq> NULL" "stack_top mod SERTOS_CONFIG_STACK_ALIGNMENT_BYTES = 0" "FRAME_SIZE fpu \<le> unat stack_top"
    and fr: "framed_stack_init (riscv_frame fpu) stack_top limit entry param m =
      (tcb_stack_ptr (tcbs s (sertos_current_tcb s)), mem s)"
  shows "rv_resumes fpu entry (riscv_frame fpu entry param ! 29) (new_context stack_top param)
      (mret (rv_start_first_task fpu trap_addr (c, s))) \<and> rt_mie (mret (rv_start_first_task fpu trap_addr (c, s)))"
proof -
  let ?F = "if fpu then 256 else 128 :: nat"
  have F: "?F \<le> unat stack_top" "FRAME_SIZE fpu = ?F" using top(3) by (simp_all add: FRAME_SIZE_def)
  let ?w = "riscv_frame fpu entry param" and ?sp = "stack_top - of_nat ?F"
  have len: "length ?w = (if fpu then 64 else 32)" by (simp add: riscv_frame_def)
  note f = riscv_stack.framed_sp [OF top(1,2) F(1)]
  have m: "mem s = store_words ?sp ?w m" and sp: "tcb_stack_ptr (tcbs s (sertos_current_tcb s)) = ?sp"
    using trans [OF fr [symmetric] f(2)] by simp_all
  have "load_words (?sp + 4 * of_nat 0) (if fpu then 63 else 30) (mem s) = take (if fpu then 63 else 30) (drop 0 ?w)"
    unfolding m by (rule load_words_store) (use f(3) [of entry param] len in auto)
  then have w: "load_words ?sp (length (rv_context fpu entry (?w ! 29) (new_context stack_top param))) (mem s) =
      rv_context fpu entry (?w ! 29) (new_context stack_top param)"
    unfolding new_frame_words using len by simp
  have "rv_resumes fpu entry (?w ! 29) (new_context stack_top param) (mret (rv_start_first_task fpu trap_addr (c, s)))"
    unfolding rv_start_first_task_def prod.case Let_def
    by (rule rv_restore_resumes [where sp = ?sp]) (use w sp F(2) in \<open>simp_all add: new_context_def\<close>)
  moreover have "bit (?w ! 29) 7"
    by (simp add: riscv_frame_def MSTATUS_MPP_MACHINE_def MSTATUS_MPIE_ENABLE_def MSTATUS_FS_INITIAL_def bit_numeral_rec)
  ultimately show ?thesis by (simp add: rv_resumes_def)
qed


text \<open>The reference environment and its sample state on another port; the operations of the port are installed
  afterwards.\<close>

definition move_env :: "('b, 'r, 'm, 'p) env \<Rightarrow> ('b, 'r, 'm, 'q) env" where
  "move_env E = \<lparr>
     linked_list_init = linked_list_init E, linked_list_insert_tail_direct = linked_list_insert_tail_direct E,
     linked_list_remove_direct = linked_list_remove_direct E, linked_list_peek_head = linked_list_peek_head E,
     linked_list_is_empty = linked_list_is_empty E, bitmap_init = bitmap_init E,
     bitmap_set_bit = bitmap_set_bit E, bitmap_clear_bit = bitmap_clear_bit E,
     bitmap_find_last_set = bitmap_find_last_set E, atomic_init_size_t = atomic_init_size_t E,
     atomic_load_relaxed = atomic_load_relaxed E, atomic_load_acquire = atomic_load_acquire E,
     atomic_store_relaxed = atomic_store_relaxed E, memory_pool_malloc = memory_pool_malloc E,
     memory_pool_free = memory_pool_free E, ring_buffer_init = ring_buffer_init E,
     ring_buffer_capacity = ring_buffer_capacity E, ring_buffer_count = ring_buffer_count E,
     ring_buffer_write = ring_buffer_write E, ring_buffer_read = ring_buffer_read E,
     ring_buffer_clear = ring_buffer_clear E, ring_buffer_is_empty = ring_buffer_is_empty E,
     ring_buffer_is_full = ring_buffer_is_full E, ring_buffer_tail = ring_buffer_tail E,
     ring_buffer_data = ring_buffer_data E, ring_buffer_mask = ring_buffer_mask E,
     crc_32_calculate = crc_32_calculate E, tcb_bytes_up_to_magic = tcb_bytes_up_to_magic E,
     sertos_port_enter_critical = Pair 0, sertos_port_exit_critical = (\<lambda>c p. p),
     sertos_port_stack_init = sertos_port_stack_init E,
     sertos_port_task_create_hook = (\<lambda>a c p. (c, p)),
     sertos_port_task_delete_hook = (\<lambda>a c p. (c, p)),
     sertos_port_tick_init = (\<lambda>r p. (SERTOS_STATUS_OK, p)),
     sertos_port_runtime_counter_init = (\<lambda>p. p), sertos_port_runtime_counter = s_system_ticks,
     sertos_port_yield = Some, sertos_port_start_first_task = Some, sertos_port_stop_scheduler = Some,
     call_hook = (\<lambda>f s. Some s), call_timer_callback = (\<lambda>f h p s. Some s),
     port_is_host = False, s_idle_tcb = s_idle_tcb E, s_idle_stack = s_idle_stack E,
     idle_task_entry_addr = idle_task_entry_addr E, sizeof_tcb = sizeof_tcb E,
     sizeof_semaphore = sizeof_semaphore E, sizeof_mutex = sizeof_mutex E, sizeof_queue = sizeof_queue E,
     sizeof_stream_buffer = sizeof_stream_buffer E, sizeof_timer = sizeof_timer E\<rparr>"


definition rv_env :: "(32 word, ref_ring, addr, riscv_port) env" where
  "rv_env = riscv_port_of False Some (move_env quiet_env)"


lemma rv_kernel_env: "kernel_env rv_env ref_bits"
  using quiet_kernel_env unfolding rv_env_def by (intro riscv_kernel_env) (simp add: kernel_env_def move_env_def)





section \<open>The RISC-V timer\<close>

text \<open>C34: setting the next tick on RISC-V. While the time register only grows, reading its halves ends and gives
  the time of one of the reads; the compare register is set to exactly that time plus one tick, and while it is
  being written it never holds a value that could fire early. The initialisation refuses exactly the rates that are
  zero or above the timer clock, and programs the quotient otherwise. Inside the interrupt a yield does nothing.\<close>

theorem riscv_tick_exact:
  assumes mono: "\<And>i. clock i \<le> clock (Suc i)"
  shows "(\<exists>p' i. riscv_next_tick clock p = Some p' \<and> rv_reads p \<le> i \<and>
      mtimecmp p' = clock i + ucast (s_tick_cycles p) \<and>
      (\<forall>q \<in> set (butlast (mtimecmp_writes (mtimecmp p') (p\<lparr>rv_reads := i + 2\<rparr>))). 0xFFFFFFFF00000000 \<le> mtimecmp q) \<and>
      p' = last (mtimecmp_writes (mtimecmp p') (p\<lparr>rv_reads := i + 2\<rparr>))) \<and>
    (\<exists>st p'. riscv_tick_init fpu trap_addr clock hz rate p = Some (st, p') \<and> rv_mtvec p' = trap_addr \<and>
      (if rate = 0 \<or> hz < rate then st = SERTOS_STATUS_ERROR_INVALID_PARAM
       else st = SERTOS_STATUS_OK \<and> s_tick_cycles p' = hz div rate \<and> bit (rv_mie p') 7 \<and>
         (\<exists>i. mtimecmp p' = clock i + ucast (hz div rate)))) \<and>
    (s_in_isr (port s) \<noteq> 0 \<longrightarrow> sertos_port_yield (riscv_port_of fpu ecall E) s = Some s)"
proof -
  have next_tick: "\<exists>i \<ge> rv_reads r. riscv_next_tick clock r =
      Some (last (mtimecmp_writes (clock i + ucast (s_tick_cycles r)) (r\<lparr>rv_reads := i + 2\<rparr>)))" for r
    using read_mtime_exact [where clock = clock and n = "rv_reads r", OF mono] by (auto simp: riscv_next_tick_def join_hi_lo)
  have keep: "s_tick_cycles (last (mtimecmp_writes t r)) = s_tick_cycles r" "rv_mtvec (last (mtimecmp_writes t r)) = rv_mtvec r" for t r
    by (simp_all add: mtimecmp_writes_def rv_write_def Let_def)
  have cmp: "mtimecmp (r\<lparr>rv_mie := v\<rparr>) = mtimecmp r" for r v by (simp add: mtimecmp_def)
  obtain i where i: "rv_reads p \<le> i" "riscv_next_tick clock p =
      Some (last (mtimecmp_writes (clock i + ucast (s_tick_cycles p)) (p\<lparr>rv_reads := i + 2\<rparr>)))"
    using next_tick by blast
  have 1: "\<exists>p' i. riscv_next_tick clock p = Some p' \<and> rv_reads p \<le> i \<and> mtimecmp p' = clock i + ucast (s_tick_cycles p) \<and>
      (\<forall>q \<in> set (butlast (mtimecmp_writes (mtimecmp p') (p\<lparr>rv_reads := i + 2\<rparr>))). 0xFFFFFFFF00000000 \<le> mtimecmp q) \<and>
      p' = last (mtimecmp_writes (mtimecmp p') (p\<lparr>rv_reads := i + 2\<rparr>))"
    by (rule exI, rule exI [of _ i]) (use i mtimecmp_between in \<open>auto simp: mtimecmp_final\<close>)
  have 2: "\<exists>st p'. riscv_tick_init fpu trap_addr clock hz rate p = Some (st, p') \<and> rv_mtvec p' = trap_addr \<and>
      (if rate = 0 \<or> hz < rate then st = SERTOS_STATUS_ERROR_INVALID_PARAM
       else st = SERTOS_STATUS_OK \<and> s_tick_cycles p' = hz div rate \<and> bit (rv_mie p') 7 \<and>
         (\<exists>i. mtimecmp p' = clock i + ucast (hz div rate)))"
  proof (cases "rate = 0 \<or> hz < rate")
    case True
    then show ?thesis by (simp add: riscv_tick_init_def Let_def)
  next
    case False
    let ?r = "(if fpu then p\<lparr>rv_mtvec := trap_addr, rv_mstatus := rv_mstatus p OR MSTATUS_FS_INITIAL\<rparr>
      else p\<lparr>rv_mtvec := trap_addr\<rparr>)\<lparr>s_tick_cycles := hz div rate\<rparr>"
    obtain j where j: "riscv_next_tick clock ?r =
        Some (last (mtimecmp_writes (clock j + ucast (s_tick_cycles ?r)) (?r\<lparr>rv_reads := j + 2\<rparr>)))"
      using next_tick [of ?r] by blast
    have "riscv_tick_init fpu trap_addr clock hz rate p = map_option (\<lambda>p3. (SERTOS_STATUS_OK, p3\<lparr>rv_mie := rv_mie p3 OR push_bit 7 1\<rparr>))
        (riscv_next_tick clock ?r)"
      using False by (simp add: riscv_tick_init_def Let_def map_option_bind)
    then show ?thesis using False unfolding j
      by (auto simp: keep cmp mtimecmp_final bit_simps bit_numeral_rec)
  qed
  show ?thesis using 1 2 by (simp add: riscv_port_of_def)
qed

theorem riscv_tick_exact_witness:
  "\<exists>p' i. riscv_next_tick (\<lambda>i. 0xFFFFFFFF) demo_rv = Some p' \<and> mtimecmp p' = 0xFFFFFFFF + 10000"
proof -
  have c: "s_tick_cycles demo_rv = 10000" by (simp add: demo_rv_def)
  have "\<exists>p' i. riscv_next_tick (\<lambda>i. 0xFFFFFFFF) demo_rv = Some p' \<and>
      mtimecmp p' = 0xFFFFFFFF + ucast (s_tick_cycles demo_rv)"
    using conjunct1 [OF riscv_tick_exact [of "\<lambda>i. 0xFFFFFFFF" demo_rv]] by blast
  then show ?thesis by (simp add: c)
qed

end
