(* ===== verification/Sertos_Posix.thy ===== *)
theory Sertos_Posix
  imports Sertos_Task Sertos_Cortex
begin

text \<open>
  The POSIX simulator port (\<open>port/posix/port_posix.c\<close>): one thread per task, a pool of contexts, and the hand-over
  of the processor by flags under \<open>s_yield_mutex\<close>. Operating-system calls are parameters: whether a thread could be
  created, the clock, and \<open>wait\<close>/\<open>run\<close> functions for what the other threads do while a thread waits. A context
  pointer is the index of the context, as an address by \<open>ctx_addr\<close>. \<open>px_waiting\<close> records that the thread of a
  context is inside \<open>pthread_cond_wait\<close> (or has not begun); it is what the threads themselves do to the conditions.
  \<open>px_strays\<close> lists the threads that have deleted their own task and go on.
  Pointers are 32-bit words here as everywhere in the development.
\<close>

section \<open>State\<close>

definition SERTOS_CONFIG_MAX_TASKS :: nat where
  "SERTOS_CONFIG_MAX_TASKS = 32"

record posix_ctx =
  px_signaled :: bool
  px_tcb :: addr
  px_in_use :: bool
  px_waiting :: bool

record posix_port =
  s_task_contexts :: "posix_ctx list"
  s_critical_mutex_initialized :: bool
  critical_depth :: nat
  s_exit_signaled :: bool
  s_tick_thread_created :: bool
  s_scheduler_running :: bool
  s_running_ctx :: "nat option"
  px_strays :: "nat list"

datatype pthread = Main_Thread | Tick_Thread | Task_Thread nat

text \<open>\<open>s_tls_my_ctx\<close>: the thread-local context of a thread.\<close>

fun s_tls_my_ctx :: "pthread \<Rightarrow> nat option" where
  "s_tls_my_ctx (Task_Thread i) = Some i"
| "s_tls_my_ctx t = None"

definition upd_ctx :: "nat \<Rightarrow> (posix_ctx \<Rightarrow> posix_ctx) \<Rightarrow> posix_port \<Rightarrow> posix_port" where
  "upd_ctx i f p = p\<lparr>s_task_contexts := (s_task_contexts p)[i := f (s_task_contexts p ! i)]\<rparr>"

definition ctx_of :: "(nat \<Rightarrow> addr) \<Rightarrow> addr \<Rightarrow> nat option" where
  "ctx_of ctx_addr a = (if a = NULL then None else find (\<lambda>i. ctx_addr i = a) [0..<SERTOS_CONFIG_MAX_TASKS])"

section \<open>Contexts\<close>

text \<open>The first free slot from index \<open>i\<close> on.\<close>

fun first_free :: "nat \<Rightarrow> posix_ctx list \<Rightarrow> nat option" where
  "first_free i [] = None"
| "first_free i (c # cs) = (if \<not> px_in_use c then Some i else first_free (i + 1) cs)"

definition posix_create_hook ::
  "(nat \<Rightarrow> addr) \<Rightarrow> bool \<Rightarrow> addr \<Rightarrow> addr \<Rightarrow> posix_port \<Rightarrow> addr \<times> posix_port" where
  "posix_create_hook ctx_addr created tcb port_context p =
     (if tcb = NULL then (port_context, p)
      else case first_free 0 (s_task_contexts p) of
        None \<Rightarrow> (port_context, p)
      | Some i \<Rightarrow>
          let p1 = upd_ctx i (\<lambda>c. c\<lparr>px_in_use := True\<rparr>) p;
              p2 = upd_ctx i (\<lambda>c. c\<lparr>px_tcb := tcb, px_signaled := False\<rparr>) p1
          in if \<not> created then (NULL, upd_ctx i (\<lambda>c. c\<lparr>px_in_use := False\<rparr>) p2)
             else (ctx_addr i, upd_ctx i (\<lambda>c. c\<lparr>px_waiting := True\<rparr>) p2))"

text \<open>\<open>pthread_cancel\<close> and \<open>pthread_join\<close>, called by thread \<open>self\<close> for the thread of context \<open>i\<close>: another thread has
  ended when the join returns. A thread that joins itself is not waited for; when the join returns with its error, the
  thread still executes, now without a context of its own. (Should its cancellation take effect inside the join, the
  hook does not return and the thread just takes no further step.)\<close>

definition posix_cancel_join :: "pthread \<Rightarrow> nat \<Rightarrow> posix_port \<Rightarrow> posix_port" where
  "posix_cancel_join self i p =
     (if self = Task_Thread i then p\<lparr>px_strays := i # px_strays p\<rparr>
      else upd_ctx i (\<lambda>c. c\<lparr>px_waiting := True\<rparr>) p)"

definition posix_delete_hook ::
  "(nat \<Rightarrow> addr) \<Rightarrow> pthread \<Rightarrow> addr \<Rightarrow> addr \<Rightarrow> posix_port \<Rightarrow> addr \<times> posix_port" where
  "posix_delete_hook ctx_addr self tcb port_context p =
     (if tcb = NULL then (port_context, p)
      else case ctx_of ctx_addr port_context of
        None \<Rightarrow> (port_context, p)
      | Some i \<Rightarrow>
          let p1 = posix_cancel_join self i p
          in (NULL, upd_ctx i (\<lambda>c. c\<lparr>px_in_use := False, px_tcb := NULL\<rparr>) p1))"

section \<open>Handing over the processor\<close>

text \<open>\<open>sertos_port_yield\<close> called by thread \<open>self\<close>, up to the point where the caller returns or waits on its
  condition; \<open>current\<close> is the current task and \<open>next_ctx\<close> its context.\<close>

definition posix_yield :: "pthread \<Rightarrow> addr \<Rightarrow> nat option \<Rightarrow> posix_port \<Rightarrow> posix_port" where
  "posix_yield self current next_ctx p =
     (if \<not> s_scheduler_running p then p
      else if current = NULL then p
      else if s_tick_thread_created p \<and> self = Tick_Thread
      then (case next_ctx of
              None \<Rightarrow> p
            | Some j \<Rightarrow>
                if next_ctx \<noteq> s_running_ctx p
                then let old_ctx = s_running_ctx p;
                         p1 = p\<lparr>s_running_ctx := next_ctx\<rparr>;
                         p2 = (case old_ctx of None \<Rightarrow> p1 | Some i \<Rightarrow> upd_ctx i (\<lambda>c. c\<lparr>px_signaled := False\<rparr>) p1)
                     in upd_ctx j (\<lambda>c. c\<lparr>px_signaled := True\<rparr>) p2
                else p)
      else let my_ctx = s_tls_my_ctx self
           in if my_ctx \<noteq> None \<and> next_ctx = my_ctx then p
              else let p1 = p\<lparr>s_running_ctx := next_ctx\<rparr>;
                       p2 = (case next_ctx of None \<Rightarrow> p1 | Some j \<Rightarrow> upd_ctx j (\<lambda>c. c\<lparr>px_signaled := True\<rparr>) p1)
                   in case my_ctx of
                        None \<Rightarrow> p2
                      | Some i \<Rightarrow> upd_ctx i (\<lambda>c. c\<lparr>px_signaled := False, px_waiting := True\<rparr>) p2)"

text \<open>A waiting thread goes on when its flag is set (or, in \<open>sertos_port_yield\<close>, when scheduling has ended).\<close>

definition posix_may_wake :: "nat \<Rightarrow> posix_port \<Rightarrow> bool" where
  "posix_may_wake i p \<longleftrightarrow> px_waiting (s_task_contexts p ! i) \<and>
     (px_signaled (s_task_contexts p ! i) \<or> \<not> s_scheduler_running p)"

definition posix_wake :: "nat \<Rightarrow> posix_port \<Rightarrow> posix_port" where
  "posix_wake i p = upd_ctx i (\<lambda>c. c\<lparr>px_waiting := False\<rparr>) p"

section \<open>Critical sections, ticks and the life of the scheduler\<close>

definition init_critical_mutex :: "posix_port \<Rightarrow> posix_port" where
  "init_critical_mutex p = (if \<not> s_critical_mutex_initialized p
     then p\<lparr>critical_depth := 0, s_critical_mutex_initialized := True\<rparr> else p)"

text \<open>The recursive mutex as the depth to which its owner, the caller, holds it.\<close>

definition posix_enter_critical :: "posix_port \<Rightarrow> 32 word \<times> posix_port" where
  "posix_enter_critical p = (let p1 = init_critical_mutex p in (0, p1\<lparr>critical_depth := critical_depth p1 + 1\<rparr>))"

definition posix_exit_critical :: "32 word \<Rightarrow> posix_port \<Rightarrow> posix_port" where
  "posix_exit_critical status p =
     (if s_critical_mutex_initialized p then p\<lparr>critical_depth := critical_depth p - 1\<rparr> else p)"

definition posix_tick_init :: "32 word \<Rightarrow> posix_port \<Rightarrow> SertosStatus \<times> posix_port" where
  "posix_tick_init tick_rate_hz p =
     (if 0 < tick_rate_hz then SERTOS_STATUS_OK else SERTOS_STATUS_ERROR_INVALID_PARAM, p)"

text \<open>\<open>clock_gettime\<close> as seconds and nanoseconds, \<open>None\<close> when it fails.\<close>

definition posix_runtime_counter :: "(64 word \<times> 64 word) option \<Rightarrow> 32 word" where
  "posix_runtime_counter ts = (case ts of
     Some (tv_sec, tv_nsec) \<Rightarrow> ucast ((tv_sec * 1000000000 + tv_nsec) AND 0xFFFFFFFF)
   | None \<Rightarrow> 0)"

definition posix_frame :: "addr \<Rightarrow> addr \<Rightarrow> 32 word list" where
  "posix_frame entry param =
     [0x04040404, 0x05050505, 0x06060606, 0x07070707, 0x08080808, 0x09090909, 0x10101010, 0x11111111,
      param, 0, 0, 0, 0, 0, entry, 0x01000000]"

definition posix_stop_flags :: "posix_port \<Rightarrow> posix_port" where
  "posix_stop_flags p =
     (let p1 = p\<lparr>s_scheduler_running := False\<rparr>;
          p2 = p1\<lparr>s_task_contexts := map (\<lambda>c. if px_in_use c then c\<lparr>px_signaled := True\<rparr> else c) (s_task_contexts p1)\<rparr>
      in p2\<lparr>s_exit_signaled := True\<rparr>)"

text \<open>The thread of a task: wait for the first signal, run the entry function, delete the task. \<open>run_entry\<close> calls a
  task function, \<open>wait_signal\<close> is the time until the context's flag is set.\<close>

definition port_task_wrapper ::
  "('b, 'r, 'm, posix_port) env \<Rightarrow> (nat \<Rightarrow> addr) \<Rightarrow>
   (nat \<Rightarrow> ('b, 'r, 'm, posix_port) kstate \<Rightarrow> ('b, 'r, 'm, posix_port) kstate option) \<Rightarrow>
   (addr \<Rightarrow> addr \<Rightarrow> ('b, 'r, 'm, posix_port) kstate \<Rightarrow> ('b, 'r, 'm, posix_port) kstate option) \<Rightarrow>
   addr \<Rightarrow> ('b, 'r, 'm, posix_port) kstate \<Rightarrow> ('b, 'r, 'm, posix_port) kstate option" where
  "port_task_wrapper E ctx_addr wait_signal run_entry tcb s =
     (if tcb = NULL then Some s
      else case ctx_of ctx_addr (tcb_port_context (tcbs s tcb)) of
        None \<Rightarrow> Some s
      | Some i \<Rightarrow> do {
          s1 \<leftarrow> wait_signal i s;
          let s2 = s1\<lparr>port := posix_wake i (port s1)\<rparr>;
          s3 \<leftarrow> (if s_scheduler_running (port s2) \<and> tcb_entry_func (tcbs s2 tcb) \<noteq> NULL
                 then run_entry (tcb_entry_func (tcbs s2 tcb)) (tcb_param (tcbs s2 tcb)) s2 else Some s2);
          (status, s4) \<leftarrow> sertos_task_delete E tcb s3;
          Some s4
        })"

text \<open>The tick thread; \<open>sleep\<close> is what the others do during a millisecond.\<close>

partial_function (option) port_tick_thread_func ::
  "('b, 'r, 'm, posix_port) env \<Rightarrow>
   (('b, 'r, 'm, posix_port) kstate \<Rightarrow> ('b, 'r, 'm, posix_port) kstate option) \<Rightarrow>
   ('b, 'r, 'm, posix_port) kstate \<Rightarrow> ('b, 'r, 'm, posix_port) kstate option" where
  "port_tick_thread_func E sleep s =
     (if s_scheduler_running (port s)
      then do {
        s1 \<leftarrow> sleep s;
        s2 \<leftarrow> (if s_scheduler_running (port s1) then sertos_scheduler_tick E s1 else Some s1);
        port_tick_thread_func E sleep s2
      }
      else Some s)"

text \<open>\<open>wait_exit\<close> runs the system until the exit flag is set.\<close>

definition posix_start_first_task ::
  "(nat \<Rightarrow> addr) \<Rightarrow> bool \<Rightarrow>
   (('b, 'r, 'm, posix_port) kstate \<Rightarrow> ('b, 'r, 'm, posix_port) kstate option) \<Rightarrow>
   ('b, 'r, 'm, posix_port) kstate \<Rightarrow> ('b, 'r, 'm, posix_port) kstate option" where
  "posix_start_first_task ctx_addr created wait_exit s =
     (let s1 = s\<lparr>port := (init_critical_mutex (port s))\<lparr>s_exit_signaled := False, s_scheduler_running := True\<rparr>\<rparr>;
          s2 = (if created then s1\<lparr>port := (port s1)\<lparr>s_tick_thread_created := True\<rparr>\<rparr> else s1);
          current = sertos_scheduler_get_current_tcb s2;
          s3 = (if current = NULL then s2
                else let s' = upd_tcb current (\<lambda>t. t\<lparr>tcb_state := SERTOS_TASK_STATE_RUNNING\<rparr>) s2;
                         ctx = ctx_of ctx_addr (tcb_port_context (tcbs s' current));
                         p = (port s')\<lparr>s_running_ctx := ctx\<rparr>
                     in s'\<lparr>port := (case ctx of None \<Rightarrow> p | Some i \<Rightarrow> upd_ctx i (\<lambda>c. c\<lparr>px_signaled := True\<rparr>) p)\<rparr>)
      in do {
        s4 \<leftarrow> (if s_exit_signaled (port s3) then Some s3 else wait_exit s3);
        let s5 = s4\<lparr>port := (port s4)\<lparr>s_scheduler_running := False\<rparr>\<rparr>;
        Some (if s_tick_thread_created (port s5) then s5\<lparr>port := (port s5)\<lparr>s_tick_thread_created := False\<rparr>\<rparr> else s5)
      })"

definition posix_stop_scheduler ::
  "('b, 'r, 'm, posix_port) kstate \<Rightarrow> ('b, 'r, 'm, posix_port) kstate option" where
  "posix_stop_scheduler s = Some (s\<lparr>port := posix_stop_flags (port s)\<rparr>)"

text \<open>The port as the environment of a thread \<open>self\<close>; \<open>wait\<close> is the time the thread spends in
  \<open>pthread_cond_wait\<close> (or asleep).\<close>

definition posix_port_of ::
  "(nat \<Rightarrow> addr) \<Rightarrow> bool \<Rightarrow> (posix_port \<Rightarrow> (64 word \<times> 64 word) option) \<Rightarrow> pthread \<Rightarrow>
   (('b, 'r, 'm, posix_port) kstate \<Rightarrow> ('b, 'r, 'm, posix_port) kstate option) \<Rightarrow>
   ('b, 'r, 'm, posix_port) env \<Rightarrow> ('b, 'r, 'm, posix_port) env" where
  "posix_port_of ctx_addr created gettime self wait E = E\<lparr>
     sertos_port_stack_init := framed_stack_init posix_frame,
     sertos_port_yield := (\<lambda>s. wait (s\<lparr>port := posix_yield self (sertos_current_tcb s)
       (ctx_of ctx_addr (tcb_port_context (tcbs s (sertos_current_tcb s)))) (port s)\<rparr>)),
     sertos_port_start_first_task := posix_start_first_task ctx_addr created wait,
     sertos_port_enter_critical := posix_enter_critical,
     sertos_port_exit_critical := posix_exit_critical,
     sertos_port_runtime_counter := (\<lambda>s. posix_runtime_counter (gettime (port s))),
     sertos_port_runtime_counter_init := (\<lambda>p. p),
     sertos_port_tick_init := posix_tick_init,
     sertos_port_task_create_hook := posix_create_hook ctx_addr created,
     sertos_port_task_delete_hook := posix_delete_hook ctx_addr self,
     sertos_port_stop_scheduler := posix_stop_scheduler,
     port_is_host := True\<rparr>"

end
