(* ===== verification/Sertos_Windows.thy ===== *)
theory Sertos_Windows
  imports Sertos_Posix
begin

text \<open>
  The Windows simulator port (\<open>port/windows/port_windows.c\<close>). Each task has a thread that is created suspended and an
  auto-reset event; the tick thread preempts by suspending threads. What the kernel objects are to the port is part of
  its context: \<open>wx_event\<close> is the state of the event, \<open>wx_suspend_count\<close> the suspend count of the thread,
  \<open>wx_waiting\<close> whether the thread waits for its event. The critical section object is the depth to which the caller
  holds it.
\<close>

record win_ctx =
  wx_has_thread :: bool
  wx_has_event :: bool
  wx_event :: bool
  wx_suspend_count :: nat
  wx_waiting :: bool
  wx_tcb :: addr
  wx_is_suspended_by_tick :: bool
  wx_in_use :: bool

record win_port =
  w_task_contexts :: "win_ctx list"
  s_cs_initialized :: bool
  cs_depth :: nat
  w_exit_event :: "bool option"
  w_tick_thread :: bool
  w_scheduler_running :: bool
  w_running_ctx :: "nat option"

definition upd_wctx :: "nat \<Rightarrow> (win_ctx \<Rightarrow> win_ctx) \<Rightarrow> win_port \<Rightarrow> win_port" where
  "upd_wctx i f p = p\<lparr>w_task_contexts := (w_task_contexts p)[i := f (w_task_contexts p ! i)]\<rparr>"

section \<open>Kernel objects\<close>

definition SetEvent :: "nat \<Rightarrow> win_port \<Rightarrow> win_port" where
  "SetEvent i p = upd_wctx i (\<lambda>c. c\<lparr>wx_event := True\<rparr>) p"

definition SuspendThread :: "nat \<Rightarrow> win_port \<Rightarrow> win_port" where
  "SuspendThread i p = upd_wctx i (\<lambda>c. c\<lparr>wx_suspend_count := wx_suspend_count c + 1\<rparr>) p"

definition ResumeThread :: "nat \<Rightarrow> win_port \<Rightarrow> win_port" where
  "ResumeThread i p = upd_wctx i (\<lambda>c. c\<lparr>wx_suspend_count := wx_suspend_count c - 1\<rparr>) p"

text \<open>A thread executes when it is not suspended and not waiting; a waiting thread that is not suspended and whose
  event is set goes on and resets the event.\<close>

definition win_executes :: "win_ctx \<Rightarrow> bool" where
  "win_executes c \<longleftrightarrow> wx_in_use c \<and> wx_has_thread c \<and> wx_suspend_count c = 0 \<and> \<not> wx_waiting c"

definition win_may_wake :: "nat \<Rightarrow> win_port \<Rightarrow> bool" where
  "win_may_wake i p \<longleftrightarrow> (let c = w_task_contexts p ! i in wx_waiting c \<and> wx_event c \<and> wx_suspend_count c = 0)"

definition win_wake :: "nat \<Rightarrow> win_port \<Rightarrow> win_port" where
  "win_wake i p = upd_wctx i (\<lambda>c. c\<lparr>wx_waiting := False, wx_event := False\<rparr>) p"

section \<open>Contexts\<close>

fun first_free_w :: "nat \<Rightarrow> win_ctx list \<Rightarrow> nat option" where
  "first_free_w i [] = None"
| "first_free_w i (c # cs) = (if \<not> wx_in_use c then Some i else first_free_w (i + 1) cs)"

text \<open>\<open>event\<close> and \<open>thread\<close> tell whether the kernel objects could be created.\<close>

definition win_create_hook ::
  "(nat \<Rightarrow> addr) \<Rightarrow> bool \<Rightarrow> bool \<Rightarrow> addr \<Rightarrow> addr \<Rightarrow> win_port \<Rightarrow> addr \<times> win_port" where
  "win_create_hook ctx_addr event thr tcb port_context p =
     (if tcb = NULL then (port_context, p)
      else case first_free_w 0 (w_task_contexts p) of
        None \<Rightarrow> (port_context, p)
      | Some i \<Rightarrow>
          (ctx_addr i, upd_wctx i (\<lambda>c. c\<lparr>wx_in_use := True, wx_tcb := tcb, wx_is_suspended_by_tick := False,
             wx_has_event := event, wx_event := False,
             wx_has_thread := thr, wx_suspend_count := 1, wx_waiting := True\<rparr>) p))"

definition win_delete_hook :: "(nat \<Rightarrow> addr) \<Rightarrow> addr \<Rightarrow> addr \<Rightarrow> win_port \<Rightarrow> addr \<times> win_port" where
  "win_delete_hook ctx_addr tcb port_context p =
     (if tcb = NULL then (port_context, p)
      else case ctx_of ctx_addr port_context of
        None \<Rightarrow> (port_context, p)
      | Some i \<Rightarrow> (NULL, upd_wctx i (\<lambda>c. c\<lparr>wx_has_thread := False, wx_has_event := False, wx_in_use := False, wx_tcb := NULL\<rparr>) p))"

section \<open>Handing over the processor\<close>

definition win_dispatch :: "nat \<Rightarrow> win_port \<Rightarrow> win_port" where
  "win_dispatch j p =
     (if wx_is_suspended_by_tick (w_task_contexts p ! j)
      then ResumeThread j (upd_wctx j (\<lambda>c. c\<lparr>wx_is_suspended_by_tick := False\<rparr>) p)
      else SetEvent j p)"

definition init_cs :: "win_port \<Rightarrow> win_port" where
  "init_cs p = (if \<not> s_cs_initialized p then p\<lparr>cs_depth := 0, s_cs_initialized := True\<rparr> else p)"

text \<open>\<open>sertos_port_yield\<close> up to the point where the caller returns or waits for an event; the caller is the tick
  thread or a task thread. Note that it is the thread of the context that was running that waits.\<close>

definition win_yield :: "bool \<Rightarrow> addr \<Rightarrow> nat option \<Rightarrow> win_port \<Rightarrow> win_port" where
  "win_yield is_tick current next_ctx p0 =
     (if \<not> w_scheduler_running p0 then p0
      else let p = init_cs p0
        in if current = NULL then p
        else if is_tick
        then (case next_ctx of
                None \<Rightarrow> p
              | Some j \<Rightarrow>
                  if next_ctx \<noteq> w_running_ctx p
                  then let prev_ctx = w_running_ctx p;
                           p1 = p\<lparr>w_running_ctx := next_ctx\<rparr>;
                           p2 = (case prev_ctx of
                                   Some i \<Rightarrow> if wx_has_thread (w_task_contexts p1 ! i)
                                            then upd_wctx i (\<lambda>c. c\<lparr>wx_is_suspended_by_tick := True\<rparr>) (SuspendThread i p1)
                                            else p1
                                 | None \<Rightarrow> p1)
                       in win_dispatch j p2
                  else p)
        else if next_ctx = w_running_ctx p then p
        else let prev_ctx = w_running_ctx p;
                 p1 = p\<lparr>w_running_ctx := next_ctx\<rparr>;
                 p2 = (case next_ctx of None \<Rightarrow> p1 | Some j \<Rightarrow> win_dispatch j p1)
             in case prev_ctx of
                  None \<Rightarrow> p2
                | Some i \<Rightarrow> upd_wctx i (\<lambda>c. c\<lparr>wx_waiting := True\<rparr>) p2)"

section \<open>Critical sections, ticks and the life of the scheduler\<close>

definition win_enter_critical :: "win_port \<Rightarrow> 32 word \<times> win_port" where
  "win_enter_critical p = (let p1 = init_cs p in (0, p1\<lparr>cs_depth := cs_depth p1 + 1\<rparr>))"

definition win_exit_critical :: "32 word \<Rightarrow> win_port \<Rightarrow> win_port" where
  "win_exit_critical status p = (if s_cs_initialized p then p\<lparr>cs_depth := cs_depth p - 1\<rparr> else p)"

definition win_tick_init :: "32 word \<Rightarrow> win_port \<Rightarrow> SertosStatus \<times> win_port" where
  "win_tick_init tick_rate_hz p =
     (if 0 < tick_rate_hz then SERTOS_STATUS_OK else SERTOS_STATUS_ERROR_INVALID_PARAM, p)"

text \<open>The performance counter, \<open>None\<close> when it is not available, and the tick count of the system.\<close>

definition win_runtime_counter :: "64 word option \<Rightarrow> 32 word \<Rightarrow> 32 word" where
  "win_runtime_counter counter ticks = (case counter of Some c \<Rightarrow> ucast (c AND 0xFFFFFFFF) | None \<Rightarrow> ticks)"

definition win_task_wrapper ::
  "('b, 'r, 'm, win_port) env \<Rightarrow> (nat \<Rightarrow> addr) \<Rightarrow>
   (nat \<Rightarrow> ('b, 'r, 'm, win_port) kstate \<Rightarrow> ('b, 'r, 'm, win_port) kstate option) \<Rightarrow>
   (addr \<Rightarrow> addr \<Rightarrow> ('b, 'r, 'm, win_port) kstate \<Rightarrow> ('b, 'r, 'm, win_port) kstate option) \<Rightarrow>
   addr \<Rightarrow> ('b, 'r, 'm, win_port) kstate \<Rightarrow> (32 word \<times> ('b, 'r, 'm, win_port) kstate) option" where
  "win_task_wrapper E ctx_addr wait_event run_entry tcb s =
     (if tcb = NULL then Some (1, s)
      else case ctx_of ctx_addr (tcb_port_context (tcbs s tcb)) of
        None \<Rightarrow> Some (1, s)
      | Some i \<Rightarrow> do {
          s1 \<leftarrow> wait_event i s;
          let s2 = s1\<lparr>port := win_wake i (port s1)\<rparr>;
          s3 \<leftarrow> (if w_scheduler_running (port s2) \<and> tcb_entry_func (tcbs s2 tcb) \<noteq> NULL
                 then run_entry (tcb_entry_func (tcbs s2 tcb)) (tcb_param (tcbs s2 tcb)) s2 else Some s2);
          (status, s4) \<leftarrow> sertos_task_delete E tcb s3;
          Some (0, s4)
        })"

partial_function (option) win_tick_thread_func ::
  "('b, 'r, 'm, win_port) env \<Rightarrow>
   (('b, 'r, 'm, win_port) kstate \<Rightarrow> ('b, 'r, 'm, win_port) kstate option) \<Rightarrow>
   ('b, 'r, 'm, win_port) kstate \<Rightarrow> ('b, 'r, 'm, win_port) kstate option" where
  "win_tick_thread_func E sleep s =
     (if w_scheduler_running (port s)
      then do {
        s1 \<leftarrow> sleep s;
        s2 \<leftarrow> (if w_scheduler_running (port s1) then sertos_scheduler_tick E s1 else Some s1);
        win_tick_thread_func E sleep s2
      }
      else Some s)"

text \<open>The loop of \<open>sertos_port_start_first_task\<close> that resumes the threads created so far.\<close>

definition resume_all :: "win_ctx list \<Rightarrow> win_ctx list" where
  "resume_all cs = map (\<lambda>c. if wx_in_use c \<and> wx_has_thread c then c\<lparr>wx_suspend_count := wx_suspend_count c - 1\<rparr> else c) cs"

definition win_start_first_task ::
  "(nat \<Rightarrow> addr) \<Rightarrow> bool \<Rightarrow>
   (('b, 'r, 'm, win_port) kstate \<Rightarrow> ('b, 'r, 'm, win_port) kstate option) \<Rightarrow>
   ('b, 'r, 'm, win_port) kstate \<Rightarrow> ('b, 'r, 'm, win_port) kstate option" where
  "win_start_first_task ctx_addr created wait_exit s =
     (let s1 = s\<lparr>port := (init_cs (port s))\<lparr>w_exit_event := Some False, w_scheduler_running := True, w_tick_thread := created\<rparr>\<rparr>;
          s2 = s1\<lparr>port := (port s1)\<lparr>w_task_contexts := resume_all (w_task_contexts (port s1))\<rparr>\<rparr>;
          current = sertos_scheduler_get_current_tcb s2;
          s3 = (if current = NULL then s2
                else let s' = upd_tcb current (\<lambda>t. t\<lparr>tcb_state := SERTOS_TASK_STATE_RUNNING\<rparr>) s2;
                         ctx = ctx_of ctx_addr (tcb_port_context (tcbs s' current));
                         p = (port s')\<lparr>w_running_ctx := ctx\<rparr>
                     in s'\<lparr>port := (case ctx of None \<Rightarrow> p | Some i \<Rightarrow> SetEvent i p)\<rparr>)
      in do {
        s4 \<leftarrow> wait_exit s3;
        Some (s4\<lparr>port := (port s4)\<lparr>w_scheduler_running := False, w_tick_thread := False, w_exit_event := None,
          s_cs_initialized := False\<rparr>\<rparr>)
      })"

definition win_stop_scheduler ::
  "('b, 'r, 'm, win_port) kstate \<Rightarrow> ('b, 'r, 'm, win_port) kstate option" where
  "win_stop_scheduler s =
     (let p = (port s)\<lparr>w_scheduler_running := False\<rparr>
      in Some (s\<lparr>port := (if w_exit_event p \<noteq> None then p\<lparr>w_exit_event := Some True\<rparr> else p)\<rparr>))"

definition windows_port_of ::
  "(nat \<Rightarrow> addr) \<Rightarrow> bool \<Rightarrow> bool \<Rightarrow> bool \<Rightarrow> (win_port \<Rightarrow> 64 word option) \<Rightarrow> (win_port \<Rightarrow> 32 word) \<Rightarrow> bool \<Rightarrow>
   (('b, 'r, 'm, win_port) kstate \<Rightarrow> ('b, 'r, 'm, win_port) kstate option) \<Rightarrow>
   ('b, 'r, 'm, win_port) env \<Rightarrow> ('b, 'r, 'm, win_port) env" where
  "windows_port_of ctx_addr event thr tick_thr counter ticks is_tick wait E = E\<lparr>
     sertos_port_stack_init := framed_stack_init posix_frame,
     sertos_port_yield := (\<lambda>s. wait (s\<lparr>port := win_yield is_tick (sertos_current_tcb s)
       (ctx_of ctx_addr (tcb_port_context (tcbs s (sertos_current_tcb s)))) (port s)\<rparr>)),
     sertos_port_start_first_task := win_start_first_task ctx_addr tick_thr wait,
     sertos_port_enter_critical := win_enter_critical,
     sertos_port_exit_critical := win_exit_critical,
     sertos_port_runtime_counter := (\<lambda>s. win_runtime_counter (counter (port s)) (ticks (port s))),
     sertos_port_runtime_counter_init := (\<lambda>p. p),
     sertos_port_tick_init := win_tick_init,
     sertos_port_task_create_hook := win_create_hook ctx_addr event thr,
     sertos_port_task_delete_hook := win_delete_hook ctx_addr,
     sertos_port_stop_scheduler := win_stop_scheduler,
     port_is_host := True\<rparr>"

end
