(* ===== verification/Sertos_Host_Spec.thy ===== *)
theory Sertos_Host_Spec
  imports Sertos_Windows
begin

text \<open>
  What the simulator ports do with their threads. Threads interleave: a step relation runs one operation of the POSIX
  port at a time, each under \<open>s_yield_mutex\<close>, for whatever task the kernel has made current. Task threads exclude each
  other as long as they hand over by themselves; a tick that preempts lets two of them run. On Windows a task that is
  created after the scheduler has started never runs.
\<close>

section \<open>Steps of the POSIX port\<close>

text \<open>Thread \<open>i\<close> executes task code.\<close>

definition awake :: "nat \<Rightarrow> posix_port \<Rightarrow> bool" where
  "awake i p \<longleftrightarrow> i < length (s_task_contexts p) \<and> px_in_use (s_task_contexts p ! i) \<and> \<not> px_waiting (s_task_contexts p ! i)"

definition live_ctx :: "nat option \<Rightarrow> posix_port \<Rightarrow> bool" where
  "live_ctx x p \<longleftrightarrow> (case x of None \<Rightarrow> True
     | Some j \<Rightarrow> j < length (s_task_contexts p) \<and> px_in_use (s_task_contexts p ! j))"

text \<open>Threads that execute task code: those of awake contexts and those that have deleted their own task.\<close>

definition executing :: "nat \<Rightarrow> posix_port \<Rightarrow> bool" where
  "executing i p \<longleftrightarrow> awake i p \<or> i \<in> set (px_strays p)"

text \<open>A step of a thread: a yield for the current task \<open>a\<close> with context \<open>x\<close>, the return from a wait, and what task
  code does to the port otherwise: it creates tasks, deletes tasks, its own one included, and stops the scheduler.\<close>

inductive posix_step :: "(nat \<Rightarrow> addr) \<Rightarrow> pthread \<Rightarrow> posix_port \<Rightarrow> posix_port \<Rightarrow> bool" for ctx_addr where
  task_yield: "executing i p \<Longrightarrow> live_ctx x p \<Longrightarrow> posix_step ctx_addr (Task_Thread i) p (posix_yield (Task_Thread i) a x p)"
| tick_yield: "s_tick_thread_created p \<Longrightarrow> live_ctx x p \<Longrightarrow>
    posix_step ctx_addr Tick_Thread p (posix_yield Tick_Thread a x p)"
| wake: "i < length (s_task_contexts p) \<Longrightarrow> px_in_use (s_task_contexts p ! i) \<Longrightarrow> posix_may_wake i p \<Longrightarrow>
    posix_step ctx_addr (Task_Thread i) p (posix_wake i p)"
| create: "executing i p \<Longrightarrow> posix_step ctx_addr (Task_Thread i) p (snd (posix_create_hook ctx_addr b tcb ctx p))"
| delete: "executing i p \<Longrightarrow>
    posix_step ctx_addr (Task_Thread i) p (snd (posix_delete_hook ctx_addr (Task_Thread i) tcb ctx p))"
| stop: "executing i p \<Longrightarrow> posix_step ctx_addr (Task_Thread i) p (posix_stop_flags p)"

inductive posix_run :: "(nat \<Rightarrow> addr) \<Rightarrow> pthread set \<Rightarrow> posix_port \<Rightarrow> posix_port \<Rightarrow> bool" for ctx_addr T where
  run_refl: "posix_run ctx_addr T p p"
| run_step: "posix_run ctx_addr T p q \<Longrightarrow> posix_step ctx_addr t q r \<Longrightarrow> t \<in> T \<Longrightarrow> posix_run ctx_addr T p r"

text \<open>Only the thread of the running context is awake or about to be woken.\<close>

definition exclusive :: "posix_port \<Rightarrow> bool" where
  "exclusive p \<longleftrightarrow> s_scheduler_running p \<and> (\<forall>i < length (s_task_contexts p). px_in_use (s_task_contexts p ! i) \<longrightarrow>
     (\<not> px_waiting (s_task_contexts p ! i) \<or> px_signaled (s_task_contexts p ! i)) \<longrightarrow> s_running_ctx p = Some i)"

lemma upd_ctx_simps [simp]:
  "length (s_task_contexts (upd_ctx i f p)) = length (s_task_contexts p)"
  "s_running_ctx (upd_ctx i f p) = s_running_ctx p" "s_scheduler_running (upd_ctx i f p) = s_scheduler_running p"
  "j < length (s_task_contexts p) \<Longrightarrow>
   s_task_contexts (upd_ctx i f p) ! j = (if i = j then f (s_task_contexts p ! i) else s_task_contexts p ! j)"
  by (auto simp: upd_ctx_def nth_list_update)

lemma first_free_Some:
  "first_free k cs = Some i \<Longrightarrow> k \<le> i \<and> i < k + length cs \<and> \<not> px_in_use (cs ! (i - k)) \<and>
     (\<forall>j < i - k. px_in_use (cs ! j))"
proof (induction k cs rule: first_free.induct)
  case (2 k c cs)
  show ?case
  proof (cases "px_in_use c")
    case True
    then have "first_free (k + 1) cs = Some i" using 2 by simp
    then have h: "k + 1 \<le> i \<and> i < k + 1 + length cs \<and> \<not> px_in_use (cs ! (i - (k + 1))) \<and> (\<forall>j < i - (k + 1). px_in_use (cs ! j))"
      using 2 True by blast
    moreover have "(c # cs) ! (i - k) = cs ! (i - (k + 1))" using h by (simp add: nth_Cons')
    moreover have "px_in_use ((c # cs) ! j)" if "j < i - k" for j
      using that h True by (cases j) auto
    ultimately show ?thesis by auto
  qed (use 2 in simp)
qed simp

lemma first_free_None: "first_free k cs = None \<Longrightarrow> c \<in> set cs \<Longrightarrow> px_in_use c"
  by (induction cs arbitrary: k) (auto split: if_splits)

lemma exclusiveI:
  assumes "s_scheduler_running p"
    and "\<And>j. j < length (s_task_contexts p) \<Longrightarrow> px_in_use (s_task_contexts p ! j) \<Longrightarrow> s_running_ctx p \<noteq> Some j \<Longrightarrow>
      px_waiting (s_task_contexts p ! j) \<and> \<not> px_signaled (s_task_contexts p ! j)"
  shows "exclusive p"
  using assms unfolding exclusive_def by blast

lemma exclusiveD:
  assumes "exclusive p"
  shows "s_scheduler_running p"
    and "j < length (s_task_contexts p) \<Longrightarrow> px_in_use (s_task_contexts p ! j) \<Longrightarrow> s_running_ctx p \<noteq> Some j \<Longrightarrow>
      px_waiting (s_task_contexts p ! j) \<and> \<not> px_signaled (s_task_contexts p ! j)"
  using assms unfolding exclusive_def by blast+

lemma step_exclusive:
  assumes "posix_step ctx_addr t p q" and "t \<noteq> Tick_Thread" and ex: "exclusive p"
    and on: "s_scheduler_running q" "px_strays q = []" and none: "px_strays p = []"
  shows "exclusive q"
  using assms(1,2)
proof (cases rule: posix_step.cases)
  case (task_yield i x a)
  have r: "s_running_ctx p = Some i" using task_yield none exclusiveD(2) [OF ex, of i] by (auto simp: awake_def executing_def)
  show ?thesis
  proof (cases "a = NULL \<or> x = Some i")
    case True
    then have "q = p" using task_yield exclusiveD(1) [OF ex] by (auto simp: posix_yield_def Let_def)
    then show ?thesis using ex by simp
  next
    case False
    have q: "q = upd_ctx i (\<lambda>c. c\<lparr>px_signaled := False, px_waiting := True\<rparr>) (case x of None \<Rightarrow> p\<lparr>s_running_ctx := x\<rparr>
        | Some j \<Rightarrow> upd_ctx j (\<lambda>c. c\<lparr>px_signaled := True\<rparr>) (p\<lparr>s_running_ctx := x\<rparr>))"
      using task_yield False exclusiveD(1) [OF ex] by (auto simp: posix_yield_def Let_def)
    show ?thesis
      by (rule exclusiveI) (use exclusiveD [OF ex] r False in \<open>auto simp: q split: option.splits if_splits\<close>)
  qed
next
  case (wake i)
  then have r: "s_running_ctx p = Some i" using exclusiveD(1) [OF ex] exclusiveD(2) [OF ex, of i] by (auto simp: posix_may_wake_def)
  show ?thesis
    by (rule exclusiveI) (use exclusiveD [OF ex] r wake in \<open>auto simp: posix_wake_def\<close>)
next
  case (create i b tcb ctx)
  show ?thesis
  proof (cases "tcb = NULL \<or> first_free 0 (s_task_contexts p) = None")
    case True
    then have "q = p" using create by (auto simp: posix_create_hook_def)
    then show ?thesis using ex by simp
  next
    case False
    then obtain k where k: "first_free 0 (s_task_contexts p) = Some k" by auto
    show ?thesis
      by (rule exclusiveI) (use exclusiveD [OF ex] first_free_Some [OF k] k create False in
          \<open>auto simp: posix_create_hook_def Let_def split: if_splits\<close>)
  qed
next
  case (delete i tcb ctx)
  show ?thesis
    by (rule exclusiveI) (use exclusiveD [OF ex] on(2) delete in
        \<open>auto simp: posix_delete_hook_def posix_cancel_join_def Let_def split: option.splits if_splits\<close>)
next
  case stop
  then show ?thesis using on(1) by (simp add: posix_stop_flags_def Let_def)
qed auto

text \<open>Nothing starts a stopped scheduler again and nothing takes a stray thread back.\<close>

lemma yield_keeps [simp]:
  "s_scheduler_running (posix_yield t a x p) = s_scheduler_running p" "px_strays (posix_yield t a x p) = px_strays p"
  by (simp_all add: posix_yield_def upd_ctx_def Let_def split: option.splits)

lemma step_ends_for_good:
  assumes "posix_step ctx_addr t p q" and "s_scheduler_running q" and "px_strays q = []"
  shows "s_scheduler_running p \<and> px_strays p = []"
  using assms
  by (cases rule: posix_step.cases)
    (auto simp: posix_wake_def posix_create_hook_def posix_delete_hook_def posix_cancel_join_def posix_stop_flags_def
       upd_ctx_def Let_def split: option.splits if_splits)

lemma run_exclusive:
  "posix_run ctx_addr T p q \<Longrightarrow> Tick_Thread \<notin> T \<Longrightarrow> exclusive p \<Longrightarrow> s_scheduler_running q \<Longrightarrow> px_strays q = [] \<Longrightarrow> exclusive q"
proof (induction rule: posix_run.induct)
  case (run_step p q t r)
  then show ?case using step_exclusive [OF run_step(2)] step_ends_for_good [OF run_step(2)] by blast
qed

text \<open>C36: task threads of the POSIX port yield, wake up, create and delete tasks (their own included) and stop the
  scheduler, in any order, while the tick thread takes no step. Starting from a state in which only the running
  context is awake or signalled, as long as the scheduler has not been stopped and no task has deleted itself, at most
  one thread executes task code, and it is the thread of the running context.
  After \<open>sertos_port_stop_scheduler\<close> every thread is signalled, and a task that has deleted itself executes beside its
  successor; the theorem says nothing of what follows then.\<close>

theorem posix_tasks_exclude:
  assumes "posix_run ctx_addr T p q" and "Tick_Thread \<notin> T" and "exclusive p"
    and "s_scheduler_running q" and "px_strays q = []" and "executing i q" and "executing j q"
  shows "i = j \<and> s_running_ctx q = Some i \<and> exclusive q"
proof -
  have ex: "exclusive q" using run_exclusive assms by blast
  have "s_running_ctx q = Some k" if "executing k q" for k
    using that assms(5) exclusiveD(2) [OF ex, of k] by (auto simp: awake_def executing_def)
  from this [OF assms(6)] this [OF assms(7)] show ?thesis using ex by simp
qed

definition demo_posix :: posix_port where
  "demo_posix = \<lparr>s_task_contexts = [\<lparr>px_signaled = True, px_tcb = 0x100, px_in_use = True, px_waiting = False\<rparr>,
       \<lparr>px_signaled = False, px_tcb = 0x200, px_in_use = True, px_waiting = True\<rparr>],
     s_critical_mutex_initialized = True, critical_depth = 0, s_exit_signaled = False, s_tick_thread_created = True,
     s_scheduler_running = True, s_running_ctx = Some 0, px_strays = []\<rparr>"

lemma demo_posix_exclusive: "exclusive demo_posix"
  by (auto simp: exclusive_def demo_posix_def less_Suc_eq nth_Cons')

theorem posix_tasks_exclude_witness:
  "\<exists>q. posix_run of_nat {Task_Thread 0, Task_Thread 1} demo_posix q \<and> executing 1 q \<and> \<not> executing 0 q"
proof -
  let ?p = "posix_yield (Task_Thread 0) 0x200 (Some 1) demo_posix"
  let ?q = "posix_wake 1 ?p"
  have "posix_step of_nat (Task_Thread 0) demo_posix ?p"
    by (rule task_yield) (simp_all add: executing_def awake_def live_ctx_def demo_posix_def)
  then have 1: "posix_run of_nat {Task_Thread 0, Task_Thread 1} demo_posix ?p" by (rule run_step [OF run_refl]) simp
  have "posix_step of_nat (Task_Thread 1) ?p ?q"
    by (rule wake) (simp_all add: posix_may_wake_def posix_yield_def demo_posix_def upd_ctx_def)
  with 1 have run: "posix_run of_nat {Task_Thread 0, Task_Thread 1} demo_posix ?q" by (rule run_step) simp
  have a: "executing 1 ?q" by (simp add: executing_def awake_def posix_wake_def posix_yield_def demo_posix_def upd_ctx_def)
  have on: "s_scheduler_running ?q" "px_strays ?q = []" by (simp_all add: posix_wake_def upd_ctx_def demo_posix_def)
  have "\<not> executing 0 ?q"
    using posix_tasks_exclude [OF run _ demo_posix_exclusive on _ a, of 0] by auto
  with run a show ?thesis by blast
qed

text \<open>A tick that preempts does not stop the preempted thread. When the tick thread hands over from the running
  task to another one, the other thread wakes up while the first goes on executing task code.\<close>

theorem posix_tick_overlaps:
  assumes ex: "exclusive p" and i: "awake i p" and "i \<noteq> j" and "s_tick_thread_created p" and "a \<noteq> NULL"
    and j: "j < length (s_task_contexts p)" "px_in_use (s_task_contexts p ! j)"
  shows "\<exists>q. posix_run ctx_addr {Tick_Thread, Task_Thread j} p q \<and> awake i q \<and> awake j q \<and> s_running_ctx q = Some j"
proof -
  let ?p = "posix_yield Tick_Thread a (Some j) p"
  let ?q = "posix_wake j ?p"
  have r: "s_running_ctx p = Some i" using i exclusiveD(2) [OF ex, of i] by (auto simp: awake_def)
  have w: "px_waiting (s_task_contexts p ! j)" using exclusiveD(2) [OF ex j] r assms(3) by simp
  have p: "?p = upd_ctx j (\<lambda>c. c\<lparr>px_signaled := True\<rparr>) (upd_ctx i (\<lambda>c. c\<lparr>px_signaled := False\<rparr>) (p\<lparr>s_running_ctx := Some j\<rparr>))"
    using r assms(3-5) exclusiveD(1) [OF ex] by (simp add: posix_yield_def Let_def)
  have "posix_step ctx_addr Tick_Thread p ?p" by (rule tick_yield) (use assms(4) j in \<open>simp_all add: live_ctx_def\<close>)
  then have 1: "posix_run ctx_addr {Tick_Thread, Task_Thread j} p ?p" by (rule run_step [OF run_refl]) simp
  have "posix_step ctx_addr (Task_Thread j) ?p ?q"
    by (rule wake) (use j w assms(3) in \<open>simp_all add: p posix_may_wake_def\<close>)
  with 1 have "posix_run ctx_addr {Tick_Thread, Task_Thread j} p ?q" by (rule run_step) simp
  moreover have "awake i ?q" "awake j ?q" "s_running_ctx ?q = Some j"
    using i j assms(3) by (simp_all add: p awake_def posix_wake_def)
  ultimately show ?thesis by blast
qed

theorem posix_tick_overlaps_witness:
  "\<exists>q. posix_run of_nat {Tick_Thread, Task_Thread 1} demo_posix q \<and> awake 0 q \<and> awake 1 q \<and> s_running_ctx q = Some 1"
  by (rule posix_tick_overlaps [OF demo_posix_exclusive, of 0 1 "0x200"])
    (simp_all add: awake_def demo_posix_def)

section \<open>The context pool\<close>

lemma find_index:
  assumes "inj_on f {..<n}" and "i < n" shows "find (\<lambda>k. f k = f i) [0..<n] = Some i"
proof -
  have "f k = f i \<longleftrightarrow> k = i" if "k < n" for k using assms that by (auto dest: inj_onD)
  then show ?thesis using assms(2) by (auto simp: find_Some_iff intro!: exI [of _ i])
qed

lemma posix_ctx_fields:
  "c\<lparr>px_in_use := u, px_tcb := t, px_signaled := b, px_waiting := w\<rparr> =
     \<lparr>px_signaled = b, px_tcb = t, px_in_use = u, px_waiting = w\<rparr>"
  "c\<lparr>px_signaled := b, px_waiting := w, px_in_use := u, px_tcb := t\<rparr> =
     \<lparr>px_signaled = b, px_tcb = t, px_in_use = u, px_waiting = w\<rparr>"
  by (cases c; simp)+

text \<open>A new task gets the first free context and no other context changes; deleting the task gives that context
  back. When the pool is exhausted the hook does nothing: the task is left without a thread.\<close>

theorem posix_context_roundtrip:
  assumes inj: "inj_on ctx_addr {..<SERTOS_CONFIG_MAX_TASKS}" and nz: "\<And>i. i < SERTOS_CONFIG_MAX_TASKS \<Longrightarrow> ctx_addr i \<noteq> NULL"
    and len: "length (s_task_contexts p) = SERTOS_CONFIG_MAX_TASKS" and "tcb \<noteq> NULL"
  shows "if \<forall>c \<in> set (s_task_contexts p). px_in_use c then posix_create_hook ctx_addr created tcb ctx p = (ctx, p)
    else \<exists>i p1. posix_create_hook ctx_addr True tcb ctx p = (ctx_addr i, p1) \<and> i < SERTOS_CONFIG_MAX_TASKS \<and>
      \<not> px_in_use (s_task_contexts p ! i) \<and> (\<forall>j < i. px_in_use (s_task_contexts p ! j)) \<and>
      s_task_contexts p1 = (s_task_contexts p)[i := \<lparr>px_signaled = False, px_tcb = tcb, px_in_use = True, px_waiting = True\<rparr>] \<and>
      posix_delete_hook ctx_addr Main_Thread tcb (ctx_addr i) p1 =
        (NULL, p\<lparr>s_task_contexts := (s_task_contexts p)[i := \<lparr>px_signaled = False, px_tcb = NULL, px_in_use = False, px_waiting = True\<rparr>]\<rparr>)"
proof (cases "first_free 0 (s_task_contexts p)")
  case None
  then have "\<forall>c \<in> set (s_task_contexts p). px_in_use c" using first_free_None by blast
  then show ?thesis using None by (simp add: posix_create_hook_def)
next
  case (Some i)
  note f = first_free_Some [OF Some]
  have i: "i < SERTOS_CONFIG_MAX_TASKS" using f len by simp
  have "\<not> (\<forall>c \<in> set (s_task_contexts p). px_in_use c)" using f nth_mem by fastforce
  moreover have "ctx_of ctx_addr (ctx_addr i) = Some i" using nz [OF i] find_index [OF inj i] by (simp add: ctx_of_def)
  ultimately show ?thesis
    using f assms(4) i len by (auto simp: posix_create_hook_def posix_delete_hook_def posix_cancel_join_def Some upd_ctx_def Let_def posix_ctx_fields intro!: exI [of _ i])
qed

theorem posix_context_roundtrip_witness:
  "\<exists>p1. posix_create_hook (\<lambda>i. of_nat (i + 1)) True 0x300 NULL
      (demo_posix\<lparr>s_task_contexts := replicate 32 \<lparr>px_signaled = False, px_tcb = 0, px_in_use = False, px_waiting = False\<rparr>\<rparr>) = (1, p1)"
proof -
  let ?c = "\<lparr>px_signaled = False, px_tcb = 0, px_in_use = False, px_waiting = False\<rparr>"
  let ?p = "demo_posix\<lparr>s_task_contexts := replicate 32 ?c\<rparr>"
  have small: "unat (of_nat (i + 1) :: addr) = i + 1" if "i < 32" for i
    using that by (subst unat_of_nat) simp
  have inj: "inj_on (\<lambda>i. of_nat (i + 1) :: addr) {..<SERTOS_CONFIG_MAX_TASKS}"
  proof (rule inj_onI)
    fix x y assume h: "x \<in> {..<SERTOS_CONFIG_MAX_TASKS}" "y \<in> {..<SERTOS_CONFIG_MAX_TASKS}" "(of_nat (x + 1) :: addr) = of_nat (y + 1)"
    then have xy: "x < 32" "y < 32" by (simp_all add: SERTOS_CONFIG_MAX_TASKS_def)
    have "x + 1 = y + 1" using arg_cong [OF h(3), of unat] unfolding small [OF xy(1)] small [OF xy(2)] .
    then show "x = y" by simp
  qed
  have nz: "(of_nat (i + 1) :: addr) \<noteq> NULL" if "i < SERTOS_CONFIG_MAX_TASKS" for i
  proof
    assume "(of_nat (i + 1) :: addr) = NULL"
    then have "unat (of_nat (i + 1) :: addr) = 0" by (simp only: unat_0)
    moreover have "i < 32" using that by (simp add: SERTOS_CONFIG_MAX_TASKS_def)
    ultimately show False using small [of i] by linarith
  qed
  have len: "length (s_task_contexts ?p) = SERTOS_CONFIG_MAX_TASKS" by (simp add: SERTOS_CONFIG_MAX_TASKS_def)
  have free: "\<not> (\<forall>c \<in> set (s_task_contexts ?p). px_in_use c)" by simp
  have t: "(0x300 :: addr) \<noteq> NULL" by simp
  from posix_context_roundtrip [OF inj nz len t, of True NULL, unfolded if_not_P [OF free]]
  obtain i p1 where h: "posix_create_hook (\<lambda>i. of_nat (i + 1)) True 0x300 NULL ?p = (of_nat (i + 1), p1)"
    "i < SERTOS_CONFIG_MAX_TASKS" "\<forall>j < i. px_in_use (s_task_contexts ?p ! j)" by blast
  have "i = 0"
  proof (rule ccontr)
    assume "i \<noteq> 0"
    then have "px_in_use (s_task_contexts ?p ! 0)" using h(3) by blast
    then show False by simp
  qed
  then show ?thesis using h(1) by auto
qed

section \<open>Steps of the Windows port\<close>

definition live_wctx :: "nat option \<Rightarrow> win_port \<Rightarrow> bool" where
  "live_wctx x p \<longleftrightarrow> (case x of None \<Rightarrow> True | Some j \<Rightarrow> j < length (w_task_contexts p) \<and> wx_in_use (w_task_contexts p ! j))"

inductive win_step :: "(nat \<Rightarrow> addr) \<Rightarrow> win_port \<Rightarrow> win_port \<Rightarrow> bool" for ctx_addr where
  win_yields: "live_wctx x p \<Longrightarrow> win_step ctx_addr p (win_yield is_tick a x p)"
| win_wakes: "k < length (w_task_contexts p) \<Longrightarrow> win_may_wake k p \<Longrightarrow> win_step ctx_addr p (win_wake k p)"
| win_creates: "win_step ctx_addr p (snd (win_create_hook ctx_addr event thr tcb ctx p))"
| win_deletes: "win_step ctx_addr p (snd (win_delete_hook ctx_addr tcb ctx p))"

inductive win_run :: "(nat \<Rightarrow> addr) \<Rightarrow> win_port \<Rightarrow> win_port \<Rightarrow> bool" for ctx_addr where
  win_refl: "win_run ctx_addr p p"
| win_next: "win_run ctx_addr p q \<Longrightarrow> win_step ctx_addr q r \<Longrightarrow> win_run ctx_addr p r"

text \<open>The thread of a context is suspended at least once more than the tick thread has suspended it.\<close>

definition starved :: "win_ctx \<Rightarrow> bool" where
  "starved c \<longleftrightarrow> (wx_in_use c \<longrightarrow> (if wx_is_suspended_by_tick c then 2 else 1) \<le> wx_suspend_count c)"

lemma upd_wctx_simps [simp]:
  "length (w_task_contexts (upd_wctx i f p)) = length (w_task_contexts p)"
  "j < length (w_task_contexts p) \<Longrightarrow>
   w_task_contexts (upd_wctx i f p) ! j = (if i = j then f (w_task_contexts p ! i) else w_task_contexts p ! j)"
  by (auto simp: upd_wctx_def nth_list_update)

lemma dispatch_starved:
  assumes "i < length (w_task_contexts p)" and "starved (w_task_contexts p ! i)"
  shows "starved (w_task_contexts (win_dispatch j p) ! i)" "length (w_task_contexts (win_dispatch j p)) = length (w_task_contexts p)"
  using assms by (auto simp: win_dispatch_def ResumeThread_def SetEvent_def starved_def)

lemma preempt_starved:
  assumes "i < length (w_task_contexts p)" and "starved (w_task_contexts p ! i)"
  shows "starved (w_task_contexts (upd_wctx k (\<lambda>c. c\<lparr>wx_is_suspended_by_tick := True\<rparr>) (SuspendThread k p)) ! i)"
  using assms by (auto simp: SuspendThread_def starved_def split: if_splits)

definition kept_starved :: "nat \<Rightarrow> win_port \<Rightarrow> bool" where
  "kept_starved i p \<longleftrightarrow> i < length (w_task_contexts p) \<and> starved (w_task_contexts p ! i)"

lemma kept_starved_intros:
  "kept_starved i p \<Longrightarrow> kept_starved i (win_dispatch j p)"
  "kept_starved i p \<Longrightarrow> kept_starved i (upd_wctx k (\<lambda>c. c\<lparr>wx_is_suspended_by_tick := True\<rparr>) (SuspendThread k p))"
  "kept_starved i p \<Longrightarrow> kept_starved i (upd_wctx k (\<lambda>c. c\<lparr>wx_waiting := b\<rparr>) p)"
  "kept_starved i p \<Longrightarrow> kept_starved i (p\<lparr>w_running_ctx := x\<rparr>)"
  "kept_starved i p \<Longrightarrow> kept_starved i (init_cs p)"
  using dispatch_starved preempt_starved
  by (auto simp: kept_starved_def SuspendThread_def init_cs_def) (auto simp: starved_def)

lemma step_starved:
  assumes "win_step ctx_addr p q" and "kept_starved i p" shows "kept_starved i q"
  using assms(1)
proof (cases rule: win_step.cases)
  case (win_yields x is_tick a)
  then show ?thesis using assms(2)
    by (auto simp: win_yield_def Let_def intro!: kept_starved_intros split: option.splits)
next
  case (win_wakes k)
  then show ?thesis using assms(2) by (auto simp: kept_starved_def win_wake_def starved_def)
next
  case (win_creates event thr tcb ctx)
  then show ?thesis using assms(2)
    by (auto simp: kept_starved_def win_create_hook_def starved_def split: option.splits)
next
  case (win_deletes tcb ctx)
  then show ?thesis using assms(2)
    by (auto simp: kept_starved_def win_delete_hook_def starved_def split: option.splits)
qed

lemma run_starved: "win_run ctx_addr p q \<Longrightarrow> kept_starved i p \<Longrightarrow> kept_starved i q"
  by (induction rule: win_run.induct) (auto intro: step_starved)

text \<open>Threads are created suspended and resumed only when the scheduler starts. A task whose context was free at
  that moment, one created later, never executes, whatever the kernel selects and however often.\<close>

theorem windows_late_task_starves:
  assumes "win_run ctx_addr (p\<lparr>w_task_contexts := resume_all (w_task_contexts p)\<rparr>) q"
    and "i < length (w_task_contexts p)" and "\<not> wx_in_use (w_task_contexts p ! i)"
  shows "\<not> win_executes (w_task_contexts q ! i) \<and> \<not> (wx_in_use (w_task_contexts q ! i) \<and> win_may_wake i q)"
proof -
  have "kept_starved i (p\<lparr>w_task_contexts := resume_all (w_task_contexts p)\<rparr>)"
    using assms(2,3) by (simp add: kept_starved_def resume_all_def starved_def)
  from run_starved [OF assms(1) this] show ?thesis
    by (auto simp: kept_starved_def starved_def win_executes_def win_may_wake_def Let_def split: if_splits)
qed

definition demo_win :: win_port where
  "demo_win = \<lparr>w_task_contexts = [\<lparr>wx_has_thread = False, wx_has_event = False, wx_event = False,
       wx_suspend_count = 0, wx_waiting = False, wx_tcb = 0, wx_is_suspended_by_tick = False, wx_in_use = False\<rparr>],
     s_cs_initialized = True, cs_depth = 0, w_exit_event = Some False, w_tick_thread = True, w_scheduler_running = True,
     w_running_ctx = None\<rparr>"

theorem windows_late_task_starves_witness:
  "\<exists>q. win_run of_nat demo_win q \<and> wx_in_use (w_task_contexts q ! 0) \<and> w_running_ctx q = Some 0 \<and>
     \<not> win_executes (w_task_contexts q ! 0)"
proof -
  let ?p = "snd (win_create_hook of_nat True True 0x100 0 demo_win)"
  let ?q = "win_yield True 0x100 (Some 0) ?p"
  have d: "demo_win\<lparr>w_task_contexts := resume_all (w_task_contexts demo_win)\<rparr> = demo_win"
    by (simp add: demo_win_def resume_all_def)
  have p: "wx_in_use (w_task_contexts ?p ! 0)" "0 < length (w_task_contexts ?p)" "w_scheduler_running ?p" "w_running_ctx ?p = None"
    by (simp_all add: win_create_hook_def demo_win_def upd_wctx_def)
  have "win_run of_nat demo_win ?p" by (rule win_next [OF win_refl win_creates])
  then have run: "win_run of_nat demo_win ?q"
    by (rule win_next [OF _ win_yields]) (use p in \<open>simp add: live_wctx_def\<close>)
  moreover have "\<not> win_executes (w_task_contexts ?q ! 0)"
    using windows_late_task_starves [of of_nat demo_win ?q 0] run unfolding d by (simp add: demo_win_def)
  moreover have "wx_in_use (w_task_contexts ?q ! 0)" "w_running_ctx ?q = Some 0"
    using p by (simp_all add: win_yield_def init_cs_def win_dispatch_def ResumeThread_def SetEvent_def Let_def upd_wctx_def)
  ultimately show ?thesis by blast
qed

end
