(* ===== verification/Sertos_System.thy ===== *)
theory Sertos_System
  imports Sertos_Task Sertos_Stream
begin

text \<open>
  The invariant of the whole kernel and the calls that keep it. A call is run to its end on a port whose
  \<open>sertos_port_yield\<close> only requests the switch, as the Cortex-M ports do; the switch itself
  (\<open>sertos_scheduler_perform_switch\<close>, called by the PendSV handler) is a call of its own. The invariant adds
  to \<open>kinv\<close> that every task is where its state says, that wait lists are sorted, that semaphores are consistent and that
  tasks wait only for objects that exist.
  For every call it is shown that it returns, keeps the invariant and changes the states of tasks only in the
  ways the transition table of the code allows.
\<close>

section \<open>The invariant of the system\<close>

definition valid_task :: "(addr \<Rightarrow> tcb) \<Rightarrow> addr \<Rightarrow> bool" where
  "valid_task T a \<longleftrightarrow> a \<noteq> NULL \<and> tcb_magic (T a) = SERTOS_TASK_MAGIC_WORD"

definition linked :: "lmap \<Rightarrow> addr \<Rightarrow> bool" where
  "linked L a \<longleftrightarrow> (\<exists>l. on_list L l (StateNode a) \<or> on_list L l (EventNode a) \<or> on_list L l (RegistryNode a))"

text \<open>Where a task is linked, by its state. Every task that is not terminated is registered.\<close>

definition placed :: "(addr \<Rightarrow> tcb) \<Rightarrow> addr \<Rightarrow> lmap \<Rightarrow> addr \<Rightarrow> bool" where
  "placed T cur L a \<longleftrightarrow> unat (tcb_priority (T a)) < SERTOS_CONFIG_MAX_PRIORITIES \<and>
     (tcb_state (T a) \<noteq> SERTOS_TASK_STATE_TERMINATED \<longrightarrow> on_list L TaskRegistry (RegistryNode a)) \<and>
     (case tcb_state (T a) of
        SERTOS_TASK_STATE_READY \<Rightarrow> on_list L (ReadyQ (unat (tcb_priority (T a)))) (StateNode a)
      | SERTOS_TASK_STATE_RUNNING \<Rightarrow> a = cur \<and> on_list L (ReadyQ (unat (tcb_priority (T a)))) (StateNode a)
      | SERTOS_TASK_STATE_BLOCKED \<Rightarrow> on_list L DelayList (StateNode a) \<or> (\<exists>wl. on_list L wl (EventNode a))
      | SERTOS_TASK_STATE_SUSPENDED \<Rightarrow> (\<forall>l. \<not> on_list L l (StateNode a)) \<and> tcb_wait_list (T a) = None
      | SERTOS_TASK_STATE_TERMINATED \<Rightarrow> \<not> linked L a)"

definition tasks_ok :: "(addr \<Rightarrow> tcb) \<Rightarrow> addr \<Rightarrow> lmap \<Rightarrow> bool" where
  "tasks_ok T cur L \<longleftrightarrow> (\<forall>a. linked L a \<longrightarrow> valid_task T a) \<and> (\<forall>a. valid_task T a \<longrightarrow> placed T cur L a) \<and>
     (cur \<noteq> NULL \<longrightarrow> valid_task T cur)"

definition sems_ok :: "('b, 'r, 'm, 'p) kstate \<Rightarrow> lmap \<Rightarrow> bool" where
  "sems_ok s L \<longleftrightarrow> (\<forall>h. sem_handle_ok h s \<longrightarrow> sem_inv h s L) \<and> (\<forall>h n. on_list L (SemWait h) n \<longrightarrow> sem_handle_ok h s)"

text \<open>The wait lists of queues and stream buffers exist as long as their owner does, and tasks wait on no others.\<close>

fun buffer_list :: "lst \<Rightarrow> bool" where
  "buffer_list (QueueSend a) = True"
| "buffer_list (QueueRecv a) = True"
| "buffer_list (StreamSend a) = True"
| "buffer_list (StreamRecv a) = True"
| "buffer_list _ = False"

fun owner_ok :: "lst \<Rightarrow> ('b, 'r, 'm, 'p) kstate \<Rightarrow> bool" where
  "owner_ok (QueueSend h) s = queue_handle_ok h s"
| "owner_ok (QueueRecv h) s = queue_handle_ok h s"
| "owner_ok (StreamSend h) s = is_valid_handle h s"
| "owner_ok (StreamRecv h) s = is_valid_handle h s"
| "owner_ok _ s = False"

definition bufs_ok :: "('b, 'r, 'm, 'p) kstate \<Rightarrow> lmap \<Rightarrow> bool" where
  "bufs_ok s L \<longleftrightarrow> (\<forall>wl. buffer_list wl \<longrightarrow> (owner_ok wl s \<longrightarrow> L wl \<noteq> None) \<and> (\<forall>n. on_list L wl n \<longrightarrow> owner_ok wl s))"

definition sys_inv :: "('b \<Rightarrow> nat set) \<Rightarrow> ('b, 'r, 'm, 'p) kstate \<Rightarrow> lmap \<Rightarrow> bool" where
  "sys_inv bits s L \<longleftrightarrow> kinv bits s L \<and> waits_sorted (tcbs s) L \<and> tasks_ok (tcbs s) (sertos_current_tcb s) L \<and>
     sems_ok s L \<and> bufs_ok s L"

text \<open>A task that is delayed and waits for nothing else, and what other calls do to it: nothing.\<close>

definition asleep :: "(addr \<Rightarrow> tcb) \<Rightarrow> addr \<Rightarrow> bool" where
  "asleep T a \<longleftrightarrow> valid_task T a \<and> tcb_state (T a) = SERTOS_TASK_STATE_BLOCKED \<and> tcb_wait_list (T a) = None"

definition sleeps_on :: "(addr \<Rightarrow> tcb) \<Rightarrow> (addr \<Rightarrow> tcb) \<Rightarrow> bool" where
  "sleeps_on T T' \<longleftrightarrow> (\<forall>a. asleep T a \<longrightarrow> asleep T' a \<and> tcb_delay_ticks (T' a) = tcb_delay_ticks (T a))"

text \<open>What a call that does not concern timers establishes: the invariant, the timers as they were, and no delayed task
  disturbed.\<close>

definition step_ok ::
  "('b \<Rightarrow> nat set) \<Rightarrow> ('b, 'r, 'm, 'p) kstate \<Rightarrow> lmap \<Rightarrow> ('b, 'r, 'm, 'p) kstate \<Rightarrow> lmap \<Rightarrow> bool" where
  "step_ok bits s L s' L' \<longleftrightarrow> sys_inv bits s' L' \<and> timers s' = timers s \<and>
     s_timer_subsystem_initialized s' = s_timer_subsystem_initialized s \<and> L' ActiveTimers = L ActiveTimers \<and>
     sleeps_on (tcbs s) (tcbs s')"

text \<open>How the states of tasks change: along the transition table, or, in interrupt handlers, only from BLOCKED to READY.\<close>

definition follows :: "(addr \<Rightarrow> tcb) \<Rightarrow> (addr \<Rightarrow> tcb) \<Rightarrow> bool" where
  "follows T T' \<longleftrightarrow> (\<forall>a. valid_task T a \<longrightarrow> tcb_state (T a) \<noteq> SERTOS_TASK_STATE_TERMINATED \<longrightarrow>
     tcb_state (T' a) = tcb_state (T a) \<or> sertos_task_is_valid_transition (tcb_state (T a)) (tcb_state (T' a)))"

definition only_wakes :: "(addr \<Rightarrow> tcb) \<Rightarrow> (addr \<Rightarrow> tcb) \<Rightarrow> bool" where
  "only_wakes T T' \<longleftrightarrow> (\<forall>a. valid_task T a \<longrightarrow> valid_task T' a \<and> (tcb_state (T' a) = tcb_state (T a) \<or>
     tcb_state (T a) = SERTOS_TASK_STATE_BLOCKED \<and> tcb_state (T' a) = SERTOS_TASK_STATE_READY))"

text \<open>The running task has not just parked itself (the switch that follows is still to come).\<close>

definition current_runs :: "('b, 'r, 'm, 'p) kstate \<Rightarrow> bool" where
  "current_runs s \<longleftrightarrow> sertos_current_tcb s = NULL \<or>
     tcb_state (tcbs s (sertos_current_tcb s)) \<in> {SERTOS_TASK_STATE_READY, SERTOS_TASK_STATE_RUNNING}"

definition current_running :: "('b, 'r, 'm, 'p) kstate \<Rightarrow> bool" where
  "current_running s \<longleftrightarrow> sertos_current_tcb s = NULL \<or> tcb_state (tcbs s (sertos_current_tcb s)) = SERTOS_TASK_STATE_RUNNING"

definition pending_port :: "('b, 'r, 'm, 'p) env \<Rightarrow> bool" where
  "pending_port E \<longleftrightarrow> \<not> port_is_host E \<and> (\<forall>s. \<exists>p. sertos_port_yield E s = Some (s\<lparr>port := p\<rparr>)) \<and>
     (\<forall>s. \<exists>p. sertos_port_start_first_task E s = Some (s\<lparr>port := p\<rparr>))"

lemma sleeps_on_refl [simp]: "sleeps_on T T"
  by (simp add: sleeps_on_def)

lemma sleeps_on_trans: "sleeps_on T T' \<Longrightarrow> sleeps_on T' T'' \<Longrightarrow> sleeps_on T T''"
  by (simp add: sleeps_on_def)

lemma sleeps_on_others: "(\<And>a. a \<noteq> t \<Longrightarrow> T' a = T a) \<Longrightarrow> \<not> asleep T t \<Longrightarrow> sleeps_on T T'"
  unfolding sleeps_on_def asleep_def valid_task_def by metis

lemma step_ok_refl: "sys_inv bits s L \<Longrightarrow> step_ok bits s L s L"
  by (simp add: step_ok_def)

lemma step_ok_trans: "step_ok bits s L s' L' \<Longrightarrow> step_ok bits s' L' s'' L'' \<Longrightarrow> step_ok bits s L s'' L''"
  using sleeps_on_trans by (auto simp: step_ok_def)

lemma step_ok_inv: "step_ok bits s L s' L' \<Longrightarrow> sys_inv bits s' L'"
  by (simp add: step_ok_def)

lemma only_wakes_refl [simp]: "only_wakes T T"
  by (simp add: only_wakes_def)

lemma only_wakes_trans: "only_wakes T T' \<Longrightarrow> only_wakes T' T'' \<Longrightarrow> only_wakes T T''"
  unfolding only_wakes_def by (metis SertosTaskState.distinct(3))

lemma transitions_allowed [simp]:
  "sertos_task_is_valid_transition SERTOS_TASK_STATE_READY SERTOS_TASK_STATE_RUNNING"
  "sertos_task_is_valid_transition SERTOS_TASK_STATE_RUNNING SERTOS_TASK_STATE_READY"
  "sertos_task_is_valid_transition SERTOS_TASK_STATE_RUNNING SERTOS_TASK_STATE_BLOCKED"
  "sertos_task_is_valid_transition SERTOS_TASK_STATE_BLOCKED SERTOS_TASK_STATE_READY"
  "sertos_task_is_valid_transition SERTOS_TASK_STATE_READY SERTOS_TASK_STATE_SUSPENDED"
  "sertos_task_is_valid_transition SERTOS_TASK_STATE_SUSPENDED SERTOS_TASK_STATE_READY"
  "sertos_task_is_valid_transition SERTOS_TASK_STATE_READY SERTOS_TASK_STATE_TERMINATED"
  "sertos_task_is_valid_transition SERTOS_TASK_STATE_SUSPENDED SERTOS_TASK_STATE_TERMINATED"
  by (simp_all add: sertos_task_is_valid_transition_def s_task_transitions_def)

lemma only_wakes_follows: "only_wakes T T' \<Longrightarrow> follows T T'"
  unfolding only_wakes_def follows_def by (metis transitions_allowed(4))

lemma follows_refl [simp]: "follows T T"
  by (simp add: follows_def)

lemma follows_one:
  assumes "\<And>a. a \<noteq> t \<Longrightarrow> tcb_state (T' a) = tcb_state (T a)"
    and "tcb_state (T' t) = tcb_state (T t) \<or> sertos_task_is_valid_transition (tcb_state (T t)) (tcb_state (T' t))"
  shows "follows T T'"
  using assms unfolding follows_def by metis

section \<open>One task moves\<close>

text \<open>The lists differ only in the nodes of task \<open>t\<close>.\<close>

definition others_same :: "addr \<Rightarrow> lmap \<Rightarrow> lmap \<Rightarrow> bool" where
  "others_same t L L' \<longleftrightarrow> (\<forall>k n. n \<notin> {StateNode t, EventNode t, RegistryNode t} \<longrightarrow> on_list L' k n = on_list L k n)"

lemma others_same_on:
  assumes "others_same t L L'" and "a \<noteq> t"
  shows "on_list L' k (StateNode a) = on_list L k (StateNode a)" "on_list L' k (EventNode a) = on_list L k (EventNode a)"
    "on_list L' k (RegistryNode a) = on_list L k (RegistryNode a)"
  using assms unfolding others_same_def by auto

lemma others_same_trans: "others_same t L L' \<Longrightarrow> others_same t L' L'' \<Longrightarrow> others_same t L L''"
  by (simp add: others_same_def)

lemma others_same_upd:
  assumes "\<And>ns. L l = Some ns \<Longrightarrow> L' l \<noteq> None \<and> (\<forall>n. n \<notin> {StateNode t, EventNode t, RegistryNode t} \<longrightarrow> (n \<in> set (the (L' l))) = (n \<in> set ns))"
    and "\<And>k. k \<noteq> l \<Longrightarrow> L' k = L k" and "L l = None \<Longrightarrow> L' l = None"
  shows "others_same t L L'"
  unfolding others_same_def
proof (intro allI impI)
  fix k n assume "n \<notin> {StateNode t, EventNode t, RegistryNode t}"
  then show "on_list L' k n = on_list L k n"
    using assms by (cases "k = l"; cases "L l") (auto simp: on_list_def split: option.splits)
qed

lemma others_same_map:
  assumes "\<And>ns n. n \<notin> {StateNode t, EventNode t, RegistryNode t} \<Longrightarrow> (n \<in> set (f ns)) = (n \<in> set ns)"
  shows "others_same t L (L(l := map_option f (L l)))"
  by (rule others_same_upd [of _ l]) (use assms in auto)

lemma in_set_remove1_other: "n \<noteq> m \<Longrightarrow> (n \<in> set (remove1 m ns)) = (n \<in> set ns)"
  by (induction ns) auto

lemma tasks_ok_move:
  assumes ok: "tasks_ok T cur L" and T: "\<And>a. a \<noteq> t \<Longrightarrow> T' a = T a" and L: "others_same t L L'"
    and t: "valid_task T' t" "placed T' cur L' t"
  shows "tasks_ok T' cur L'"
proof -
  note same = others_same_on [OF L]
  have "valid_task T' a" if "linked L' a" for a
  proof (cases "a = t")
    case False
    then have "linked L a" using that by (simp add: linked_def same)
    then show ?thesis using ok T [OF False] by (simp add: tasks_ok_def valid_task_def)
  qed (use t in simp)
  moreover have "placed T' cur L' a" if "valid_task T' a" for a
  proof (cases "a = t")
    case False
    then have "placed T cur L a" using that ok T [OF False] by (simp add: tasks_ok_def valid_task_def)
    then show ?thesis unfolding placed_def linked_def same [OF False] T [OF False] .
  qed (use t in simp)
  moreover have "valid_task T' cur" if "cur \<noteq> NULL"
    using that t ok T [of cur] by (cases "cur = t") (auto simp: tasks_ok_def valid_task_def)
  ultimately show ?thesis by (simp add: tasks_ok_def)
qed

lemma sems_ok_mono:
  assumes "sems_ok s L" and "sems s' = sems s"
    and "\<And>h. sem_handle_ok h s \<Longrightarrow> L (SemWait h) \<noteq> None \<Longrightarrow> L' (SemWait h) \<noteq> None \<and>
      (L' (SemWait h) = Some [] \<or> L (SemWait h) \<noteq> Some [] \<or> sem_count (sems s h) = 0)"
    and "\<And>h n. on_list L' (SemWait h) n \<Longrightarrow> on_list L (SemWait h) n \<or> sem_handle_ok h s"
  shows "sems_ok s' L'"
proof -
  have ok: "sem_handle_ok h s' = sem_handle_ok h s" for h using assms(2) by (simp add: sem_handle_ok_def)
  have "sem_inv h s' L'" if "sem_handle_ok h s" for h
    using that assms(1) assms(3) [OF that] by (auto simp: sems_ok_def sem_inv_def assms(2))
  then show ?thesis using assms(1,4) unfolding sems_ok_def ok by blast
qed

lemma buffer_list_wait [simp]: "buffer_list wl \<Longrightarrow> is_wait_list wl"
  by (cases wl) auto

lemma owner_ok_cong: "queues s' = queues s \<Longrightarrow> streams s' = streams s \<Longrightarrow> owner_ok wl s' = owner_ok wl s"
  by (cases wl) (simp_all add: queue_handle_ok_def is_valid_handle_def)

lemma bufs_ok_mono:
  assumes "bufs_ok s L" and "queues s' = queues s" and "streams s' = streams s"
    and "\<And>wl. buffer_list wl \<Longrightarrow> L wl \<noteq> None \<Longrightarrow> L' wl \<noteq> None"
    and "\<And>wl n. buffer_list wl \<Longrightarrow> on_list L' wl n \<Longrightarrow> on_list L wl n \<or> owner_ok wl s"
  shows "bufs_ok s' L'"
  using assms unfolding bufs_ok_def owner_ok_cong [OF assms(2,3)] by meson

lemma bufs_ok_same: "bufs_ok s L \<Longrightarrow> queues s' = queues s \<Longrightarrow> streams s' = streams s \<Longrightarrow> bufs_ok s' L"
  by (rule bufs_ok_mono [of s L]) auto

lemma others_blocked: "others_same c L (blocked_lists T c p wl timed L)"
proof -
  let ?L1 = "L(ReadyQ p := map_option (remove1 (StateNode c)) (L (ReadyQ p)))"
  let ?L2 = "case wl of None \<Rightarrow> ?L1 | Some w \<Rightarrow> ?L1(w := map_option (insert_by_priority T c) (?L1 w))"
  have "others_same c L ?L1" by (rule others_same_map) (simp add: in_set_remove1_other)
  moreover have "others_same c ?L1 (?L1(w := map_option (insert_by_priority T c) (?L1 w)))" for w
    by (rule others_same_map) simp
  then have "others_same c ?L1 ?L2" by (cases wl) (simp_all add: others_same_def)
  moreover have "others_same c ?L2 (?L2(DelayList := map_option (\<lambda>ds. ds @ [StateNode c]) (?L2 DelayList)))"
    by (rule others_same_map) simp
  then have "others_same c ?L2 (blocked_lists T c p wl timed L)"
    unfolding blocked_lists_def Let_def by (cases timed) (simp_all add: others_same_def)
  ultimately show ?thesis using others_same_trans by blast
qed

lemma others_wake: "L (ReadyQ p) \<noteq> None \<Longrightarrow> others_same a L (wake_lists a p L)"
proof -
  assume "L (ReadyQ p) \<noteq> None"
  then obtain ns where ns: "L (ReadyQ p) = Some ns" by auto
  have "on_list (wake_lists a p L) k n = on_list L k n" if "n \<notin> {StateNode a, EventNode a, RegistryNode a}" for k n
    using that ns
    by (cases "L k") (auto simp: on_list_def wake_lists_def detach_lists_def in_set_remove1_other)
  then show ?thesis by (simp add: others_same_def)
qed

lemma others_requeue: "others_same a L (requeue_lists a q p L)"
proof -
  let ?L1 = "L(ReadyQ q := map_option (remove1 (StateNode a)) (L (ReadyQ q)))"
  have "others_same a L ?L1" by (rule others_same_map) (simp add: in_set_remove1_other)
  moreover have "others_same a ?L1 (?L1(ReadyQ p := map_option (\<lambda>ns. ns @ [StateNode a]) (?L1 (ReadyQ p))))"
    by (rule others_same_map) simp
  ultimately show ?thesis unfolding requeue_lists_def Let_def by (rule others_same_trans)
qed

section \<open>Requests to the port\<close>

lemma sys_inv_request [simp]:
  "sys_inv bits (s\<lparr>port := p\<rparr>) L = sys_inv bits s L" "sys_inv bits (s\<lparr>s_reschedule_pending := r\<rparr>) L = sys_inv bits s L"
  "sys_inv bits (exit_critical E c s) L = sys_inv bits s L" "sys_inv bits (s\<lparr>ptr_cells := pc\<rparr>) L = sys_inv bits s L"
  "sys_inv bits (set_flag out v s) L = sys_inv bits s L" "sys_inv bits (s\<lparr>s_is_running := b\<rparr>) L = sys_inv bits s L"
  "sys_inv bits (s\<lparr>s_lock_nesting := n\<rparr>) L = sys_inv bits s L" "sys_inv bits (s\<lparr>pool := pl\<rparr>) L = sys_inv bits s L"
  by (simp_all add: sys_inv_def sems_ok_def sem_handle_ok_def sem_inv_def exit_critical_def set_flag_def bufs_ok_def
      owner_ok_cong [of "s\<lparr>port := p\<rparr>" s for p] owner_ok_cong [of "s\<lparr>s_reschedule_pending := r\<rparr>" s for r]
      owner_ok_cong [of "s\<lparr>ptr_cells := pc\<rparr>" s for pc] owner_ok_cong [of "s\<lparr>bool_cells := pc\<rparr>" s for pc]
      owner_ok_cong [of "s\<lparr>s_is_running := b\<rparr>" s for b] owner_ok_cong [of "s\<lparr>s_lock_nesting := n\<rparr>" s for n]
      owner_ok_cong [of "s\<lparr>pool := pl\<rparr>" s for pl])

lemma set_flag_timers [simp]:
  "timers (set_flag out v s) = timers s" "tcbs (set_flag out v s) = tcbs s" "s_timer_subsystem_initialized (set_flag out v s) = s_timer_subsystem_initialized s"
  by (simp_all add: set_flag_def)

lemma step_ok_request [simp]:
  "step_ok bits s L (s'\<lparr>port := p\<rparr>) L' = step_ok bits s L s' L'"
  "step_ok bits s L (s'\<lparr>s_reschedule_pending := r\<rparr>) L' = step_ok bits s L s' L'"
  "step_ok bits s L (exit_critical E c s') L' = step_ok bits s L s' L'"
  "step_ok bits s L (set_flag out v s') L' = step_ok bits s L s' L'"
  "step_ok bits s L (s'\<lparr>s_is_running := b\<rparr>) L' = step_ok bits s L s' L'"
  "step_ok bits s L (s'\<lparr>s_lock_nesting := n\<rparr>) L' = step_ok bits s L s' L'"
  "step_ok bits s L (s'\<lparr>ptr_cells := pc\<rparr>) L' = step_ok bits s L s' L'"
  "step_ok bits s L (s'\<lparr>pool := pl\<rparr>) L' = step_ok bits s L s' L'"
  "step_ok bits (s\<lparr>port := p\<rparr>) L s' L' = step_ok bits s L s' L'"
  "step_ok bits (exit_critical E c s) L s' L' = step_ok bits s L s' L'"
  "step_ok bits (set_flag out v s) L s' L' = step_ok bits s L s' L'"
  by (simp_all add: step_ok_def)

lemma placed_valid: "sys_inv bits s L \<Longrightarrow> valid_task (tcbs s) a \<Longrightarrow> placed (tcbs s) (sertos_current_tcb s) L a"
  by (simp add: sys_inv_def tasks_ok_def)

lemma registered:
  "sys_inv bits s L \<Longrightarrow> valid_task (tcbs s) a \<Longrightarrow> tcb_state (tcbs s a) \<noteq> SERTOS_TASK_STATE_TERMINATED \<Longrightarrow>
   on_list L TaskRegistry (RegistryNode a)"
  using placed_valid [of bits s L a] by (simp add: placed_def)

lemma linked_valid: "sys_inv bits s L \<Longrightarrow> on_list L l (StateNode a) \<or> on_list L l (EventNode a) \<Longrightarrow> valid_task (tcbs s) a"
  by (auto simp: sys_inv_def tasks_ok_def linked_def)

lemma placed_ready:
  assumes "sys_inv bits s L" and "valid_task (tcbs s) a"
    and "tcb_state (tcbs s a) \<in> {SERTOS_TASK_STATE_READY, SERTOS_TASK_STATE_RUNNING}"
  shows "on_list L (ReadyQ (unat (tcb_priority (tcbs s a)))) (StateNode a)"
  using placed_valid [OF assms(1,2)] assms(3) by (auto simp: placed_def)

text \<open>A task in a ready queue is READY or RUNNING, and one that waits or is delayed is BLOCKED.\<close>

lemma ready_state:
  assumes inv: "sys_inv bits s L" and on: "on_list L (ReadyQ p) (StateNode a)"
  shows "tcb_state (tcbs s a) \<in> {SERTOS_TASK_STATE_READY, SERTOS_TASK_STATE_RUNNING}"
proof -
  have k: "kinv bits s L" using inv by (simp add: sys_inv_def)
  have pl: "placed (tcbs s) (sertos_current_tcb s) L a" using placed_valid [OF inv] linked_valid [OF inv] on by blast
  have "\<not> on_list L DelayList (StateNode a)" using kinv_unique [OF k on] by blast
  then show ?thesis using pl kinv_wait_not_ready [OF k, of _ a p] on
    by (auto simp: placed_def linked_def split: SertosTaskState.splits)
qed

lemma waiting_state:
  assumes inv: "sys_inv bits s L" and on: "on_list L DelayList (StateNode a) \<or> on_list L wl (EventNode a)"
  shows "tcb_state (tcbs s a) = SERTOS_TASK_STATE_BLOCKED"
proof -
  have k: "kinv bits s L" using inv by (simp add: sys_inv_def)
  have pl: "placed (tcbs s) (sertos_current_tcb s) L a" using placed_valid [OF inv] linked_valid [OF inv] on by blast
  have "\<not> on_list L (ReadyQ p) (StateNode a)" for p
    using on kinv_unique [OF k, of DelayList "StateNode a" "ReadyQ p"] kinv_wait_not_ready [OF k, of wl a p] by auto
  moreover have "tcb_wait_list (tcbs s a) \<noteq> None" if "on_list L wl (EventNode a)" using kinv_wait [OF k that] by simp
  ultimately show ?thesis using pl on by (auto simp: placed_def linked_def split: SertosTaskState.splits)
qed

lemma runs_current_ok: "sys_inv bits s L \<Longrightarrow> current_runs s \<Longrightarrow> current_ok s L"
  using placed_ready [of bits s L "sertos_current_tcb s"]
  by (auto simp: current_ok_def current_runs_def sys_inv_def tasks_ok_def)

context kernel_env
begin

text \<open>On a port that only requests the switch, a switch of contexts changes nothing but the port and the pending flag.\<close>

lemma switch_context_effect:
  assumes "\<And>q. sertos_scheduler_select_next_task E (s\<lparr>port := q\<rparr>) \<noteq> None" and E: "pending_port E"
  obtains p r where "sertos_scheduler_switch_context E s = Some (s\<lparr>port := p, s_reschedule_pending := r\<rparr>)"
proof (cases "0 < s_lock_nesting s")
  case True
  then show thesis using that [where p = "port s" and r = True] by (simp add: switch_context_locked)
next
  case False
  have y: "\<exists>p. sertos_port_yield E (s\<lparr>port := q\<rparr>) = Some (s\<lparr>port := p\<rparr>)" for q
  proof -
    obtain p where "sertos_port_yield E (s\<lparr>port := q\<rparr>) = Some ((s\<lparr>port := q\<rparr>)\<lparr>port := p\<rparr>)"
      using E unfolding pending_port_def by blast
    then show ?thesis by auto
  qed
  obtain t where "sertos_scheduler_select_next_task E (s\<lparr>port := snd (sertos_port_enter_critical E (port s))\<rparr>) = Some t"
    using assms(1) by blast
  then have "\<exists>p. sertos_scheduler_switch_context E s = Some (s\<lparr>port := p\<rparr>)"
    using False y E by (auto simp: sertos_scheduler_switch_context_def enter_critical_eq exit_critical_def pending_port_def)
  then obtain p where "sertos_scheduler_switch_context E s = Some (s\<lparr>port := p\<rparr>)" ..
  then show thesis using that [where p = p and r = "s_reschedule_pending s"] by simp
qed

lemma switch_context_requests:
  assumes inv: "sys_inv bits s L" and E: "pending_port E"
  obtains s' where "sertos_scheduler_switch_context E s = Some s'" and "step_ok bits s L s' L" and "tcbs s' = tcbs s"
proof -
  have "sertos_scheduler_select_next_task E (s\<lparr>port := q\<rparr>) \<noteq> None" for q
    using select_next_refines [of "s\<lparr>port := q\<rparr>" L] inv by (simp add: sys_inv_def)
  then obtain p r where "sertos_scheduler_switch_context E s = Some (s\<lparr>port := p, s_reschedule_pending := r\<rparr>)"
    by (rule switch_context_effect [of s, OF _ E])
  then show thesis by (rule that) (use step_ok_refl [OF inv] in simp_all)
qed

lemma reschedule_requests:
  assumes inv: "sys_inv bits s L" and E: "pending_port E"
  obtains s' where "reschedule_if_running E s = Some s'" and "step_ok bits s L s' L" and "tcbs s' = tcbs s"
proof -
  let ?s1 = "s\<lparr>port := snd (sertos_port_enter_critical E (port s))\<rparr>"
  let ?s2 = "exit_critical E (fst (sertos_port_enter_critical E (port s))) ?s1"
  have i1: "sys_inv bits ?s1 L" and i2: "sys_inv bits ?s2 L" using inv by simp_all
  have o2: "step_ok bits s L ?s2 L" using step_ok_refl [OF inv] by simp
  have "kinv bits ?s1 L" using i1 by (simp add: sys_inv_def)
  note sel = select_next_refines [OF this]
  obtain s3 where s3: "sertos_scheduler_switch_context E ?s2 = Some s3" "step_ok bits ?s2 L s3 L" "tcbs s3 = tcbs ?s2"
    using switch_context_requests [OF i2 E] .
  have "reschedule_if_running E s \<in> {Some s, Some ?s2, Some s3}"
    using sel s3(1)
    by (simp add: reschedule_if_running_def sertos_scheduler_is_running_def sertos_scheduler_reschedule_def enter_critical_eq)
  moreover have "step_ok bits s L s3 L" "tcbs s3 = tcbs s" "tcbs ?s2 = tcbs s" using s3(2,3) by simp_all
  ultimately show thesis using that step_ok_refl [OF inv] o2 by blast
qed

end

section \<open>Parking and waking\<close>

lemma call_frame_sched: "sched_frame s s' \<Longrightarrow> call_frame s s'"
proof -
  assume "sched_frame s s'"
  then have "s'\<lparr>list_heap := h, s_ready_bitmap := b, tcbs := t\<rparr> = s\<lparr>list_heap := h, s_ready_bitmap := b, tcbs := t\<rparr>" for h b t
    by (simp add: sched_frame_def)
  from arg_cong [OF this, of "port_update (\<lambda>_. p)" for p] show ?thesis by (simp add: call_frame_def)
qed

lemma call_frame_slicing: "call_frame s s' \<Longrightarrow> s_time_slicing_enabled s' = s_time_slicing_enabled s"
proof -
  assume "call_frame s s'"
  then have "s'\<lparr>list_heap := h, s_ready_bitmap := b, tcbs := t, port := p\<rparr> =
     s\<lparr>list_heap := h, s_ready_bitmap := b, tcbs := t, port := p\<rparr>" for h b t p by (simp add: call_frame_def)
  from arg_cong [OF this, of s_time_slicing_enabled] show ?thesis by simp
qed

lemma step_ok_move:
  assumes inv: "sys_inv bits s L" and k: "kinv bits s' L'" and fr: "objects_kept s s'"
    and T: "\<And>a. a \<noteq> t \<Longrightarrow> tcbs s' a = tcbs s a" and L: "others_same t L L'" and aw: "\<not> asleep (tcbs s) t"
    and t: "valid_task (tcbs s') t" "placed (tcbs s') (sertos_current_tcb s) L' t"
    and srt: "waits_sorted (tcbs s') L'" and tm: "L' ActiveTimers = L ActiveTimers"
    and sm: "\<And>h. sem_handle_ok h s \<Longrightarrow> L (SemWait h) \<noteq> None \<Longrightarrow> L' (SemWait h) \<noteq> None \<and>
      (L' (SemWait h) = Some [] \<or> L (SemWait h) \<noteq> Some [] \<or> sem_count (sems s h) = 0)"
    and sn: "\<And>h n. on_list L' (SemWait h) n \<Longrightarrow> on_list L (SemWait h) n \<or> sem_handle_ok h s"
    and bm: "\<And>wl. buffer_list wl \<Longrightarrow> L wl \<noteq> None \<Longrightarrow> L' wl \<noteq> None"
    and bn: "\<And>wl n. buffer_list wl \<Longrightarrow> on_list L' wl n \<Longrightarrow> on_list L wl n \<or> owner_ok wl s"
  shows "step_ok bits s L s' L'"
proof -
  have f: "sertos_current_tcb s' = sertos_current_tcb s" "sems s' = sems s" "queues s' = queues s" "streams s' = streams s"
    using fr by (simp_all add: objects_kept_def)
  have "bufs_ok s' L'" by (rule bufs_ok_mono [OF _ f(3,4) bm bn]) (use inv in \<open>simp_all add: sys_inv_def\<close>)
  moreover have "tasks_ok (tcbs s') (sertos_current_tcb s) L'"
    by (rule tasks_ok_move [OF _ T L t]) (use inv in \<open>simp_all add: sys_inv_def\<close>)
  moreover have "sems_ok s' L'" by (rule sems_ok_mono [OF _ f(2) sm sn]) (use inv in \<open>simp_all add: sys_inv_def\<close>)
  moreover have "sleeps_on (tcbs s) (tcbs s')" by (rule sleeps_on_others [OF T aw])
  ultimately show ?thesis using fr k srt tm f by (simp add: step_ok_def sys_inv_def objects_kept_def)
qed

text \<open>The wait lists stay as they are, and a task that is on none of them may change its priority.\<close>

lemma waits_sorted_other:
  assumes srt: "waits_sorted T L" and "\<And>wl. is_wait_list wl \<Longrightarrow> L' wl = L wl" and k: "kinv bits s L"
    and "\<And>a. (\<exists>wl. on_list L wl (EventNode a)) \<Longrightarrow> tcb_priority (T' a) = tcb_priority (T a)"
  shows "waits_sorted T' L'"
  unfolding waits_sorted_def
proof (intro allI impI)
  fix wl ns assume wl: "is_wait_list wl" "L' wl = Some ns"
  then have L: "L wl = Some ns" using assms(2) by simp
  then have srt': "wait_sorted T ns" using srt wl(1) by (auto simp: waits_sorted_def)
  have "node_priority T' n = node_priority T n" if "n \<in> set ns" for n
  proof -
    have on: "on_list L wl n" using that L by (simp add: on_list_Some)
    then obtain a where n: "n = EventNode a" using kinv_typed [OF k on] wl(1) by auto
    have "tcb_priority (T' a) = tcb_priority (T a)" by (rule assms(4)) (use on n in blast)
    then show ?thesis by (simp add: node_priority_def n)
  qed
  then have "map (node_priority T') ns = map (node_priority T) ns" by simp
  then show "wait_sorted T' ns" using srt' by (simp add: wait_sorted_def sorted_wrt_iff_nth_less)
qed

lemma waits_sorted_lists: "(\<And>wl. is_wait_list wl \<Longrightarrow> L' wl = L wl) \<Longrightarrow> waits_sorted T L' = waits_sorted T L"
  by (auto simp: waits_sorted_def)

lemma waits_sorted_upd: "\<not> is_wait_list l \<Longrightarrow> waits_sorted T (L(l := x)) = waits_sorted T L"
  by (rule waits_sorted_lists) auto

lemma step_ok_parked:
  assumes inv: "sys_inv bits s L" and c: "valid_task (tcbs s) c"
    and on: "on_list L (ReadyQ p) (StateNode c)"
    and k: "kinv bits s' (blocked_lists (tcbs s) c p wl timed L)" and fr: "call_frame s s'"
    and T: "\<And>a. a \<noteq> c \<Longrightarrow> tcbs s' a = tcbs s a" "tcb_state (tcbs s' c) = SERTOS_TASK_STATE_BLOCKED"
      "tcb_priority (tcbs s' c) = tcb_priority (tcbs s c)" "tcb_magic (tcbs s' c) = tcb_magic (tcbs s c)"
    and wl: "wl = None \<Longrightarrow> timed" "\<And>w. wl = Some w \<Longrightarrow> buffer_list w \<and> owner_ok w s \<or>
        (\<exists>h. w = SemWait h \<and> sem_handle_ok h s \<and> sem_count (sems s h) = 0)"
  shows "step_ok bits s L s' (blocked_lists (tcbs s) c p wl timed L)"
proof (rule step_ok_move [OF inv k call_frame_objects [OF fr] T(1) others_blocked])
  let ?L = "blocked_lists (tcbs s) c p wl timed L"
  have kin: "kinv bits s L" using inv by (simp add: sys_inv_def)
  obtain ds where ds: "L DelayList = Some ds" using kinv_delay_list [OF kin] .
  have w: "L w \<noteq> None \<and> is_wait_list w" if "wl = Some w" for w
    using wl(2) [OF that] inv by (auto simp: sys_inv_def sems_ok_def sem_inv_def bufs_ok_def)
  show "\<not> asleep (tcbs s) c" using ready_state [OF inv on] by (auto simp: asleep_def)
  show "valid_task (tcbs s') c" using c T(4) by (simp add: valid_task_def)
  have "on_list ?L DelayList (StateNode c)" if timed
    using that ds w by (auto simp: blocked_lists_def Let_def on_list_def split: option.splits)
  moreover have "on_list ?L v (EventNode c)" if "wl = Some v" for v
    using that w [OF that] by (auto simp: blocked_lists_def Let_def on_list_def split: option.splits)
  moreover have "unat (tcb_priority (tcbs s c)) < SERTOS_CONFIG_MAX_PRIORITIES" using kinv_ready [OF kin on] by simp
  moreover have "?L TaskRegistry = L TaskRegistry" using wl(2) by (auto simp: blocked_lists_def Let_def split: option.splits)
  then have "on_list ?L TaskRegistry (RegistryNode c)"
    using registered [OF inv c] ready_state [OF inv on] by (auto simp: on_list_def)
  ultimately show "placed (tcbs s') (sertos_current_tcb s) ?L c"
    unfolding placed_def T(2,3) using wl(1) by (cases wl) auto
  show "?L ActiveTimers = L ActiveTimers" using wl(2) by (auto simp: blocked_lists_def Let_def split: option.splits)
  have "waits_sorted (tcbs s) ?L" by (rule waits_sorted_block) (use inv in \<open>simp add: sys_inv_def\<close>)
  moreover have "tcb_priority (tcbs s' a) = tcb_priority (tcbs s a)" for a using T(1,3) by (cases "a = c") auto
  ultimately show "waits_sorted (tcbs s') ?L" using waits_sorted_cong by metis
  show "?L v \<noteq> None" if "buffer_list v" "L v \<noteq> None" for v
    using that by (cases v) (auto simp: blocked_lists_def Let_def split: option.splits)
  show "on_list L v n \<or> owner_ok v s" if "buffer_list v" "on_list ?L v n" for v n
    using that wl(2) by (cases v; cases "wl = Some v") (auto simp: blocked_lists_def Let_def on_list_def split: option.splits if_splits)
  fix h show "on_list L (SemWait h) n \<or> sem_handle_ok h s" if "on_list ?L (SemWait h) n" for n
    using that wl(2) by (cases "wl = Some (SemWait h)") (auto simp: blocked_lists_def Let_def on_list_def split: option.splits if_splits)
  assume "L (SemWait h) \<noteq> None"
  then show "?L (SemWait h) \<noteq> None \<and> (?L (SemWait h) = Some [] \<or> L (SemWait h) \<noteq> Some [] \<or> sem_count (sems s h) = 0)"
    using wl(2) by (cases "wl = Some (SemWait h)") (auto simp: blocked_lists_def Let_def split: option.splits)
qed

lemma parked_follows:
  assumes "\<And>a. a \<noteq> c \<Longrightarrow> tcbs s' a = tcbs s a" and "tcb_state (tcbs s' c) = SERTOS_TASK_STATE_BLOCKED"
    and "tcb_state (tcbs s c) = SERTOS_TASK_STATE_RUNNING"
  shows "follows (tcbs s) (tcbs s')"
  by (rule follows_one [of c]) (use assms in auto)

lemma step_ok_woken:
  assumes inv: "sys_inv bits s L" and k: "kinv bits s' (wake_lists a (unat (tcb_priority (tcbs s a))) L)"
    and fr: "call_frame s s'" and T: "tcbs s' = (tcbs s)(a := woken_tcb (tcbs s a))" and on: "on_list L wl (EventNode a)"
  shows "step_ok bits s L s' (wake_lists a (unat (tcb_priority (tcbs s a))) L)" and "only_wakes (tcbs s) (tcbs s')"
proof -
  let ?p = "unat (tcb_priority (tcbs s a))"
  let ?L = "wake_lists a ?p L"
  have kin: "kinv bits s L" and srt: "waits_sorted (tcbs s) L" using inv by (simp_all add: sys_inv_def)
  have pM: "?p < SERTOS_CONFIG_MAX_PRIORITIES" using kinv_wait [OF kin on] by simp
  then obtain ns where ns: "L (ReadyQ ?p) = Some ns" by (rule kinv_ready_list [OF kin])
  have v: "valid_task (tcbs s) a" using inv on by (auto simp: sys_inv_def tasks_ok_def linked_def)
  have st: "tcb_state (tcbs s a) = SERTOS_TASK_STATE_BLOCKED" by (rule waiting_state [OF inv]) (use on in blast)
  show "only_wakes (tcbs s) (tcbs s')" using st by (auto simp: only_wakes_def T woken_tcb_def valid_task_def)
  show "step_ok bits s L s' ?L"
  proof (rule step_ok_move [OF inv k call_frame_objects [OF fr] _ others_wake])
    show "L (ReadyQ ?p) \<noteq> None" using ns by simp
    show "\<not> asleep (tcbs s) a" using kinv_wait [OF kin on] by (simp add: asleep_def)
    show "valid_task (tcbs s') a" using v by (simp add: T valid_task_def woken_tcb_def)
    have "?L TaskRegistry = L TaskRegistry" by (simp add: wake_lists_def detach_lists_def)
    then have "on_list ?L TaskRegistry (RegistryNode a)" using registered [OF inv v] st by (simp add: on_list_def)
    then show "placed (tcbs s') (sertos_current_tcb s) ?L a"
      using pM by (simp add: placed_def T woken_tcb_def wake_lists_def on_list_def)
    show "?L ActiveTimers = L ActiveTimers" by (simp add: wake_lists_def detach_lists_def)
    have "waits_sorted (tcbs s) ?L" using srt by (rule waits_sorted_wake)
    then show "waits_sorted (tcbs s') ?L" using waits_sorted_cong [of "tcbs s'" "tcbs s" ?L] by (simp add: T woken_tcb_def)
    show "?L v \<noteq> None" if "buffer_list v" "L v \<noteq> None" for v using that by (simp add: wake_lists_wait)
    show "on_list L v n \<or> owner_ok v s" if "buffer_list v" "on_list ?L v n" for v n
      using that by (auto simp: on_list_def wake_lists_wait split: option.splits dest: subsetD [OF set_remove1_subset])
    fix h show "?L (SemWait h) \<noteq> None \<and> (?L (SemWait h) = Some [] \<or> L (SemWait h) \<noteq> Some [] \<or> sem_count (sems s h) = 0)"
      if "L (SemWait h) \<noteq> None" using that by (auto simp: wake_lists_wait)
    show "on_list L (SemWait h) n \<or> sem_handle_ok h s" if "on_list ?L (SemWait h) n" for n
      using that by (auto simp: on_list_def wake_lists_wait split: option.splits dest: subsetD [OF set_remove1_subset])
  qed (use T in auto)
qed

text \<open>Rotating a queue changes no membership.\<close>

lemma sliced_members:
  assumes "enabled \<and> c \<noteq> NULL \<longrightarrow> on_list L (ReadyQ (unat (tcb_priority (T c)))) (StateNode c)"
  shows "on_list (sliced_lists T c enabled L) l n = on_list L l n"
proof (cases "enabled \<and> c \<noteq> NULL \<and> l = ReadyQ (unat (tcb_priority (T c)))")
  case True
  then obtain ns where ns: "L l = Some ns" "StateNode c \<in> set ns" using assms by (auto elim: on_listE)
  then have "(n \<in> set (remove1 (StateNode c) ns @ [StateNode c])) = (n \<in> set ns)"
    by (cases "n = StateNode c") (simp_all add: in_set_remove1_other)
  then show ?thesis using True ns by (simp add: sliced_lists_def Let_def on_list_def)
qed (auto simp: sliced_lists_def Let_def on_list_def)

lemma sliced_wait: "is_wait_list wl \<Longrightarrow> sliced_lists T c enabled L wl = L wl"
  by (auto simp: sliced_lists_def Let_def)

lemma sliced_timers [simp]: "sliced_lists T c enabled L ActiveTimers = L ActiveTimers"
  by (simp add: sliced_lists_def Let_def)

lemma tasks_ok_members:
  assumes "\<And>l n. on_list L' l n = on_list L l n" shows "tasks_ok T cur L' = tasks_ok T cur L"
  unfolding tasks_ok_def placed_def linked_def assms ..

section \<open>Calls of the running task\<close>

context kernel_env
begin

lemma yield_step:
  assumes inv: "sys_inv bits s L" and E: "pending_port E" and cur: "current_runs s"
  obtains s' L' where "sertos_scheduler_yield E s = Some s'" and "step_ok bits s L s' L'" and "tcbs s' = tcbs s"
proof -
  let ?s1 = "s\<lparr>port := snd (sertos_port_enter_critical E (port s))\<rparr>"
  let ?s2 = "process_time_slicing E ?s1"
  let ?c = "fst (sertos_port_enter_critical E (port s))"
  let ?s3 = "exit_critical E ?c ?s2"
  let ?L = "sliced_lists (tcbs s) (sertos_current_tcb s) (s_time_slicing_enabled s) L"
  have i1: "sys_inv bits ?s1 L" using inv by simp
  have cok: "current_ok ?s1 L" by (rule runs_current_ok [OF i1]) (use cur in \<open>simp add: current_runs_def\<close>)
  have k1: "kinv bits ?s1 L" using i1 by (simp add: sys_inv_def)
  have k: "kinv bits ?s2 ?L" by (rule yield_time_slicing [OF k1 cok]) simp
  have on: "on_list ?L l n = on_list L l n" for l n
    by (rule sliced_members) (use cok in \<open>simp add: current_ok_def\<close>)
  have fr: "call_frame s ?s3"
    by (rule call_frameI [where q = "snd (sertos_port_enter_critical E (port s))"]) simp
  have "sems_ok ?s3 ?L"
    by (rule sems_ok_mono [of s L]) (use inv call_frameD(5) [OF fr] in \<open>simp_all add: sys_inv_def sliced_wait on_list_def\<close>)
  moreover have "bufs_ok ?s3 ?L"
    by (rule bufs_ok_mono [of s L]) (use inv call_frameD(7,8) [OF fr] in \<open>simp_all add: sys_inv_def sliced_wait on_list_def\<close>)
  ultimately have o3: "step_ok bits s L ?s3 ?L"
    using inv k call_frameD [OF fr] tasks_ok_members [of ?L L, OF on] waits_sorted_lists [of ?L L, OF sliced_wait]
    by (simp add: sys_inv_def step_ok_def)
  obtain s4 where s4: "sertos_scheduler_switch_context E ?s3 = Some s4" "step_ok bits ?s3 ?L s4 ?L" "tcbs s4 = tcbs ?s3"
    using switch_context_requests [OF step_ok_inv [OF o3] E] .
  have "sertos_scheduler_yield E s = Some s4" using s4(1) by (simp add: sertos_scheduler_yield_def enter_critical_eq)
  then show thesis by (rule that [OF _ step_ok_trans [OF o3 s4(2)]]) (use s4(3) in simp)
qed

lemma delay_step:
  assumes inv: "sys_inv bits s L" and E: "pending_port E" and cur: "current_runs s"
  obtains r s' L' where "sertos_scheduler_delay E ticks s = Some (r, s')" and "step_ok bits s L s' L'"
    and "current_running s \<Longrightarrow> follows (tcbs s) (tcbs s')"
    and "ticks \<noteq> 0 \<Longrightarrow> s_is_running s \<Longrightarrow> sertos_current_tcb s \<noteq> NULL \<Longrightarrow>
      asleep (tcbs s') (sertos_current_tcb s) \<and> tcb_delay_ticks (tcbs s' (sertos_current_tcb s)) = ticks"
proof -
  let ?c = "sertos_current_tcb s"
  consider "ticks = 0" | "ticks \<noteq> 0" "\<not> s_is_running s \<or> ?c = NULL" | "ticks \<noteq> 0" "s_is_running s" "?c \<noteq> NULL" by auto
  then show thesis
  proof cases
    case 1
    obtain s' L' where "sertos_scheduler_yield E s = Some s'" "step_ok bits s L s' L'" "tcbs s' = tcbs s"
      using yield_step [OF inv E cur] .
    then show thesis using 1 that by (simp add: sertos_scheduler_delay_def)
  next
    case 2
    then have "sertos_scheduler_delay E ticks s = Some (SERTOS_STATUS_ERROR_NOT_INITIALIZED, s)"
      by (auto simp: sertos_scheduler_delay_def)
    then show thesis by (rule that [OF _ step_ok_refl [OF inv]]) (use 2 in auto)
  next
    case 3
    have k: "kinv bits s L" and v: "valid_task (tcbs s) ?c" using inv 3 by (simp_all add: sys_inv_def tasks_ok_def)
    let ?p = "unat (tcb_priority (tcbs s ?c))"
    have on: "on_list L (ReadyQ ?p) (StateNode ?c)"
      using runs_current_ok [OF inv cur] 3(3) by (simp add: current_ok_def)
    let ?L = "blocked_lists (tcbs s) ?c ?p None True L"
    obtain s' where s': "sertos_scheduler_delay E ticks s = map_option (Pair SERTOS_STATUS_OK) (sertos_scheduler_switch_context E s')"
      "kinv bits s' ?L" "call_frame s s'"
      "tcbs s' = (tcbs s)(?c := (tcbs s ?c)\<lparr>tcb_state := SERTOS_TASK_STATE_BLOCKED, tcb_delay_ticks := ticks\<rparr>)"
      by (rule delay_refines [OF k 3(2) refl on 3(1)], rule that)
    have o1: "step_ok bits s L s' ?L" by (rule step_ok_parked [OF inv v on s'(2,3)]) (use s'(4) in auto)
    obtain s2 where s2: "sertos_scheduler_switch_context E s' = Some s2" "step_ok bits s' ?L s2 ?L" "tcbs s2 = tcbs s'"
      using switch_context_requests [OF step_ok_inv [OF o1] E] .
    have "follows (tcbs s) (tcbs s2)" if "current_running s"
      by (rule parked_follows [of ?c]) (use that 3(3) s'(4) s2(3) in \<open>auto simp: current_running_def\<close>)
    moreover have "asleep (tcbs s2) ?c" "tcb_delay_ticks (tcbs s2 ?c) = ticks"
      using v kinv_ready [OF k on] s'(4) s2(3) by (simp_all add: asleep_def valid_task_def)
    ultimately show thesis using that [of SERTOS_STATUS_OK s2 ?L] s'(1) s2(1) step_ok_trans [OF o1 s2(2)] by simp
  qed
qed

text \<open>Blocking on the wait list of a semaphore without tokens, or of a queue or stream buffer.\<close>

lemma block_step:
  assumes inv: "sys_inv bits s L" and E: "pending_port E" and cur: "current_runs s" and timeout: "timeout \<noteq> 0"
    and w: "buffer_list w \<and> owner_ok w s \<or> (\<exists>h. w = SemWait h \<and> sem_handle_ok h s \<and> sem_count (sems s h) = 0)"
  obtains r s' L' where "sertos_scheduler_wait_list_block E (Some w) timeout s = Some (r, s')" and "step_ok bits s L s' L'"
    and "current_running s \<Longrightarrow> follows (tcbs s) (tcbs s')"
proof (cases "s_is_running s \<and> sertos_current_tcb s \<noteq> NULL")
  case False
  then have "sertos_scheduler_wait_list_block E (Some w) timeout s = Some (SERTOS_STATUS_ERROR_NOT_INITIALIZED, s)"
    using timeout by (auto simp: sertos_scheduler_wait_list_block_def SERTOS_NO_WAIT_def)
  then show thesis by (rule that [OF _ step_ok_refl [OF inv]]) simp
next
  case True
  let ?c = "sertos_current_tcb s"
  have k: "kinv bits s L" and v: "valid_task (tcbs s) ?c" using inv True by (simp_all add: sys_inv_def tasks_ok_def)
  let ?p = "unat (tcb_priority (tcbs s ?c))"
  have on: "on_list L (ReadyQ ?p) (StateNode ?c)"
    using runs_current_ok [OF inv cur] True by (simp add: current_ok_def)
  have wl: "is_wait_list w" "L w \<noteq> None"
    using w inv by (auto simp: sys_inv_def sems_ok_def sem_inv_def bufs_ok_def)
  let ?L = "blocked_lists (tcbs s) ?c ?p (Some w) (timeout \<noteq> SERTOS_WAIT_FOREVER) L"
  obtain s' f where s': "sertos_scheduler_wait_list_block E (Some w) timeout s =
      map_option (\<lambda>s. (f s, s)) (sertos_scheduler_switch_context E s')"
    "kinv bits s' ?L" "call_frame s s'"
    "tcbs s' = (tcbs s)(?c := (tcbs s ?c)\<lparr>tcb_state := SERTOS_TASK_STATE_BLOCKED, tcb_wait_list := Some w,
         tcb_delay_ticks := (if timeout = SERTOS_WAIT_FOREVER then 0 else timeout)\<rparr>)"
    by (rule wait_list_block_refines [OF k conjunct1 [OF True] refl on wl timeout], rule that)
  have o1: "step_ok bits s L s' ?L" by (rule step_ok_parked [OF inv v on s'(2,3)]) (use s'(4) w in auto)
  obtain s3 where s3: "sertos_scheduler_switch_context E s' = Some s3" "step_ok bits s' ?L s3 ?L" "tcbs s3 = tcbs s'"
    using switch_context_requests [OF step_ok_inv [OF o1] E] .
  have "follows (tcbs s) (tcbs s3)" if "current_running s"
    by (rule parked_follows [of ?c]) (use that True s'(4) s3(3) in \<open>auto simp: current_running_def\<close>)
  then show thesis using that [of "f s3" s3 ?L] s'(1) s3(1) step_ok_trans [OF o1 s3(2)] by simp
qed

lemma take_step:
  assumes inv: "sys_inv bits s L" and E: "pending_port E" and cur: "current_runs s"
  obtains r s' L' where "sertos_sem_take E h timeout s = Some (r, s')" and "step_ok bits s L s' L'"
    and "current_running s \<Longrightarrow> follows (tcbs s) (tcbs s')"
proof -
  let ?s1 = "s\<lparr>port := snd (sertos_port_enter_critical E (port s))\<rparr>"
  let ?x = "exit_critical E (fst (sertos_port_enter_critical E (port s)))"
  consider "\<not> sem_handle_ok h s" | "sem_handle_ok h s" "0 < sem_count (sems s h)"
    | "sem_handle_ok h s" "sem_count (sems s h) = 0" "timeout = 0"
    | "sem_handle_ok h s" "sem_count (sems s h) = 0" "timeout \<noteq> 0"
    by (auto simp: word_neq_0_conv [symmetric] simp del: word_neq_0_conv)
  then show thesis
  proof cases
    case 1
    then show thesis using that step_ok_refl [OF inv] by (simp add: sertos_sem_take_def)
  next
    case 2
    let ?s2 = "upd_sem h (\<lambda>t. t\<lparr>sem_count := sem_count t - 1\<rparr>) ?s1"
    have "sem_count (sems s h) - 1 \<le> sem_max_count (sems s h)" if "sem_inv h s L"
      using that 2(2) unat_minus_one_pos [of "sem_count (sems s h)"] by (auto simp: sem_inv_def word_le_nat_alt)
    then have "sems_ok ?s2 L" using inv 2(2)
      by (auto simp: sys_inv_def sems_ok_def sem_inv_def sem_handle_ok_def upd_sem_def)
    moreover have "bufs_ok ?s2 L" by (rule bufs_ok_same [of s L]) (use inv in \<open>simp_all add: sys_inv_def upd_sem_def\<close>)
    ultimately have "step_ok bits s L ?s2 L" using inv by (simp add: sys_inv_def step_ok_def upd_sem_def)
    moreover have "sertos_sem_take E h timeout s = Some (SERTOS_STATUS_OK, ?x ?s2)"
      using 2 by (simp add: sertos_sem_take_def enter_critical_eq)
    ultimately show thesis using that [of _ "?x ?s2"] by (simp add: upd_sem_def)
  next
    case 3
    have "sertos_sem_take E h timeout s = Some (SERTOS_STATUS_ERROR_TIMEOUT, ?x ?s1)"
      using 3 by (simp add: sertos_sem_take_def enter_critical_eq SERTOS_NO_WAIT_def)
    then show thesis using that [of _ "?x ?s1"] step_ok_refl [OF inv] by auto
  next
    case 4
    let ?s2 = "?x ?s1"
    have i2: "sys_inv bits ?s2 L" and c2: "current_runs ?s2" using inv cur by (simp_all add: current_runs_def)
    obtain r s' L' where s': "sertos_scheduler_wait_list_block E (Some (SemWait h)) timeout ?s2 = Some (r, s')"
      "step_ok bits ?s2 L s' L'" "current_running ?s2 \<Longrightarrow> follows (tcbs ?s2) (tcbs s')"
      by (rule block_step [OF i2 E c2 4(3), of "SemWait h"]) (use 4 that in \<open>auto simp: sem_handle_ok_def\<close>)
    have "sertos_sem_take E h timeout s = Some (r, s')"
      using 4 s'(1) by (simp add: sertos_sem_take_def enter_critical_eq SERTOS_NO_WAIT_def)
    then show thesis by (rule that) (use s'(2,3) in \<open>simp_all add: current_running_def\<close>)
  qed
qed

section \<open>Releasing a semaphore\<close>

text \<open>Waking the first waiter, or adding a token when nobody waits.\<close>

lemma wake_step:
  assumes inv: "sys_inv bits s L" and wl: "L w = Some ns" and wait: "is_wait_list w"
  obtains a s' L' where "sertos_scheduler_wait_list_unblock_highest E (Some w) s = Some (a, s')"
    and "step_ok bits s L s' L'" and "only_wakes (tcbs s) (tcbs s')" and "call_frame s s'"
    and "a = NULL \<longleftrightarrow> ns = []" and "L' w = Some (tl ns)"
    and "tcb_priority \<circ> tcbs s' = tcb_priority \<circ> tcbs s" and "L' = wake_all (tcbs s) (take 1 ns) L"
proof -
  have k: "kinv bits s L" using inv by (simp add: sys_inv_def)
  have w0: "is_wait_list w" "L w \<noteq> None" using wl wait by simp_all
  obtain a s' L' where s': "sertos_scheduler_wait_list_unblock_highest E (Some w) s = Some (a, s')"
    "kinv bits s' L'" "sched_frame s s'" and w: "wakes_first w (tcbs s) L a (tcbs s') L'"
    by (rule unblock_highest_wakes [OF k w0], rule that)
  have fr: "call_frame s s'" using s'(3) by (rule call_frame_sched)
  show thesis
  proof (cases "ns = []")
    case True
    then have a: "a = NULL" "tcbs s' = tcbs s" "L' = L" using w wl by (simp_all add: wakes_first_def)
    moreover have "sems_ok s' L" by (rule sems_ok_mono [of s L]) (use inv call_frameD(5) [OF fr] in \<open>auto simp: sys_inv_def\<close>)
    moreover have "bufs_ok s' L" by (rule bufs_ok_same [of s L]) (use inv call_frameD [OF fr] in \<open>simp_all add: sys_inv_def\<close>)
    ultimately have "step_ok bits s L s' L" using inv s'(2) call_frameD [OF fr] by (simp add: sys_inv_def step_ok_def)
    then show thesis by (rule that [OF s'(1)]) (use True a wl fr in auto)
  next
    case False
    have a: "hd ns = EventNode a" "tcbs s' = (tcbs s)(a := woken_tcb (tcbs s a))"
      "L' = wake_lists a (unat (tcb_priority (tcbs s a))) L" "a \<noteq> NULL"
      using w wl False by (simp_all add: wakes_first_def)
    have on: "on_list L w (EventNode a)" using hd_in_set [OF False] a(1) wl by (simp add: on_list_def)
    have k': "kinv bits s' (wake_lists a (unat (tcb_priority (tcbs s a))) L)" using s'(2) a(3) by simp
    have "L' w = Some (tl ns)" using a(1,3) wl False by (cases ns) (simp_all add: wake_lists_wait wait)
    moreover have "tcb_priority \<circ> tcbs s' = tcb_priority \<circ> tcbs s" by (simp add: fun_eq_iff a(2) woken_tcb_def)
    moreover have "L' = wake_all (tcbs s) (take 1 ns) L" using a(1,3) False by (cases ns) simp_all
    ultimately show thesis
      using step_ok_woken [OF inv k' fr a(2) on] a(3,4) False fr by (intro that [OF s'(1), of L']) simp_all
  qed
qed

lemma token_added:
  assumes inv: "sys_inv bits s L" and "L (SemWait h) = Some []" and "sem_count (sems s h) < sem_max_count (sems s h)"
  shows "step_ok bits s L (upd_sem h (\<lambda>t. t\<lparr>sem_count := sem_count t + 1\<rparr>) s) L"
proof -
  let ?s = "upd_sem h (\<lambda>t. t\<lparr>sem_count := sem_count t + 1\<rparr>) s"
  have "sem_count (sems s h) + 1 \<le> sem_max_count (sems s h)" using assms(3) by (rule inc_le)
  then have "sems_ok ?s L" using inv assms(2)
    by (auto simp: sys_inv_def sems_ok_def sem_inv_def sem_handle_ok_def upd_sem_def)
  moreover have "bufs_ok ?s L" by (rule bufs_ok_same [of s L]) (use inv in \<open>simp_all add: sys_inv_def upd_sem_def\<close>)
  ultimately show ?thesis using inv by (simp add: sys_inv_def step_ok_def upd_sem_def)
qed

lemma sem_waiters: "sys_inv bits s L \<Longrightarrow> sem_handle_ok h s \<Longrightarrow> \<exists>ns. L (SemWait h) = Some ns"
  by (auto simp: sys_inv_def sems_ok_def sem_inv_def)

lemma give_step:
  assumes inv: "sys_inv bits s L" and E: "pending_port E"
  obtains r s' L' where "sertos_sem_give E h s = Some (r, s')" and "step_ok bits s L s' L'" and "only_wakes (tcbs s) (tcbs s')"
proof (cases "sem_handle_ok h s")
  case False
  then show thesis using that step_ok_refl [OF inv] by (simp add: sertos_sem_give_def)
next
  case True
  let ?s1 = "s\<lparr>port := snd (sertos_port_enter_critical E (port s))\<rparr>"
  let ?x = "exit_critical E (fst (sertos_port_enter_critical E (port s)))"
  have i1: "sys_inv bits ?s1 L" using inv by simp
  obtain ns where ns: "L (SemWait h) = Some ns" using sem_waiters [OF inv True] by blast
  obtain a s2 L2 where s2: "sertos_scheduler_wait_list_unblock_highest E (Some (SemWait h)) ?s1 = Some (a, s2)"
    "step_ok bits ?s1 L s2 L2" "only_wakes (tcbs ?s1) (tcbs s2)" "a = NULL \<longleftrightarrow> ns = []" "L2 (SemWait h) = Some (tl ns)"
    by (rule wake_step [OF i1 ns is_wait_list.simps(1) [THEN eqTrueE]], rule that)
  have ix: "sys_inv bits (?x s2) L2" using step_ok_inv [OF s2(2)] by simp
  have ow: "only_wakes (tcbs s) (tcbs s2)" using s2(3) by simp
  obtain s3 where s3: "reschedule_if_running E (?x s2) = Some s3" "step_ok bits (?x s2) L2 s3 L2" "tcbs s3 = tcbs (?x s2)"
    using reschedule_requests [OF ix E] .
  let ?s4 = "?x (upd_sem h (\<lambda>t. t\<lparr>sem_count := sem_count t + 1\<rparr>) s2)"
  consider "a \<noteq> NULL" | "a = NULL" "sem_count (sems s2 h) < sem_max_count (sems s2 h)"
    | "a = NULL" "\<not> sem_count (sems s2 h) < sem_max_count (sems s2 h)" by blast
  then show thesis
  proof cases
    case 1
    then have "sertos_sem_give E h s = Some (SERTOS_STATUS_OK, s3)"
      using True s2(1) s3(1) by (simp add: sertos_sem_give_def enter_critical_eq)
    then show thesis by (rule that) (use step_ok_trans [OF s2(2), of s3 L2] s3(2,3) ow in simp_all)
  next
    case 2
    then have "sertos_sem_give E h s = Some (SERTOS_STATUS_OK, ?s4)"
      using True s2(1) by (simp add: sertos_sem_give_def enter_critical_eq)
    moreover have "step_ok bits s2 L2 (upd_sem h (\<lambda>t. t\<lparr>sem_count := sem_count t + 1\<rparr>) s2) L2"
      by (rule token_added [OF step_ok_inv [OF s2(2)]]) (use 2 s2(4,5) in auto)
    from step_ok_trans [OF s2(2) this] have "step_ok bits s L ?s4 L2" by simp
    ultimately show thesis by (rule that) (use ow in \<open>simp add: upd_sem_def\<close>)
  next
    case 3
    then have "sertos_sem_give E h s = Some (SERTOS_STATUS_ERROR_RESOURCE_BUSY, ?x s2)"
      using True s2(1) by (simp add: sertos_sem_give_def enter_critical_eq)
    then show thesis by (rule that) (use s2(2) ow in simp_all)
  qed
qed

lemma give_isr_step:
  assumes inv: "sys_inv bits s L"
  obtains r s' L' where "sertos_sem_give_from_isr E h out s = Some (r, s')" and "step_ok bits s L s' L'"
    and "only_wakes (tcbs s) (tcbs s')"
proof (cases "sem_handle_ok h s")
  case False
  then show thesis using that step_ok_refl [OF inv] by (simp add: sertos_sem_give_from_isr_def)
next
  case True
  let ?s1 = "(set_flag out False s)\<lparr>port := snd (sertos_port_enter_critical E (port s))\<rparr>"
  let ?x = "exit_critical E (fst (sertos_port_enter_critical E (port s)))"
  have i1: "sys_inv bits ?s1 L" using inv by simp
  obtain ns where ns: "L (SemWait h) = Some ns" using sem_waiters [OF inv True] by blast
  obtain a s2 L2 where s2: "sertos_scheduler_wait_list_unblock_highest E (Some (SemWait h)) ?s1 = Some (a, s2)"
    "step_ok bits ?s1 L s2 L2" "only_wakes (tcbs ?s1) (tcbs s2)" "a = NULL \<longleftrightarrow> ns = []" "L2 (SemWait h) = Some (tl ns)"
    by (rule wake_step [OF i1 ns is_wait_list.simps(1) [THEN eqTrueE]], rule that)
  let ?u = "upd_sem h (\<lambda>t. t\<lparr>sem_count := sem_count t + 1\<rparr>) s2"
  have o2: "step_ok bits s L s2 L2" and ow: "only_wakes (tcbs s) (tcbs s2)" using s2(2,3) by simp_all
  have "step_ok bits s L ?u L2" if "a = NULL" "sem_count (sems s2 h) < sem_max_count (sems s2 h)"
    by (rule step_ok_trans [OF o2 token_added [OF step_ok_inv [OF s2(2)]]]) (use that s2(4,5) in auto)
  moreover have "\<exists>r s'. sertos_sem_give_from_isr E h out s = Some (r, s') \<and> (s' \<in> {?x s2, ?x (set_flag out True s2)} \<or>
      s' = ?x ?u \<and> a = NULL \<and> sem_count (sems s2 h) < sem_max_count (sems s2 h))"
    using True s2(1) by (auto simp: sertos_sem_give_from_isr_def enter_critical_eq Let_def)
  ultimately show thesis using that o2 ow by (auto simp: upd_sem_def)
qed

end

end
