(* ===== verification/Sertos_System_Calls.thy ===== *)
theory Sertos_System_Calls
  imports Sertos_System
begin

text \<open>
  The other calls that keep the invariant of the system: creation and deletion of semaphores, task management,
  the switch, the start of the kernel, and the scheduler lock.
\<close>

section \<open>Creating and deleting semaphores\<close>

context kernel_env
begin

text \<open>Initialising a wait list that no task is on.\<close>

lemma init_list_step:
  assumes inv: "sys_inv bits s L" and w: "is_wait_list w" and none: "\<And>n. \<not> on_list L w n"
  shows "step_ok bits s L (upd_heap (linked_list_init E w) s) (L(w \<mapsto> []))"
proof -
  let ?L = "L(w \<mapsto> [])"
  let ?s = "upd_heap (linked_list_init E w) s"
  have k: "kinv bits s L" using inv by (simp add: sys_inv_def)
  have on: "on_list ?L l x = on_list L l x" for l x using none by (simp add: on_list_def)
  have same: "?L l = L l" if "\<not> is_wait_list l" for l using w that by auto
  have tm: "?L ActiveTimers = L ActiveTimers" and bl: "?L (ReadyQ p) = L (ReadyQ p)" "?L DelayList = L DelayList"
    "?L TaskRegistry = L TaskRegistry" for p by (rule same; simp)+
  have "heap_ok (linked_list_init E w (list_heap s)) ?L" by (rule ll.heap_ok_init [OF kinv_heap [OF k]])
  moreover have "typed_lists ?L = typed_lists L" "ready_ok T ?L = ready_ok T L" "delay_ok T ?L = delay_ok T L"
    "wait_ok T ?L = wait_ok T L" for T
    unfolding typed_lists_def ready_ok_def delay_ok_def wait_ok_def on by (rule refl)+
  moreover have "base_lists ?L = base_lists L" "bitmap_ok bits b ?L = bitmap_ok bits b L" for b
    unfolding base_lists_def bitmap_ok_def bl by (rule refl)+
  ultimately have "kinv bits ?s ?L" using k by (simp add: kinv_def upd_heap_def)
  moreover have "sems_ok ?s ?L" by (rule sems_ok_mono [of s L]) (use inv on in \<open>auto simp: sys_inv_def upd_heap_def\<close>)
  moreover have "bufs_ok ?s ?L" by (rule bufs_ok_mono [of s L]) (use inv on in \<open>auto simp: sys_inv_def upd_heap_def\<close>)
  moreover have "waits_sorted (tcbs s) ?L" using inv by (auto simp: sys_inv_def waits_sorted_def wait_sorted_def)
  ultimately show ?thesis
    using inv tasks_ok_members [of ?L L, OF on] tm by (simp add: sys_inv_def step_ok_def)
qed

lemma sem_create_step:
  assumes inv: "sys_inv bits s L" and h: "\<not> sem_handle_ok h s"
    and c: "sertos_sem_create_counting_static E h n m out s = (r, s')"
  obtains L' where "step_ok bits s L s' L'" and "tcbs s' = tcbs s"
proof (cases "s' = s")
  case True
  then show thesis using that step_ok_refl [OF inv] by simp
next
  case False
  let ?L = "L(SemWait h \<mapsto> [])"
  let ?sem = "\<lparr>sem_count = n, sem_max_count = m, sem_is_statically_allocated = True, sem_magic = SERTOS_SEM_MAGIC_WORD\<rparr>"
  let ?s1 = "upd_heap (linked_list_init E (SemWait h)) s"
  let ?s2 = "upd_sem h (\<lambda>_. ?sem) ?s1"
  have s': "s' = ?s2\<lparr>ptr_cells := (ptr_cells ?s2)(out := h)\<rparr>" and m: "m \<noteq> 0" "n \<le> m"
    using c False by (auto simp: sertos_sem_create_counting_static_def Let_def upd_heap_def upd_sem_def split: if_splits)
  have o1: "step_ok bits s L ?s1 ?L"
    by (rule init_list_step [OF inv]) (use inv h in \<open>auto simp: sys_inv_def sems_ok_def\<close>)
  have "sems_ok ?s2 ?L"
    using step_ok_inv [OF o1] m h
    by (auto simp: sys_inv_def sems_ok_def sem_inv_def sem_handle_ok_def upd_sem_def word_neq_0_conv)
  moreover have "bufs_ok ?s2 ?L"
    by (rule bufs_ok_same [of ?s1]) (use step_ok_inv [OF o1] in \<open>simp_all add: sys_inv_def upd_sem_def\<close>)
  ultimately have "step_ok bits s L ?s2 ?L" using o1 by (simp add: step_ok_def sys_inv_def upd_sem_def)
  then have "step_ok bits s L s' ?L" by (simp add: s')
  then show thesis by (rule that) (simp add: s' upd_sem_def upd_heap_def)
qed

lemma unblock_all_step:
  assumes "sys_inv bits s L" and "L w = Some ns" and w: "is_wait_list w"
  shows "\<exists>s'. unblock_all E w s = Some s' \<and> step_ok bits s L s' (wake_all (tcbs s) ns L) \<and>
    only_wakes (tcbs s) (tcbs s') \<and> call_frame s s'"
  using assms(1,2)
proof (induction ns arbitrary: s L)
  case Nil
  obtain a s' L' where "sertos_scheduler_wait_list_unblock_highest E (Some w) s = Some (a, s')"
    "step_ok bits s L s' L'" "only_wakes (tcbs s) (tcbs s')" "call_frame s s'" "a = NULL" "L' = L"
    by (rule wake_step [OF Nil.prems w]) (use that in simp)
  then show ?case by (subst unblock_all.simps) simp
next
  case (Cons n ns)
  obtain a s1 L1 where s1: "sertos_scheduler_wait_list_unblock_highest E (Some w) s = Some (a, s1)"
    "step_ok bits s L s1 L1" "only_wakes (tcbs s) (tcbs s1)" "call_frame s s1" "a \<noteq> NULL" "L1 w = Some ns"
    "tcb_priority \<circ> tcbs s1 = tcb_priority \<circ> tcbs s" "L1 = wake_all (tcbs s) [n] L"
    by (rule wake_step [OF Cons.prems w]) (use that in \<open>simp add: take_Suc\<close>)
  obtain s2 where s2: "unblock_all E w s1 = Some s2" "step_ok bits s1 L1 s2 (wake_all (tcbs s1) ns L1)"
    "only_wakes (tcbs s1) (tcbs s2)" "call_frame s1 s2"
    using Cons.IH [OF step_ok_inv [OF s1(2)] s1(6)] by blast
  have "wake_all (tcbs s1) ns L1 = wake_all (tcbs s) ns L1"
    by (rule wake_all_cong) (use s1(7) in \<open>simp add: fun_eq_iff\<close>)
  then have wa: "wake_all (tcbs s1) ns L1 = wake_all (tcbs s) (n # ns) L"
    unfolding s1(8) by (simp split: lnode.splits)
  have "unblock_all E w s = Some s2" by (subst unblock_all.simps) (use s1(1,5) s2(1) in simp)
  moreover have "call_frame s s2" using s1(4) s2(4) by (simp add: call_frame_def)
  ultimately show ?case using step_ok_trans [OF s1(2) s2(2)] only_wakes_trans [OF s1(3) s2(3)] unfolding wa by blast
qed

lemma wake_all_wait:
  assumes "is_wait_list w" shows "\<exists>f. wake_all T ns L w = map_option f (L w) \<and> (\<forall>xs. set (f xs) \<subseteq> set xs)"
proof (induction ns arbitrary: L)
  case Nil
  show ?case by (rule exI [of _ "\<lambda>xs. xs"]) (simp add: map_option.identity)
next
  case (Cons n ns)
  show ?case
  proof (cases n)
    case (EventNode a)
    let ?L = "wake_lists a (unat (tcb_priority (T a))) L"
    obtain f where f: "wake_all T ns ?L w = map_option f (?L w)" "\<forall>xs. set (f xs) \<subseteq> set xs" using Cons.IH by blast
    then show ?thesis using wake_lists_wait [OF assms] EventNode
      by (intro exI [of _ "f \<circ> remove1 (EventNode a)"])
        (auto simp: option.map_comp comp_def dest: subsetD [OF set_remove1_subset] subsetD)
  qed (use Cons.IH in simp_all)
qed

text \<open>The deletion of an object first clears its magic word and then wakes all its waiters. In between the object
  is not valid but has waiters, so the invariant is followed on a twin state \<open>s\<close> in which the object still exists.\<close>

lemma unblock_all_twin:
  fixes s :: "('b, 'r, 'm, 'p) kstate"
  assumes inv: "sys_inv bits s L" and w: "is_wait_list w" "L w \<noteq> None" and k: "kinv bits s2 L" and T: "tcbs s2 = tcbs s"
  obtains s' s2' L' where "unblock_all E w s2 = Some s2'" and "kinv bits s2' L'" and "call_frame s2 s2'" and "tcbs s2' = tcbs s'"
    and "step_ok bits s L s' L'" and "only_wakes (tcbs s) (tcbs s')" and "call_frame s s'" and "L' w = Some []"
    and "\<And>v. is_wait_list v \<Longrightarrow> L v = Some [] \<Longrightarrow> L' v = Some []"
proof -
  obtain ns where ns: "L w = Some ns" using w(2) by blast
  have ks: "kinv bits s L" using inv by (simp add: sys_inv_def)
  let ?L = "wake_all (tcbs s) ns L"
  obtain s' where s': "unblock_all E w s = Some s'" "step_ok bits s L s' ?L" "only_wakes (tcbs s) (tcbs s')" "call_frame s s'"
    using unblock_all_step [OF inv ns w(1)] by blast
  obtain s2' where s2': "unblock_all E w s2 = Some s2'" "kinv bits s2' ?L" "?L w = Some []" "sched_frame s2 s2'"
    "tcbs s2' = (\<lambda>a. if EventNode a \<in> set ns then woken_tcb (tcbs s a) else tcbs s a)"
    using unblock_all_refines [OF k ns w(1)] unfolding T by blast
  have T': "tcbs s2' = tcbs s'" using unblock_all_refines [OF ks ns w(1)] s'(1) s2'(5) by auto
  have "?L v = Some []" if v: "is_wait_list v" "L v = Some []" for v
  proof -
    obtain f where f: "?L v = map_option f (L v)" "\<forall>xs. set (f xs) \<subseteq> set xs" using wake_all_wait [OF v(1)] by blast
    have "set (f []) \<subseteq> set []" using f(2) by blast
    then show ?thesis using f(1) v(2) by simp
  qed
  then show thesis by (rule that [OF s2'(1,2) call_frame_sched [OF s2'(4)] T' s'(2-4) s2'(3)])
qed

lemma step_ok_twin:
  assumes o1: "step_ok bits s L s' L'" and k: "kinv bits t L'" and T: "tcbs t = tcbs s'" "sertos_current_tcb t = sertos_current_tcb s'"
    and fr: "timers t = timers s'" "s_timer_subsystem_initialized t = s_timer_subsystem_initialized s'"
    and sm: "sems_ok t L'" and bf: "bufs_ok t L'"
  shows "step_ok bits s L t L'"
  using assms by (simp add: step_ok_def sys_inv_def)

text \<open>The end of a deletion: the pool, the critical section and the reschedule.\<close>

lemma delete_end:
  assumes o1: "step_ok bits s L t L'" and E: "pending_port E"
  obtains s' where "reschedule_if_running E (exit_critical E c (if b then t\<lparr>pool := pl\<rparr> else t)) = Some s'"
    and "step_ok bits s L s' L'" and "tcbs s' = tcbs t"
proof -
  let ?t = "exit_critical E c (if b then t\<lparr>pool := pl\<rparr> else t)"
  have o2: "step_ok bits s L ?t L'" using o1 by simp
  obtain s' where "reschedule_if_running E ?t = Some s'" "step_ok bits ?t L' s' L'" "tcbs s' = tcbs ?t"
    using reschedule_requests [OF step_ok_inv [OF o2] E] .
  then show thesis using that step_ok_trans [OF o2] by simp
qed

lemma sem_delete_step:
  assumes inv: "sys_inv bits s L" and E: "pending_port E"
  obtains r s' L' where "sertos_sem_delete E h s = Some (r, s')" and "step_ok bits s L s' L'" and "only_wakes (tcbs s) (tcbs s')"
proof (cases "sem_handle_ok h s")
  case False
  then show thesis using that step_ok_refl [OF inv] by (simp add: sertos_sem_delete_def)
next
  case True
  let ?s2 = "upd_sem h (\<lambda>t. t\<lparr>sem_magic := 0\<rparr>) (s\<lparr>port := snd (sertos_port_enter_critical E (port s))\<rparr>)"
  have w: "is_wait_list (SemWait h)" "L (SemWait h) \<noteq> None" and k: "kinv bits ?s2 L" and T: "tcbs ?s2 = tcbs s"
    using sem_waiters [OF inv True] inv by (auto simp: sys_inv_def upd_sem_def)
  obtain s' s3 L' where s3: "unblock_all E (SemWait h) ?s2 = Some s3" "kinv bits s3 L'" "call_frame ?s2 s3" "tcbs s3 = tcbs s'"
    "step_ok bits s L s' L'" "only_wakes (tcbs s) (tcbs s')" "call_frame s s'" "L' (SemWait h) = Some []"
    by (rule unblock_all_twin [OF inv w k T], rule that)
  note f = call_frameD [OF s3(3)] call_frameD [OF s3(7)]
  have i: "sys_inv bits s' L'" by (rule step_ok_inv [OF s3(5)])
  have sm: "sems s3 = (sems s')(h := (sems s' h)\<lparr>sem_magic := 0\<rparr>)" using f by (simp add: upd_sem_def)
  have "sems_ok s3 L'"
    using i s3(8) by (auto simp: sys_inv_def sems_ok_def sem_inv_def sem_handle_ok_def sm SERTOS_SEM_MAGIC_WORD_def on_list_def)
  moreover have "bufs_ok s3 L'" by (rule bufs_ok_same [of s']) (use i f in \<open>simp_all add: sys_inv_def upd_sem_def\<close>)
  ultimately have o3: "step_ok bits s L s3 L'"
    by (intro step_ok_twin [OF s3(5,2,4)]) (use f in \<open>simp_all add: upd_sem_def\<close>)
  obtain s5 where s5: "reschedule_if_running E (exit_critical E (fst (sertos_port_enter_critical E (port s)))
      (if \<not> sem_is_statically_allocated (sems s3 h) then s3\<lparr>pool := memory_pool_free E h (pool s3)\<rparr> else s3)) = Some s5"
    "step_ok bits s L s5 L'" "tcbs s5 = tcbs s3" by (rule delete_end [OF o3 E], rule that)
  have "sertos_sem_delete E h s = Some (SERTOS_STATUS_OK, s5)"
    using True s3(1) s5(1) by (simp add: sertos_sem_delete_def enter_critical_eq Let_def)
  then show thesis by (rule that [OF _ s5(2)]) (use s3(4,6) s5(3) in simp)
qed

end

section \<open>Task management\<close>

context kernel_env
begin

text \<open>A call that ends by rescheduling.\<close>

lemma reschedule_after:
  assumes "step_ok bits s L s' L'" and "follows (tcbs s) (tcbs s')" and E: "pending_port E"
    and "x = map_option (Pair r) (reschedule_if_running E s')"
  obtains s3 where "x = Some (r, s3)" and "step_ok bits s L s3 L'" and "follows (tcbs s) (tcbs s3)"
proof -
  obtain s3 where s3: "reschedule_if_running E s' = Some s3" "step_ok bits s' L' s3 L'" "tcbs s3 = tcbs s'"
    using reschedule_requests [OF step_ok_inv [OF assms(1)] E] .
  show thesis by (rule that [of s3]) (use s3 assms step_ok_trans [OF assms(1) s3(2)] in simp_all)
qed

lemma create_step:
  assumes inv: "sys_inv bits s L" and E: "pending_port E"
    and t: "\<not> valid_task (tcbs s) t \<or> tcb_state (tcbs s t) = SERTOS_TASK_STATE_TERMINATED"
  obtains r s' L' where "sertos_task_create_static E config t out s = Some (r, s')" and "step_ok bits s L s' L'"
    and "follows (tcbs s) (tcbs s')"
proof (cases "\<exists>r. sertos_task_create_static E config t out s = Some (r, s)")
  case True
  then show thesis using that step_ok_refl [OF inv] by auto
next
  case False
  then obtain c where c: "config = Some c" "t \<noteq> NULL" "out \<noteq> NULL" "cfg_stack_buffer c \<noteq> NULL"
    "validate_task_config (Some c) = SERTOS_STATUS_OK"
    by (auto simp: sertos_task_create_static_def Let_def split: if_splits option.splits)
  have k: "kinv bits s L" using inv by (simp add: sys_inv_def)
  have "\<not> linked L t"
    using t inv placed_valid [OF inv, of t] by (auto simp: sys_inv_def tasks_ok_def placed_def)
  then have fresh: "fresh_task t L" by (auto simp: linked_def fresh_task_def)
  let ?p = "unat (cfg_priority c)"
  have p: "?p < SERTOS_CONFIG_MAX_PRIORITIES" using c(5) by (simp add: validate_task_config_OK)
  obtain ns where ns: "L (ReadyQ ?p) = Some ns" using kinv_ready_list [OF k p] .
  obtain rs where rs: "L TaskRegistry = Some rs" using k unfolding kinv_def base_lists_def by blast
  let ?L = "L(ReadyQ ?p \<mapsto> ns @ [StateNode t], TaskRegistry \<mapsto> rs @ [RegistryNode t])"
  obtain s' where s': "sertos_task_create_static E config t out s = map_option (Pair SERTOS_STATUS_OK) (reschedule_if_running E s')"
    "kinv bits s' ?L" "\<And>a. a \<noteq> t \<Longrightarrow> tcbs s' a = tcbs s a" "tcb_priority (tcbs s' t) = cfg_priority c"
    "tcb_state (tcbs s' t) = SERTOS_TASK_STATE_READY" "tcb_magic (tcbs s' t) = SERTOS_TASK_MAGIC_WORD" "objects_kept s s'"
    by (rule create_static_refines [OF k fresh c(2-5) ns rs]) (use c(1) that in simp)
  have o1: "step_ok bits s L s' ?L"
  proof (rule step_ok_move [OF inv s'(2,7,3)])
    show "others_same t L ?L" using ns rs by (auto simp: others_same_def on_list_def)
    show "placed (tcbs s') (sertos_current_tcb s) ?L t" using p by (simp add: placed_def s'(4,5) on_list_def)
    show "\<not> asleep (tcbs s) t" using t by (auto simp: asleep_def)
    show "valid_task (tcbs s') t" using c(2) s'(6) by (simp add: valid_task_def)
    show "waits_sorted (tcbs s') ?L"
    proof (rule waits_sorted_other [OF _ _ k])
      show "waits_sorted (tcbs s) L" using inv by (simp add: sys_inv_def)
      show "tcb_priority (tcbs s' a) = tcb_priority (tcbs s a)" if "\<exists>wl. on_list L wl (EventNode a)" for a
        using that fresh s'(3) [of a] by (cases "a = t") (auto simp: fresh_task_def)
    qed auto
  qed (auto simp: on_list_def split: if_splits)
  have "follows (tcbs s) (tcbs s')" using s'(3) t unfolding follows_def by metis
  from reschedule_after [OF o1 this E s'(1)] show thesis using that by blast
qed

lemma ready_unlinked:
  assumes inv: "sys_inv bits s L" and "valid_task (tcbs s) t" and "tcb_state (tcbs s t) = SERTOS_TASK_STATE_READY"
  obtains q where "on_list L (ReadyQ q) (StateNode t)" and "q = unat (tcb_priority (tcbs s t))"
    and "q < SERTOS_CONFIG_MAX_PRIORITIES" and "\<And>wl. \<not> on_list L wl (EventNode t)"
proof -
  have k: "kinv bits s L" using inv by (simp add: sys_inv_def)
  have on: "on_list L (ReadyQ (unat (tcb_priority (tcbs s t)))) (StateNode t)"
    by (rule placed_ready [OF inv assms(2)]) (simp add: assms(3))
  show thesis by (rule that [OF on refl]) (use kinv_ready [OF k on] kinv_wait_not_ready [OF k _, of _ t] on in auto)
qed

lemma running_is_current:
  assumes "sys_inv bits s L" and "valid_task (tcbs s) t" and "tcb_state (tcbs s t) = SERTOS_TASK_STATE_RUNNING"
  shows "t = sertos_current_tcb s"
  using placed_valid [OF assms(1,2)] assms(3) by (simp add: placed_def)

text \<open>Which states the calls accept, by the transition table: the others are refused without effect.\<close>

lemma task_change_states:
  "task_change_ok t SERTOS_TASK_STATE_SUSPENDED s \<longleftrightarrow> valid_task (tcbs s) t \<and>
     tcb_state (tcbs s t) \<in> {SERTOS_TASK_STATE_READY, SERTOS_TASK_STATE_RUNNING, SERTOS_TASK_STATE_BLOCKED}"
  "task_change_ok t SERTOS_TASK_STATE_READY s \<longleftrightarrow> valid_task (tcbs s) t \<and>
     tcb_state (tcbs s t) \<in> {SERTOS_TASK_STATE_RUNNING, SERTOS_TASK_STATE_BLOCKED, SERTOS_TASK_STATE_SUSPENDED}"
  "task_change_ok t SERTOS_TASK_STATE_TERMINATED s \<longleftrightarrow> valid_task (tcbs s) t \<and> tcb_state (tcbs s t) \<noteq> SERTOS_TASK_STATE_TERMINATED"
  by (cases "tcb_state (tcbs s t)";
      auto simp: task_change_ok_def valid_task_def sertos_task_is_valid_transition_def s_task_transitions_def)+

lemma suspend_step:
  assumes inv: "sys_inv bits s L" and nb: "tcb_state (tcbs s t) \<noteq> SERTOS_TASK_STATE_BLOCKED"
    and t0: "t \<noteq> NULL" "t \<noteq> sertos_current_tcb s"
  obtains r s' L' where "sertos_task_suspend E t s = Some (r, s')" and "step_ok bits s L s' L'" and "follows (tcbs s) (tcbs s')"
proof (cases "task_change_ok t SERTOS_TASK_STATE_SUSPENDED s")
  case False
  then show thesis using that step_ok_refl [OF inv] t0(1) by (simp add: sertos_task_suspend_def handle_or_current_def)
next
  case ok: True
  then have v: "valid_task (tcbs s) t" by (simp add: task_change_states)
  then have True: "tcb_magic (tcbs s t) = SERTOS_TASK_MAGIC_WORD" by (simp add: valid_task_def)
  have t: "tcb_state (tcbs s t) = SERTOS_TASK_STATE_READY" "t \<noteq> NULL" "t \<noteq> sertos_current_tcb s"
    using ok nb t0 running_is_current [OF inv v] by (auto simp: task_change_states)
  have k: "kinv bits s L" using inv by (simp add: sys_inv_def)
  obtain q where q: "on_list L (ReadyQ q) (StateNode t)" "\<And>wl. \<not> on_list L wl (EventNode t)" "q < SERTOS_CONFIG_MAX_PRIORITIES"
    "q = unat (tcb_priority (tcbs s t))"
    by (rule ready_unlinked [OF inv v t(1)], rule that)
  let ?L = "L(ReadyQ q := map_option (remove1 (StateNode t)) (L (ReadyQ q)))"
  obtain s' where s': "sertos_task_suspend E t s = Some (SERTOS_STATUS_OK, s')" "kinv bits s' ?L" "\<And>l. \<not> on_list ?L l (StateNode t)"
    "tcbs s' = (tcbs s)(t := (tcbs s t)\<lparr>tcb_state := SERTOS_TASK_STATE_SUSPENDED\<rparr>)" "tcb_wait_list (tcbs s t) = None" "call_frame s s'"
    by (rule suspend_ready_refines [OF k True t(3) q(1) t(1)], rule that)
  have "step_ok bits s L s' ?L"
  proof (rule step_ok_move [OF inv s'(2) call_frame_objects [OF s'(6)], of t])
    show "others_same t L ?L" by (rule others_same_map) (simp add: in_set_remove1_other)
    have "on_list ?L TaskRegistry (RegistryNode t)" using registered [OF inv v] t(1) by (simp add: on_list_def)
    then show "placed (tcbs s') (sertos_current_tcb s) ?L t" using s' q(3,4) by (simp add: placed_def)
    have "waits_sorted (tcbs s) ?L" using inv by (simp add: sys_inv_def waits_sorted_upd)
    then show "waits_sorted (tcbs s') ?L" using waits_sorted_cong [of "tcbs s'" "tcbs s" ?L] by (simp add: s'(4))
  qed (use v t(1) s'(4) in \<open>auto simp: asleep_def valid_task_def on_list_def split: if_splits\<close>)
  moreover have "follows (tcbs s) (tcbs s')" by (rule follows_one [of t]) (use t(1) s'(4) in auto)
  ultimately show thesis using that s'(1) by blast
qed

lemma resume_step:
  assumes inv: "sys_inv bits s L" and E: "pending_port E" and nb: "tcb_state (tcbs s t) \<noteq> SERTOS_TASK_STATE_BLOCKED" and cur: "t \<noteq> sertos_current_tcb s"
  obtains r s' L' where "sertos_task_resume E t s = Some (r, s')" and "step_ok bits s L s' L'" and "follows (tcbs s) (tcbs s')"
proof (cases "task_change_ok t SERTOS_TASK_STATE_READY s")
  case False
  then show thesis using that step_ok_refl [OF inv] by (simp add: sertos_task_resume_def)
next
  case ok: True
  then have True: "valid_task (tcbs s) t" by (simp add: task_change_states)
  have st: "tcb_state (tcbs s t) = SERTOS_TASK_STATE_SUSPENDED"
    using ok nb cur running_is_current [OF inv True] by (auto simp: task_change_states)
  have t: "t \<noteq> NULL" "tcb_magic (tcbs s t) = SERTOS_TASK_MAGIC_WORD" using True by (simp_all add: valid_task_def)
  have k: "kinv bits s L" using inv by (simp add: sys_inv_def)
  let ?p = "unat (tcb_priority (tcbs s t))"
  have free: "\<And>l. \<not> on_list L l (StateNode t)" and wn: "tcb_wait_list (tcbs s t) = None"
    and p: "?p < SERTOS_CONFIG_MAX_PRIORITIES" using placed_valid [OF inv True] by (simp_all add: placed_def st)
  obtain ns where ns: "L (ReadyQ ?p) = Some ns" using kinv_ready_list [OF k p] .
  let ?L = "L(ReadyQ ?p \<mapsto> ns @ [StateNode t])"
  obtain s' where s': "sertos_task_resume E t s = map_option (Pair SERTOS_STATUS_OK) (reschedule_if_running E s')" "kinv bits s' ?L"
    "tcbs s' = (tcbs s)(t := (tcbs s t)\<lparr>tcb_state := SERTOS_TASK_STATE_READY\<rparr>)" "call_frame s s'"
    by (rule resume_refines [OF k t st free wn refl p ns], rule that)
  have o1: "step_ok bits s L s' ?L"
  proof (rule step_ok_move [OF inv s'(2) call_frame_objects [OF s'(4)], of t])
    show "others_same t L ?L" using ns by (auto simp: others_same_def on_list_def)
    have "on_list ?L TaskRegistry (RegistryNode t)" using registered [OF inv True] st by (simp add: on_list_def)
    then show "placed (tcbs s') (sertos_current_tcb s) ?L t" using p by (simp add: placed_def s'(3) on_list_def)
    have "waits_sorted (tcbs s) ?L" using inv by (simp add: sys_inv_def waits_sorted_upd)
    then show "waits_sorted (tcbs s') ?L" using waits_sorted_cong [of "tcbs s'" "tcbs s" ?L] by (simp add: s'(3))
  qed (use True st s'(3) in \<open>auto simp: asleep_def valid_task_def on_list_def split: if_splits\<close>)
  have fl: "follows (tcbs s) (tcbs s')" by (rule follows_one [of t]) (use st s'(3) in auto)
  from reschedule_after [OF o1 fl E s'(1)] show thesis using that by blast
qed

lemma set_priority_ready_step:
  assumes inv: "sys_inv bits s L" and E: "pending_port E" and st: "tcb_state (tcbs s t) = SERTOS_TASK_STATE_READY" and t0: "t \<noteq> NULL"
  obtains r s' L' where "sertos_task_set_priority E t prio s = Some (r, s')" and "step_ok bits s L s' L'"
    and "follows (tcbs s) (tcbs s')"
proof (cases "valid_task (tcbs s) t \<and> unat prio < SERTOS_CONFIG_MAX_PRIORITIES")
  case False
  then show thesis using that step_ok_refl [OF inv] t0
    by (auto simp: sertos_task_set_priority_def handle_or_current_def valid_task_def Let_def)
next
  case True
  then have v: "valid_task (tcbs s) t" and t: "tcb_magic (tcbs s t) = SERTOS_TASK_MAGIC_WORD"
    and p: "unat prio < SERTOS_CONFIG_MAX_PRIORITIES" by (simp_all add: valid_task_def)
  have k: "kinv bits s L" using inv by (simp add: sys_inv_def)
  obtain q where q: "on_list L (ReadyQ q) (StateNode t)" "\<And>wl. \<not> on_list L wl (EventNode t)"
    by (rule ready_unlinked [OF inv v st], rule that)
  let ?L = "requeue_lists t q (unat prio) L"
  obtain s' where s': "sertos_task_set_priority E t prio s = map_option (Pair SERTOS_STATUS_OK) (reschedule_if_running E s')" "kinv bits s' ?L"
    "tcbs s' = (tcbs s)(t := (tcbs s t)\<lparr>tcb_priority := prio, tcb_base_priority := prio\<rparr>)" "call_frame s s'"
    by (rule set_priority_ready_refines [OF k t0 t q(1) st p], rule that)
  have same: "?L l = L l" if "\<And>r. l \<noteq> ReadyQ r" for l using that by (auto simp: requeue_lists_def Let_def)
  have wt: "?L wl = L wl" if "is_wait_list wl" for wl by (rule same) (use that in auto)
  obtain ns where ns: "L (ReadyQ (unat prio)) = Some ns" using kinv_ready_list [OF k p] .
  have o1: "step_ok bits s L s' ?L"
  proof (rule step_ok_move [OF inv s'(2) call_frame_objects [OF s'(4)] _ others_requeue])
    have "on_list ?L TaskRegistry (RegistryNode t)" using registered [OF inv v] st same [of TaskRegistry] by (simp add: on_list_def)
    then show "placed (tcbs s') (sertos_current_tcb s) ?L t"
      using p ns by (auto simp: placed_def s'(3) on_list_def st requeue_lists_def Let_def)
    show "waits_sorted (tcbs s') ?L"
      by (rule waits_sorted_other [of "tcbs s" L, OF _ wt k]) (use inv q(2) in \<open>auto simp: sys_inv_def s'(3)\<close>)
    show "?L ActiveTimers = L ActiveTimers" by (rule same) simp
  qed (use v st s'(3) wt in \<open>auto simp: asleep_def valid_task_def on_list_def split: if_splits\<close>)
  have fl: "follows (tcbs s) (tcbs s')" by (rule follows_one [of t]) (use s'(3) in auto)
  from reschedule_after [OF o1 fl E s'(1)] show thesis using that by blast
qed

text \<open>The priority of a task that is in no ready queue and on no wait list is only written to its control block.\<close>

lemma set_priority_free_step:
  assumes inv: "sys_inv bits s L" and E: "pending_port E" and t: "valid_task (tcbs s) t"
    and off: "tcb_state (tcbs s t) \<notin> {SERTOS_TASK_STATE_READY, SERTOS_TASK_STATE_RUNNING}"
      "tcb_state (tcbs s t) = SERTOS_TASK_STATE_BLOCKED \<Longrightarrow> tcb_wait_list (tcbs s t) = None"
    and p: "unat prio < SERTOS_CONFIG_MAX_PRIORITIES"
  obtains r s' L' where "sertos_task_set_priority E t prio s = Some (r, s')" and "step_ok bits s L s' L'"
    and "follows (tcbs s) (tcbs s')"
proof -
  let ?f = "\<lambda>t. t\<lparr>tcb_priority := prio, tcb_base_priority := prio\<rparr>"
  let ?s2 = "exit_critical E (fst (sertos_port_enter_critical E (port s))) (upd_tcb t ?f (s\<lparr>port := snd (sertos_port_enter_critical E (port s))\<rparr>))"
  have k: "kinv bits s L" using inv by (simp add: sys_inv_def)
  have pl: "placed (tcbs s) (sertos_current_tcb s) L t" by (rule placed_valid [OF inv t])
  have noE: "\<not> on_list L wl (EventNode t)" for wl using kinv_wait [OF k, of wl t] waiting_state [OF inv, of t wl] off(2) by auto
  have noW: "tcb_wait_list (tcbs s t) = None" if "on_list L DelayList (StateNode t)" using waiting_state [OF inv, of t] off(2) that by blast
  have noR: "\<not> on_list L (ReadyQ q) (StateNode t)" for q using ready_state [OF inv, of q t] off(1) by blast
  let ?T = "(tcbs s)(t := ?f (tcbs s t))"
  have T: "tcbs ?s2 = ?T" by simp
  have v: "valid_task (tcbs ?s2) t" using t by (simp add: valid_task_def)
  have "kinv bits ?s2 L"
  proof -
    have ok: "ready_ok (tcbs s) L" "delay_ok (tcbs s) L" "wait_ok (tcbs s) L" using k by (simp_all add: kinv_def)
    have "ready_ok ?T L" using ok(1) noR by (auto simp: ready_ok_def)
    moreover have "delay_ok ?T L" using ok(2) noW p by (auto simp: delay_ok_def)
    moreover have "wait_ok ?T L" using ok(3) noE by (auto simp: wait_ok_def)
    ultimately show ?thesis using k by (simp add: kinv_def)
  qed
  moreover have "tasks_ok (tcbs ?s2) (sertos_current_tcb s) L"
  proof (rule tasks_ok_move [of "tcbs s" _ L t])
    show "tasks_ok (tcbs s) (sertos_current_tcb s) L" using inv by (simp add: sys_inv_def)
    show "placed (tcbs ?s2) (sertos_current_tcb s) L t" using pl off p by (auto simp: placed_def T split: SertosTaskState.splits)
  qed (use v in \<open>simp_all add: others_same_def\<close>)
  moreover have "waits_sorted (tcbs ?s2) L"
    by (rule waits_sorted_other [of "tcbs s" L, OF _ _ k]) (use inv noE in \<open>auto simp: sys_inv_def\<close>)
  moreover have "sems_ok ?s2 L" by (rule sems_ok_mono [of s L]) (use inv in \<open>auto simp: sys_inv_def\<close>)
  moreover have "bufs_ok ?s2 L" by (rule bufs_ok_same [of s]) (use inv in \<open>simp_all add: sys_inv_def\<close>)
  moreover have "sleeps_on (tcbs s) (tcbs ?s2)" by (auto simp: sleeps_on_def asleep_def valid_task_def)
  ultimately have o2: "step_ok bits s L ?s2 L" by (simp add: step_ok_def sys_inv_def)
  have eq: "sertos_task_set_priority E t prio s = map_option (Pair SERTOS_STATUS_OK) (reschedule_if_running E ?s2)"
    using t off(1) p by (simp add: sertos_task_set_priority_def handle_or_current_def valid_task_def enter_critical_eq Let_def map_option_bind)
  have "follows (tcbs s) (tcbs ?s2)" by (rule follows_one [of t]) simp_all
  from reschedule_after [OF o2 this E eq] show thesis using that by blast
qed

text \<open>So every task that neither runs nor waits in a wait list can be given a new priority.\<close>

lemma set_priority_step:
  assumes inv: "sys_inv bits s L" and E: "pending_port E" and t0: "t \<noteq> NULL" "t \<noteq> sertos_current_tcb s \<or> tcb_state (tcbs s t) = SERTOS_TASK_STATE_READY"
    and nw: "tcb_state (tcbs s t) = SERTOS_TASK_STATE_BLOCKED \<Longrightarrow> tcb_wait_list (tcbs s t) = None"
  obtains r s' L' where "sertos_task_set_priority E t prio s = Some (r, s')" and "step_ok bits s L s' L'"
    and "follows (tcbs s) (tcbs s')"
proof -
  consider "\<not> (valid_task (tcbs s) t \<and> unat prio < SERTOS_CONFIG_MAX_PRIORITIES)"
    | "tcb_state (tcbs s t) = SERTOS_TASK_STATE_READY"
    | "valid_task (tcbs s) t" "unat prio < SERTOS_CONFIG_MAX_PRIORITIES" "tcb_state (tcbs s t) \<noteq> SERTOS_TASK_STATE_READY" by blast
  then show thesis
  proof cases
    case 1
    then show thesis using that step_ok_refl [OF inv] t0(1)
      by (auto simp: sertos_task_set_priority_def handle_or_current_def valid_task_def Let_def)
  next
    case 2
    then show thesis by (rule set_priority_ready_step [OF inv E _ t0(1)]) (rule that)
  next
    case 3
    have run: "tcb_state (tcbs s t) \<noteq> SERTOS_TASK_STATE_RUNNING" using running_is_current [OF inv 3(1)] t0(2) 3(3) by blast
    show thesis by (rule set_priority_free_step [OF inv E 3(1) _ nw 3(2)]) (use that 3 run in auto)
  qed
qed

lemma delete_step:
  assumes inv: "sys_inv bits s L" and nb: "tcb_state (tcbs s t) \<noteq> SERTOS_TASK_STATE_BLOCKED"
    and t0: "t \<noteq> NULL" "t \<noteq> sertos_current_tcb s"
  obtains r s' L' where "sertos_task_delete E t s = Some (r, s')" and "step_ok bits s L s' L'" and "follows (tcbs s) (tcbs s')"
proof (cases "task_change_ok t SERTOS_TASK_STATE_TERMINATED s")
  case False
  then show thesis using that step_ok_refl [OF inv] t0(1) by (simp add: sertos_task_delete_def handle_or_current_def)
next
  case ok: True
  then have v: "valid_task (tcbs s) t" by (simp add: task_change_states)
  then have True: "tcb_magic (tcbs s t) = SERTOS_TASK_MAGIC_WORD" by (simp add: valid_task_def)
  have t: "tcb_state (tcbs s t) \<in> {SERTOS_TASK_STATE_READY, SERTOS_TASK_STATE_SUSPENDED}" "t \<noteq> NULL" "t \<noteq> sertos_current_tcb s"
    using ok nb t0 running_is_current [OF inv v] by (cases "tcb_state (tcbs s t)"; auto simp: task_change_states)+
  have k: "kinv bits s L" using inv by (simp add: sys_inv_def)
  let ?q = "unat (tcb_priority (tcbs s t))"
  have ready: "on_list L (ReadyQ ?q) (StateNode t)" if "tcb_state (tcbs s t) = SERTOS_TASK_STATE_READY"
    using placed_ready [OF inv v] that by simp
  have noE: "\<not> on_list L wl (EventNode t)" for wl using waiting_state [OF inv, of t wl] t(1) by auto
  let ?L1 = "if tcb_state (tcbs s t) = SERTOS_TASK_STATE_READY
    then L(ReadyQ ?q := map_option (remove1 (StateNode t)) (L (ReadyQ ?q))) else L"
  have reg: "on_list L TaskRegistry (RegistryNode t)" using registered [OF inv v] t(1) by auto
  then obtain rs where rs: "L TaskRegistry = Some rs" "RegistryNode t \<in> set rs" by (rule on_listE)
  let ?L = "?L1(TaskRegistry \<mapsto> remove1 (RegistryNode t) rs)"
  obtain s' where s': "sertos_task_delete E t s = Some (SERTOS_STATUS_OK, s')" "kinv bits s' ?L"
    "\<And>a. a \<noteq> t \<Longrightarrow> tcbs s' a = tcbs s a" "tcb_state (tcbs s' t) = SERTOS_TASK_STATE_TERMINATED"
    "tcb_magic (tcbs s' t) = SERTOS_TASK_MAGIC_WORD" "tcb_priority (tcbs s' t) = tcb_priority (tcbs s t)" "objects_kept s s'"
    by (rule delete_refines [OF k t(2) True t(3) _ rs, of ?q ?L1]) (use ready t(1) that in \<open>auto split: if_splits\<close>)
  have dist: "distinct ns" if "L l = Some ns" for l ns using heap_ok_distinct [OF kinv_heap [OF k] that] .
  have on: "on_list ?L l n \<longleftrightarrow> on_list L l n \<and> n \<noteq> RegistryNode t \<and> n \<noteq> StateNode t" for l n
  proof -
    have reg1: "on_list L l (RegistryNode t) \<longleftrightarrow> l = TaskRegistry" for l using kinv_unique [OF k reg] reg by blast
    have st1: "on_list L l (StateNode t) \<longleftrightarrow> tcb_state (tcbs s t) = SERTOS_TASK_STATE_READY \<and> l = ReadyQ ?q" for l
      using kinv_unique [OF k ready] ready placed_valid [OF inv v] t(1) by (auto simp: placed_def)
    show ?thesis
      using reg1 [of l] st1 [of l] rs dist [of TaskRegistry] dist [of "ReadyQ ?q"]
      by (cases "L l") (auto simp: on_list_def split: if_splits option.splits)
  qed
  have "step_ok bits s L s' ?L"
  proof (rule step_ok_move [OF inv s'(2,7,3)])
    show "others_same t L ?L" unfolding others_same_def on by auto
    show "\<not> asleep (tcbs s) t" using t(1) by (auto simp: asleep_def)
    show "valid_task (tcbs s') t" using t(2) s'(5) by (simp add: valid_task_def)
    show "placed (tcbs s') (sertos_current_tcb s) ?L t"
      using placed_valid [OF inv v] noE unfolding placed_def linked_def on s'(4,6) by auto
    show "waits_sorted (tcbs s') ?L"
    proof (rule waits_sorted_other [OF _ _ k])
      show "waits_sorted (tcbs s) L" using inv by (simp add: sys_inv_def)
      show "tcb_priority (tcbs s' a) = tcb_priority (tcbs s a)" for a using s'(3,6) by (cases "a = t") auto
    qed auto
    show "on_list L (SemWait h) n \<or> sem_handle_ok h s" if "on_list ?L (SemWait h) n" for h n using that unfolding on by blast
    show "on_list L v n \<or> owner_ok v s" if "on_list ?L v n" for v n using that unfolding on by blast
  qed auto
  moreover have "follows (tcbs s) (tcbs s')" by (rule follows_one [of t]) (use t(1) s'(3,4) in auto)
  ultimately show thesis using that s'(1) by blast
qed

end

section \<open>Switching, starting, locking\<close>

context kernel_env
begin

lemma perform_switch_frame:
  assumes "sertos_scheduler_perform_switch E s = Some (n, s')"
  shows "sems s' = sems s" "timers s' = timers s" "s_timer_subsystem_initialized s' = s_timer_subsystem_initialized s"
    "tcb_priority (tcbs s' a) = tcb_priority (tcbs s a)" "tcb_wait_list (tcbs s' a) = tcb_wait_list (tcbs s a)"
    "tcb_magic (tcbs s' a) = tcb_magic (tcbs s a)" "tcb_delay_ticks (tcbs s' a) = tcb_delay_ticks (tcbs s a)"
    "queues s' = queues s" "streams s' = streams s"
  using assms
  by (auto simp: sertos_scheduler_perform_switch_def sertos_stats_on_switch_def upd_tcb_def Let_def split: bind_splits if_splits)

lemma select_on_queue:
  assumes k: "kinv bits s L" and n: "abs_select L = n" "n \<noteq> NULL"
  shows "on_list L (ReadyQ (unat (tcb_priority (tcbs s n)))) (StateNode n)"
proof -
  obtain p where p: "on_list L (ReadyQ p) (StateNode n)" using abs_select_on_ready [OF k] n by blast
  then show ?thesis using kinv_ready [OF k p] by simp
qed

lemma switch_step:
  assumes inv: "sys_inv bits s L"
  obtains t s' where "sertos_scheduler_perform_switch E s = Some (t, s')" and "step_ok bits s L s' L" and "follows (tcbs s) (tcbs s')"
proof -
  have k: "kinv bits s L" using inv by (simp add: sys_inv_def)
  let ?n = "abs_select L"
  obtain s' where s': "sertos_scheduler_perform_switch E s = Some (sertos_current_tcb s', s')" "kinv bits s' L"
    "sertos_current_tcb s' = (if ?n = NULL then sertos_current_tcb s else ?n)" "?n = NULL \<Longrightarrow> s' = s"
    "?n \<noteq> NULL \<Longrightarrow> tcb_state (tcbs s' ?n) = SERTOS_TASK_STATE_RUNNING"
    "\<And>a. ?n \<noteq> NULL \<Longrightarrow> a \<noteq> ?n \<Longrightarrow> tcb_state (tcbs s' a) =
      (if a = sertos_current_tcb s \<and> a \<noteq> NULL \<and> tcb_state (tcbs s a) = SERTOS_TASK_STATE_RUNNING
       then SERTOS_TASK_STATE_READY else tcb_state (tcbs s a))"
    by (rule perform_switch_refines [OF k], rule that)
  note fr = perform_switch_frame [OF s'(1)]
  show thesis
  proof (cases "?n = NULL")
    case True
    then show thesis using that s'(1,4) step_ok_refl [OF inv] by simp
  next
    case False
    have on: "on_list L (ReadyQ (unat (tcb_priority (tcbs s ?n)))) (StateNode ?n)" by (rule select_on_queue [OF k refl False])
    have v: "valid_task (tcbs s') a = valid_task (tcbs s) a" for a by (simp add: valid_task_def fr)
    have vn: "valid_task (tcbs s) ?n" using linked_valid [OF inv] on by blast
    have "placed (tcbs s') ?n L a" if a: "valid_task (tcbs s) a" for a
    proof (cases "a = ?n")
      case True
      have "on_list L TaskRegistry (RegistryNode ?n)" using registered [OF inv vn] ready_state [OF inv on] by auto
      then show ?thesis using True kinv_ready [OF k on] on by (simp add: placed_def fr s'(5) [OF False])
    next
      case ne: False
      have "placed (tcbs s) (sertos_current_tcb s) L a" "a \<noteq> NULL" using placed_valid [OF inv a] a by (simp_all add: valid_task_def)
      then show ?thesis using ne by (auto simp: placed_def fr s'(6) [OF False ne] split: SertosTaskState.splits)
    qed
    then have "tasks_ok (tcbs s') ?n L" using inv vn by (simp add: tasks_ok_def sys_inv_def v)
    moreover have "sems_ok s' L" by (rule sems_ok_mono [of s L]) (use inv fr(1) in \<open>auto simp: sys_inv_def\<close>)
    moreover have "bufs_ok s' L" by (rule bufs_ok_same [of s L]) (use inv fr(8,9) in \<open>simp_all add: sys_inv_def\<close>)
    moreover have "waits_sorted (tcbs s') L" using inv waits_sorted_cong [of "tcbs s'" "tcbs s" L] fr(4) by (simp add: sys_inv_def)
    moreover have "tcb_state (tcbs s' a) = SERTOS_TASK_STATE_BLOCKED" if "tcb_state (tcbs s a) = SERTOS_TASK_STATE_BLOCKED" for a
      using that ready_state [OF inv on] s'(6) [OF False, of a] by (cases "a = ?n") auto
    then have "sleeps_on (tcbs s) (tcbs s')" by (auto simp: sleeps_on_def asleep_def v fr)
    ultimately have "step_ok bits s L s' L" using inv s'(2,3) fr(2,3) False by (simp add: sys_inv_def step_ok_def)
    moreover have "follows (tcbs s) (tcbs s')" unfolding follows_def
      using s'(5) [OF False] s'(6) [OF False] ready_state [OF inv on] by (metis empty_iff insert_iff transitions_allowed(1,2))
    ultimately show thesis using that s'(1) by blast
  qed
qed

text \<open>After a switch the one RUNNING task is the current one, and no other task that could run has a higher priority.\<close>

lemma switch_highest:
  assumes inv: "sys_inv bits s L" and sw: "sertos_scheduler_perform_switch E s = Some (t, s')" and a: "valid_task (tcbs s') a"
    and st: "tcb_state (tcbs s' a) \<in> {SERTOS_TASK_STATE_READY, SERTOS_TASK_STATE_RUNNING}"
  shows "t = sertos_current_tcb s'" and "tcb_state (tcbs s' t) = SERTOS_TASK_STATE_RUNNING"
    and "tcb_priority (tcbs s' a) \<le> tcb_priority (tcbs s' t)" and "tcb_state (tcbs s' a) = SERTOS_TASK_STATE_RUNNING \<Longrightarrow> a = t"
proof -
  have inv': "sys_inv bits s' L" by (rule switch_step [OF inv]) (use sw step_ok_inv in auto)
  then have k: "kinv bits s' L" and k0: "kinv bits s L" using inv by (simp_all add: sys_inv_def)
  let ?p = "unat (tcb_priority (tcbs s' a))"
  have on: "on_list L (ReadyQ ?p) (StateNode a)" by (rule placed_ready [OF inv' a st])
  then obtain ns where ns: "L (ReadyQ ?p) = Some ns" "ns \<noteq> []" by (metis on_listE list.set_intros(1) empty_iff empty_set)
  have top: "abs_select L \<noteq> NULL" "?p \<le> unat (tcb_priority (tcbs s' (abs_select L)))"
    by (rule abs_select_highest [OF k _ ns]; use kinv_ready [OF k on] in simp)+
  have "t = abs_select L" "t = sertos_current_tcb s'" "tcb_state (tcbs s' (abs_select L)) = SERTOS_TASK_STATE_RUNNING"
    by (rule perform_switch_refines [OF k0]; use sw top(1) in simp)+
  then show cur: "t = sertos_current_tcb s'" and "tcb_state (tcbs s' t) = SERTOS_TASK_STATE_RUNNING"
    and "tcb_priority (tcbs s' a) \<le> tcb_priority (tcbs s' t)" using top(2) by (simp_all add: word_le_nat_alt)
  show "a = t" if "tcb_state (tcbs s' a) = SERTOS_TASK_STATE_RUNNING"
    using placed_valid [OF inv' a] that cur by (simp add: placed_def)
qed

lemma start_step:
  assumes inv: "sys_inv bits s L" and E: "pending_port E"
  obtains s' where "sertos_scheduler_start E s = Some s'" and "step_ok bits s L s' L" and "follows (tcbs s) (tcbs s')"
proof -
  let ?s2 = "s\<lparr>s_is_running := True, port := sertos_port_runtime_counter_init E (port s)\<rparr>"
  let ?r = "sertos_port_tick_init E (s_tick_rate_hz s) (port ?s2)"
  let ?s3 = "?s2\<lparr>port := snd ?r\<rparr>"
  have i3: "step_ok bits s L ?s3 L" and i0: "step_ok bits s L (?s3\<lparr>s_is_running := False\<rparr>) L" using step_ok_refl [OF inv] by simp_all
  obtain c s4 where s4: "sertos_scheduler_perform_switch E ?s3 = Some (c, s4)" "step_ok bits ?s3 L s4 L" "follows (tcbs ?s3) (tcbs s4)"
    using switch_step [OF step_ok_inv [OF i3]] .
  obtain p where "sertos_port_start_first_task E s4 = Some (s4\<lparr>port := p\<rparr>)" using E unfolding pending_port_def by blast
  then have "sertos_scheduler_start E s \<in> {Some (?s3\<lparr>s_is_running := False\<rparr>), Some (s4\<lparr>port := p\<rparr>)}"
    using s4(1) by (simp add: sertos_scheduler_start_def Let_def case_prod_beta)
  then show thesis using that i0 step_ok_trans [OF i3 s4(2)] s4(3) by auto
qed

lemma lock_step:
  "sys_inv bits s L \<Longrightarrow> step_ok bits s L (sertos_scheduler_lock E s) L" "tcbs (sertos_scheduler_lock E s) = tcbs s"
  using step_ok_refl [of bits s L] by (simp_all add: sertos_scheduler_lock_def enter_critical_eq)

lemma unlock_step:
  assumes inv: "sys_inv bits s L" and E: "pending_port E"
  obtains s' where "sertos_scheduler_unlock E s = Some s'" and "step_ok bits s L s' L" and "tcbs s' = tcbs s"
proof -
  let ?s1 = "s\<lparr>port := snd (sertos_port_enter_critical E (port s))\<rparr>"
  let ?s2 = "if 0 < s_lock_nesting s then ?s1\<lparr>s_lock_nesting := s_lock_nesting s - 1\<rparr> else ?s1"
  let ?go = "0 < s_lock_nesting s \<and> s_lock_nesting ?s2 = 0 \<and> s_reschedule_pending s"
  let ?s4 = "exit_critical E (fst (sertos_port_enter_critical E (port s))) (if ?go then ?s2\<lparr>s_reschedule_pending := False\<rparr> else ?s2)"
  obtain s4 go where s4: "step_ok bits s L s4 L" "tcbs s4 = tcbs s"
    and eq: "sertos_scheduler_unlock E s = (if go then sertos_scheduler_switch_context E s4 else Some s4)"
    by (rule that [of ?s4 ?go]) (use step_ok_refl [OF inv] in \<open>simp_all add: sertos_scheduler_unlock_def enter_critical_eq Let_def\<close>)
  obtain s5 where s5: "sertos_scheduler_switch_context E s4 = Some s5" "step_ok bits s4 L s5 L" "tcbs s5 = tcbs s4"
    using switch_context_requests [OF step_ok_inv [OF s4(1)] E] .
  then have "sertos_scheduler_unlock E s \<in> {Some s5, Some s4}" unfolding eq by simp
  then show thesis using that s4 s5(3) step_ok_trans [OF s4(1) s5(2)] by auto
qed

end
end
