(* ===== verification/Sertos_System_Buffers.thy ===== *)
theory Sertos_System_Buffers
  imports Sertos_System_Calls
begin

text \<open>
  The calls of message queues and stream buffers keep the invariant of the system. A call that finds the buffer full (or empty)
  parks the caller; the part of the call up to that point is \<open>wait_phase\<close>, a step of its own, because other tasks run
  before the caller looks at the buffer again. The equations \<open>queue_send_waits\<close> to \<open>stream_receive_waits\<close> show that
  each of the blocking calls begins with that phase, under the condition \<open>must_wait\<close>.
\<close>

section \<open>Waiting\<close>

fun must_wait :: "('b, 'r, 'm, 'p) env \<Rightarrow> lst \<Rightarrow> ('b, 'r, 'm, 'p) kstate \<Rightarrow> bool" where
  "must_wait E (QueueSend h) s \<longleftrightarrow> queue_handle_ok h s \<and>
     queue_free_bytes E (q_ring_buf (queues s h)) < q_item_size (queues s h)"
| "must_wait E (QueueRecv h) s \<longleftrightarrow> queue_handle_ok h s \<and>
     ring_buffer_count E (q_ring_buf (queues s h)) < q_item_size (queues s h)"
| "must_wait E (StreamSend h) s \<longleftrightarrow> is_valid_handle h s \<and> stream_buffer_free_bytes E (sb_ring_buf (streams s h)) = 0"
| "must_wait E (StreamRecv h) s \<longleftrightarrow> is_valid_handle h s \<and>
     ring_buffer_count E (sb_ring_buf (streams s h)) < sb_trigger_level_bytes (streams s h)"
| "must_wait E _ s \<longleftrightarrow> False"

definition wait_phase ::
  "('b, 'r, 'm, 'p) env \<Rightarrow> lst \<Rightarrow> SertosTick \<Rightarrow> ('b, 'r, 'm, 'p) kstate \<Rightarrow>
   (SertosStatus \<times> ('b, 'r, 'm, 'p) kstate) option" where
  "wait_phase E wl timeout s =
     (let (crit_status, s1) = enter_critical E s
      in sertos_scheduler_wait_list_block E (Some wl) timeout (exit_critical E crit_status s1))"

lemma must_wait_owner: "must_wait E wl s \<Longrightarrow> buffer_list wl \<and> owner_ok wl s"
  by (cases wl) simp_all

text \<open>What follows the wait: the caller returns with the error, or tests the buffer again.\<close>

lemma queue_send_waits:
  assumes "must_wait E (QueueSend h) s" and "item \<noteq> NULL" and "timeout \<noteq> SERTOS_NO_WAIT"
  shows "sertos_queue_send E h item timeout s = do {
    (status, s1) \<leftarrow> wait_phase E (QueueSend h) timeout s;
    if status \<noteq> SERTOS_STATUS_OK then Some (status, s1)
    else let (crit_status, s2) = enter_critical E s1 in queue_send_loop E h item timeout crit_status s2
  }"
  using assms
  by (simp add: sertos_queue_send_def wait_phase_def enter_critical_eq queue_handle_ok_def)
    (subst queue_send_loop.simps, simp add: enter_critical_eq)

lemma queue_receive_waits:
  assumes "must_wait E (QueueRecv h) s" and "item \<noteq> NULL" and "timeout \<noteq> SERTOS_NO_WAIT"
  shows "sertos_queue_receive E h item timeout s = do {
    (status, s1) \<leftarrow> wait_phase E (QueueRecv h) timeout s;
    if status \<noteq> SERTOS_STATUS_OK then Some (status, s1)
    else let (crit_status, s2) = enter_critical E s1 in queue_receive_loop E h item timeout crit_status s2
  }"
  using assms
  by (simp add: sertos_queue_receive_def wait_phase_def enter_critical_eq queue_handle_ok_def)
    (subst queue_receive_loop.simps, simp add: enter_critical_eq)

lemma queue_peek_waits:
  assumes "must_wait E (QueueRecv h) s" and "item \<noteq> NULL" and "timeout \<noteq> SERTOS_NO_WAIT"
  shows "sertos_queue_peek E h item timeout s = do {
    (status, s1) \<leftarrow> wait_phase E (QueueRecv h) timeout s;
    if status \<noteq> SERTOS_STATUS_OK then Some (status, s1)
    else let (crit_status, s2) = enter_critical E s1 in queue_peek_wait_loop E h item timeout crit_status s2
  }"
  using assms
  by (simp add: sertos_queue_peek_def wait_phase_def enter_critical_eq queue_handle_ok_def)
    (subst queue_peek_wait_loop.simps, simp add: enter_critical_eq)

lemma stream_send_waits:
  assumes "must_wait E (StreamSend h) s" and "data \<noteq> NULL" and "0 < len" and "timeout \<noteq> SERTOS_NO_WAIT"
  shows "sertos_stream_buffer_send E h data len timeout s = do {
    (status, s1) \<leftarrow> wait_phase E (StreamSend h) timeout s;
    let (crit_status, s2) = enter_critical E s1;
    if status \<noteq> SERTOS_STATUS_OK \<or> \<not> is_valid_handle h s2 then Some (0, exit_critical E crit_status s2)
    else stream_send_loop E h data len timeout crit_status s2
  }"
  using assms
  by (simp add: sertos_stream_buffer_send_def is_send_params_valid_def wait_phase_def enter_critical_eq)
    (subst stream_send_loop.simps, simp add: enter_critical_eq)

lemma stream_receive_waits:
  assumes "must_wait E (StreamRecv h) s" and "buf \<noteq> NULL" and "0 < len" and "timeout \<noteq> SERTOS_NO_WAIT"
  shows "sertos_stream_buffer_receive E h buf len timeout s = do {
    (status, s1) \<leftarrow> wait_phase E (StreamRecv h) timeout s;
    let (crit_status, s2) = enter_critical E s1;
    if \<not> is_valid_handle h s2 then Some (0, exit_critical E crit_status s2)
    else if status \<noteq> SERTOS_STATUS_OK then stream_take E h buf len crit_status s2
    else stream_receive_loop E h buf len timeout crit_status s2
  }"
  using assms
  by (simp add: sertos_stream_buffer_receive_def is_recv_params_valid_def wait_phase_def enter_critical_eq)
    (subst stream_receive_loop.simps, simp add: enter_critical_eq)

section \<open>The contents of a buffer\<close>

text \<open>The invariant does not depend on the bytes in a buffer, only on the magic word of its control block.\<close>

lemma owner_ok_upd:
  "q_magic (f (queues s h)) = q_magic (queues s h) \<Longrightarrow> owner_ok wl (upd_queue h f s) = owner_ok wl s"
  "sb_magic (g (streams s h)) = sb_magic (streams s h) \<Longrightarrow> owner_ok wl (upd_stream h g s) = owner_ok wl s"
  by (cases wl; simp add: queue_handle_ok_def is_valid_handle_def upd_queue_def upd_stream_def)+

lemma buffer_lists: "sys_inv bits s L \<Longrightarrow> buffer_list w \<Longrightarrow> owner_ok w s \<Longrightarrow> L w \<noteq> None"
  unfolding sys_inv_def bufs_ok_def by blast

lemma no_waiters: "sys_inv bits s L \<Longrightarrow> buffer_list w \<Longrightarrow> \<not> owner_ok w s \<Longrightarrow> \<not> on_list L w n"
  unfolding sys_inv_def bufs_ok_def by blast

lemma sys_inv_owner:
  assumes "sys_inv bits s L" and "kinv bits s' L" and "tcbs s' = tcbs s" and "sertos_current_tcb s' = sertos_current_tcb s"
    and "sems s' = sems s" and "bufs_ok s' L"
  shows "sys_inv bits s' L"
  using assms sems_ok_mono [of s L s' L] by (auto simp: sys_inv_def)

lemma step_ok_data [simp]:
  "step_ok bits s L (s'\<lparr>mem := m\<rparr>) L' = step_ok bits s L s' L'"
  "q_magic (f (queues s' h)) = q_magic (queues s' h) \<Longrightarrow> step_ok bits s L (upd_queue h f s') L' = step_ok bits s L s' L'"
  "sb_magic (g (streams s' h)) = sb_magic (streams s' h) \<Longrightarrow> step_ok bits s L (upd_stream h g s') L' = step_ok bits s L s' L'"
  by (simp_all add: step_ok_def sys_inv_def sems_ok_def sem_handle_ok_def sem_inv_def bufs_ok_def owner_ok_upd
      owner_ok_cong [of "s'\<lparr>mem := m\<rparr>" s' for m] upd_queue_def [of h f] upd_stream_def [of h g]
      owner_ok_upd [unfolded upd_queue_def upd_stream_def])

text \<open>A control block becomes valid after its wait lists have been initialised.\<close>

lemma queue_becomes_valid:
  assumes "step_ok bits s0 L0 s L" and "L (QueueSend h) \<noteq> None" and "L (QueueRecv h) \<noteq> None"
    and "q_magic (f (queues s h)) = SERTOS_QUEUE_MAGIC_WORD"
  shows "step_ok bits s0 L0 (upd_queue h f s) L"
proof -
  have i: "sys_inv bits s L" by (rule step_ok_inv [OF assms(1)])
  have "owner_ok wl (upd_queue h f s) \<longleftrightarrow> owner_ok wl s \<or> wl \<in> {QueueSend h, QueueRecv h} \<and> h \<noteq> NULL" for wl
    using assms(4) by (cases wl) (auto simp: queue_handle_ok_def is_valid_handle_def upd_queue_def)
  then have "bufs_ok (upd_queue h f s) L" using i assms(2,3) unfolding sys_inv_def bufs_ok_def by blast
  then have "sys_inv bits (upd_queue h f s) L"
    by (intro sys_inv_owner [OF i]) (use i in \<open>simp_all add: sys_inv_def upd_queue_def\<close>)
  then show ?thesis using assms(1) by (simp add: step_ok_def upd_queue_def)
qed

lemma stream_becomes_valid:
  assumes "step_ok bits s0 L0 s L" and "L (StreamSend h) \<noteq> None" and "L (StreamRecv h) \<noteq> None"
    and "sb_magic (f (streams s h)) = SERTOS_STREAM_BUFFER_MAGIC_WORD"
  shows "step_ok bits s0 L0 (upd_stream h f s) L"
proof -
  have i: "sys_inv bits s L" by (rule step_ok_inv [OF assms(1)])
  have "owner_ok wl (upd_stream h f s) \<longleftrightarrow> owner_ok wl s \<or> wl \<in> {StreamSend h, StreamRecv h} \<and> h \<noteq> NULL" for wl
    using assms(4) by (cases wl) (auto simp: queue_handle_ok_def is_valid_handle_def upd_stream_def)
  then have "bufs_ok (upd_stream h f s) L" using i assms(2,3) unfolding sys_inv_def bufs_ok_def by blast
  then have "sys_inv bits (upd_stream h f s) L"
    by (intro sys_inv_owner [OF i]) (use i in \<open>simp_all add: sys_inv_def upd_stream_def\<close>)
  then show ?thesis using assms(1) by (simp add: step_ok_def upd_stream_def)
qed

section \<open>Shared steps\<close>

context kernel_env
begin

lemma wait_step:
  assumes inv: "sys_inv bits s L" and E: "pending_port E" and cur: "current_runs s" and timeout: "timeout \<noteq> SERTOS_NO_WAIT"
    and w: "must_wait E wl s"
  obtains r s' L' where "wait_phase E wl timeout s = Some (r, s')" and "step_ok bits s L s' L'"
    and "current_running s \<Longrightarrow> follows (tcbs s) (tcbs s')"
proof -
  let ?s1 = "exit_critical E (fst (sertos_port_enter_critical E (port s))) (s\<lparr>port := snd (sertos_port_enter_critical E (port s))\<rparr>)"
  have i: "sys_inv bits ?s1 L" and c: "current_runs ?s1" using inv cur by (simp_all add: current_runs_def)
  have "owner_ok wl ?s1 = owner_ok wl s" by (rule owner_ok_cong) simp_all
  then have w1: "buffer_list wl \<and> owner_ok wl ?s1" using must_wait_owner [OF w] by simp
  obtain r s' L' where s': "sertos_scheduler_wait_list_block E (Some wl) timeout ?s1 = Some (r, s')"
    "step_ok bits ?s1 L s' L'" "current_running ?s1 \<Longrightarrow> follows (tcbs ?s1) (tcbs s')"
    by (rule block_step [OF i E c _ disjI1 [OF w1], of timeout]) (use timeout that in \<open>simp_all add: SERTOS_NO_WAIT_def\<close>)
  have "wait_phase E wl timeout s = Some (r, s')" using s'(1) by (simp add: wait_phase_def enter_critical_eq)
  then show thesis by (rule that) (use s'(2,3) in \<open>simp_all add: current_running_def\<close>)
qed

text \<open>Waking the first waiter of a buffer.\<close>

lemma wake_buffer:
  assumes o1: "step_ok bits s0 L0 s L" and w: "buffer_list w" "owner_ok w s" and T: "tcbs s = tcbs s0"
  obtains a s' L' where "sertos_scheduler_wait_list_unblock_highest E (Some w) s = Some (a, s')"
    and "step_ok bits s0 L0 s' L'" and "only_wakes (tcbs s0) (tcbs s')"
proof -
  have i: "sys_inv bits s L" by (rule step_ok_inv [OF o1])
  then obtain ns where ns: "L w = Some ns" using w by (auto simp: sys_inv_def bufs_ok_def)
  obtain a s' L' where "sertos_scheduler_wait_list_unblock_highest E (Some w) s = Some (a, s')" "step_ok bits s L s' L'"
    "only_wakes (tcbs s) (tcbs s')" by (rule wake_step [OF i ns buffer_list_wait [OF w(1)]], rule that)
  then show thesis using that step_ok_trans [OF o1] unfolding T by blast
qed

lemma wake_buffer_if:
  assumes o1: "step_ok bits s0 L0 s L" and w: "buffer_list w" "owner_ok w s" and T: "tcbs s = tcbs s0"
  obtains a s' L' where "(if b then sertos_scheduler_wait_list_unblock_highest E (Some w) s else Some (NULL, s)) = Some (a, s')"
    and "step_ok bits s0 L0 s' L'" and "only_wakes (tcbs s0) (tcbs s')"
proof (cases b)
  case True
  then show thesis using wake_buffer [OF assms] that by auto
next
  case False
  then show thesis using that [of NULL s L] o1 T by simp
qed

text \<open>The two wait lists of a control block that is being deleted.\<close>

lemma delete_lists:
  fixes s :: "('b, 'r, 'm, 'p) kstate"
  assumes inv: "sys_inv bits s L" and v: "buffer_list v" "owner_ok v s" and w: "buffer_list w" "owner_ok w s"
    and k: "kinv bits s2 L" and T: "tcbs s2 = tcbs s" "sertos_current_tcb s2 = sertos_current_tcb s" "sems s2 = sems s"
      "timers s2 = timers s" "s_timer_subsystem_initialized s2 = s_timer_subsystem_initialized s"
    and gone: "\<And>wl. owner_ok wl s2 \<longleftrightarrow> owner_ok wl s \<and> wl \<notin> {v, w}"
  obtains s3 s4 L4 where "unblock_all E v s2 = Some s3" and "unblock_all E w s3 = Some s4" and "step_ok bits s L s4 L4"
    and "only_wakes (tcbs s) (tcbs s4)"
proof -
  obtain t3 s3 L3 where s3: "unblock_all E v s2 = Some s3" "kinv bits s3 L3" "call_frame s2 s3" "tcbs s3 = tcbs t3"
    "step_ok bits s L t3 L3" "only_wakes (tcbs s) (tcbs t3)" "call_frame s t3" "L3 v = Some []"
    by (rule unblock_all_twin [OF inv buffer_list_wait [OF v(1)] buffer_lists [OF inv v] k T(1)], rule that)
  have i3: "sys_inv bits t3 L3" by (rule step_ok_inv [OF s3(5)])
  have "owner_ok w t3" using w(2) owner_ok_cong [of t3 s] call_frameD [OF s3(7)] by simp
  from buffer_lists [OF i3 w(1) this] have w3: "L3 w \<noteq> None" .
  obtain t4 s4 L4 where s4: "unblock_all E w s3 = Some s4" "kinv bits s4 L4" "call_frame s3 s4" "tcbs s4 = tcbs t4"
    "step_ok bits t3 L3 t4 L4" "only_wakes (tcbs t3) (tcbs t4)" "call_frame t3 t4" "L4 w = Some []" "L4 v = Some []"
    by (rule unblock_all_twin [OF i3 buffer_list_wait [OF w(1)] w3 s3(2,4)]) (use s3(8) v(1) that in simp)
  note f = call_frameD [OF s3(3)] call_frameD [OF s3(7)] call_frameD [OF s4(3)] call_frameD [OF s4(7)]
  have i4: "sys_inv bits t4 L4" by (rule step_ok_inv [OF s4(5)])
  have "owner_ok wl s4 \<longleftrightarrow> owner_ok wl t4 \<and> wl \<notin> {v, w}" for wl
    using gone [of wl] owner_ok_cong [of s4 s2 wl] owner_ok_cong [of t4 s wl] f by simp
  moreover have "\<not> on_list L4 wl n" if "wl \<in> {v, w}" for wl n using that s4(8,9) by (auto simp: on_list_def)
  ultimately have "bufs_ok s4 L4" using i4 unfolding sys_inv_def bufs_ok_def by blast
  moreover have "sems_ok s4 L4" by (rule sems_ok_mono [of t4 L4]) (use i4 f T(3) in \<open>auto simp: sys_inv_def\<close>)
  ultimately have "step_ok bits s L s4 L4"
    by (intro step_ok_twin [OF step_ok_trans [OF s3(5) s4(5)] s4(2,4)]) (use f T in simp_all)
  then show thesis using that s3(1) s4(1,4) only_wakes_trans [OF s3(6) s4(6)] by simp
qed

lemma notify_same: "notify_unblocked_task = reschedule_if_unblocked"
  by (intro ext) (simp add: notify_unblocked_task_def reschedule_if_unblocked_def)

text \<open>The end of a call that may have woken a task.\<close>

lemma notify_step:
  assumes o1: "step_ok bits s0 L0 s L" and E: "pending_port E"
  obtains s' where "reschedule_if_unblocked E a (exit_critical E c s) = Some s'" and "step_ok bits s0 L0 s' L" and "tcbs s' = tcbs s"
proof (cases "a = NULL")
  case True
  then show thesis using that o1 by (simp add: reschedule_if_unblocked_def)
next
  case False
  have o2: "step_ok bits s0 L0 (exit_critical E c s) L" using o1 by simp
  obtain s' where s': "reschedule_if_running E (exit_critical E c s) = Some s'" "step_ok bits (exit_critical E c s) L s' L"
    "tcbs s' = tcbs (exit_critical E c s)" using reschedule_requests [OF step_ok_inv [OF o2] E] .
  then have "reschedule_if_unblocked E a (exit_critical E c s) = Some s'"
    using False by (simp add: reschedule_if_unblocked_def reschedule_if_running_def)
  then show thesis using that step_ok_trans [OF o2 s'(2)] s'(3) by simp
qed

end

section \<open>Message queues\<close>

lemma flag_if_higher_step [simp]: "step_ok bits s L (flag_if_higher a out s') L' = step_ok bits s L s' L'"
  by (simp add: flag_if_higher_def Let_def)

lemma woken_flag_step [simp]: "step_ok bits s L (update_higher_prio_woken a out s') L' = step_ok bits s L s' L'"
  by (simp add: update_higher_prio_woken_def Let_def)

context kernel_env
begin

lemma queue_create_step:
  assumes inv: "sys_inv bits s L" and h: "\<not> queue_handle_ok h s"
    and c: "sertos_queue_create_static E h buf len item_size out s = (r, s')"
  obtains L' where "step_ok bits s L s' L'" and "tcbs s' = tcbs s"
proof -
  let ?i = "ring_buffer_init E buf len (q_ring_buf (queues s h))"
  let ?s1 = "upd_queue h (\<lambda>q. q\<lparr>q_ring_buf := snd ?i\<rparr>) s"
  let ?s2 = "upd_queue h (\<lambda>q. q\<lparr>q_item_size := item_size, q_max_items := ring_buffer_capacity E (snd ?i) div item_size,
    q_storage_buffer := buf\<rparr>) ?s1"
  let ?s3 = "upd_heap (linked_list_init E (QueueSend h)) ?s2"
  let ?s4 = "upd_heap (linked_list_init E (QueueRecv h)) ?s3"
  let ?s5 = "upd_queue h (\<lambda>q. q\<lparr>q_is_statically_allocated := True, q_magic := SERTOS_QUEUE_MAGIC_WORD\<rparr>) ?s4"
  let ?s6 = "?s5\<lparr>ptr_cells := (ptr_cells ?s5)(out := h)\<rparr>"
  let ?L1 = "L(QueueSend h \<mapsto> [])"
  let ?L2 = "?L1(QueueRecv h \<mapsto> [])"
  have none: "\<not> on_list L (QueueSend h) n" "\<not> on_list ?L1 (QueueRecv h) n" for n
    using no_waiters [OF inv, of "QueueSend h" n] no_waiters [OF inv, of "QueueRecv h" n] h by (simp_all add: on_list_def)
  have o1: "step_ok bits s L ?s1 L" and o2: "step_ok bits s L ?s2 L" using step_ok_refl [OF inv] by simp_all
  have o3: "step_ok bits s L ?s3 ?L1" by (rule step_ok_trans [OF o2 init_list_step [OF step_ok_inv [OF o2] _ none(1)]]) simp
  have o4: "step_ok bits s L ?s4 ?L2" by (rule step_ok_trans [OF o3 init_list_step [OF step_ok_inv [OF o3] _ none(2)]]) simp
  have "step_ok bits s L ?s5 ?L2" by (rule queue_becomes_valid [OF o4]) simp_all
  then have o6: "step_ok bits s L ?s6 ?L2" by simp
  have "s' \<in> {s, ?s1, ?s6}"
    using c by (cases ?i) (auto simp: sertos_queue_create_static_def Let_def split: if_splits)
  then show thesis using that step_ok_refl [OF inv] o1 o6 by (auto simp: upd_heap_def)
qed

lemma queue_put_step:
  assumes inv: "sys_inv bits s L" and h: "queue_handle_ok h s"
  obtains a s' L' where "queue_put E h item s = Some (a, s')" and "step_ok bits s L s' L'" and "only_wakes (tcbs s) (tcbs s')"
proof -
  obtain n rb m where w: "ring_buffer_write E item (q_item_size (queues s h)) (q_ring_buf (queues s h)) (mem s) = (n, rb, m)"
    by (metis prod_cases3)
  let ?s1 = "(upd_queue h (\<lambda>q. q\<lparr>q_ring_buf := rb\<rparr>) s)\<lparr>mem := m\<rparr>"
  have o1: "step_ok bits s L ?s1 L" using step_ok_refl [OF inv] by simp
  have "owner_ok (QueueRecv h) ?s1" "buffer_list (QueueRecv h)" using h by (simp_all add: queue_handle_ok_def)
  then obtain a s' L' where "sertos_scheduler_wait_list_unblock_highest E (Some (QueueRecv h)) ?s1 = Some (a, s')"
    "step_ok bits s L s' L'" "only_wakes (tcbs s) (tcbs s')" using wake_buffer [OF o1, of "QueueRecv h"] by auto
  then show thesis using that w by (simp add: queue_put_def)
qed

lemma queue_get_step:
  assumes inv: "sys_inv bits s L" and h: "queue_handle_ok h s"
  obtains a s' L' where "queue_get E h item s = Some (a, s')" and "step_ok bits s L s' L'" and "only_wakes (tcbs s) (tcbs s')"
proof -
  obtain n rb m where w: "ring_buffer_read E item (q_item_size (queues s h)) (q_ring_buf (queues s h)) (mem s) = (n, rb, m)"
    by (metis prod_cases3)
  let ?s1 = "(upd_queue h (\<lambda>q. q\<lparr>q_ring_buf := rb\<rparr>) s)\<lparr>mem := m\<rparr>"
  have o1: "step_ok bits s L ?s1 L" using step_ok_refl [OF inv] by simp
  have "owner_ok (QueueSend h) ?s1" "buffer_list (QueueSend h)" using h by (simp_all add: queue_handle_ok_def)
  then obtain a s' L' where "sertos_scheduler_wait_list_unblock_highest E (Some (QueueSend h)) ?s1 = Some (a, s')"
    "step_ok bits s L s' L'" "only_wakes (tcbs s) (tcbs s')" using wake_buffer [OF o1, of "QueueSend h"] by auto
  then show thesis using that w by (simp add: queue_get_def)
qed

lemma queue_send_step:
  assumes inv: "sys_inv bits s L" and E: "pending_port E" and nw: "\<not> must_wait E (QueueSend h) s \<or> timeout = SERTOS_NO_WAIT"
  obtains r s' L' where "sertos_queue_send E h item timeout s = Some (r, s')" and "step_ok bits s L s' L'" and "only_wakes (tcbs s) (tcbs s')"
proof (cases "queue_handle_ok h s \<and> item \<noteq> NULL")
  case False
  then show thesis using that step_ok_refl [OF inv] by (auto simp: sertos_queue_send_def)
next
  case True
  let ?s1 = "s\<lparr>port := snd (sertos_port_enter_critical E (port s))\<rparr>"
  let ?c = "fst (sertos_port_enter_critical E (port s))"
  have i1: "sys_inv bits ?s1 L" and h1: "queue_handle_ok h ?s1" using inv True by (simp_all add: queue_handle_ok_def)
  have eq: "sertos_queue_send E h item timeout s = queue_send_loop E h item timeout ?c ?s1"
    using True by (simp add: sertos_queue_send_def enter_critical_eq queue_handle_ok_def)
  obtain a s2 L2 where s2: "queue_put E h item ?s1 = Some (a, s2)" "step_ok bits ?s1 L s2 L2" "only_wakes (tcbs ?s1) (tcbs s2)"
    by (rule queue_put_step [OF i1 h1], rule that)
  have o2: "step_ok bits s L s2 L2" using s2(2) by simp
  obtain s3 where s3: "reschedule_if_unblocked E a (exit_critical E ?c s2) = Some s3" "step_ok bits s L s3 L2" "tcbs s3 = tcbs s2"
    by (rule notify_step [OF o2 E], rule that)
  have "sertos_queue_send E h item timeout s \<in> {Some (SERTOS_STATUS_ERROR_TIMEOUT, exit_critical E ?c ?s1), Some (SERTOS_STATUS_OK, s3)}"
    unfolding eq using True nw s2(1) s3(1) by (subst queue_send_loop.simps) auto
  then show thesis using that step_ok_refl [OF inv] s2(3) s3(2,3) by auto
qed

lemma queue_receive_step:
  assumes inv: "sys_inv bits s L" and E: "pending_port E" and nw: "\<not> must_wait E (QueueRecv h) s \<or> timeout = SERTOS_NO_WAIT"
  obtains r s' L' where "sertos_queue_receive E h item timeout s = Some (r, s')" and "step_ok bits s L s' L'"
    and "only_wakes (tcbs s) (tcbs s')"
proof (cases "queue_handle_ok h s \<and> item \<noteq> NULL")
  case False
  then show thesis using that step_ok_refl [OF inv] by (auto simp: sertos_queue_receive_def)
next
  case True
  let ?s1 = "s\<lparr>port := snd (sertos_port_enter_critical E (port s))\<rparr>"
  let ?c = "fst (sertos_port_enter_critical E (port s))"
  have i1: "sys_inv bits ?s1 L" and h1: "queue_handle_ok h ?s1" using inv True by (simp_all add: queue_handle_ok_def)
  have eq: "sertos_queue_receive E h item timeout s = queue_receive_loop E h item timeout ?c ?s1"
    using True by (simp add: sertos_queue_receive_def enter_critical_eq queue_handle_ok_def)
  obtain a s2 L2 where s2: "queue_get E h item ?s1 = Some (a, s2)" "step_ok bits ?s1 L s2 L2" "only_wakes (tcbs ?s1) (tcbs s2)"
    by (rule queue_get_step [OF i1 h1], rule that)
  have o2: "step_ok bits s L s2 L2" using s2(2) by simp
  obtain s3 where s3: "reschedule_if_unblocked E a (exit_critical E ?c s2) = Some s3" "step_ok bits s L s3 L2" "tcbs s3 = tcbs s2"
    by (rule notify_step [OF o2 E], rule that)
  have "sertos_queue_receive E h item timeout s \<in> {Some (SERTOS_STATUS_ERROR_TIMEOUT, exit_critical E ?c ?s1), Some (SERTOS_STATUS_OK, s3)}"
    unfolding eq using True nw s2(1) s3(1) by (subst queue_receive_loop.simps) auto
  then show thesis using that step_ok_refl [OF inv] s2(3) s3(2,3) by auto
qed

lemma queue_peek_step:
  assumes inv: "sys_inv bits s L" and nw: "\<not> must_wait E (QueueRecv h) s \<or> timeout = SERTOS_NO_WAIT"
  obtains r s' where "sertos_queue_peek E h item timeout s = Some (r, s')" and "step_ok bits s L s' L" and "tcbs s' = tcbs s"
proof (cases "queue_handle_ok h s \<and> item \<noteq> NULL")
  case False
  then show thesis using that step_ok_refl [OF inv] by (auto simp: sertos_queue_peek_def)
next
  case True
  let ?s1 = "s\<lparr>port := snd (sertos_port_enter_critical E (port s))\<rparr>"
  let ?c = "fst (sertos_port_enter_critical E (port s))"
  have eq: "sertos_queue_peek E h item timeout s = queue_peek_wait_loop E h item timeout ?c ?s1"
    using True by (simp add: sertos_queue_peek_def enter_critical_eq queue_handle_ok_def)
  have "\<exists>m. sertos_queue_peek E h item timeout s \<in> {Some (SERTOS_STATUS_ERROR_TIMEOUT, exit_critical E ?c ?s1),
      Some (SERTOS_STATUS_OK, exit_critical E ?c (?s1\<lparr>mem := m\<rparr>))}"
    unfolding eq using True nw by (subst queue_peek_wait_loop.simps) auto
  then show thesis using that step_ok_refl [OF inv] by auto
qed

lemma queue_send_isr_step:
  assumes inv: "sys_inv bits s L"
  obtains r s' L' where "sertos_queue_send_from_isr E h item out s = Some (r, s')" and "step_ok bits s L s' L'"
    and "only_wakes (tcbs s) (tcbs s')"
proof (cases "queue_handle_ok h s \<and> item \<noteq> NULL")
  case False
  then show thesis using that step_ok_refl [OF inv] by (auto simp: sertos_queue_send_from_isr_def)
next
  case True
  let ?s1 = "(set_flag out False s)\<lparr>port := snd (sertos_port_enter_critical E (port s))\<rparr>"
  let ?x = "exit_critical E (fst (sertos_port_enter_critical E (port s)))"
  have i1: "sys_inv bits ?s1 L" and h1: "queue_handle_ok h ?s1" using inv True by (simp_all add: queue_handle_ok_def)
  obtain a s2 L2 where s2: "queue_put E h item ?s1 = Some (a, s2)" "step_ok bits ?s1 L s2 L2" "only_wakes (tcbs ?s1) (tcbs s2)"
    by (rule queue_put_step [OF i1 h1], rule that)
  have "sertos_queue_send_from_isr E h item out s \<in> {Some (SERTOS_STATUS_ERROR_RESOURCE_BUSY, ?x ?s1),
      Some (SERTOS_STATUS_OK, ?x (flag_if_higher a out s2))}"
    using True s2(1) by (simp add: sertos_queue_send_from_isr_def enter_critical_eq queue_handle_ok_def Let_def)
  then show thesis using that step_ok_refl [OF inv] s2(2,3) by auto
qed

lemma queue_receive_isr_step:
  assumes inv: "sys_inv bits s L"
  obtains r s' L' where "sertos_queue_receive_from_isr E h item out s = Some (r, s')" and "step_ok bits s L s' L'"
    and "only_wakes (tcbs s) (tcbs s')"
proof (cases "queue_handle_ok h s \<and> item \<noteq> NULL")
  case False
  then show thesis using that step_ok_refl [OF inv] by (auto simp: sertos_queue_receive_from_isr_def)
next
  case True
  let ?s1 = "(set_flag out False s)\<lparr>port := snd (sertos_port_enter_critical E (port s))\<rparr>"
  let ?x = "exit_critical E (fst (sertos_port_enter_critical E (port s)))"
  have i1: "sys_inv bits ?s1 L" and h1: "queue_handle_ok h ?s1" using inv True by (simp_all add: queue_handle_ok_def)
  obtain a s2 L2 where s2: "queue_get E h item ?s1 = Some (a, s2)" "step_ok bits ?s1 L s2 L2" "only_wakes (tcbs ?s1) (tcbs s2)"
    by (rule queue_get_step [OF i1 h1], rule that)
  have "sertos_queue_receive_from_isr E h item out s \<in> {Some (SERTOS_STATUS_ERROR_RESOURCE_BUSY, ?x ?s1),
      Some (SERTOS_STATUS_OK, ?x (flag_if_higher a out s2))}"
    using True s2(1) by (simp add: sertos_queue_receive_from_isr_def enter_critical_eq queue_handle_ok_def Let_def)
  then show thesis using that step_ok_refl [OF inv] s2(2,3) by auto
qed

lemma queue_reset_step:
  assumes inv: "sys_inv bits s L" and c: "sertos_queue_reset E h s = (r, s')"
  shows "step_ok bits s L s' L" "tcbs s' = tcbs s"
  using c step_ok_refl [OF inv] by (auto simp: sertos_queue_reset_def enter_critical_eq split: if_splits)

lemma queue_delete_step:
  assumes inv: "sys_inv bits s L" and E: "pending_port E"
  obtains r s' L' where "sertos_queue_delete E h s = Some (r, s')" and "step_ok bits s L s' L'" and "only_wakes (tcbs s) (tcbs s')"
proof (cases "queue_handle_ok h s")
  case False
  then show thesis using that step_ok_refl [OF inv] by (simp add: sertos_queue_delete_def)
next
  case True
  let ?s2 = "upd_queue h (\<lambda>q. q\<lparr>q_magic := 0\<rparr>) (s\<lparr>port := snd (sertos_port_enter_critical E (port s))\<rparr>)"
  obtain s3 s4 L4 where s4: "unblock_all E (QueueSend h) ?s2 = Some s3" "unblock_all E (QueueRecv h) s3 = Some s4"
    and o4: "step_ok bits s L s4 L4" and ow: "only_wakes (tcbs s) (tcbs s4)"
  proof (rule delete_lists [OF inv])
    show "kinv bits ?s2 L" using inv by (simp add: sys_inv_def)
    show "owner_ok wl ?s2 \<longleftrightarrow> owner_ok wl s \<and> wl \<notin> {QueueSend h, QueueRecv h}" for wl
      by (cases wl) (auto simp: queue_handle_ok_def is_valid_handle_def upd_queue_def SERTOS_QUEUE_MAGIC_WORD_def)
  qed (use True that in \<open>simp_all add: upd_queue_def\<close>)
  obtain s6 where s6: "reschedule_if_running E (exit_critical E (fst (sertos_port_enter_critical E (port s)))
      (if \<not> q_is_statically_allocated (queues s4 h) then s4\<lparr>pool := memory_pool_free E h
         (memory_pool_free E (q_storage_buffer (queues s4 h)) (pool s4))\<rparr> else s4)) = Some s6"
    "step_ok bits s L s6 L4" "tcbs s6 = tcbs s4" by (rule delete_end [OF o4 E], rule that)
  have "sertos_queue_delete E h s = Some (SERTOS_STATUS_OK, s6)"
    using True s4 s6(1) by (simp add: sertos_queue_delete_def enter_critical_eq Let_def)
  then show thesis by (rule that [OF _ s6(2)]) (use ow s6(3) in simp)
qed

end

section \<open>Stream buffers\<close>

context kernel_env
begin

lemma stream_create_step:
  assumes inv: "sys_inv bits s L" and h: "\<not> is_valid_handle h s"
    and c: "sertos_stream_buffer_create_static E h buf len level out s = (r, s')"
  obtains L' where "step_ok bits s L s' L'" and "tcbs s' = tcbs s"
proof -
  let ?i = "ring_buffer_init E buf len (sb_ring_buf (streams s h))"
  let ?s1 = "upd_stream h (\<lambda>b. b\<lparr>sb_ring_buf := snd ?i\<rparr>) s"
  let ?s2 = "upd_stream h (\<lambda>b. b\<lparr>sb_trigger_level_bytes := if level = 0 then 1 else level, sb_storage_buffer := buf\<rparr>) ?s1"
  let ?s3 = "upd_heap (linked_list_init E (StreamSend h)) ?s2"
  let ?s4 = "upd_heap (linked_list_init E (StreamRecv h)) ?s3"
  let ?s5 = "upd_stream h (\<lambda>b. b\<lparr>sb_is_statically_allocated := True, sb_magic := SERTOS_STREAM_BUFFER_MAGIC_WORD\<rparr>) ?s4"
  let ?s6 = "?s5\<lparr>ptr_cells := (ptr_cells ?s5)(out := h)\<rparr>"
  let ?L1 = "L(StreamSend h \<mapsto> [])"
  let ?L2 = "?L1(StreamRecv h \<mapsto> [])"
  have none: "\<not> on_list L (StreamSend h) n" "\<not> on_list ?L1 (StreamRecv h) n" for n
    using no_waiters [OF inv, of "StreamSend h" n] no_waiters [OF inv, of "StreamRecv h" n] h by (simp_all add: on_list_def)
  have o1: "step_ok bits s L ?s1 L" and o2: "step_ok bits s L ?s2 L" using step_ok_refl [OF inv] by simp_all
  have o3: "step_ok bits s L ?s3 ?L1" by (rule step_ok_trans [OF o2 init_list_step [OF step_ok_inv [OF o2] _ none(1)]]) simp
  have o4: "step_ok bits s L ?s4 ?L2" by (rule step_ok_trans [OF o3 init_list_step [OF step_ok_inv [OF o3] _ none(2)]]) simp
  have "step_ok bits s L ?s5 ?L2" by (rule stream_becomes_valid [OF o4]) simp_all
  then have o6: "step_ok bits s L ?s6 ?L2" by simp
  have "s' \<in> {s, ?s1, ?s6}"
    using c by (cases ?i) (auto simp: sertos_stream_buffer_create_static_def Let_def split: if_splits)
  then show thesis using that step_ok_refl [OF inv] o1 o6 by (auto simp: upd_heap_def)
qed

lemma stream_write_step:
  assumes "sys_inv bits s L" and "stream_write E h data len s = (n, s')"
  shows "step_ok bits s L s' L" "tcbs s' = tcbs s" "is_valid_handle h s' = is_valid_handle h s"
  using assms step_ok_refl [OF assms(1)] by (auto simp: stream_write_def is_valid_handle_def split: prod.splits)

lemma stream_read_step:
  assumes "sys_inv bits s L" and "stream_read E h buf len s = (n, s')"
  shows "step_ok bits s L s' L" "tcbs s' = tcbs s" "is_valid_handle h s' = is_valid_handle h s"
  using assms step_ok_refl [OF assms(1)] by (auto simp: stream_read_def is_valid_handle_def split: prod.splits)

text \<open>Waking a waiter if the condition holds, leaving the critical section, and switching if somebody was woken.\<close>

lemma wake_notify_step:
  assumes o1: "step_ok bits s0 L0 s L" and w: "buffer_list w" "owner_ok w s" and T: "tcbs s = tcbs s0" and E: "pending_port E"
  obtains s' L' where "do {
      (a, s1) \<leftarrow> (if b then sertos_scheduler_wait_list_unblock_highest E (Some w) s else Some (NULL, s));
      s2 \<leftarrow> notify_unblocked_task E a (exit_critical E c s1);
      Some (r, s2)
    } = Some (r, s')" and "step_ok bits s0 L0 s' L'" and "only_wakes (tcbs s0) (tcbs s')"
proof -
  obtain a s1 L1 where s1: "(if b then sertos_scheduler_wait_list_unblock_highest E (Some w) s else Some (NULL, s)) = Some (a, s1)"
    "step_ok bits s0 L0 s1 L1" "only_wakes (tcbs s0) (tcbs s1)" by (rule wake_buffer_if [OF o1 w T], rule that)
  obtain s' where s': "reschedule_if_unblocked E a (exit_critical E c s1) = Some s'" "step_ok bits s0 L0 s' L1" "tcbs s' = tcbs s1"
    by (rule notify_step [OF s1(2) E], rule that)
  show thesis by (rule that [of s' L1]) (use s1 s' in \<open>simp_all add: notify_same\<close>)
qed

lemma stream_send_step:
  assumes inv: "sys_inv bits s L" and E: "pending_port E" and nw: "\<not> must_wait E (StreamSend h) s \<or> timeout = SERTOS_NO_WAIT"
  obtains r s' L' where "sertos_stream_buffer_send E h data len timeout s = Some (r, s')" and "step_ok bits s L s' L'"
    and "only_wakes (tcbs s) (tcbs s')"
proof (cases "is_send_params_valid h data len s")
  case False
  then show thesis using that step_ok_refl [OF inv] by (simp add: sertos_stream_buffer_send_def)
next
  case True
  let ?s1 = "s\<lparr>port := snd (sertos_port_enter_critical E (port s))\<rparr>"
  let ?c = "fst (sertos_port_enter_critical E (port s))"
  obtain n s2 where w: "stream_write E h data len ?s1 = (n, s2)" by (metis surj_pair)
  have i1: "sys_inv bits ?s1 L" using inv by simp
  note s2 = stream_write_step [OF i1 w]
  have o2: "step_ok bits s L s2 L" "tcbs s2 = tcbs s" and h: "is_valid_handle h s" "owner_ok (StreamRecv h) s2"
    using s2 True by (simp_all add: is_send_params_valid_def is_valid_handle_def split: if_splits)
  obtain s3 L3 where s3: "do {
      (a, s1) \<leftarrow> (if sb_trigger_level_bytes (streams s2 h) \<le> ring_buffer_count E (sb_ring_buf (streams s2 h))
        then sertos_scheduler_wait_list_unblock_highest E (Some (StreamRecv h)) s2 else Some (NULL, s2));
      s2 \<leftarrow> notify_unblocked_task E a (exit_critical E ?c s1);
      Some (n, s2)
    } = Some (n, s3)" "step_ok bits s L s3 L3" "only_wakes (tcbs s) (tcbs s3)"
    by (rule wake_notify_step [OF o2(1) _ h(2) o2(2) E]) (use that in simp_all)
  have "sertos_stream_buffer_send E h data len timeout s \<in> {Some (0, exit_critical E ?c ?s1), Some (n, s3)}"
    using True nw w s3(1) h(1)
    by (simp add: sertos_stream_buffer_send_def enter_critical_eq) (subst (1 2) stream_send_loop.simps, auto)
  then show thesis using that step_ok_refl [OF inv] s3(2,3) by auto
qed

lemma stream_take_step:
  assumes inv: "sys_inv bits s L" and E: "pending_port E" and h: "is_valid_handle h s"
  obtains r s' L' where "stream_take E h buf len c s = Some (r, s')" and "step_ok bits s L s' L'" and "only_wakes (tcbs s) (tcbs s')"
proof -
  obtain n s2 where w: "stream_read E h buf len s = (n, s2)" by (metis surj_pair)
  note s2 = stream_read_step [OF inv w]
  have o: "owner_ok (StreamSend h) s2" using s2(3) h by simp
  obtain s3 L3 where s3: "do {
      (a, s1) \<leftarrow> (if 0 < n then sertos_scheduler_wait_list_unblock_highest E (Some (StreamSend h)) s2 else Some (NULL, s2));
      s2 \<leftarrow> notify_unblocked_task E a (exit_critical E c s1);
      Some (n, s2)
    } = Some (n, s3)" "step_ok bits s L s3 L3" "only_wakes (tcbs s) (tcbs s3)"
    by (rule wake_notify_step [OF s2(1) _ o s2(2) E]) (use that in simp_all)
  then show thesis using that w by (simp add: stream_take_def)
qed

lemma stream_receive_step:
  assumes inv: "sys_inv bits s L" and E: "pending_port E" and nw: "\<not> must_wait E (StreamRecv h) s \<or> timeout = SERTOS_NO_WAIT"
  obtains r s' L' where "sertos_stream_buffer_receive E h buf len timeout s = Some (r, s')" and "step_ok bits s L s' L'"
    and "only_wakes (tcbs s) (tcbs s')"
proof (cases "is_recv_params_valid h buf len s")
  case False
  then show thesis using that step_ok_refl [OF inv] by (simp add: sertos_stream_buffer_receive_def)
next
  case True
  let ?s1 = "s\<lparr>port := snd (sertos_port_enter_critical E (port s))\<rparr>"
  let ?c = "fst (sertos_port_enter_critical E (port s))"
  have h: "is_valid_handle h s" using True by (simp add: is_recv_params_valid_def split: if_splits)
  then have i1: "sys_inv bits ?s1 L" "is_valid_handle h ?s1" using inv by (simp_all add: is_valid_handle_def split: if_splits)
  have eq: "sertos_stream_buffer_receive E h buf len timeout s = stream_take E h buf len ?c ?s1"
    using True nw h by (simp add: sertos_stream_buffer_receive_def enter_critical_eq) (subst stream_receive_loop.simps, auto)
  show thesis by (rule stream_take_step [OF i1(1) E i1(2), of buf len ?c]) (use that eq in simp)
qed

lemma stream_send_isr_step:
  assumes inv: "sys_inv bits s L"
  obtains r s' L' where "sertos_stream_buffer_send_from_isr E h data len out s = Some (r, s')" and "step_ok bits s L s' L'"
    and "only_wakes (tcbs s) (tcbs s')"
proof -
  let ?s0 = "set_flag out False s"
  let ?s1 = "?s0\<lparr>port := snd (sertos_port_enter_critical E (port ?s0))\<rparr>"
  let ?x = "exit_critical E (fst (sertos_port_enter_critical E (port ?s0)))"
  have o0: "step_ok bits s L ?s0 L" using step_ok_refl [OF inv] by simp
  obtain n s2 where w: "stream_write E h data len ?s1 = (n, s2)" by (metis surj_pair)
  have i1: "sys_inv bits ?s1 L" using inv by simp
  note s2 = stream_write_step [OF i1 w]
  have o2: "step_ok bits s L s2 L" "tcbs s2 = tcbs s" using s2(1,2) by simp_all
  show thesis
  proof (cases "is_send_params_valid h data len ?s0")
    case False
    then show thesis using that o0 by (simp add: sertos_stream_buffer_send_from_isr_def)
  next
    case True
    then have "owner_ok (StreamRecv h) s2"
      using s2(3) by (simp add: is_send_params_valid_def is_valid_handle_def split: if_splits)
    then obtain a s3 L3 where s3: "sertos_scheduler_wait_list_unblock_highest E (Some (StreamRecv h)) s2 = Some (a, s3)"
      "step_ok bits s L s3 L3" "only_wakes (tcbs s) (tcbs s3)" using wake_buffer [OF o2(1) _ _ o2(2), of "StreamRecv h"] by auto
    have "sertos_stream_buffer_send_from_isr E h data len out s \<in> {Some (n, ?x s2), Some (n, ?x (update_higher_prio_woken a out s3))}"
      using True w s3(1) by (simp add: sertos_stream_buffer_send_from_isr_def enter_critical_eq Let_def)
    then show thesis using that o2 s3(2,3) by auto
  qed
qed

lemma stream_receive_isr_step:
  assumes inv: "sys_inv bits s L"
  obtains r s' L' where "sertos_stream_buffer_receive_from_isr E h buf len out s = Some (r, s')" and "step_ok bits s L s' L'"
    and "only_wakes (tcbs s) (tcbs s')"
proof -
  let ?s0 = "set_flag out False s"
  let ?s1 = "?s0\<lparr>port := snd (sertos_port_enter_critical E (port ?s0))\<rparr>"
  let ?x = "exit_critical E (fst (sertos_port_enter_critical E (port ?s0)))"
  have o0: "step_ok bits s L ?s0 L" using step_ok_refl [OF inv] by simp
  obtain n s2 where w: "stream_read E h buf len ?s1 = (n, s2)" by (metis surj_pair)
  have i1: "sys_inv bits ?s1 L" using inv by simp
  note s2 = stream_read_step [OF i1 w]
  have o2: "step_ok bits s L s2 L" "tcbs s2 = tcbs s" using s2(1,2) by simp_all
  show thesis
  proof (cases "is_recv_params_valid h buf len ?s0")
    case False
    then show thesis using that o0 by (simp add: sertos_stream_buffer_receive_from_isr_def)
  next
    case True
    then have "owner_ok (StreamSend h) s2"
      using s2(3) by (simp add: is_recv_params_valid_def is_valid_handle_def split: if_splits)
    then obtain a s3 L3 where s3: "sertos_scheduler_wait_list_unblock_highest E (Some (StreamSend h)) s2 = Some (a, s3)"
      "step_ok bits s L s3 L3" "only_wakes (tcbs s) (tcbs s3)" using wake_buffer [OF o2(1) _ _ o2(2), of "StreamSend h"] by auto
    have "sertos_stream_buffer_receive_from_isr E h buf len out s \<in> {Some (n, ?x s2), Some (n, ?x (update_higher_prio_woken a out s3))}"
      using True w s3(1) by (simp add: sertos_stream_buffer_receive_from_isr_def enter_critical_eq Let_def)
    then show thesis using that o2 s3(2,3) by auto
  qed
qed

lemma stream_trigger_step:
  assumes inv: "sys_inv bits s L" and E: "pending_port E"
  obtains r s' L' where "sertos_stream_buffer_set_trigger_level E h level s = Some (r, s')" and "step_ok bits s L s' L'"
    and "only_wakes (tcbs s) (tcbs s')"
proof -
  let ?t = "if level = 0 then 1 else level"
  show thesis
  proof (cases "\<not> is_valid_handle h s \<or> ring_buffer_capacity E (sb_ring_buf (streams s h)) < ?t")
    case True
    then have "sertos_stream_buffer_set_trigger_level E h level s = Some (SERTOS_STATUS_ERROR_INVALID_PARAM, s)"
      by (simp add: sertos_stream_buffer_set_trigger_level_def Let_def)
    then show thesis by (rule that [OF _ step_ok_refl [OF inv]]) simp
  next
    case False
    let ?s2 = "upd_stream h (\<lambda>b. b\<lparr>sb_trigger_level_bytes := ?t\<rparr>) (s\<lparr>port := snd (sertos_port_enter_critical E (port s))\<rparr>)"
    have o2: "step_ok bits s L ?s2 L" "tcbs ?s2 = tcbs s" using step_ok_refl [OF inv] by simp_all
    have "owner_ok (StreamRecv h) ?s2" using False by (auto simp: is_valid_handle_def split: if_splits)
    from wake_notify_step [OF o2(1) _ this o2(2) E, of "?t \<le> ring_buffer_count E (sb_ring_buf (streams ?s2 h))"
        "fst (sertos_port_enter_critical E (port s))" SERTOS_STATUS_OK]
    show thesis using that False
      by (simp add: sertos_stream_buffer_set_trigger_level_def enter_critical_eq Let_def) blast
  qed
qed

lemma stream_reset_step:
  assumes inv: "sys_inv bits s L" and E: "pending_port E"
  obtains r s' L' where "sertos_stream_buffer_reset E h s = Some (r, s')" and "step_ok bits s L s' L'"
    and "only_wakes (tcbs s) (tcbs s')"
proof (cases "is_valid_handle h s")
  case False
  then show thesis using that step_ok_refl [OF inv] by (simp add: sertos_stream_buffer_reset_def)
next
  case True
  let ?s2 = "upd_stream h (\<lambda>b. b\<lparr>sb_ring_buf := ring_buffer_clear E (sb_ring_buf b)\<rparr>)
    (s\<lparr>port := snd (sertos_port_enter_critical E (port s))\<rparr>)"
  have o2: "step_ok bits s L ?s2 L" "tcbs ?s2 = tcbs s" using step_ok_refl [OF inv] by simp_all
  have w: "is_wait_list (StreamSend h)" "L (StreamSend h) \<noteq> None" using buffer_lists [OF inv, of "StreamSend h"] True by simp_all
  then obtain ns where ns: "L (StreamSend h) = Some ns" by blast
  obtain s3 where s3: "unblock_all E (StreamSend h) ?s2 = Some s3" "step_ok bits ?s2 L s3 (wake_all (tcbs ?s2) ns L)"
    "only_wakes (tcbs ?s2) (tcbs s3)" using unblock_all_step [OF step_ok_inv [OF o2(1)] ns w(1)] by blast
  obtain s4 where s4: "reschedule_if_running E (exit_critical E (fst (sertos_port_enter_critical E (port s))) s3) = Some s4"
    "step_ok bits s L s4 (wake_all (tcbs ?s2) ns L)" "tcbs s4 = tcbs s3"
    using delete_end [OF step_ok_trans [OF o2(1) s3(2)] E, of _ False] by auto
  have "sertos_stream_buffer_reset E h s = Some (SERTOS_STATUS_OK, s4)"
    using True s3(1) s4(1) by (simp add: sertos_stream_buffer_reset_def enter_critical_eq)
  then show thesis by (rule that [OF _ s4(2)]) (use s3(3) s4(3) in simp)
qed

lemma stream_delete_step:
  assumes inv: "sys_inv bits s L" and E: "pending_port E"
  obtains r s' L' where "sertos_stream_buffer_delete E h s = Some (r, s')" and "step_ok bits s L s' L'"
    and "only_wakes (tcbs s) (tcbs s')"
proof (cases "is_valid_handle h s")
  case False
  then show thesis using that step_ok_refl [OF inv] by (simp add: sertos_stream_buffer_delete_def)
next
  case True
  let ?s2 = "upd_stream h (\<lambda>b. b\<lparr>sb_magic := 0\<rparr>) (s\<lparr>port := snd (sertos_port_enter_critical E (port s))\<rparr>)"
  obtain s3 s4 L4 where s4: "unblock_all E (StreamSend h) ?s2 = Some s3" "unblock_all E (StreamRecv h) s3 = Some s4"
    and o4: "step_ok bits s L s4 L4" and ow: "only_wakes (tcbs s) (tcbs s4)"
  proof (rule delete_lists [OF inv])
    show "kinv bits ?s2 L" using inv by (simp add: sys_inv_def)
    show "owner_ok wl ?s2 \<longleftrightarrow> owner_ok wl s \<and> wl \<notin> {StreamSend h, StreamRecv h}" for wl
      by (cases wl) (auto simp: queue_handle_ok_def is_valid_handle_def upd_stream_def SERTOS_STREAM_BUFFER_MAGIC_WORD_def)
  qed (use True that in \<open>simp_all add: upd_stream_def\<close>)
  obtain s6 where s6: "reschedule_if_running E (exit_critical E (fst (sertos_port_enter_critical E (port s)))
      (if \<not> sb_is_statically_allocated (streams s4 h) then s4\<lparr>pool := memory_pool_free E h
         (memory_pool_free E (sb_storage_buffer (streams s4 h)) (pool s4))\<rparr> else s4)) = Some s6"
    "step_ok bits s L s6 L4" "tcbs s6 = tcbs s4" by (rule delete_end [OF o4 E], rule that)
  have "sertos_stream_buffer_delete E h s = Some (SERTOS_STATUS_OK, s6)"
    using True s4 s6(1) by (simp add: sertos_stream_buffer_delete_def enter_critical_eq Let_def)
  then show thesis by (rule that [OF _ s6(2)]) (use ow s6(3) in simp)
qed

end

section \<open>Every call on a buffer returns\<close>

context kernel_env
begin

lemma buffer_isr_calls_return:
  assumes inv: "sys_inv bits s L"
  shows "sertos_queue_send_from_isr E h item out s \<noteq> None" "sertos_queue_receive_from_isr E h item out s \<noteq> None"
    "sertos_stream_buffer_send_from_isr E h buf len out s \<noteq> None"
    "sertos_stream_buffer_receive_from_isr E h buf len out s \<noteq> None"
proof -
  show "sertos_queue_send_from_isr E h item out s \<noteq> None" by (rule queue_send_isr_step [OF inv, of h item out]) simp
  show "sertos_queue_receive_from_isr E h item out s \<noteq> None" by (rule queue_receive_isr_step [OF inv, of h item out]) simp
  show "sertos_stream_buffer_send_from_isr E h buf len out s \<noteq> None"
    by (rule stream_send_isr_step [OF inv, of h buf len out]) simp
  show "sertos_stream_buffer_receive_from_isr E h buf len out s \<noteq> None"
    by (rule stream_receive_isr_step [OF inv, of h buf len out]) simp
qed

lemma buffer_calls_return:
  assumes inv: "sys_inv bits s L" and E: "pending_port E"
  shows "sertos_queue_delete E h s \<noteq> None" "sertos_stream_buffer_delete E h s \<noteq> None"
    "sertos_stream_buffer_reset E h s \<noteq> None" "sertos_stream_buffer_set_trigger_level E h level s \<noteq> None"
proof -
  show "sertos_queue_delete E h s \<noteq> None" by (rule queue_delete_step [OF inv E, of h]) simp
  show "sertos_stream_buffer_delete E h s \<noteq> None" by (rule stream_delete_step [OF inv E, of h]) simp
  show "sertos_stream_buffer_reset E h s \<noteq> None" by (rule stream_reset_step [OF inv E, of h]) simp
  show "sertos_stream_buffer_set_trigger_level E h level s \<noteq> None" by (rule stream_trigger_step [OF inv E, of h level]) simp
qed

text \<open>A transfer returns when it need not wait; otherwise it reaches the point where the caller is parked.\<close>

lemma transfers_return:
  assumes inv: "sys_inv bits s L" and E: "pending_port E"
  shows "\<not> must_wait E (QueueSend h) s \<or> t = SERTOS_NO_WAIT \<Longrightarrow> sertos_queue_send E h item t s \<noteq> None"
    "\<not> must_wait E (QueueRecv h) s \<or> t = SERTOS_NO_WAIT \<Longrightarrow> sertos_queue_receive E h item t s \<noteq> None"
    "\<not> must_wait E (QueueRecv h) s \<or> t = SERTOS_NO_WAIT \<Longrightarrow> sertos_queue_peek E h item t s \<noteq> None"
    "\<not> must_wait E (StreamSend h) s \<or> t = SERTOS_NO_WAIT \<Longrightarrow> sertos_stream_buffer_send E h buf len t s \<noteq> None"
    "\<not> must_wait E (StreamRecv h) s \<or> t = SERTOS_NO_WAIT \<Longrightarrow> sertos_stream_buffer_receive E h buf len t s \<noteq> None"
    "current_runs s \<Longrightarrow> must_wait E wl s \<Longrightarrow> t \<noteq> SERTOS_NO_WAIT \<Longrightarrow> wait_phase E wl t s \<noteq> None"
proof -
  show "sertos_queue_send E h item t s \<noteq> None" if "\<not> must_wait E (QueueSend h) s \<or> t = SERTOS_NO_WAIT"
    by (rule queue_send_step [OF inv E that, of item]) simp
  show "sertos_queue_receive E h item t s \<noteq> None" if "\<not> must_wait E (QueueRecv h) s \<or> t = SERTOS_NO_WAIT"
    by (rule queue_receive_step [OF inv E that, of item]) simp
  show "sertos_queue_peek E h item t s \<noteq> None" if "\<not> must_wait E (QueueRecv h) s \<or> t = SERTOS_NO_WAIT"
    by (rule queue_peek_step [OF inv that, of item]) simp
  show "sertos_stream_buffer_send E h buf len t s \<noteq> None" if "\<not> must_wait E (StreamSend h) s \<or> t = SERTOS_NO_WAIT"
    by (rule stream_send_step [OF inv E that, of buf len]) simp
  show "sertos_stream_buffer_receive E h buf len t s \<noteq> None" if "\<not> must_wait E (StreamRecv h) s \<or> t = SERTOS_NO_WAIT"
    by (rule stream_receive_step [OF inv E that, of buf len]) simp
  show "wait_phase E wl t s \<noteq> None" if "current_runs s" "must_wait E wl s" "t \<noteq> SERTOS_NO_WAIT"
    by (rule wait_step [OF inv E that(1,3,2)]) simp
qed

end
end
