(* ===== verification/Sertos_System_Run.thy ===== *)
theory Sertos_System_Run
  imports Sertos_System_Buffers Sertos_Timer_Calls
begin

text \<open>
  The kernel as a state machine: timers and the tick, the relation \<open>kernel_call\<close> that collects all other calls,
  runs of calls and ticks, and the initialisation that they start from. Timer callbacks and the tick hook are application code that
  runs inside the tick; \<open>good_handlers\<close> is what they must keep.
\<close>

section \<open>Timers\<close>

text \<open>The timer service: timers exist only once it is initialised, the list of active timers holds existing timers only, and a
  timer is active exactly if it is on that list.\<close>

definition timers_ok :: "('b, 'r, 'm, 'p) kstate \<Rightarrow> lmap \<Rightarrow> bool" where
  "timers_ok s L \<longleftrightarrow> (\<forall>a. timer_handle_ok a s \<longrightarrow> s_timer_subsystem_initialized s) \<and>
     (s_timer_subsystem_initialized s \<longrightarrow> timer_inv s L) \<and> (\<forall>a. on_list L ActiveTimers (TimerNode a) \<longrightarrow> timer_handle_ok a s)"

definition kernel_inv :: "('b \<Rightarrow> nat set) \<Rightarrow> ('b, 'r, 'm, 'p) kstate \<Rightarrow> lmap \<Rightarrow> bool" where
  "kernel_inv bits s L \<longleftrightarrow> sys_inv bits s L \<and> timers_ok s L"

lemma kernel_inv_same:
  assumes "kernel_inv bits s L" and "sys_inv bits s' L'" and "timers s' = timers s"
    and "s_timer_subsystem_initialized s' = s_timer_subsystem_initialized s" and "L' ActiveTimers = L ActiveTimers"
  shows "kernel_inv bits s' L'"
  using assms by (auto simp: kernel_inv_def timers_ok_def timer_inv_def timer_handle_ok_def on_list_def)

lemma kernel_inv_step: "kernel_inv bits s L \<Longrightarrow> step_ok bits s L s' L' \<Longrightarrow> kernel_inv bits s' L'"
  by (rule kernel_inv_same [of bits s L]) (simp_all add: step_ok_def)

lemma sys_inv_timers:
  assumes inv: "sys_inv bits s L" and k: "kinv bits s' (L(ActiveTimers := x))" and fr: "timer_frame s s'"
  shows "sys_inv bits s' (L(ActiveTimers := x))"
proof -
  let ?L = "L(ActiveTimers := x)"
  have kin: "kinv bits s L" using inv by (simp add: sys_inv_def)
  have on: "on_list ?L l n = on_list L l n" if n: "n \<in> {StateNode a, EventNode a, RegistryNode a}" for l n a
  proof (cases "l = ActiveTimers")
    case True
    have "\<not> list_typed ActiveTimers n" using n by auto
    then show ?thesis using kinv_typed [OF kin, of l n] kinv_typed [OF k, of l n] True by blast
  qed (simp add: on_list_def)
  have ons: "on_list ?L l (StateNode a) = on_list L l (StateNode a)" "on_list ?L l (EventNode a) = on_list L l (EventNode a)"
    "on_list ?L l (RegistryNode a) = on_list L l (RegistryNode a)" for l a
    by (rule on [of _ a]; simp)+
  have "tasks_ok T c ?L = tasks_ok T c L" for T c unfolding tasks_ok_def placed_def linked_def ons ..
  moreover have "sems_ok s' ?L" by (rule sems_ok_mono [of s L]) (use inv fr in \<open>auto simp: sys_inv_def timer_frame_def on_list_def\<close>)
  moreover have "bufs_ok s' ?L"
    by (rule bufs_ok_mono [of s L]) (use inv fr in \<open>auto simp: sys_inv_def timer_frame_def on_list_def split: if_splits\<close>)
  moreover have "waits_sorted T ?L = waits_sorted T L" for T by (rule waits_sorted_upd) simp
  ultimately show ?thesis using inv k fr by (simp add: sys_inv_def timer_frame_def)
qed

lemma sys_inv_upd_timer [simp]: "sys_inv bits (upd_timer a f s) L = sys_inv bits s L"
  by (simp add: sys_inv_def sems_ok_def sem_inv_def sem_handle_ok_def bufs_ok_def owner_ok_cong [of "upd_timer a f s" s])

text \<open>A call that changes the control block of one timer and the list of active timers.\<close>

lemma timer_call_keeps:
  assumes inv: "kernel_inv bits s L" and h: "timer_handle_ok a s" and ns: "L ActiveTimers = Some ns"
    and k: "kinv bits s' (L(ActiveTimers \<mapsto> ns'))" and fr: "timer_frame s s'" "s_timer_subsystem_initialized s' = s_timer_subsystem_initialized s"
    and t: "timers s' = (timers s)(a := t)"
    and others: "\<And>b. b \<noteq> a \<Longrightarrow> (TimerNode b \<in> set ns') = (TimerNode b \<in> set ns)"
    and this_one: "tmr_magic t = SERTOS_TIMER_MAGIC_WORD \<Longrightarrow> tmr_is_active t = (TimerNode a \<in> set ns')"
      "TimerNode a \<in> set ns' \<Longrightarrow> tmr_magic t = SERTOS_TIMER_MAGIC_WORD"
  shows "kernel_inv bits s' (L(ActiveTimers \<mapsto> ns'))"
proof -
  have i: "s_timer_subsystem_initialized s" and ti: "timer_inv s L" and a0: "a \<noteq> NULL"
    using inv h by (auto simp: kernel_inv_def timers_ok_def timer_handle_ok_def)
  have "timer_inv s' (L(ActiveTimers \<mapsto> ns'))" by (rule timer_inv_upd [OF ti ns t others this_one(1)])
  moreover have "timer_handle_ok b s'" if "TimerNode b \<in> set ns'" for b
    using that inv ns t a0 others [of b] this_one(2)
    by (cases "b = a") (auto simp: kernel_inv_def timers_ok_def timer_handle_ok_def on_list_def)
  moreover have "sys_inv bits s' (L(ActiveTimers \<mapsto> ns'))" by (rule sys_inv_timers [OF _ k fr(1)]) (use inv in \<open>simp add: kernel_inv_def\<close>)
  ultimately show ?thesis using i fr(2) by (simp add: kernel_inv_def timers_ok_def on_list_def)
qed

lemma timer_facts:
  assumes "kernel_inv bits s L" and "timer_handle_ok a s"
  obtains ns where "L ActiveTimers = Some ns" and "tmr_is_active (timers s a) = (TimerNode a \<in> set ns)"
    and "TimerNode a \<notin> set (remove1 (TimerNode a) ns)" and "kinv bits s L"
proof -
  have k: "kinv bits s L" and ti: "timer_inv s L" using assms by (auto simp: kernel_inv_def sys_inv_def timers_ok_def)
  then obtain ns where ns: "L ActiveTimers = Some ns" by (auto simp: timer_inv_def)
  have "TimerNode a \<notin> set (remove1 (TimerNode a) ns)" using heap_ok_distinct [OF kinv_heap [OF k] ns] by simp
  then show thesis using that ns timer_inv_active [OF ti assms(2) ns] k by blast
qed

context kernel_env
begin

lemma timer_start_step:
  assumes inv: "kernel_inv bits s L" and c: "sertos_timer_start E a s = (r, s')"
  obtains L' where "kernel_inv bits s' L'" and "tcbs s' = tcbs s"
proof (cases "timer_handle_ok a s")
  case False
  then show thesis using that inv c by (simp add: sertos_timer_start_def)
next
  case True
  obtain ns where ns: "L ActiveTimers = Some ns" "tmr_is_active (timers s a) = (TimerNode a \<in> set ns)" "kinv bits s L"
    by (rule timer_facts [OF inv True], rule that)
  obtain s1 where s1: "sertos_timer_start E a s = (SERTOS_STATUS_OK, s1)"
    "kinv bits s1 (L(ActiveTimers \<mapsto> remove1 (TimerNode a) ns @ [TimerNode a]))"
    "timers s1 = (timers s)(a := (timers s a)\<lparr>tmr_remaining_ticks := tmr_period_ticks (timers s a), tmr_is_active := True\<rparr>)"
    "timer_frame s s1" "s_timer_subsystem_initialized s1 = s_timer_subsystem_initialized s"
    by (rule timer_start_refines [OF ns(3) True ns(1,2)], rule that)
  have "kernel_inv bits s1 (L(ActiveTimers \<mapsto> remove1 (TimerNode a) ns @ [TimerNode a]))"
    by (rule timer_call_keeps [OF inv True ns(1) s1(2,4,5,3)]) (use True in \<open>auto simp: in_set_remove1_other timer_handle_ok_def\<close>)
  then show thesis using that c s1(1,4) by (auto simp: timer_frame_def)
qed

lemma timer_stop_step:
  assumes inv: "kernel_inv bits s L" and c: "sertos_timer_stop E a s = (r, s')"
  obtains L' where "kernel_inv bits s' L'" and "tcbs s' = tcbs s"
proof (cases "timer_handle_ok a s")
  case False
  then show thesis using that inv c by (simp add: sertos_timer_stop_def)
next
  case True
  obtain ns where ns: "L ActiveTimers = Some ns" "tmr_is_active (timers s a) = (TimerNode a \<in> set ns)" "kinv bits s L"
    "TimerNode a \<notin> set (remove1 (TimerNode a) ns)" by (rule timer_facts [OF inv True], rule that)
  obtain s1 where s1: "sertos_timer_stop E a s = (SERTOS_STATUS_OK, s1)" "kinv bits s1 (L(ActiveTimers \<mapsto> remove1 (TimerNode a) ns))"
    "timers s1 = (timers s)(a := (timers s a)\<lparr>tmr_is_active := False\<rparr>)" "timer_frame s s1"
    "s_timer_subsystem_initialized s1 = s_timer_subsystem_initialized s"
    by (rule timer_stop_refines [OF ns(3) True ns(1,2)], rule that)
  have "kernel_inv bits s1 (L(ActiveTimers \<mapsto> remove1 (TimerNode a) ns))"
    by (rule timer_call_keeps [OF inv True ns(1) s1(2,4,5,3)]) (use ns(4) in \<open>simp_all add: in_set_remove1_other\<close>)
  then show thesis using that c s1(1,4) by (auto simp: timer_frame_def)
qed

lemma timer_delete_step:
  assumes inv: "kernel_inv bits s L" and c: "sertos_timer_delete E a s = (r, s')"
  obtains L' where "kernel_inv bits s' L'" and "tcbs s' = tcbs s"
proof (cases "timer_handle_ok a s")
  case False
  then show thesis using that inv c by (simp add: sertos_timer_delete_def)
next
  case True
  obtain ns where ns: "L ActiveTimers = Some ns" "tmr_is_active (timers s a) = (TimerNode a \<in> set ns)" "kinv bits s L"
    "TimerNode a \<notin> set (remove1 (TimerNode a) ns)" by (rule timer_facts [OF inv True], rule that)
  obtain s1 where s1: "sertos_timer_delete E a s = (SERTOS_STATUS_OK, s1)" "kinv bits s1 (L(ActiveTimers \<mapsto> remove1 (TimerNode a) ns))"
    "timers s1 = (timers s)(a := (timers s a)\<lparr>tmr_is_active := False, tmr_magic := 0\<rparr>)" "timer_frame s s1"
    "s_timer_subsystem_initialized s1 = s_timer_subsystem_initialized s"
    by (rule timer_delete_refines [OF ns(3) True ns(1,2)], rule that)
  have "kernel_inv bits s1 (L(ActiveTimers \<mapsto> remove1 (TimerNode a) ns))"
    by (rule timer_call_keeps [OF inv True ns(1) s1(2,4,5,3)]) (use ns(4) in \<open>simp_all add: in_set_remove1_other\<close>)
  then show thesis using that c s1(1,4) by (auto simp: timer_frame_def)
qed

lemma timer_period_step:
  assumes inv: "kernel_inv bits s L" and c: "sertos_timer_change_period E a period s = (r, s')"
  obtains L' where "kernel_inv bits s' L'" and "tcbs s' = tcbs s"
proof (cases "timer_handle_ok a s \<and> period \<noteq> 0")
  case False
  then show thesis using that inv c by (cases "timer_handle_ok a s") (simp_all add: sertos_timer_change_period_def)
next
  case True
  let ?s1 = "upd_timer a (\<lambda>t. t\<lparr>tmr_period_ticks := period\<rparr>) s"
  have "sys_inv bits ?s1 L" using inv by (simp add: kernel_inv_def)
  then have "kernel_inv bits ?s1 L" using inv by (auto simp: kernel_inv_def timers_ok_def timer_inv_def timer_handle_ok_def)
  moreover have "sertos_timer_start E a ?s1 = (r, s')" using True c by (simp add: sertos_timer_change_period_def sertos_timer_reset_def)
  ultimately show thesis by (rule timer_start_step) (use that in simp)
qed

lemma timer_create_step:
  assumes inv: "kernel_inv bits s L" and h: "\<not> timer_handle_ok a s" and c: "sertos_timer_create_static E config a out s = (r, s')"
  obtains L' where "kernel_inv bits s' L'" and "tcbs s' = tcbs s"
proof (cases "s' = s")
  case True
  then show thesis using that inv by simp
next
  case False
  let ?s1 = "if \<not> s_timer_subsystem_initialized s then sertos_timer_init E s else s"
  obtain t where s': "s' = (let s3 = upd_heap (clear_node (TimerNode a)) (upd_timer a (\<lambda>_. t) ?s1)
      in s3\<lparr>ptr_cells := (ptr_cells s3)(out := a)\<rparr>)" and t: "\<not> tmr_is_active t" and a0: "a \<noteq> NULL"
    using c False by (auto simp: sertos_timer_create_static_def Let_def split: if_splits option.splits)
  let ?L = "if s_timer_subsystem_initialized s then L else L(ActiveTimers \<mapsto> [])"
  have k: "kinv bits s L" and i: "sys_inv bits s L" and tm: "timers_ok s L" using inv by (simp_all add: kernel_inv_def sys_inv_def)
  have off: "\<not> on_list ?L ActiveTimers (TimerNode a)" using tm h by (auto simp: timers_ok_def on_list_def)
  have k1: "kinv bits ?s1 ?L" using k timer_init_refines [OF k] by simp
  have "kinv bits s' ?L" by (rule timer_clear_refines [OF k1 off]) (simp_all add: s' Let_def)
  moreover have fr: "timer_frame s s'" "s_timer_subsystem_initialized s'" "timers s' = (timers s)(a := t)"
    by (simp_all add: s' Let_def timer_frame_def sertos_timer_init_def)
  ultimately have "sys_inv bits s' ?L"
    using sys_inv_timers [OF i, of s' "L ActiveTimers"] sys_inv_timers [OF i, of s' "Some []"] by (simp split: if_splits)
  moreover have "timer_inv s' ?L"
    using tm t off fr(3) by (auto simp: timers_ok_def timer_inv_def timer_handle_ok_def on_list_def split: if_splits)
  moreover have "timer_handle_ok b s'" if "on_list ?L ActiveTimers (TimerNode b)" for b
    using that off tm fr(3) by (cases "b = a") (auto simp: timers_ok_def timer_handle_ok_def on_list_def split: if_splits)
  ultimately have "kernel_inv bits s' ?L" using fr(2) by (simp add: kernel_inv_def timers_ok_def)
  then show thesis by (rule that) (use fr(1) in \<open>simp add: timer_frame_def\<close>)
qed

end

section \<open>The tick\<close>

text \<open>Timer callbacks and hooks run in the tick: they return, keep the invariant, leave the timers and the sleeping tasks
  alone and move no task but from BLOCKED to READY. Giving a semaphore from a callback is an example.\<close>

definition good_handlers :: "('b, 'r, 'm, 'p) env \<Rightarrow> ('b \<Rightarrow> nat set) \<Rightarrow> bool" where
  "good_handlers E bits \<longleftrightarrow>
     (\<forall>cb h p s L. sys_inv bits s L \<longrightarrow> (\<exists>s' L'. call_timer_callback E cb h p s = Some s' \<and> step_ok bits s L s' L' \<and>
        only_wakes (tcbs s) (tcbs s'))) \<and>
     (\<forall>f s L. sys_inv bits s L \<longrightarrow> (\<exists>s' L'. call_hook E f s = Some s' \<and> step_ok bits s L s' L' \<and> only_wakes (tcbs s) (tcbs s')))"

definition tick_frame :: "(addr \<Rightarrow> tcb) \<Rightarrow> (addr \<Rightarrow> tcb) \<Rightarrow> bool" where
  "tick_frame T T' \<longleftrightarrow> only_wakes T T' \<and> sleeps_on T T'"

lemma tick_frame_refl [simp]: "tick_frame T T"
  by (simp add: tick_frame_def)

lemma tick_frame_trans: "tick_frame T T' \<Longrightarrow> tick_frame T' T'' \<Longrightarrow> tick_frame T T''"
  unfolding tick_frame_def using only_wakes_trans sleeps_on_trans by blast

lemma sys_timer_walk:
  assumes E: "kernel_env E bits" and good: "good_handlers E bits"
  shows "timer_walk E bits (\<lambda>s L. sys_inv bits s L \<and> s_timer_subsystem_initialized s = b \<and> tick_frame T (tcbs s))"
proof (intro timer_walk.intro timer_walk_axioms.intro E)
  fix s :: "('a, 'b, 'c, 'd) kstate" and L assume I: "sys_inv bits s L \<and> s_timer_subsystem_initialized s = b \<and> tick_frame T (tcbs s)"
  show "kinv bits s L" using I by (simp add: sys_inv_def)
  show "sys_inv bits (upd_timer a f s) L \<and> s_timer_subsystem_initialized (upd_timer a f s) = b \<and> tick_frame T (tcbs (upd_timer a f s))" for a f
    using I by simp
  show "sys_inv bits (upd_heap g s) (L(ActiveTimers \<mapsto> ns)) \<and> s_timer_subsystem_initialized (upd_heap g s) = b \<and> tick_frame T (tcbs (upd_heap g s))"
    if "kinv bits (upd_heap g s) (L(ActiveTimers \<mapsto> ns))" for g ns
    using I sys_inv_timers [OF _ that, of s] by (simp add: timer_frame_def upd_heap_def)
  fix cb h p
  obtain s' L' where s': "call_timer_callback E cb h p s = Some s'" "step_ok bits s L s' L'" "only_wakes (tcbs s) (tcbs s')"
    using I good unfolding good_handlers_def by blast
  have "tick_frame (tcbs s) (tcbs s')" using s'(2,3) by (simp add: tick_frame_def step_ok_def)
  then have "tick_frame T (tcbs s')" using I tick_frame_trans by blast
  then show "\<exists>s' L'. call_timer_callback E cb h p s = Some s' \<and>
      (sys_inv bits s' L' \<and> s_timer_subsystem_initialized s' = b \<and> tick_frame T (tcbs s')) \<and>
      L' ActiveTimers = L ActiveTimers \<and> timers s' = timers s"
    using I s'(1,2) by (intro exI [of _ s'] exI [of _ L']) (simp add: step_ok_def)
qed

text \<open>The walk over the timers keeps the invariant.\<close>

lemma timer_tick_step:
  assumes E: "kernel_env E bits" and inv: "kernel_inv bits s L" and good: "good_handlers E bits"
  obtains s' L' where "sertos_timer_tick E s = Some s'" and "kernel_inv bits s' L'" and "tick_frame (tcbs s) (tcbs s')"
proof (cases "s_timer_subsystem_initialized s")
  case False
  then show thesis using that inv by (simp add: sertos_timer_tick_def)
next
  case True
  have i: "sys_inv bits s L" and k: "kinv bits s L" and tm: "timers_ok s L" "timer_inv s L"
    using inv True by (simp_all add: kernel_inv_def sys_inv_def timers_ok_def)
  obtain ns where ns: "L ActiveTimers = Some ns" using tm(2) by (auto simp: timer_inv_def)
  then have "\<exists>ts. ns = map TimerNode ts" using kinv_timer_nodes [OF k ns] by (metis ex_map_conv)
  then obtain ts where L: "L ActiveTimers = Some (map TimerNode ts)" using ns by blast
  obtain s' L' where s': "sertos_timer_tick E s = Some s'" "sys_inv bits s' L'" "s_timer_subsystem_initialized s'" "tick_frame (tcbs s) (tcbs s')"
    "L' ActiveTimers = Some (map TimerNode (filter (\<lambda>a. \<not> timer_leaves (timers s a)) ts))"
    "timers s' = (\<lambda>a. if a \<in> set ts then timer_after_tick (timers s a) else timers s a)"
    using timer_walk.timer_tick_refines [OF sys_timer_walk [OF E good, of True "tcbs s"], of s L ts] i True L by auto
  have h: "timer_handle_ok a s' = timer_handle_ok a s" for a by (simp add: timer_handle_ok_def s'(6) timer_after_tick_def)
  have "tmr_is_active (timers s a) = (a \<in> set ts)" if "timer_handle_ok a s" for a
    using timer_inv_active [OF tm(2) that L] by auto
  then have "timer_inv s' L'" by (auto simp: timer_inv_def h s'(5,6) on_list_def timer_after_tick_def timer_leaves_def)
  moreover have "timer_handle_ok a s'" if "on_list L' ActiveTimers (TimerNode a)" for a
    using that tm(1) L by (auto simp: h timers_ok_def on_list_def s'(5))
  ultimately have "kernel_inv bits s' L'" using s'(2,3) by (simp add: kernel_inv_def timers_ok_def)
  then show thesis using that s'(1,4) by blast
qed

definition counts_down :: "(addr \<Rightarrow> tcb) \<Rightarrow> (addr \<Rightarrow> tcb) \<Rightarrow> bool" where
  "counts_down T T' \<longleftrightarrow> (\<forall>a. asleep T a \<longrightarrow> (if tcb_delay_ticks (T a) \<le> 1 then tcb_state (T' a) = SERTOS_TASK_STATE_READY
     else asleep T' a \<and> tcb_delay_ticks (T' a) = tcb_delay_ticks (T a) - 1))"

lemma counts_down_frame:
  assumes "counts_down T T'" and "only_wakes T T'" and "tick_frame T' T''" shows "counts_down T T''"
proof -
  have "tcb_state (T'' a) = SERTOS_TASK_STATE_READY" if "valid_task T a" "tcb_state (T' a) = SERTOS_TASK_STATE_READY" for a
    using that assms(2,3) unfolding only_wakes_def tick_frame_def by auto
  moreover have "asleep T'' a \<and> tcb_delay_ticks (T'' a) = tcb_delay_ticks (T' a)" if "asleep T' a" for a
    using that assms(3) by (simp add: tick_frame_def sleeps_on_def)
  ultimately show ?thesis using assms(1) unfolding counts_down_def by (auto simp: asleep_def [of T])
qed

text \<open>The tick first moves the tasks whose delay expires from the delay list and their wait lists to the ready queues.\<close>

lemma tick_subset:
  assumes "kinv bits s L" and "L DelayList = Some ds" and "on_list (tick_lists T [] ds L) l n" shows "\<exists>k. on_list L k n"
proof (cases "on_list L l n")
  case False
  then have "n \<in> set ds" using assms(2,3) by (cases l) (auto simp: tick_lists_def on_list_def split: option.splits if_splits)
  then show ?thesis using assms(2) on_listI by blast
qed blast

lemma tick_ready: "on_list L (ReadyQ p) n \<Longrightarrow> on_list (tick_lists T [] ds L) (ReadyQ p) n"
  by (auto simp: tick_lists_def on_list_def split: option.splits)

lemma tick_wait: "is_wait_list wl \<Longrightarrow> tick_lists T [] ds L wl =
    map_option (filter (\<lambda>n. \<forall>a. n = EventNode a \<longrightarrow> \<not> (StateNode a \<in> set ds \<and> expires T (StateNode a)))) (L wl)"
  by (cases wl) (simp_all add: tick_lists_def)

lemma tick_other: "tick_lists T [] ds L TaskRegistry = L TaskRegistry" "tick_lists T [] ds L ActiveTimers = L ActiveTimers"
  by (simp_all add: tick_lists_def)

lemma wait_sorted_filter: "wait_sorted T ns \<Longrightarrow> wait_sorted T (filter P ns)"
  by (simp add: wait_sorted_def sorted_wrt_filter)

lemma tick_placed:
  assumes inv: "sys_inv bits s L" and ds: "L DelayList = Some ds" and a: "valid_task (tcbs s) a"
    and T: "T' = (\<lambda>a. if StateNode a \<in> set ds then tick_tcb (tcbs s a) else tcbs s a)"
  shows "placed T' (sertos_current_tcb s) (tick_lists (tcbs s) [] ds L) a"
proof -
  let ?L = "tick_lists (tcbs s) [] ds L"
  have k: "kinv bits s L" using inv by (simp add: sys_inv_def)
  have pl: "placed (tcbs s) (sertos_current_tcb s) L a" by (rule placed_valid [OF inv a])
  have p: "unat (tcb_priority (tcbs s a)) < SERTOS_CONFIG_MAX_PRIORITIES" using pl by (simp add: placed_def)
  then obtain ns where ns: "L (ReadyQ (unat (tcb_priority (tcbs s a)))) = Some ns" by (rule kinv_ready_list [OF k])
  have reg: "on_list ?L TaskRegistry n = on_list L TaskRegistry n" for n by (simp add: on_list_def tick_other)
  show ?thesis
  proof (cases "StateNode a \<in> set ds")
    case True
    then have on: "on_list L DelayList (StateNode a)" using ds by (simp add: on_list_def)
    then have st: "tcb_state (tcbs s a) = SERTOS_TASK_STATE_BLOCKED" by (intro waiting_state [OF inv]) blast
    then have "on_list ?L TaskRegistry (RegistryNode a)" using registered [OF inv a] reg by simp
    then show ?thesis using True p ns st
      by (cases "tcb_delay_ticks (tcbs s a) \<le> 1")
        (auto simp: placed_def T tick_tcb_def on_list_def tick_lists_def expires_def node_priority_def)
  next
    case False
    then have nd: "\<not> on_list L DelayList (StateNode a)" using ds by (simp add: on_list_def)
    have "on_list ?L wl (EventNode a)" if "on_list L wl (EventNode a)" for wl
      using that kinv_typed [OF k that] False by (auto simp: list_typed_EventNode on_list_def tick_wait split: option.splits)
    moreover have "\<not> on_list ?L l (StateNode a)" if "\<forall>l. \<not> on_list L l (StateNode a)" for l
      using tick_subset [OF k ds] that by blast
    moreover have "\<not> linked ?L a" if "\<not> linked L a" using tick_subset [OF k ds] that unfolding linked_def by metis
    ultimately show ?thesis using pl nd False by (auto simp: placed_def T tick_ready reg split: SertosTaskState.splits)
  qed
qed

context kernel_env
begin

text \<open>The tick counts every sleeping task down, and wakes it in the last tick of its delay.\<close>

lemma tick_step:
  assumes inv: "kernel_inv bits s L" and E: "pending_port E" and cur: "current_runs s" and good: "good_handlers E bits"
  obtains s' L' where "sertos_scheduler_tick E s = Some s'" and "kernel_inv bits s' L'" and "only_wakes (tcbs s) (tcbs s')"
    and "counts_down (tcbs s) (tcbs s')"
proof -
  have i: "sys_inv bits s L" and k: "kinv bits s L" using inv by (simp_all add: kernel_inv_def sys_inv_def)
  obtain ds where ds: "L DelayList = Some ds" using kinv_delay_list [OF k] .
  have cok: "current_ok s L" using i cur by (rule runs_current_ok)
  let ?c = "sertos_current_tcb s"
  let ?L3 = "tick_lists (tcbs s) [] ds L"
  let ?L = "sliced_lists (tcbs s) ?c (s_time_slicing_enabled s) ?L3"
  let ?T = "\<lambda>a. if StateNode a \<in> set ds then tick_tcb (tcbs s a) else tcbs s a"
  obtain s4 crit where s4: "kinv bits s4 ?L" "tcbs s4 = ?T" "s_timer_subsystem_initialized s4 = s_timer_subsystem_initialized s"
      "timers s4 = timers s" "sertos_current_tcb s4 = ?c" "sems s4 = sems s" "queues s4 = queues s" "streams s4 = streams s"
    and eq: "sertos_scheduler_tick E s = do {
      s5 \<leftarrow> sertos_timer_tick E s4;
      s6 \<leftarrow> (if s_tick_hook s5 \<noteq> NULL then call_hook E (s_tick_hook s5) s5 else Some s5);
      let s7 = exit_critical E crit s6;
      if (\<exists>n \<in> set ds. expires (tcbs s) n) \<or> s_time_slicing_enabled s7 then sertos_scheduler_switch_context E s7
      else Some s7
    }"
    using tick_refines [OF k cok ds] by blast
  have on: "on_list ?L l n = on_list ?L3 l n" for l n
    by (rule sliced_members) (use cok in \<open>auto simp: current_ok_def intro: tick_ready\<close>)
  have v: "valid_task ?T a = valid_task (tcbs s) a" and pr: "tcb_priority (?T a) = tcb_priority (tcbs s a)" for a
    by (auto simp: valid_task_def tick_tcb_def)
  have "linked L a" if "linked ?L3 a" for a using that tick_subset [OF k ds] unfolding linked_def by metis
  then have "tasks_ok ?T ?c ?L3" using i tick_placed [OF i ds _ refl] unfolding tasks_ok_def v by (simp add: sys_inv_def tasks_ok_def)
  then have "tasks_ok (tcbs s4) ?c ?L" using tasks_ok_members [of ?L ?L3, OF on] s4(2) by simp
  moreover have "waits_sorted (tcbs s) ?L3"
    using i by (auto simp: sys_inv_def waits_sorted_def tick_wait intro: wait_sorted_filter)
  then have "waits_sorted (tcbs s4) ?L"
    using waits_sorted_lists [of ?L ?L3, OF sliced_wait] waits_sorted_cong [of "tcbs s4" "tcbs s" ?L] s4(2) pr by simp
  moreover have "sems_ok s4 ?L"
    by (rule sems_ok_mono [of s L]) (use i s4(6) in \<open>auto simp: sys_inv_def sliced_wait tick_wait on_list_def split: option.splits\<close>)
  moreover have "bufs_ok s4 ?L"
    by (rule bufs_ok_mono [of s L]) (use i s4(7,8) in \<open>auto simp: sys_inv_def sliced_wait tick_wait on_list_def split: option.splits\<close>)
  ultimately have "sys_inv bits s4 ?L" using s4(1,5) by (simp add: sys_inv_def)
  then have i4: "kernel_inv bits s4 ?L" by (rule kernel_inv_same [OF inv]) (simp_all add: s4(3,4) tick_other)
  have ow4: "only_wakes (tcbs s) (tcbs s4)"
    using waiting_state [OF i] ds by (auto simp: only_wakes_def s4(2) valid_task_def tick_tcb_def on_list_def)
  have "StateNode a \<in> set ds" if "asleep (tcbs s) a" for a
    using that placed_valid [OF i, of a] kinv_wait [OF k, of _ a] ds by (auto simp: asleep_def placed_def on_list_def)
  then have cd4: "counts_down (tcbs s) (tcbs s4)" by (auto simp: counts_down_def s4(2) tick_tcb_def asleep_def valid_task_def)
  obtain s5 L5 where s5: "sertos_timer_tick E s4 = Some s5" "kernel_inv bits s5 L5" "tick_frame (tcbs s4) (tcbs s5)"
    using timer_tick_step [OF kernel_env_axioms i4 good] .
  have "sys_inv bits s5 L5" using s5(2) by (simp add: kernel_inv_def)
  then obtain s6 L6 where s6: "(if s_tick_hook s5 \<noteq> NULL then call_hook E (s_tick_hook s5) s5 else Some s5) = Some s6"
    "step_ok bits s5 L5 s6 L6" "only_wakes (tcbs s5) (tcbs s6)"
    using good step_ok_refl only_wakes_refl unfolding good_handlers_def by metis
  have "tick_frame (tcbs s5) (tcbs s6)" using s6(2,3) by (simp add: tick_frame_def step_ok_def)
  then have fr: "tick_frame (tcbs s4) (tcbs s6)" using s5(3) tick_frame_trans by blast
  let ?s7 = "exit_critical E crit s6"
  have i7: "step_ok bits s5 L5 ?s7 L6" using s6(2) by simp
  obtain s8 where s8: "sertos_scheduler_switch_context E ?s7 = Some s8" "step_ok bits ?s7 L6 s8 L6" "tcbs s8 = tcbs ?s7"
    using switch_context_requests [OF step_ok_inv [OF i7] E] .
  have "sertos_scheduler_tick E s \<in> {Some ?s7, Some s8}" unfolding eq using s5(1) s6(1) s8(1) by (simp add: Let_def)
  moreover have "kernel_inv bits ?s7 L6" "kernel_inv bits s8 L6" using kernel_inv_step [OF s5(2)] i7 step_ok_trans [OF i7 s8(2)] by blast+
  moreover have "tcbs ?s7 = tcbs s6" "tcbs s8 = tcbs s6" using s8(3) by simp_all
  moreover have "only_wakes (tcbs s) (tcbs s6)" using only_wakes_trans [OF ow4] fr by (simp add: tick_frame_def)
  moreover have "counts_down (tcbs s) (tcbs s6)" by (rule counts_down_frame [OF cd4 ow4 fr])
  ultimately show thesis using that by (metis insertE singletonD)
qed

end

section \<open>Runs\<close>

text \<open>A call of the running task or of an interrupt handler, or the switch that the PendSV handler performs; the tick is
  a step of its own, which runs count. Not every call that the code accepts is here; what is left out is:
  \<^item> a tick, and a yield, delay, take or wait of the caller, after a task has parked itself and before the switch
    (\<open>tick_revives_parked_task\<close> shows what such a tick does);
  \<^item> to suspend, resume or delete the current task or a BLOCKED one, and to change the priority of the RUNNING task or of one that
    waits in a wait list: the code does so without moving the task's nodes;
  \<^item> to initialise a control block that is in use, and to initialise the scheduler again;
  \<^item> creation from the memory pool, and mutexes, whose boosting leaves owners in the queue of another priority
    (\<open>unlock_leaves_owner_boosted\<close>).

  A call on a task in a state that the code refuses is included, and changes nothing.
  A transfer that has to wait is the step \<open>Wait\<close>, which parks the caller; when the caller runs again it tests the buffer, which is a
  new transfer. (The loops of queues do not look at the handle again, so this leaves out a waiter of a queue that was deleted.)\<close>

definition free_block :: "addr \<Rightarrow> ('b, 'r, 'm, 'p) kstate \<Rightarrow> bool" where
  "free_block t s \<longleftrightarrow> \<not> valid_task (tcbs s) t \<or> tcb_state (tcbs s t) = SERTOS_TASK_STATE_TERMINATED"

definition other_unblocked :: "addr \<Rightarrow> ('b, 'r, 'm, 'p) kstate \<Rightarrow> bool" where
  "other_unblocked t s \<longleftrightarrow> t \<noteq> NULL \<and> t \<noteq> sertos_current_tcb s \<and> tcb_state (tcbs s t) \<noteq> SERTOS_TASK_STATE_BLOCKED"

definition may_set_priority :: "addr \<Rightarrow> ('b, 'r, 'm, 'p) kstate \<Rightarrow> bool" where
  "may_set_priority t s \<longleftrightarrow> t \<noteq> NULL \<and> (t \<noteq> sertos_current_tcb s \<or> tcb_state (tcbs s t) = SERTOS_TASK_STATE_READY) \<and>
     (tcb_state (tcbs s t) = SERTOS_TASK_STATE_BLOCKED \<longrightarrow> tcb_wait_list (tcbs s t) = None)"

inductive kernel_call ::
  "('b, 'r, 'm, 'p) env \<Rightarrow> ('b, 'r, 'm, 'p) kstate \<Rightarrow> ('b, 'r, 'm, 'p) kstate \<Rightarrow> bool" for E where
  Start: "sertos_scheduler_start E s = Some s' \<Longrightarrow> kernel_call E s s'"
| Switch: "sertos_scheduler_perform_switch E s = Some (t, s') \<Longrightarrow> kernel_call E s s'"
| Yield: "current_runs s \<Longrightarrow> sertos_scheduler_yield E s = Some s' \<Longrightarrow> kernel_call E s s'"
| Lock: "kernel_call E s (sertos_scheduler_lock E s)"
| Unlock: "sertos_scheduler_unlock E s = Some s' \<Longrightarrow> kernel_call E s s'"
| Stats: "kernel_call E s (sertos_stats_set_enabled b s)"
| Delay: "current_runs s \<Longrightarrow> sertos_scheduler_delay E ticks s = Some (r, s') \<Longrightarrow> kernel_call E s s'"
| Delay_ms: "current_runs s \<Longrightarrow> sertos_scheduler_delay_ms E ms s = Some (r, s') \<Longrightarrow> kernel_call E s s'"
| Delay_until: "current_runs s \<Longrightarrow> sertos_scheduler_delay_until E wake period s = Some (r, s') \<Longrightarrow> kernel_call E s s'"
| Create: "free_block t s \<Longrightarrow> sertos_task_create_static E config t out s = Some (r, s') \<Longrightarrow> kernel_call E s s'"
| Suspend: "other_unblocked t s \<Longrightarrow> sertos_task_suspend E t s = Some (r, s') \<Longrightarrow> kernel_call E s s'"
| Resume: "other_unblocked t s \<Longrightarrow> sertos_task_resume E t s = Some (r, s') \<Longrightarrow> kernel_call E s s'"
| Set_priority: "may_set_priority t s \<Longrightarrow> sertos_task_set_priority E t prio s = Some (r, s') \<Longrightarrow> kernel_call E s s'"
| Delete: "other_unblocked t s \<Longrightarrow> sertos_task_delete E t s = Some (r, s') \<Longrightarrow> kernel_call E s s'"
| Sem_create: "\<not> sem_handle_ok h s \<Longrightarrow> sertos_sem_create_counting_static E h n m out s = (r, s') \<Longrightarrow> kernel_call E s s'"
| Sem_take: "current_runs s \<Longrightarrow> sertos_sem_take E h timeout s = Some (r, s') \<Longrightarrow> kernel_call E s s'"
| Sem_give: "sertos_sem_give E h s = Some (r, s') \<Longrightarrow> kernel_call E s s'"
| Sem_give_isr: "sertos_sem_give_from_isr E h out s = Some (r, s') \<Longrightarrow> kernel_call E s s'"
| Sem_delete: "sertos_sem_delete E h s = Some (r, s') \<Longrightarrow> kernel_call E s s'"
| Wait: "current_runs s \<Longrightarrow> must_wait E wl s \<Longrightarrow> timeout \<noteq> SERTOS_NO_WAIT \<Longrightarrow>
    wait_phase E wl timeout s = Some (r, s') \<Longrightarrow> kernel_call E s s'"
| Queue_create: "\<not> queue_handle_ok h s \<Longrightarrow> sertos_queue_create_static E h buf len item_size out s = (r, s') \<Longrightarrow> kernel_call E s s'"
| Queue_send: "\<not> must_wait E (QueueSend h) s \<or> timeout = SERTOS_NO_WAIT \<Longrightarrow>
    sertos_queue_send E h item timeout s = Some (r, s') \<Longrightarrow> kernel_call E s s'"
| Queue_receive: "\<not> must_wait E (QueueRecv h) s \<or> timeout = SERTOS_NO_WAIT \<Longrightarrow>
    sertos_queue_receive E h item timeout s = Some (r, s') \<Longrightarrow> kernel_call E s s'"
| Queue_peek: "\<not> must_wait E (QueueRecv h) s \<or> timeout = SERTOS_NO_WAIT \<Longrightarrow>
    sertos_queue_peek E h item timeout s = Some (r, s') \<Longrightarrow> kernel_call E s s'"
| Queue_send_isr: "sertos_queue_send_from_isr E h item out s = Some (r, s') \<Longrightarrow> kernel_call E s s'"
| Queue_receive_isr: "sertos_queue_receive_from_isr E h item out s = Some (r, s') \<Longrightarrow> kernel_call E s s'"
| Queue_reset: "sertos_queue_reset E h s = (r, s') \<Longrightarrow> kernel_call E s s'"
| Queue_delete: "sertos_queue_delete E h s = Some (r, s') \<Longrightarrow> kernel_call E s s'"
| Stream_create: "\<not> is_valid_handle h s \<Longrightarrow>
    sertos_stream_buffer_create_static E h buf len level out s = (r, s') \<Longrightarrow> kernel_call E s s'"
| Stream_send: "\<not> must_wait E (StreamSend h) s \<or> timeout = SERTOS_NO_WAIT \<Longrightarrow>
    sertos_stream_buffer_send E h buf len timeout s = Some (n, s') \<Longrightarrow> kernel_call E s s'"
| Stream_receive: "\<not> must_wait E (StreamRecv h) s \<or> timeout = SERTOS_NO_WAIT \<Longrightarrow>
    sertos_stream_buffer_receive E h buf len timeout s = Some (n, s') \<Longrightarrow> kernel_call E s s'"
| Stream_send_isr: "sertos_stream_buffer_send_from_isr E h buf len out s = Some (n, s') \<Longrightarrow> kernel_call E s s'"
| Stream_receive_isr: "sertos_stream_buffer_receive_from_isr E h buf len out s = Some (n, s') \<Longrightarrow> kernel_call E s s'"
| Stream_trigger: "sertos_stream_buffer_set_trigger_level E h level s = Some (r, s') \<Longrightarrow> kernel_call E s s'"
| Stream_reset: "sertos_stream_buffer_reset E h s = Some (r, s') \<Longrightarrow> kernel_call E s s'"
| Stream_delete: "sertos_stream_buffer_delete E h s = Some (r, s') \<Longrightarrow> kernel_call E s s'"
| Timer_create: "\<not> timer_handle_ok tm s \<Longrightarrow> sertos_timer_create_static E tconfig tm out s = (r, s') \<Longrightarrow> kernel_call E s s'"
| Timer_start: "sertos_timer_start E tm s = (r, s') \<Longrightarrow> kernel_call E s s'"
| Timer_reset: "sertos_timer_reset E tm s = (r, s') \<Longrightarrow> kernel_call E s s'"
| Timer_stop: "sertos_timer_stop E tm s = (r, s') \<Longrightarrow> kernel_call E s s'"
| Timer_period: "sertos_timer_change_period E tm period s = (r, s') \<Longrightarrow> kernel_call E s s'"
| Timer_delete: "sertos_timer_delete E tm s = (r, s') \<Longrightarrow> kernel_call E s s'"

text \<open>\<open>kernel_run E n\<close> is a run with \<open>n\<close> ticks.\<close>

inductive kernel_run ::
  "('b, 'r, 'm, 'p) env \<Rightarrow> nat \<Rightarrow> ('b, 'r, 'm, 'p) kstate \<Rightarrow> ('b, 'r, 'm, 'p) kstate \<Rightarrow> bool" for E where
  start: "kernel_run E 0 s s"
| call: "kernel_run E n s s' \<Longrightarrow> kernel_call E s' s'' \<Longrightarrow> kernel_run E n s s''"
| tick: "kernel_run E n s s' \<Longrightarrow> current_runs s' \<Longrightarrow> sertos_scheduler_tick E s' = Some s'' \<Longrightarrow> kernel_run E (Suc n) s s''"

definition kernel_step ::
  "('b, 'r, 'm, 'p) env \<Rightarrow> ('b, 'r, 'm, 'p) kstate \<Rightarrow> ('b, 'r, 'm, 'p) kstate \<Rightarrow> bool" where
  "kernel_step E s s' \<longleftrightarrow> kernel_call E s s' \<or> current_runs s \<and> sertos_scheduler_tick E s = Some s'"

text \<open>The memory of the kernel before it is initialised: no control block carries a magic word yet.\<close>

definition blank_state :: "('b, 'r, 'm, 'p) kstate \<Rightarrow> bool" where
  "blank_state s \<longleftrightarrow> (\<forall>a. \<not> valid_task (tcbs s) a) \<and> (\<forall>h. \<not> sem_handle_ok h s) \<and> (\<forall>a. \<not> timer_handle_ok a s) \<and>
     (\<forall>h. \<not> queue_handle_ok h s) \<and> (\<forall>h. \<not> is_valid_handle h s) \<and> \<not> s_timer_subsystem_initialized s"

text \<open>The lists of a kernel in state \<open>s\<close>: the ready queues, the delay list and the registry, the timer list once the timers
  are initialised, and the wait lists of every semaphore, queue and stream buffer that exists.\<close>

fun kernel_list :: "('b, 'r, 'm, 'p) kstate \<Rightarrow> lst \<Rightarrow> bool" where
  "kernel_list s (ReadyQ p) \<longleftrightarrow> p < SERTOS_CONFIG_MAX_PRIORITIES"
| "kernel_list s DelayList \<longleftrightarrow> True"
| "kernel_list s TaskRegistry \<longleftrightarrow> True"
| "kernel_list s ActiveTimers \<longleftrightarrow> s_timer_subsystem_initialized s"
| "kernel_list s (SemWait h) \<longleftrightarrow> sem_handle_ok h s"
| "kernel_list s (MutexWait h) \<longleftrightarrow> False"
| "kernel_list s SuspendedList \<longleftrightarrow> False"
| "kernel_list s l \<longleftrightarrow> owner_ok l s"

text \<open>The nodes that the code finds when it follows the \<open>next\<close> pointers of memory from the head of a list.\<close>

inductive found_on :: "lheap \<Rightarrow> lst \<Rightarrow> lnode \<Rightarrow> bool" for h l where
  first: "nxt h (Root l) = Some x \<Longrightarrow> x \<noteq> Root l \<Longrightarrow> found_on h l x"
| more: "found_on h l x \<Longrightarrow> nxt h x = Some y \<Longrightarrow> y \<noteq> Root l \<Longrightarrow> found_on h l y"

lemma found_on_dll:
  assumes d: "dll h l ns" shows "found_on h l x \<longleftrightarrow> x \<in> set ns"
proof
  assume "found_on h l x"
  then show "x \<in> set ns"
  proof induction
    case (first x)
    then show ?case using d by (cases ns) (auto simp: dll_def)
  next
    case (more x y)
    then obtain us vs where ns: "ns = us @ x # vs" by (meson split_list)
    then have "nxt h x = Some (hd (vs @ [Root l]))" using dll_nxt d by blast
    then show ?case using more.hyps ns by (cases vs) auto
  qed
next
  assume "x \<in> set ns"
  then obtain us vs where "ns = us @ x # vs" by (meson split_list)
  then show "found_on h l x" using d
  proof (induction us arbitrary: x vs rule: rev_induct)
    case Nil
    then have "nxt h (Root l) = Some x" "x \<noteq> Root l" by (auto simp: dll_def)
    then show ?case by (rule found_on.first)
  next
    case (snoc y us)
    then have f: "found_on h l y" by simp
    have "nxt h y = Some x" "x \<noteq> Root l" using dll_nxt [of h l us y "x # vs"] snoc.prems by (auto simp: dll_def)
    then show ?case by (rule found_on.more [OF f])
  qed
qed

text \<open>What the nodes of the kernel's lists belong to. The code finds the object around a node by \<open>container_of\<close>,
  without any check: in a consistent kernel that is an object that exists, in the state the list is for.\<close>

fun node_typed :: "('b, 'r, 'm, 'p) kstate \<Rightarrow> lst \<Rightarrow> lnode \<Rightarrow> bool" where
  "node_typed s l (StateNode a) \<longleftrightarrow> valid_task (tcbs s) a \<and>
     (l = ReadyQ (unat (tcb_priority (tcbs s a))) \<and> tcb_state (tcbs s a) \<in> {SERTOS_TASK_STATE_READY, SERTOS_TASK_STATE_RUNNING} \<or>
      l = DelayList \<and> tcb_state (tcbs s a) = SERTOS_TASK_STATE_BLOCKED)"
| "node_typed s l (EventNode a) \<longleftrightarrow> valid_task (tcbs s) a \<and> tcb_state (tcbs s a) = SERTOS_TASK_STATE_BLOCKED \<and>
     tcb_wait_list (tcbs s a) = Some l"
| "node_typed s l (RegistryNode a) \<longleftrightarrow> valid_task (tcbs s) a \<and> tcb_state (tcbs s a) \<noteq> SERTOS_TASK_STATE_TERMINATED \<and> l = TaskRegistry"
| "node_typed s l (TimerNode a) \<longleftrightarrow> timer_handle_ok a s \<and> tmr_is_active (timers s a) \<and> l = ActiveTimers"
| "node_typed s l (Root k) \<longleftrightarrow> False"

lemma state_node_typed:
  assumes inv: "sys_inv bits s L" and on: "on_list L l (StateNode a)"
  shows "node_typed s l (StateNode a)"
proof -
  have k: "kinv bits s L" and v: "valid_task (tcbs s) a" using inv linked_valid [OF inv] on by (auto simp: sys_inv_def)
  consider p where "l = ReadyQ p" | "l = DelayList" | "l = SuspendedList"
    using kinv_typed [OF k on] by (cases l) auto
  then show ?thesis
  proof cases
    case 1
    then show ?thesis using v kinv_ready [OF k, of p a] ready_state [OF inv, of p a] on by simp
  next
    case 2
    then show ?thesis using v waiting_state [OF inv, of a] on by simp
  next
    case 3
    have off: "\<not> on_list L DelayList (StateNode a)" "\<not> on_list L (ReadyQ p) (StateNode a)" for p
      using kinv_unique [OF k on] 3 by blast+
    moreover have "\<not> on_list L wl (EventNode a)" for wl using kinv_wait [OF k, of wl a] off on by (auto split: if_splits)
    ultimately show ?thesis using placed_valid [OF inv v] on by (auto simp: placed_def linked_def split: SertosTaskState.splits)
  qed
qed

lemma event_node_typed:
  assumes inv: "sys_inv bits s L" and on: "on_list L l (EventNode a)"
  shows "node_typed s l (EventNode a)"
proof -
  have k: "kinv bits s L" using inv by (simp add: sys_inv_def)
  show ?thesis using linked_valid [OF inv] waiting_state [OF inv, of a l] kinv_wait [OF k on] on by auto
qed

lemma node_typed_inv:
  assumes inv: "kernel_inv bits s L" and on: "on_list L l n" shows "node_typed s l n"
proof -
  have i: "sys_inv bits s L" and k: "kinv bits s L" and tm: "timers_ok s L"
    using inv by (simp_all add: kernel_inv_def sys_inv_def)
  show ?thesis
  proof (cases n)
    case (RegistryNode a)
    then have "linked L a" using on by (auto simp: linked_def)
    then have "valid_task (tcbs s) a" "tcb_state (tcbs s a) \<noteq> SERTOS_TASK_STATE_TERMINATED"
      using i placed_valid [OF i, of a] by (auto simp: sys_inv_def tasks_ok_def placed_def)
    moreover have "l = TaskRegistry" using kinv_typed [OF k on] RegistryNode by (cases l) auto
    ultimately show ?thesis using RegistryNode by simp
  next
    case (TimerNode a)
    then have l: "l = ActiveTimers" using kinv_typed [OF k on] by (cases l) auto
    then have "timer_handle_ok a s" using tm on TimerNode by (simp add: timers_ok_def)
    then show ?thesis using tm on TimerNode l by (auto simp: timers_ok_def timer_inv_def)
  next
    case (Root r)
    then show ?thesis using kinv_typed [OF k on] by (cases l) auto
  qed (use state_node_typed [OF i] event_node_typed [OF i] on in auto)
qed

lemma kernel_list_Some:
  assumes inv: "kernel_inv bits s L" and l: "kernel_list s l" obtains ns where "L l = Some ns"
proof -
  have i: "sys_inv bits s L" and k: "kinv bits s L" and tm: "timers_ok s L"
    using inv by (simp_all add: kernel_inv_def sys_inv_def)
  have b: "L DelayList \<noteq> None" "L TaskRegistry \<noteq> None" "p < SERTOS_CONFIG_MAX_PRIORITIES \<Longrightarrow> L (ReadyQ p) \<noteq> None" for p
    using k kinv_ready_list [OF k, of p] unfolding kinv_def base_lists_def by auto
  have "L l \<noteq> None"
  proof (cases l)
    case ActiveTimers
    then show ?thesis using l tm by (auto simp: timers_ok_def timer_inv_def)
  next
    case (SemWait h)
    then show ?thesis using l i by (auto simp: sys_inv_def sems_ok_def sem_inv_def)
  qed (use b l i in \<open>auto simp: sys_inv_def bufs_ok_def\<close>)
  then show thesis using that by blast
qed

text \<open>Where a task must be found.\<close>

lemma task_found:
  assumes inv: "kernel_inv bits s L" and v: "valid_task (tcbs s) a"
  shows "tcb_state (tcbs s a) \<in> {SERTOS_TASK_STATE_READY, SERTOS_TASK_STATE_RUNNING} \<Longrightarrow>
      on_list L (ReadyQ (unat (tcb_priority (tcbs s a)))) (StateNode a)"
    and "tcb_state (tcbs s a) = SERTOS_TASK_STATE_BLOCKED \<Longrightarrow>
      on_list L DelayList (StateNode a) \<or> (\<exists>l. tcb_wait_list (tcbs s a) = Some l \<and> (kernel_list s l \<or> (\<exists>h. l = MutexWait h)) \<and> on_list L l (EventNode a))"
    and "tcb_state (tcbs s a) \<noteq> SERTOS_TASK_STATE_TERMINATED \<Longrightarrow> on_list L TaskRegistry (RegistryNode a)"
proof -
  have i: "sys_inv bits s L" and k: "kinv bits s L" using inv by (simp_all add: kernel_inv_def sys_inv_def)
  note pl = placed_valid [OF i v]
  show "on_list L (ReadyQ (unat (tcb_priority (tcbs s a)))) (StateNode a)"
    if "tcb_state (tcbs s a) \<in> {SERTOS_TASK_STATE_READY, SERTOS_TASK_STATE_RUNNING}" by (rule placed_ready [OF i v that])
  show "on_list L TaskRegistry (RegistryNode a)" if "tcb_state (tcbs s a) \<noteq> SERTOS_TASK_STATE_TERMINATED"
    by (rule registered [OF i v that])
  have "kernel_list s l \<or> (\<exists>h. l = MutexWait h)" if on: "on_list L l (EventNode a)" for l
  proof -
    have "is_wait_list l" using kinv_typed [OF k on] by (simp add: list_typed_EventNode)
    then show ?thesis using i on by (cases l) (auto simp: sys_inv_def sems_ok_def bufs_ok_def dest!: spec [of _ l])
  qed
  then show "on_list L DelayList (StateNode a) \<or> (\<exists>l. tcb_wait_list (tcbs s a) = Some l \<and> (kernel_list s l \<or> (\<exists>h. l = MutexWait h)) \<and> on_list L l (EventNode a))"
    if "tcb_state (tcbs s a) = SERTOS_TASK_STATE_BLOCKED"
    using pl that kinv_wait [OF k] by (fastforce simp: placed_def)
qed

text \<open>What a call establishes.\<close>

definition call_keeps ::
  "('b \<Rightarrow> nat set) \<Rightarrow> ('b, 'r, 'm, 'p) kstate \<Rightarrow> ('b, 'r, 'm, 'p) kstate \<Rightarrow> bool" where
  "call_keeps bits s s' \<longleftrightarrow> (\<exists>L'. kernel_inv bits s' L') \<and> sleeps_on (tcbs s) (tcbs s') \<and>
     (current_running s \<longrightarrow> follows (tcbs s) (tcbs s'))"

lemma call_keepsI:
  assumes "kernel_inv bits s L" and "step_ok bits s L s' L'" and "current_running s \<Longrightarrow> follows (tcbs s) (tcbs s')"
  shows "call_keeps bits s s'"
  using kernel_inv_step [OF assms(1,2)] assms(2,3) unfolding call_keeps_def by (auto simp: step_ok_def)

lemma call_keeps_same: "kernel_inv bits s' L' \<Longrightarrow> tcbs s' = tcbs s \<Longrightarrow> call_keeps bits s s'"
  by (auto simp: call_keeps_def)

lemma sys_inv_cells [simp]:
  "sys_inv bits (s\<lparr>tick_cells := tc\<rparr>) L = sys_inv bits s L" "sys_inv bits (s\<lparr>s_stats_enabled := b\<rparr>) L = sys_inv bits s L"
  by (simp_all add: sys_inv_def sems_ok_def sem_handle_ok_def sem_inv_def kinv_def bufs_ok_def
      owner_ok_cong [of "s\<lparr>tick_cells := tc\<rparr>" s for tc] owner_ok_cong [of "s\<lparr>s_stats_enabled := b\<rparr>" s for b])

context kernel_env
begin

lemma delay_ms_step:
  assumes inv: "sys_inv bits s L" and E: "pending_port E" and cur: "current_runs s"
  obtains r s' L' where "sertos_scheduler_delay_ms E ms s = Some (r, s')" and "step_ok bits s L s' L'"
    and "current_running s \<Longrightarrow> follows (tcbs s) (tcbs s')"
proof (cases "ms = 0")
  case True
  obtain s' L' where "sertos_scheduler_yield E s = Some s'" "step_ok bits s L s' L'" "tcbs s' = tcbs s"
    using yield_step [OF inv E cur] .
  then show thesis using True that by (simp add: sertos_scheduler_delay_ms_def)
next
  case False
  then have "sertos_scheduler_delay_ms E ms s = sertos_scheduler_delay E (SERTOS_MS_TO_TICKS ms s) s"
    by (simp add: sertos_scheduler_delay_ms_def)
  then show thesis using delay_step [OF inv E cur, of "SERTOS_MS_TO_TICKS ms s"] that by metis
qed

lemma delay_until_step:
  assumes inv: "sys_inv bits s L" and E: "pending_port E" and cur: "current_runs s"
  obtains r s' L' where "sertos_scheduler_delay_until E wake period s = Some (r, s')" and "step_ok bits s L s' L'"
    and "current_running s \<Longrightarrow> follows (tcbs s) (tcbs s')"
proof -
  let ?s = "s\<lparr>tick_cells := (tick_cells s)(wake := tick_cells s wake + period)\<rparr>"
  let ?elapsed = "sertos_scheduler_get_tick_count E s - tick_cells s wake"
  have i: "sys_inv bits ?s L" and c: "current_runs ?s" using inv cur by (simp_all add: current_runs_def)
  obtain r1 s1 L1 where s1: "sertos_scheduler_delay E (period - ?elapsed) ?s = Some (r1, s1)" "step_ok bits ?s L s1 L1"
    "current_running ?s \<Longrightarrow> follows (tcbs ?s) (tcbs s1)"
    by (rule delay_step [OF i E c], rule that)
  obtain s2 L2 where s2: "sertos_scheduler_yield E ?s = Some s2" "step_ok bits ?s L s2 L2" "tcbs s2 = tcbs ?s"
    using yield_step [OF i E c] .
  have "\<exists>r. sertos_scheduler_delay_until E wake period s \<in> {Some (r, s), Some (r1, s1), Some (r, s2)}"
    using s1(1) s2(1) by (auto simp: sertos_scheduler_delay_until_def Let_def)
  then show thesis using that step_ok_refl [OF inv] s1(2,3) s2(2,3) by (auto simp: step_ok_def current_running_def)
qed

text \<open>Every step keeps the invariant, and so does every run.\<close>

lemma kernel_call_keeps:
  assumes "kernel_call E s s'" and inv: "kernel_inv bits s L" and E: "pending_port E"
  shows "call_keeps bits s s'"
proof -
  have sys: "sys_inv bits s L" using inv by (simp add: kernel_inv_def)
  note keeps = call_keepsI [OF inv] call_keeps_same only_wakes_follows
  show ?thesis using assms(1)
  proof cases
    case Lock
    show ?thesis unfolding Lock by (rule call_keepsI [OF inv lock_step(1) [OF sys]]) (simp add: lock_step(2))
  next
    case (Stats b)
    have "step_ok bits s L s' L" using sys unfolding Stats by (simp add: step_ok_def sertos_stats_set_enabled_def)
    then show ?thesis by (rule call_keepsI [OF inv]) (simp add: Stats sertos_stats_set_enabled_def)
  next
    case (Start)
    show ?thesis by (rule start_step [OF sys E]) (use Start in \<open>auto intro: keeps\<close>)
  next
    case (Switch t)
    show ?thesis by (rule switch_step [OF sys]) (use Switch in \<open>auto intro: keeps\<close>)
  next
    case (Yield)
    show ?thesis by (rule yield_step [OF sys E Yield(1)]) (use Yield(2) in \<open>auto intro: keeps\<close>)
  next
    case (Unlock)
    show ?thesis by (rule unlock_step [OF sys E]) (use Unlock in \<open>auto intro: keeps\<close>)
  next
    case (Delay ticks r)
    show ?thesis by (rule delay_step [OF sys E Delay(1), of ticks]) (use Delay(2) in \<open>auto intro: keeps\<close>)
  next
    case (Delay_ms ms r)
    show ?thesis by (rule delay_ms_step [OF sys E Delay_ms(1), of ms]) (use Delay_ms(2) in \<open>auto intro: keeps\<close>)
  next
    case (Delay_until wake period r)
    show ?thesis by (rule delay_until_step [OF sys E Delay_until(1), of wake period]) (use Delay_until(2) in \<open>auto intro: keeps\<close>)
  next
    case (Create t config out r)
    show ?thesis by (rule create_step [OF sys E Create(1) [unfolded free_block_def], of config out]) (use Create(2) in \<open>auto intro: keeps\<close>)
  next
    case (Suspend t r)
    note guard = Suspend(1) [unfolded other_unblocked_def]
    show ?thesis by (rule suspend_step [OF sys, of t]) (use guard Suspend(2) in \<open>auto intro: keeps\<close>)
  next
    case (Resume t r)
    note guard = Resume(1) [unfolded other_unblocked_def]
    show ?thesis by (rule resume_step [OF sys E, of t]) (use guard Resume(2) in \<open>auto intro: keeps\<close>)
  next
    case (Set_priority t prio r)
    note guard = Set_priority(1) [unfolded may_set_priority_def]
    show ?thesis by (rule set_priority_step [OF sys E, of t prio]) (use guard Set_priority(2) in \<open>auto intro: keeps\<close>)
  next
    case (Delete t r)
    note guard = Delete(1) [unfolded other_unblocked_def]
    show ?thesis by (rule delete_step [OF sys, of t]) (use guard Delete(2) in \<open>auto intro: keeps\<close>)
  next
    case (Sem_create h n m out r)
    show ?thesis by (rule sem_create_step [OF sys Sem_create]) (use Sem_create in \<open>auto intro: keeps\<close>)
  next
    case (Sem_take h timeout r)
    show ?thesis by (rule take_step [OF sys E Sem_take(1), of h timeout]) (use Sem_take(2) in \<open>auto intro: keeps\<close>)
  next
    case (Sem_give h r)
    show ?thesis by (rule give_step [OF sys E, of h]) (use Sem_give in \<open>auto intro: keeps\<close>)
  next
    case (Sem_give_isr h out r)
    show ?thesis by (rule give_isr_step [OF sys, of h out]) (use Sem_give_isr in \<open>auto intro: keeps\<close>)
  next
    case (Sem_delete h r)
    show ?thesis by (rule sem_delete_step [OF sys E, of h]) (use Sem_delete in \<open>auto intro: keeps\<close>)
  next
    case (Wait wl timeout r)
    show ?thesis by (rule wait_step [OF sys E Wait(1,3,2)]) (use Wait(4) in \<open>auto intro: keeps\<close>)
  next
    case (Queue_create h buf len item_size out r)
    show ?thesis by (rule queue_create_step [OF sys Queue_create]) (use Queue_create in \<open>auto intro: keeps\<close>)
  next
    case (Queue_send h timeout item r)
    show ?thesis by (rule queue_send_step [OF sys E Queue_send(1), of item]) (use Queue_send(2) in \<open>auto intro: keeps\<close>)
  next
    case (Queue_receive h timeout item r)
    show ?thesis by (rule queue_receive_step [OF sys E Queue_receive(1), of item]) (use Queue_receive(2) in \<open>auto intro: keeps\<close>)
  next
    case (Queue_peek h timeout item r)
    show ?thesis by (rule queue_peek_step [OF sys Queue_peek(1), of item]) (use Queue_peek(2) in \<open>auto intro: keeps\<close>)
  next
    case (Queue_send_isr h item out r)
    show ?thesis by (rule queue_send_isr_step [OF sys, of h item out]) (use Queue_send_isr in \<open>auto intro: keeps\<close>)
  next
    case (Queue_receive_isr h item out r)
    show ?thesis by (rule queue_receive_isr_step [OF sys, of h item out]) (use Queue_receive_isr in \<open>auto intro: keeps\<close>)
  next
    case (Queue_reset h r)
    show ?thesis by (rule call_keepsI [OF inv queue_reset_step(1) [OF sys Queue_reset]]) (simp add: queue_reset_step(2) [OF sys Queue_reset])
  next
    case (Queue_delete h r)
    show ?thesis by (rule queue_delete_step [OF sys E, of h]) (use Queue_delete in \<open>auto intro: keeps\<close>)
  next
    case (Stream_create h buf len level out r)
    show ?thesis by (rule stream_create_step [OF sys Stream_create]) (use Stream_create in \<open>auto intro: keeps\<close>)
  next
    case (Stream_send h timeout buf len n)
    show ?thesis by (rule stream_send_step [OF sys E Stream_send(1), of buf len]) (use Stream_send(2) in \<open>auto intro: keeps\<close>)
  next
    case (Stream_receive h timeout buf len n)
    show ?thesis
      by (rule stream_receive_step [OF sys E Stream_receive(1), of buf len]) (use Stream_receive(2) in \<open>auto intro: keeps\<close>)
  next
    case (Stream_send_isr h buf len out n)
    show ?thesis by (rule stream_send_isr_step [OF sys, of h buf len out]) (use Stream_send_isr in \<open>auto intro: keeps\<close>)
  next
    case (Stream_receive_isr h buf len out n)
    show ?thesis by (rule stream_receive_isr_step [OF sys, of h buf len out]) (use Stream_receive_isr in \<open>auto intro: keeps\<close>)
  next
    case (Stream_trigger h level r)
    show ?thesis by (rule stream_trigger_step [OF sys E, of h level]) (use Stream_trigger in \<open>auto intro: keeps\<close>)
  next
    case (Stream_reset h r)
    show ?thesis by (rule stream_reset_step [OF sys E, of h]) (use Stream_reset in \<open>auto intro: keeps\<close>)
  next
    case (Stream_delete h r)
    show ?thesis by (rule stream_delete_step [OF sys E, of h]) (use Stream_delete in \<open>auto intro: keeps\<close>)
  next
    case (Timer_create tm tconfig out r)
    show ?thesis by (rule timer_create_step [OF inv Timer_create]) (use Timer_create in \<open>auto intro: keeps\<close>)
  next
    case (Timer_start tm r)
    show ?thesis by (rule timer_start_step [OF inv Timer_start]) (use Timer_start in \<open>auto intro: keeps\<close>)
  next
    case (Timer_reset tm r)
    show ?thesis by (rule timer_start_step [OF inv Timer_reset [unfolded sertos_timer_reset_def]]) (use Timer_reset in \<open>auto intro: keeps\<close>)
  next
    case (Timer_stop tm r)
    show ?thesis by (rule timer_stop_step [OF inv Timer_stop]) (use Timer_stop in \<open>auto intro: keeps\<close>)
  next
    case (Timer_period tm period r)
    show ?thesis by (rule timer_period_step [OF inv Timer_period]) (use Timer_period in \<open>auto intro: keeps\<close>)
  next
    case (Timer_delete tm r)
    show ?thesis by (rule timer_delete_step [OF inv Timer_delete]) (use Timer_delete in \<open>auto intro: keeps\<close>)
  qed
qed

text \<open>Calls of tasks and interrupt handlers return.\<close>

lemma kernel_calls_total:
  assumes inv: "sys_inv bits s L" and E: "pending_port E"
  shows "sertos_scheduler_perform_switch E s \<noteq> None" "sertos_scheduler_unlock E s \<noteq> None" "sertos_sem_give E h s \<noteq> None"
    "sertos_sem_give_from_isr E h out s \<noteq> None" "sertos_sem_delete E h s \<noteq> None"
proof -
  show "sertos_scheduler_perform_switch E s \<noteq> None" by (rule switch_step [OF inv]) simp
  show "sertos_scheduler_unlock E s \<noteq> None" by (rule unlock_step [OF inv E]) simp
  show "sertos_sem_give E h s \<noteq> None" by (rule give_step [OF inv E, of h]) simp
  show "sertos_sem_give_from_isr E h out s \<noteq> None" by (rule give_isr_step [OF inv, of h out]) simp
  show "sertos_sem_delete E h s \<noteq> None" by (rule sem_delete_step [OF inv E, of h]) simp
qed

lemma task_calls_total:
  assumes inv: "sys_inv bits s L" and E: "pending_port E" and cur: "current_runs s"
  shows "sertos_scheduler_yield E s \<noteq> None" "sertos_scheduler_delay E ticks s \<noteq> None" "sertos_scheduler_delay_ms E ms s \<noteq> None"
    "sertos_scheduler_delay_until E wake period s \<noteq> None" "sertos_sem_take E h ticks s \<noteq> None"
proof -
  show "sertos_scheduler_yield E s \<noteq> None" by (rule yield_step [OF inv E cur]) simp
  show "sertos_scheduler_delay E ticks s \<noteq> None" by (rule delay_step [OF inv E cur, of ticks]) simp
  show "sertos_scheduler_delay_ms E ms s \<noteq> None" by (rule delay_ms_step [OF inv E cur, of ms]) simp
  show "sertos_scheduler_delay_until E wake period s \<noteq> None" by (rule delay_until_step [OF inv E cur, of wake period]) simp
  show "sertos_sem_take E h ticks s \<noteq> None" by (rule take_step [OF inv E cur, of h ticks]) simp
qed

lemma task_management_total:
  assumes inv: "sys_inv bits s L" and E: "pending_port E"
  shows "sertos_scheduler_start E s \<noteq> None" "free_block t s \<Longrightarrow> sertos_task_create_static E config t out s \<noteq> None"
    "other_unblocked t s \<Longrightarrow> sertos_task_suspend E t s \<noteq> None" "other_unblocked t s \<Longrightarrow> sertos_task_resume E t s \<noteq> None"
    "may_set_priority t s \<Longrightarrow> sertos_task_set_priority E t prio s \<noteq> None" "other_unblocked t s \<Longrightarrow> sertos_task_delete E t s \<noteq> None"
proof -
  show "sertos_scheduler_start E s \<noteq> None" by (rule start_step [OF inv E]) simp
  show "sertos_task_create_static E config t out s \<noteq> None" if "free_block t s"
    by (rule create_step [OF inv E that [unfolded free_block_def], of config out]) simp
  show "sertos_task_suspend E t s \<noteq> None" if "other_unblocked t s"
    by (rule suspend_step [OF inv, of t]) (use that in \<open>simp_all add: other_unblocked_def\<close>)
  show "sertos_task_resume E t s \<noteq> None" if "other_unblocked t s"
    by (rule resume_step [OF inv E, of t]) (use that in \<open>simp_all add: other_unblocked_def\<close>)
  show "sertos_task_set_priority E t prio s \<noteq> None" if "may_set_priority t s"
    by (rule set_priority_step [OF inv E, of t prio]) (use that in \<open>auto simp: may_set_priority_def\<close>)
  show "sertos_task_delete E t s \<noteq> None" if "other_unblocked t s"
    by (rule delete_step [OF inv, of t]) (use that in \<open>simp_all add: other_unblocked_def\<close>)
qed

lemma kernel_run_keeps:
  assumes "kernel_run E n s s'" and "kernel_inv bits s L" and E: "pending_port E" "good_handlers E bits"
  shows "\<exists>L'. kernel_inv bits s' L'"
  using assms(1,2)
proof (induction rule: kernel_run.induct)
  case (call n s s' s'')
  then show ?case using kernel_call_keeps [OF call.hyps(2) _ E(1)] unfolding call_keeps_def by blast
next
  case (tick n s s' s'')
  then obtain L1 where "kernel_inv bits s' L1" by blast
  then show ?case by (rule tick_step [OF _ E(1) tick.hyps(2) E(2)]) (use tick.hyps(3) in auto)
qed blast

lemma kernel_step_follows:
  assumes "kernel_step E s s'" and inv: "kernel_inv bits s L" and E: "pending_port E" "good_handlers E bits" and "current_running s"
  shows "follows (tcbs s) (tcbs s')"
  using assms(1) unfolding kernel_step_def
proof
  assume "kernel_call E s s'"
  then show ?thesis using kernel_call_keeps [OF _ inv E(1)] assms(5) by (simp add: call_keeps_def)
next
  assume c: "current_runs s \<and> sertos_scheduler_tick E s = Some s'"
  then have "current_runs s" ..
  then show ?thesis by (rule tick_step [OF inv E(1) _ E(2)]) (use c in \<open>auto intro: only_wakes_follows\<close>)
qed

text \<open>A sleeping task loses one tick of its delay with every tick of the run and with nothing else.\<close>

lemma kernel_run_sleeps:
  assumes "kernel_run E n s s'" and "kernel_inv bits s L" and E: "pending_port E" "good_handlers E bits"
    and "asleep (tcbs s) a" and "n < unat (tcb_delay_ticks (tcbs s a))"
  shows "asleep (tcbs s') a \<and> unat (tcb_delay_ticks (tcbs s' a)) = unat (tcb_delay_ticks (tcbs s a)) - n"
  using assms(1,2,5,6)
proof (induction rule: kernel_run.induct)
  case (call n s s' s'')
  obtain L1 where "kernel_inv bits s' L1" using kernel_run_keeps [OF call.hyps(1) call.prems(1) E] by blast
  then have "sleeps_on (tcbs s') (tcbs s'')" using kernel_call_keeps [OF call.hyps(2) _ E(1)] by (simp add: call_keeps_def)
  then show ?case using call.IH [OF call.prems] by (simp add: sleeps_on_def)
next
  case (tick n s s' s'')
  have sl: "asleep (tcbs s') a" "unat (tcb_delay_ticks (tcbs s' a)) = unat (tcb_delay_ticks (tcbs s a)) - n"
    using tick.IH [OF tick.prems(1,2)] tick.prems(3) by simp_all
  then have d: "\<not> tcb_delay_ticks (tcbs s' a) \<le> 1" "0 < tcb_delay_ticks (tcbs s' a)"
    using tick.prems(3) by (simp_all add: word_le_nat_alt word_less_nat_alt)
  obtain L1 where "kernel_inv bits s' L1" using kernel_run_keeps [OF tick.hyps(1) tick.prems(1) E] by blast
  then have "counts_down (tcbs s') (tcbs s'')"
    by (rule tick_step [OF _ E(1) tick.hyps(2) E(2)]) (use tick.hyps(3) in simp)
  then have "asleep (tcbs s'') a" "tcb_delay_ticks (tcbs s'' a) = tcb_delay_ticks (tcbs s' a) - 1"
    using sl(1) d(1) by (auto simp: counts_down_def)
  then show ?case using sl(2) d(2) by (simp add: unat_minus_one_pos)
qed simp

lemma init_step:
  assumes idle: "s_idle_tcb E \<noteq> NULL" "idle_handle \<noteq> NULL" "cfg_stack_buffer (idle_config E config) \<noteq> NULL"
    and valid: "validate_task_config (Some (idle_config E config)) = SERTOS_STATUS_OK" and blank: "blank_state s"
  obtains s' L' where "sertos_scheduler_init_with_config E config idle_handle s = Some (SERTOS_STATUS_OK, s')" and "kernel_inv bits s' L'"
    and "sertos_current_tcb s' = NULL" and "valid_task (tcbs s') (s_idle_tcb E)"
    and "tcb_state (tcbs s' (s_idle_tcb E)) = SERTOS_TASK_STATE_READY"
proof -
  let ?i = "s_idle_tcb E"
  let ?L = "empty_lists(ReadyQ 0 \<mapsto> [StateNode ?i], TaskRegistry \<mapsto> [RegistryNode ?i])"
  obtain s' where s': "sertos_scheduler_init_with_config E config idle_handle s = Some (SERTOS_STATUS_OK, s')" "kinv bits s' ?L"
    "sertos_current_tcb s' = NULL" "sems s' = sems s" "s_timer_subsystem_initialized s' = s_timer_subsystem_initialized s"
    "timers s' = timers s" "queues s' = queues s" "streams s' = streams s"
    and T: "\<And>a. a \<noteq> ?i \<Longrightarrow> tcb_magic (tcbs s' a) = tcb_magic (tcbs s a)" "tcb_magic (tcbs s' ?i) = SERTOS_TASK_MAGIC_WORD"
    "tcb_state (tcbs s' ?i) = SERTOS_TASK_STATE_READY" "tcb_priority (tcbs s' ?i) = 0"
    by (rule init_refines [OF idle valid], rule that)
  have none: "\<not> on_list empty_lists l n" for l n by (auto simp: on_list_def empty_lists_def split: option.splits lst.splits)
  have on: "on_list ?L l n \<longleftrightarrow> l = ReadyQ 0 \<and> n = StateNode ?i \<or> l = TaskRegistry \<and> n = RegistryNode ?i" for l n
    using none [of l n] by (auto simp: on_list_def split: if_splits)
  have v: "valid_task (tcbs s') a = (a = ?i)" for a
    using blank T(1) [of a] T(2) idle(1) by (cases "a = ?i") (auto simp: blank_state_def valid_task_def)
  have "placed (tcbs s') NULL ?L ?i" by (simp add: placed_def T on SERTOS_CONFIG_MAX_PRIORITIES_def)
  then have "tasks_ok (tcbs s') NULL ?L" by (auto simp: tasks_ok_def v linked_def on)
  moreover have "sems_ok s' ?L" using blank s'(4) by (auto simp: blank_state_def sems_ok_def sem_handle_ok_def on)
  moreover have "\<not> owner_ok wl s'" for wl
    using blank s'(7,8) by (cases wl) (auto simp: blank_state_def queue_handle_ok_def is_valid_handle_def split: if_splits)
  then have "bufs_ok s' ?L" by (auto simp: bufs_ok_def on)
  moreover have "ns = []" if "is_wait_list wl" "?L wl = Some ns" for wl ns
    using that by (auto simp: empty_lists_def split: lst.splits if_splits)
  then have "waits_sorted (tcbs s') ?L" unfolding waits_sorted_def by (metis sorted_wrt.simps(1) wait_sorted_def)
  moreover have "timers_ok s' ?L" using blank s'(5,6) by (simp add: timers_ok_def blank_state_def timer_handle_ok_def on)
  ultimately have "kernel_inv bits s' ?L" using s'(2,3) by (simp add: kernel_inv_def sys_inv_def)
  then show thesis using that s'(1,3) T(3) v by blast
qed

end

end
