(* ===== verification/Sertos_System_Spec.thy ===== *)
theory Sertos_System_Spec
  imports Sertos_System_Run Sertos_Task_Spec Sertos_Ports
begin

text \<open>
  What the kernel guarantees as a whole: from its initialisation on, every sequence of starts, ticks, switches and
  kernel calls keeps it consistent, every call returns, task states follow the transition table, a switch runs the
  highest priority and a delay ends on time; and what goes wrong when a tick arrives while a task
  that has parked itself is still current.
\<close>

section \<open>Every run\<close>

text \<open>C1: a kernel initialised from blank memory, on a port whose yield only requests the switch, with timer callbacks and a tick
  hook that satisfy \<open>good_handlers\<close>, is consistent after every \<open>kernel_run\<close>: after every sequence of starts, ticks, switches
  and of the task, semaphore, queue, stream buffer and timer calls in \<open>kernel_call\<close>. Consistent means:
  lists and bitmap are well formed, each task is on the lists its state asks for, the wait lists are in
  priority order, no semaphore holds a token while a task waits for it, tasks wait only for semaphores, queues and stream buffers
  that exist, and the active timers are those on the timer list.
  Not every call that the code accepts can be in a run. Runs have the calls of \<open>kernel_call\<close> only, and leave out: a tick, yield, delay, take or wait between the parking of a
  task and the switch; suspend, resume and delete of the current task or of a BLOCKED one, and a new priority for the RUNNING task
  or for one that waits in a wait list; initialising what is in use; mutexes; and creation from the memory pool.\<close>

theorem kernel_stays_consistent:
  assumes "kernel_env E bits" and "pending_port E" and "good_handlers E bits" and "blank_state s"
    and "s_idle_tcb E \<noteq> NULL" and "idle_handle \<noteq> NULL" and "cfg_stack_buffer (idle_config E config) \<noteq> NULL"
    and "validate_task_config (Some (idle_config E config)) = SERTOS_STATUS_OK"
    and "sertos_scheduler_init_with_config E config idle_handle s = Some (st, s0)" and "kernel_run E n s0 s'"
  shows "\<exists>L. kernel_inv bits s' L"
proof -
  obtain s1 L1 where "sertos_scheduler_init_with_config E config idle_handle s = Some (SERTOS_STATUS_OK, s1)" "kernel_inv bits s1 L1"
    by (rule kernel_env.init_step [OF assms(1,5-8,4)]) (use that in auto)
  then have "kernel_inv bits s0 L1" using assms(9) by simp
  from kernel_env.kernel_run_keeps [OF assms(1,10) this assms(2,3)] show ?thesis .
qed

text \<open>Memory before initialisation, and a Cortex-M4 whose timer callbacks give the semaphore they are passed.\<close>

definition boot :: ref_state where
  "boot = demo\<lparr>tcbs := (\<lambda>a. (demo_tcb 0 SERTOS_TASK_STATE_TERMINATED)\<lparr>tcb_magic := 0\<rparr>),
     sems := (\<lambda>a. \<lparr>sem_count = 0, sem_max_count = 0, sem_is_statically_allocated = False, sem_magic = 0\<rparr>),
     queues := (\<lambda>a. (queues demo a)\<lparr>q_magic := 0\<rparr>), streams := (\<lambda>a. (streams demo a)\<lparr>sb_magic := 0\<rparr>),
     timers := (\<lambda>a. (timers demo a)\<lparr>tmr_magic := 0\<rparr>), s_timer_subsystem_initialized := False\<rparr>"

lemma boot_blank: "blank_state boot"
  by (simp add: blank_state_def boot_def valid_task_def demo_tcb_def sem_handle_ok_def timer_handle_ok_def
      queue_handle_ok_def is_valid_handle_def SERTOS_QUEUE_MAGIC_WORD_def SERTOS_STREAM_BUFFER_MAGIC_WORD_def
      SERTOS_TASK_MAGIC_WORD_def SERTOS_SEM_MAGIC_WORD_def SERTOS_TIMER_MAGIC_WORD_def)

definition giving_env :: ref_envt where
  "giving_env = ref_env Some (\<lambda>cb h p s. map_option snd (sertos_sem_give_from_isr quiet_env p 0x770 s))"

lemma ref_pending: "pending_port (ref_env Some t)"
proof -
  have "\<exists>p. s = s\<lparr>port := p\<rparr>" for s :: ref_state by (rule exI [of _ "port s"]) simp
  then show ?thesis by (simp add: pending_port_def ref_env_def)
qed

lemma giving_pending: "pending_port giving_env" and quiet_pending: "pending_port quiet_env"
  unfolding giving_env_def quiet_env_def by (rule ref_pending)+

text \<open>Every Cortex-M port only sets the pending bit of PendSV, so it is such a port when nothing runs in between.\<close>

lemma cortex_ports_pending:
  assumes "pending_port E"
  shows "pending_port (cortex_m0_port hw Some E)" "pending_port (cortex_m0plus_port hw Some E)"
    "pending_port (cortex_m3_port hw Some E)" "pending_port (cortex_m4_port hw Some E)"
    "pending_port (cortex_m7_port hw Some E)" "pending_port (cortex_m23_port hw Some E)"
    "pending_port (cortex_m33_port hw Some E)" "pending_port (cortex_m55_port hw Some E)"
  using assms
  by (auto simp: pending_port_def cortex_m0_port_def cortex_m0plus_port_def cortex_m3_port_def cortex_m4_port_def
      cortex_m7_port_def cortex_m23_port_def cortex_m33_port_def cortex_m55_port_def)

definition m4_env :: ref_envt where
  "m4_env = cortex_m4_port (\<lambda>p. p) Some giving_env"

lemma m4_handlers: "good_handlers m4_env ref_bits"
proof -
  have "\<exists>s' L'. call_timer_callback m4_env cb h p s = Some s' \<and> step_ok ref_bits s L s' L' \<and> only_wakes (tcbs s) (tcbs s')"
    if inv: "sys_inv ref_bits s L" for cb h p s L
  proof -
    obtain r s' L' where "sertos_sem_give_from_isr quiet_env p 0x770 s = Some (r, s')" "step_ok ref_bits s L s' L'"
      "only_wakes (tcbs s) (tcbs s')" by (rule kernel_env.give_isr_step [OF quiet_kernel_env inv], rule that)
    then show ?thesis by (auto simp: m4_env_def cortex_m4_port_def giving_env_def ref_env_def)
  qed
  moreover have "call_hook m4_env f s = Some s" for f s by (simp add: m4_env_def cortex_m4_port_def giving_env_def ref_env_def)
  ultimately show ?thesis using step_ok_refl unfolding good_handlers_def by fastforce
qed

lemma m4_env_facts:
  "kernel_env m4_env ref_bits" "pending_port m4_env" "s_idle_tcb m4_env \<noteq> NULL"
  "cfg_stack_buffer (idle_config m4_env None) \<noteq> NULL" "validate_task_config (Some (idle_config m4_env None)) = SERTOS_STATUS_OK"
proof -
  have same: "s_idle_tcb m4_env = s_idle_tcb quiet_env" "idle_config m4_env None = idle_config quiet_env None"
    by (simp_all add: m4_env_def cortex_m4_port_def idle_config_def giving_env_def quiet_env_def ref_env_def)
  have "kernel_env giving_env ref_bits" unfolding giving_env_def by (rule ref_kernel_env)
  then show "kernel_env m4_env ref_bits" unfolding m4_env_def by (rule cortex_ports_kernel_env)
  show "pending_port m4_env" unfolding m4_env_def by (rule cortex_ports_pending [OF giving_pending])
  show "s_idle_tcb m4_env \<noteq> NULL" "cfg_stack_buffer (idle_config m4_env None) \<noteq> NULL"
    "validate_task_config (Some (idle_config m4_env None)) = SERTOS_STATUS_OK" by (simp_all add: same quiet_idle)
qed

lemma boot_inv:
  obtains s0 L0 where "sertos_scheduler_init_with_config m4_env None 0x700 boot = Some (SERTOS_STATUS_OK, s0)"
    and "kernel_inv ref_bits s0 L0" and "sertos_current_tcb s0 = NULL"
    and "valid_task (tcbs s0) (s_idle_tcb m4_env)" and "tcb_state (tcbs s0 (s_idle_tcb m4_env)) = SERTOS_TASK_STATE_READY"
  by (rule kernel_env.init_step [OF m4_env_facts(1,3) _ m4_env_facts(4,5) boot_blank, of "0x700"]) (use that in auto)

lemma boot_starts:
  obtains s0 L0 s1 where "sertos_scheduler_init_with_config m4_env None 0x700 boot = Some (SERTOS_STATUS_OK, s0)"
    and "kernel_inv ref_bits s0 L0" and "sertos_current_tcb s0 = NULL" and "sertos_scheduler_start m4_env s0 = Some s1"
proof -
  obtain s0 L0 where s0: "sertos_scheduler_init_with_config m4_env None 0x700 boot = Some (SERTOS_STATUS_OK, s0)"
    "kernel_inv ref_bits s0 L0" "sertos_current_tcb s0 = NULL" by (rule boot_inv, rule that)
  have "sys_inv ref_bits s0 L0" using s0(2) by (simp add: kernel_inv_def)
  then obtain s1 where "sertos_scheduler_start m4_env s0 = Some s1"
    using kernel_env.start_step [OF m4_env_facts(1) _ m4_env_facts(2)] by blast
  then show thesis using that s0 by blast
qed

theorem kernel_stays_consistent_witness:
  "\<exists>s0 s1 L. sertos_scheduler_init_with_config m4_env None 0x700 boot = Some (SERTOS_STATUS_OK, s0) \<and>
     sertos_scheduler_start m4_env s0 = Some s1 \<and> kernel_inv ref_bits (sertos_scheduler_lock m4_env s1) L"
proof -
  obtain s0 L0 s1 where s0: "sertos_scheduler_init_with_config m4_env None 0x700 boot = Some (SERTOS_STATUS_OK, s0)"
    "sertos_scheduler_start m4_env s0 = Some s1" by (rule boot_starts, rule that)
  have "kernel_run m4_env 0 s0 (sertos_scheduler_lock m4_env s1)"
    by (rule kernel_run.call [OF kernel_run.call [OF kernel_run.start kernel_call.Start [OF s0(2)]] kernel_call.Lock])
  from kernel_stays_consistent [OF m4_env_facts(1,2) m4_handlers boot_blank m4_env_facts(3) _ m4_env_facts(4,5) s0(1) this]
  have "\<exists>L. kernel_inv ref_bits (sertos_scheduler_lock m4_env s1) L" by simp
  then show ?thesis using s0 by blast
qed

text \<open>C2: in every state that a run reaches, the calls that can continue the run return: always start, switch, unlock, the semaphore
  gives, the transfers from interrupt handlers, the deletion of semaphores, queues and stream buffers, and the reset and trigger level of
  stream buffers (the calls on timers and the creation of objects are total functions of the model); while the current task has not parked itself, the tick with its timers and hook,
  the yield, the delays and the take; creation in a control block that is not in use; suspend, resume and delete of a task that is
  neither current nor BLOCKED; and a new priority for a task that neither runs nor waits in a wait list.
  A transfer to or from a queue or stream buffer returns if it need not wait or must not; if it has to wait, the part that
  parks the caller returns.\<close>

theorem kernel_calls_return:
  assumes "kernel_env E bits" and "pending_port E" and "good_handlers E bits" and "kernel_inv bits s L" and "kernel_run E n s s'"
  shows "sertos_scheduler_perform_switch E s' \<noteq> None \<and> sertos_scheduler_unlock E s' \<noteq> None \<and>
    sertos_sem_give E h s' \<noteq> None \<and> sertos_sem_give_from_isr E h out s' \<noteq> None \<and> sertos_sem_delete E h s' \<noteq> None \<and>
    sertos_queue_send_from_isr E h item out s' \<noteq> None \<and> sertos_queue_receive_from_isr E h item out s' \<noteq> None \<and>
    sertos_stream_buffer_send_from_isr E h buf len out s' \<noteq> None \<and> sertos_stream_buffer_receive_from_isr E h buf len out s' \<noteq> None \<and>
    sertos_queue_delete E h s' \<noteq> None \<and> sertos_stream_buffer_delete E h s' \<noteq> None \<and>
    sertos_stream_buffer_reset E h s' \<noteq> None \<and> sertos_stream_buffer_set_trigger_level E h len s' \<noteq> None \<and>
    (\<not> must_wait E (QueueSend h) s' \<or> ticks = SERTOS_NO_WAIT \<longrightarrow> sertos_queue_send E h item ticks s' \<noteq> None) \<and>
    (\<not> must_wait E (QueueRecv h) s' \<or> ticks = SERTOS_NO_WAIT \<longrightarrow>
       sertos_queue_receive E h item ticks s' \<noteq> None \<and> sertos_queue_peek E h item ticks s' \<noteq> None) \<and>
    (\<not> must_wait E (StreamSend h) s' \<or> ticks = SERTOS_NO_WAIT \<longrightarrow> sertos_stream_buffer_send E h buf len ticks s' \<noteq> None) \<and>
    (\<not> must_wait E (StreamRecv h) s' \<or> ticks = SERTOS_NO_WAIT \<longrightarrow> sertos_stream_buffer_receive E h buf len ticks s' \<noteq> None) \<and>
    (current_runs s' \<longrightarrow> sertos_scheduler_tick E s' \<noteq> None \<and> sertos_scheduler_yield E s' \<noteq> None \<and>
       sertos_scheduler_delay E ticks s' \<noteq> None \<and> sertos_scheduler_delay_ms E ms s' \<noteq> None \<and>
       sertos_scheduler_delay_until E wake period s' \<noteq> None \<and> sertos_sem_take E h ticks s' \<noteq> None \<and>
       (must_wait E wl s' \<and> ticks \<noteq> SERTOS_NO_WAIT \<longrightarrow> wait_phase E wl ticks s' \<noteq> None)) \<and>
    sertos_scheduler_start E s' \<noteq> None \<and> (free_block t s' \<longrightarrow> sertos_task_create_static E config t out s' \<noteq> None) \<and>
    (other_unblocked t s' \<longrightarrow> sertos_task_suspend E t s' \<noteq> None \<and> sertos_task_resume E t s' \<noteq> None \<and> sertos_task_delete E t s' \<noteq> None) \<and>
    (may_set_priority t s' \<longrightarrow> sertos_task_set_priority E t prio s' \<noteq> None)"
proof -
  obtain L' where inv: "kernel_inv bits s' L'" using kernel_env.kernel_run_keeps [OF assms(1,5,4,2,3)] by blast
  then have sys: "sys_inv bits s' L'" by (simp add: kernel_inv_def)
  note E = assms(1,2)
  have "sertos_scheduler_tick E s' \<noteq> None" if "current_runs s'"
    by (rule kernel_env.tick_step [OF E(1) inv E(2) that assms(3)]) simp
  note facts = this kernel_env.kernel_calls_total [OF E(1) sys E(2)] kernel_env.task_calls_total [OF E(1) sys E(2)]
    kernel_env.buffer_isr_calls_return [OF E(1) sys] kernel_env.buffer_calls_return [OF E(1) sys E(2)]
    kernel_env.transfers_return [OF E(1) sys E(2)] kernel_env.task_management_total [OF E(1) sys E(2)]
  show ?thesis by (intro conjI impI; (elim conjE)?; rule facts; assumption)
qed

theorem kernel_calls_return_witness:
  "\<exists>s0. sertos_scheduler_init_with_config m4_env None 0x700 boot = Some (SERTOS_STATUS_OK, s0) \<and>
     sertos_scheduler_tick m4_env s0 \<noteq> None \<and> sertos_sem_take m4_env 0x900 7 s0 \<noteq> None"
proof -
  obtain s0 L0 where s0: "sertos_scheduler_init_with_config m4_env None 0x700 boot = Some (SERTOS_STATUS_OK, s0)"
    "kernel_inv ref_bits s0 L0" "sertos_current_tcb s0 = NULL" by (rule boot_inv, rule that)
  then have c: "current_runs s0" by (simp add: current_runs_def)
  note total = kernel_calls_return [OF m4_env_facts(1,2) m4_handlers s0(2) kernel_run.start, where h = "0x900" and ticks = 7]
  have "sertos_scheduler_tick m4_env s0 \<noteq> None" "sertos_sem_take m4_env 0x900 7 s0 \<noteq> None" using total c by simp_all
  then show ?thesis using s0(1) by blast
qed

text \<open>C3: in every state of a run in which the current task is RUNNING, or there is none yet, each step that a run can take changes
  the state of a living task only as the transition table
  \<open>s_task_transitions\<close> of the code allows, also where the code writes the state without consulting the table: in
  switches, delays, waits, wake-ups, time-outs and deletions.
  Steps that are taken between the parking of the current task and the switch are not covered.\<close>

theorem kernel_transitions_allowed:
  assumes "kernel_env E bits" and "pending_port E" and "good_handlers E bits" and "kernel_inv bits s L" and "kernel_run E n s s1"
    and "kernel_step E s1 s2" and "current_running s1" and "valid_task (tcbs s1) a" and "tcb_state (tcbs s1 a) \<noteq> SERTOS_TASK_STATE_TERMINATED"
  shows "tcb_state (tcbs s2 a) = tcb_state (tcbs s1 a) \<or>
    sertos_task_is_valid_transition (tcb_state (tcbs s1 a)) (tcb_state (tcbs s2 a))"
proof -
  obtain L1 where "kernel_inv bits s1 L1" using kernel_env.kernel_run_keeps [OF assms(1,5,4,2,3)] by blast
  then have "follows (tcbs s1) (tcbs s2)" using kernel_env.kernel_step_follows [OF assms(1,6) _ assms(2,3,7)] by blast
  then show ?thesis using assms(8,9) by (simp add: follows_def)
qed

theorem kernel_transitions_allowed_witness:
  "\<exists>s0 s1. sertos_scheduler_init_with_config m4_env None 0x700 boot = Some (SERTOS_STATUS_OK, s0) \<and>
     sertos_scheduler_start m4_env s0 = Some s1 \<and> tcb_state (tcbs s1 (s_idle_tcb m4_env)) \<noteq> SERTOS_TASK_STATE_BLOCKED"
proof -
  obtain s0 L0 where s0: "sertos_scheduler_init_with_config m4_env None 0x700 boot = Some (SERTOS_STATUS_OK, s0)"
    "kernel_inv ref_bits s0 L0" "sertos_current_tcb s0 = NULL" "valid_task (tcbs s0) (s_idle_tcb m4_env)"
    "tcb_state (tcbs s0 (s_idle_tcb m4_env)) = SERTOS_TASK_STATE_READY" by (rule boot_inv, rule that)
  obtain s1 where s1: "sertos_scheduler_start m4_env s0 = Some s1" by (rule boot_starts) (use s0(1) that in auto)
  have "current_running s0" using s0(3) by (simp add: current_running_def)
  moreover have "kernel_step m4_env s0 s1" using kernel_call.Start [OF s1] by (simp add: kernel_step_def)
  moreover note kernel_transitions_allowed [OF m4_env_facts(1,2) m4_handlers s0(2) kernel_run.start _ _ s0(4), of s1]
  ultimately
  have "tcb_state (tcbs s1 (s_idle_tcb m4_env)) \<noteq> SERTOS_TASK_STATE_BLOCKED"
    using s0(5) by (auto simp: sertos_task_is_valid_transition_def s_task_transitions_def)
  then show ?thesis using s0(1) s1 by blast
qed

text \<open>C4: whatever happened before, a switch leaves exactly one task RUNNING, the current one, and no task that
  could run has a higher priority.\<close>

theorem switch_runs_highest:
  assumes "kernel_env E bits" and "pending_port E" and "good_handlers E bits" and "kernel_inv bits s L" and "kernel_run E n s s1"
    and "sertos_scheduler_perform_switch E s1 = Some (t, s2)" and "valid_task (tcbs s2) a"
    and "tcb_state (tcbs s2 a) \<in> {SERTOS_TASK_STATE_READY, SERTOS_TASK_STATE_RUNNING}"
  shows "t = sertos_current_tcb s2 \<and> tcb_state (tcbs s2 t) = SERTOS_TASK_STATE_RUNNING \<and>
    tcb_priority (tcbs s2 a) \<le> tcb_priority (tcbs s2 t) \<and> (tcb_state (tcbs s2 a) = SERTOS_TASK_STATE_RUNNING \<longrightarrow> a = t)"
proof -
  obtain L1 where "kernel_inv bits s1 L1" using kernel_env.kernel_run_keeps [OF assms(1,5,4,2,3)] by blast
  then have "sys_inv bits s1 L1" by (simp add: kernel_inv_def)
  from kernel_env.switch_highest [OF assms(1) this assms(6-8)] show ?thesis by blast
qed

text \<open>Two tasks of different priority; 0x100 runs and 0x200 is ready.\<close>

definition pair_layout :: layout where
  "pair_layout = [(ReadyQ 5, StateNode 0x100), (ReadyQ 2, StateNode 0x200), (TaskRegistry, RegistryNode 0x200),
     (TaskRegistry, RegistryNode 0x100)]"

definition pair_tcbs :: "addr \<Rightarrow> tcb" where
  "pair_tcbs a = (if a = 0x100 then demo_tcb 5 SERTOS_TASK_STATE_RUNNING
     else if a = 0x200 then demo_tcb 2 SERTOS_TASK_STATE_READY
     else (demo_tcb 0 SERTOS_TASK_STATE_TERMINATED)\<lparr>tcb_magic := 0\<rparr>)"

definition pair :: ref_state where
  "pair = demo_state pair_layout pair_tcbs 0x100"

text \<open>Small states whose tasks are all in ready queues, with timers initialised and none started.\<close>

lemma ready_demo_inv:
  assumes ok: "layout_ok T ops" and ls: "\<forall>(l, n) \<in> set ops. (\<exists>p. l = ReadyQ p) \<or> l = TaskRegistry"
    and tk: "tasks_ok T cur (lists_of ops)"
  shows "kernel_inv ref_bits (demo_state ops T cur) (lists_of ops)"
proof -
  let ?s = "demo_state ops T cur"
  have k: "kinv ref_bits ?s (lists_of ops)" by (rule demo_kinv [OF ok])
  have none: "lists_of ops wl = Some []" if "is_wait_list wl \<or> wl = ActiveTimers" for wl
    using that ls by (auto simp: lists_of_def filter_empty_conv)
  have "TimerNode a \<notin> snd ` set ops" for a
  proof
    assume "TimerNode a \<in> snd ` set ops"
    then obtain l where l: "(l, TimerNode a) \<in> set ops" by force
    then show False using kinv_typed [OF k, of l "TimerNode a"] ls by (auto simp: on_lists_of)
  qed
  moreover have "sems_ok ?s (lists_of ops)"
    using none by (auto simp: sems_ok_def sem_inv_def sem_handle_ok_def on_list_def demo_state_def)
  moreover have "bufs_ok ?s (lists_of ops)"
  proof -
    have "owner_ok wl ?s" if "on_list (lists_of ops) wl n" "is_wait_list wl" for wl n using that none by (simp add: on_list_def)
    then show ?thesis using none by (simp add: bufs_ok_def)
  qed
  moreover have "waits_sorted T (lists_of ops)" using none by (auto simp: waits_sorted_def wait_sorted_def)
  ultimately show ?thesis
    using k tk none
    by (auto simp: kernel_inv_def sys_inv_def timers_ok_def timer_inv_def timer_handle_ok_def on_list_def demo_state_def)
qed

lemma pair_inv: "kernel_inv ref_bits pair (lists_of pair_layout)"
  unfolding pair_def
proof (rule ready_demo_inv)
  show "layout_ok pair_tcbs pair_layout"
    by (simp add: layout_ok_def pair_layout_def op_ok_def pair_tcbs_def demo_tcb_def SERTOS_CONFIG_MAX_PRIORITIES_def)
  have v: "valid_task pair_tcbs a \<longleftrightarrow> a = 0x100 \<or> a = 0x200" for a
    by (auto simp: valid_task_def pair_tcbs_def demo_tcb_def SERTOS_TASK_MAGIC_WORD_def)
  have "placed pair_tcbs 0x100 (lists_of pair_layout) a" if "valid_task pair_tcbs a" for a
    using that unfolding v by (auto simp: placed_def on_lists_of pair_layout_def pair_tcbs_def demo_tcb_def SERTOS_CONFIG_MAX_PRIORITIES_def)
  then show "tasks_ok pair_tcbs 0x100 (lists_of pair_layout)"
    by (auto simp: tasks_ok_def linked_def on_lists_of v) (auto simp: pair_layout_def)
qed (simp add: pair_layout_def)

theorem switch_runs_highest_witness:
  "\<exists>t s2. sertos_scheduler_perform_switch m4_env pair = Some (t, s2) \<and> tcb_priority (tcbs s2 0x200) \<le> tcb_priority (tcbs s2 t) \<and>
     t = sertos_current_tcb s2"
proof -
  have "case sertos_scheduler_perform_switch m4_env pair of None \<Rightarrow> False
    | Some (t, s2) \<Rightarrow> valid_task (tcbs s2) 0x200 \<and> tcb_state (tcbs s2 0x200) = SERTOS_TASK_STATE_READY"
    by code_simp
  then obtain t s2 where "sertos_scheduler_perform_switch m4_env pair = Some (t, s2)" "valid_task (tcbs s2) 0x200"
    "tcb_state (tcbs s2 0x200) = SERTOS_TASK_STATE_READY" by (auto split: option.splits)
  then show ?thesis using switch_runs_highest [OF m4_env_facts(1,2) m4_handlers pair_inv kernel_run.start, of t s2 "0x200"] by blast
qed

text \<open>C6: in every state that a run reaches, whoever follows the \<open>next\<close> pointers in memory from the head of a ready queue, the delay
  list, the registry, the timer list or the wait list of a semaphore, queue or stream buffer that exists, finds only nodes
  that are embedded in an object that exists and is in the state that the list is for, as the unchecked \<open>container_of\<close> of the code takes for
  granted: ready queues hold READY and RUNNING tasks of their priority, the delay list BLOCKED ones, a wait list the BLOCKED tasks that
  record it, the registry the tasks that are not terminated, and the timer list active timers. Conversely each task and timer is
  found where its state says: READY and RUNNING tasks in the queue of their priority, BLOCKED ones on the delay list or on
  the wait list they record, which is that of an object that exists unless it is a mutex, which runs do not model.\<close>

theorem list_nodes_typed:
  assumes "kernel_env E bits" and "pending_port E" and "good_handlers E bits" and "kernel_inv bits s L" and "kernel_run E n s s'"
  shows "(kernel_list s' l \<and> found_on (list_heap s') l x \<longrightarrow> node_typed s' l x) \<and>
    (valid_task (tcbs s') a \<longrightarrow>
      (tcb_state (tcbs s' a) \<in> {SERTOS_TASK_STATE_READY, SERTOS_TASK_STATE_RUNNING} \<longrightarrow>
        found_on (list_heap s') (ReadyQ (unat (tcb_priority (tcbs s' a)))) (StateNode a)) \<and>
      (tcb_state (tcbs s' a) = SERTOS_TASK_STATE_BLOCKED \<longrightarrow> found_on (list_heap s') DelayList (StateNode a) \<or>
        (\<exists>wl. tcb_wait_list (tcbs s' a) = Some wl \<and> (kernel_list s' wl \<or> (\<exists>h. wl = MutexWait h)) \<and>
          found_on (list_heap s') wl (EventNode a))) \<and>
      (tcb_state (tcbs s' a) \<noteq> SERTOS_TASK_STATE_TERMINATED \<longrightarrow> found_on (list_heap s') TaskRegistry (RegistryNode a))) \<and>
    (timer_handle_ok tm s' \<and> tmr_is_active (timers s' tm) \<longrightarrow> found_on (list_heap s') ActiveTimers (TimerNode tm))"
proof -
  obtain L' where i: "kernel_inv bits s' L'" using kernel_env.kernel_run_keeps [OF assms(1,5,4,2,3)] by blast
  then have k: "kinv bits s' L'" and tm: "timers_ok s' L'" by (simp_all add: kernel_inv_def sys_inv_def)
  have found: "found_on (list_heap s') k n" if "on_list L' k n" for k n
    using that found_on_dll [OF heap_ok_dll [OF kinv_heap [OF k]]] by (auto elim: on_listE)
  have "node_typed s' l x" if kl: "kernel_list s' l" and fx: "found_on (list_heap s') l x"
  proof -
    obtain ns where ns: "L' l = Some ns" by (rule kernel_list_Some [OF i kl])
    then have "x \<in> set ns" using found_on_dll [OF heap_ok_dll [OF kinv_heap [OF k] ns]] fx by simp
    then show ?thesis using node_typed_inv [OF i] ns by (simp add: on_list_def)
  qed
  moreover have "found_on (list_heap s') ActiveTimers (TimerNode tm)" if "timer_handle_ok tm s'" "tmr_is_active (timers s' tm)"
    by (rule found) (use that tm in \<open>auto simp: timers_ok_def timer_inv_def\<close>)
  ultimately show ?thesis using task_found [OF i, of a] found by blast
qed

text \<open>Task 0x100 waits for an item of an empty queue.\<close>

declare insert_wait_list_loop.simps [code]

theorem list_nodes_typed_witness:
  "\<exists>s1. wait_phase m4_env (QueueRecv 0x900) 7 pair = Some (SERTOS_STATUS_OK, s1) \<and>
     (\<forall>l x. kernel_list s1 l \<and> found_on (list_heap s1) l x \<longrightarrow> node_typed s1 l x) \<and> kernel_list s1 (QueueRecv 0x900) \<and>
     found_on (list_heap s1) TaskRegistry (RegistryNode 0x100) \<and> found_on (list_heap s1) (ReadyQ 2) (StateNode 0x200)"
proof -
  have "case wait_phase m4_env (QueueRecv 0x900) 7 pair of None \<Rightarrow> False
    | Some (r, s1) \<Rightarrow> r = SERTOS_STATUS_OK \<and> kernel_list s1 (QueueRecv 0x900) \<and>
        valid_task (tcbs s1) 0x100 \<and> tcb_state (tcbs s1 0x100) = SERTOS_TASK_STATE_BLOCKED \<and>
        valid_task (tcbs s1) 0x200 \<and> tcb_state (tcbs s1 0x200) = SERTOS_TASK_STATE_READY \<and> unat (tcb_priority (tcbs s1 0x200)) = 2"
    by code_simp
  then obtain s1 where s1: "wait_phase m4_env (QueueRecv 0x900) 7 pair = Some (SERTOS_STATUS_OK, s1)" "kernel_list s1 (QueueRecv 0x900)"
    "valid_task (tcbs s1) 0x100" "tcb_state (tcbs s1 0x100) = SERTOS_TASK_STATE_BLOCKED"
    "valid_task (tcbs s1) 0x200" "tcb_state (tcbs s1 0x200) = SERTOS_TASK_STATE_READY" "unat (tcb_priority (tcbs s1 0x200)) = 2"
    by (auto split: option.splits)
  have c: "current_runs pair" by (simp add: pair_def demo_state_def current_runs_def pair_tcbs_def demo_tcb_def)
  have w: "must_wait m4_env (QueueRecv 0x900) pair" by code_simp
  have run: "kernel_run m4_env 0 pair s1"
    by (rule kernel_run.call [OF kernel_run.start kernel_call.Wait [OF c w _ s1(1)]]) (simp add: SERTOS_NO_WAIT_def)
  note typed = list_nodes_typed [OF m4_env_facts(1,2) m4_handlers pair_inv run]
  have "found_on (list_heap s1) TaskRegistry (RegistryNode 0x100)" using typed [where a = "0x100"] s1(3,4) by simp
  moreover have "found_on (list_heap s1) (ReadyQ 2) (StateNode 0x200)" using typed [where a = "0x200"] s1(5-7) by simp
  ultimately show ?thesis using typed s1(1,2) by blast
qed

text \<open>C5: a task that calls \<open>sertos_scheduler_delay\<close> for some ticks stays BLOCKED, and loses one tick of its delay
  with every tick, through every \<open>kernel_run\<close> that follows with fewer ticks; if the last tick comes when the current task
  has not parked itself, it makes the sleeper READY, and no earlier one does.
  A run in this sense has no suspend, resume or delete of a BLOCKED task, such as the sleeper, which would end its sleep early, and no tick
  between the parking of a task and the switch; and timer callbacks and the tick hook leave sleeping tasks alone (\<open>good_handlers\<close>).\<close>

theorem delay_wakes_on_time:
  assumes "kernel_env E bits" and "pending_port E" and "good_handlers E bits" and "kernel_inv bits s L" and "current_runs s"
    and "s_is_running s" and "sertos_current_tcb s = c" and "c \<noteq> NULL" and "ticks \<noteq> 0"
    and "sertos_scheduler_delay E ticks s = Some (r, s0)" and "kernel_run E n s0 s1" and "n < unat ticks"
  shows "tcb_state (tcbs s1 c) = SERTOS_TASK_STATE_BLOCKED \<and> unat (tcb_delay_ticks (tcbs s1 c)) = unat ticks - n \<and>
    (Suc n = unat ticks \<and> current_runs s1 \<longrightarrow>
      (\<exists>s2. sertos_scheduler_tick E s1 = Some s2 \<and> tcb_state (tcbs s2 c) = SERTOS_TASK_STATE_READY))"
proof -
  have sys: "sys_inv bits s L" using assms(4) by (simp add: kernel_inv_def)
  have z: "asleep (tcbs s0) c" "tcb_delay_ticks (tcbs s0 c) = ticks"
    by (rule kernel_env.delay_step [OF assms(1) sys assms(2,5), of ticks]; use assms(6-10) in simp)+
  obtain L0 where i0: "kernel_inv bits s0 L0"
    using kernel_env.kernel_call_keeps [OF assms(1) kernel_call.Delay [OF assms(5,10)] assms(4,2)] unfolding call_keeps_def by blast
  have z1: "asleep (tcbs s1) c" "unat (tcb_delay_ticks (tcbs s1 c)) = unat ticks - n"
    using kernel_env.kernel_run_sleeps [OF assms(1,11) i0 assms(2,3) z(1)] assms(12) unfolding z(2) by blast+
  obtain L1 where i1: "kernel_inv bits s1 L1" using kernel_env.kernel_run_keeps [OF assms(1,11) i0 assms(2,3)] by blast
  have "\<exists>s2. sertos_scheduler_tick E s1 = Some s2 \<and> tcb_state (tcbs s2 c) = SERTOS_TASK_STATE_READY"
    if last: "Suc n = unat ticks" "current_runs s1"
  proof -
    obtain s2 where s2: "sertos_scheduler_tick E s1 = Some s2" "counts_down (tcbs s1) (tcbs s2)"
      by (rule kernel_env.tick_step [OF assms(1) i1 assms(2) last(2) assms(3)], rule that)
    have "tcb_delay_ticks (tcbs s1 c) \<le> 1" using z1(2) last(1) by (simp add: word_le_nat_alt)
    then show ?thesis using s2 z1(1) by (auto simp: counts_down_def)
  qed
  then show ?thesis using z1 by (simp add: asleep_def)
qed

theorem delay_wakes_on_time_witness:
  "\<exists>s0 t s1 s2. sertos_scheduler_delay m4_env 1 pair = Some (SERTOS_STATUS_OK, s0) \<and>
     sertos_scheduler_perform_switch m4_env s0 = Some (t, s1) \<and> tcb_state (tcbs s1 0x100) = SERTOS_TASK_STATE_BLOCKED \<and>
     sertos_scheduler_tick m4_env s1 = Some s2 \<and> tcb_state (tcbs s2 0x100) = SERTOS_TASK_STATE_READY"
proof -
  have "case sertos_scheduler_delay m4_env 1 pair of None \<Rightarrow> False
    | Some (r, s0) \<Rightarrow> r = SERTOS_STATUS_OK \<and> (case sertos_scheduler_perform_switch m4_env s0 of None \<Rightarrow> False
      | Some (t, s1) \<Rightarrow> current_runs s1)"
    by code_simp
  then obtain s0 t s1 where s: "sertos_scheduler_delay m4_env 1 pair = Some (SERTOS_STATUS_OK, s0)"
    "sertos_scheduler_perform_switch m4_env s0 = Some (t, s1)" "current_runs s1" by (auto split: option.splits)
  have "current_runs pair" "s_is_running pair" "sertos_current_tcb pair = 0x100"
    by (simp_all add: pair_def demo_state_def current_runs_def pair_tcbs_def demo_tcb_def)
  moreover have "kernel_run m4_env 0 s0 s1" by (rule kernel_run.call [OF kernel_run.start kernel_call.Switch [OF s(2)]])
  ultimately show ?thesis
    using s delay_wakes_on_time [OF m4_env_facts(1,2) m4_handlers pair_inv, of "0x100" 1 SERTOS_STATUS_OK s0 0 s1] by simp
qed

section \<open>A tick before the switch\<close>

text \<open>The node of a task that is on the delay list is removed from and appended to a ready queue: removal links its
  neighbours on the delay list to each other, and the ready queue ends with the node of a task that is not there.\<close>

lemma foreign_requeue:
  assumes ok: "heap_ok h L" and ds: "L DelayList = Some ds" "n \<in> set ds" and ns: "L (ReadyQ p) = Some ns" "ns \<noteq> []"
  defines "h' \<equiv> ref_insert_tail (ReadyQ p) n (ref_remove (ReadyQ p) n h)"
  shows "prv h' (Root (ReadyQ p)) = Some n" and "k \<noteq> DelayList \<Longrightarrow> nxt h' (Root k) = nxt h (Root k)"
proof -
  obtain us vs where uv: "ds = us @ n # vs" using ds(2) by (meson split_list)
  let ?p = "last (Root DelayList # us)" and ?q = "hd (vs @ [Root DelayList])"
  have d: "dll h DelayList ds" "dll h (ReadyQ p) ns" using heap_ok_dll [OF ok] ds(1) ns(1) by blast+
  have nr: "\<not> is_Root m" if "m \<in> set ds \<union> set ns" for m using d that by (auto simp: dll_def)
  have q: "?q = Root DelayList \<or> ?q \<in> set ds" and pp: "?p = Root DelayList \<or> ?p \<in> set ds" using uv by (cases vs; auto)+
  have nd: "\<not> is_Root n" using nr ds(2) by blast
  have far: "?p \<noteq> Root k" "?q \<noteq> Root k" if "k \<noteq> DelayList" for k using pp q nr that by fastforce+
  have rem: "ref_remove (ReadyQ p) n h = set_cnt (ReadyQ p) (cnt h (ReadyQ p) - 1) (set_prv ?q (Some ?p) (set_nxt ?p (Some ?q) h))"
    using dll_nxt [of h DelayList us n vs] dll_prv [of h DelayList us n vs] d(1) uv by (simp add: ref_remove_def)
  let ?t = "last ns"
  have "prv h (Root (ReadyQ p)) = Some ?t" using d(2) ns(2) by (auto simp: dll_def dest: chain_prv_last)
  then have t: "prv (ref_remove (ReadyQ p) n h) (Root (ReadyQ p)) = Some ?t" using far [of "ReadyQ p"] by (simp add: rem)
  have h': "h' = link_before (ReadyQ p) n (Root (ReadyQ p)) ?t (ref_remove (ReadyQ p) n h)"
    by (simp add: h'_def ref_insert_tail_def t)
  show "prv h' (Root (ReadyQ p)) = Some n" using nd by (auto simp: h' link_before_def)
  have "?t \<in> set ns" using ns(2) by simp
  then have "\<not> is_Root ?t" using nr by blast
  then have "Root k \<noteq> ?t" "Root k \<noteq> n" using nd by (metis is_Root.simps(1))+
  then show "nxt h' (Root k) = nxt h (Root k)" if "k \<noteq> DelayList"
    using far [OF that] by (simp add: h' rem link_before_def)
qed

text \<open>A list of control blocks is shorter than memory, so its 32-bit count is exact.\<close>

lemma ready_count:
  assumes k: "kinv bits s L" and ms: "L (ReadyQ p) = Some ms"
  shows "unat (cnt (list_heap s) (ReadyQ p)) = length ms"
proof -
  have d: "dll (list_heap s) (ReadyQ p) ms" by (rule heap_ok_dll [OF kinv_heap [OF k] ms])
  have "set ms \<subseteq> StateNode ` (UNIV - {NULL})"
  proof
    fix n assume "n \<in> set ms"
    then have "list_typed (ReadyQ p) n" using kinv_typed [OF k, of "ReadyQ p" n] ms by (simp add: on_list_def)
    then show "n \<in> StateNode ` (UNIV - {NULL})" by (cases n) auto
  qed
  then have "card (set ms) \<le> card (StateNode ` (UNIV - {NULL :: addr}))" by (intro card_mono) auto
  also have "\<dots> \<le> card (UNIV - {NULL :: addr})" by (rule card_image_le) simp
  also have "\<dots> < 2 ^ 32" by (simp add: card_Diff_singleton card_word)
  finally have "length ms < 2 ^ 32" using d by (simp add: dll_def distinct_card)
  then show ?thesis using d by (simp add: dll_def unat_of_nat take_bit_nat_eq_self)
qed

lemma parked_not_in_queue:
  assumes inv: "kernel_inv bits s L" and p: "p < SERTOS_CONFIG_MAX_PRIORITIES"
    and tail: "prv (list_heap s) (Root (ReadyQ p)) = Some (StateNode c)"
  shows "tcb_state (tcbs s c) \<noteq> SERTOS_TASK_STATE_BLOCKED"
proof -
  have i: "sys_inv bits s L" and k: "kinv bits s L" using inv by (simp_all add: kernel_inv_def sys_inv_def)
  obtain ms where ms: "L (ReadyQ p) = Some ms" using kinv_ready_list [OF k p] .
  have "dll (list_heap s) (ReadyQ p) ms" by (rule heap_ok_dll [OF kinv_heap [OF k] ms])
  then have "prv (list_heap s) (Root (ReadyQ p)) = Some (last (Root (ReadyQ p) # ms))" by (auto simp: dll_def dest: chain_prv_last)
  then have "StateNode c \<in> set ms" using tail by (cases ms rule: rev_cases) auto
  then have "on_list L (ReadyQ p) (StateNode c)" using ms by (simp add: on_list_def)
  then show ?thesis using ready_state [OF i] by fastforce
qed

text \<open>The tick in the state that a delay leaves before its switch.\<close>

lemma tick_requeues_parked:
  assumes k: "kinv ref_bits s L" and c: "sertos_current_tcb s = c" "c \<noteq> NULL" and ds: "L DelayList = Some ds" "StateNode c \<in> set ds"
    and p: "p = unat (tcb_priority (tcbs s c))" and ms: "L (ReadyQ p) = Some ms" "1 < length ms"
    and slicing: "s_time_slicing_enabled s" and tm: "s_timer_subsystem_initialized s \<Longrightarrow> L ActiveTimers = Some []"
    and ticks: "1 < tcb_delay_ticks (tcbs s c)"
  obtains s' where "sertos_scheduler_tick quiet_env s = Some s'" and "tcbs s' c = tick_tcb (tcbs s c)"
    and "prv (list_heap s') (Root (ReadyQ p)) = Some (StateNode c)"
proof -
  let ?n = "StateNode c" and ?crit = "fst (sertos_port_enter_critical quiet_env (port s))"
  let ?s2 = "(s\<lparr>port := snd (sertos_port_enter_critical quiet_env (port s))\<rparr>)
    \<lparr>s_system_ticks := atomic_store_relaxed quiet_env (s_system_ticks s) (atomic_load_relaxed quiet_env (s_system_ticks s) + 1)\<rparr>"
  let ?L3 = "tick_lists (tcbs s) [] ds L"
  have k2: "kinv ref_bits ?s2 L" using k by simp
  have T2: "tcbs ?s2 = tcbs s" by simp
  obtain b s3 where s3: "process_delayed_tasks quiet_env ?s2 = Some (b, s3)" "kinv ref_bits s3 ?L3" "sched_frame ?s2 s3"
    "tcbs s3 = (\<lambda>a. if StateNode a \<in> set ds then tick_tcb (tcbs s a) else tcbs s a)"
    by (rule kernel_env.process_delayed_tasks_refines [OF quiet_kernel_env k2 ds(1), unfolded T2], rule that)
  note f3 = sched_frameD [OF s3(3)] sched_frame_timer [OF s3(3)]
  obtain ms3 where ms3: "?L3 (ReadyQ p) = Some ms3" "1 < length ms3" using ms by (simp add: tick_lists_def)
  have ds3: "?L3 DelayList = Some (filter (\<lambda>n. \<not> expires (tcbs s) n) ds)" by (simp add: tick_lists_def)
  have n3: "?n \<in> set (filter (\<lambda>n. \<not> expires (tcbs s) n) ds)" using ds(2) ticks by (simp add: expires_def)
  have tc: "tcbs s3 c = tick_tcb (tcbs s c)" using ds(2) by (simp add: s3(4))
  then have pr: "unat (tcb_priority (tcbs s3 c)) = p" by (simp add: p tick_tcb_def)
  have ne: "ms3 \<noteq> []" using ms3(2) by auto
  let ?g = "\<lambda>h. ref_insert_tail (ReadyQ p) ?n (ref_remove (ReadyQ p) ?n h)"
  let ?s4 = "upd_heap ?g s3"
  note fq = foreign_requeue [OF kinv_heap [OF s3(2)] ds3 n3 ms3(1) ne]
  have "1 < cnt (list_heap s3) (ReadyQ p)" using ready_count [OF s3(2) ms3(1)] ms3(2) by (simp add: word_less_nat_alt)
  then have s4: "process_time_slicing quiet_env s3 = ?s4"
    using c slicing pr by (simp add: process_time_slicing_def Let_def upd_heap_def quiet_env_def ref_env_def f3)
  have st: "sertos_timer_tick quiet_env ?s4 = Some ?s4"
  proof (cases "s_timer_subsystem_initialized s")
    case True
    then have "?L3 ActiveTimers = Some []" using tm by (simp add: tick_lists_def)
    then have "dll (list_heap s3) ActiveTimers []" by (rule heap_ok_dll [OF kinv_heap [OF s3(2)]])
    then have "nxt (list_heap s3) (Root ActiveTimers) = Some (Root ActiveTimers)" by (simp add: dll_Nil)
    then have "linked_list_peek_head quiet_env ActiveTimers (list_heap ?s4) = None"
      using fq(2) [of ActiveTimers] by (simp add: quiet_env_def ref_env_def ref_peek_head_def upd_heap_def)
    then show ?thesis using True by (simp add: sertos_timer_tick_def timer_tick_loop.simps)
  qed (simp add: sertos_timer_tick_def f3 upd_heap_def)
  let ?s7 = "exit_critical quiet_env ?crit ?s4"
  have peek: "linked_list_peek_head quiet_env (ReadyQ q) (?g h) = linked_list_peek_head quiet_env (ReadyQ q) h"
    if "h = list_heap s3" for q h
    unfolding that using fq(2) [of "ReadyQ q"] by (simp add: quiet_env_def ref_env_def ref_peek_head_def)
  have "sertos_scheduler_select_next_task quiet_env (?s7\<lparr>port := q\<rparr>) = sertos_scheduler_select_next_task quiet_env s3" for q
    by (simp add: sertos_scheduler_select_next_task_def upd_heap_def exit_critical_def peek cong: option.case_cong)
  then have "sertos_scheduler_select_next_task quiet_env (?s7\<lparr>port := q\<rparr>) \<noteq> None" for q
    using kernel_env.select_next_refines [OF quiet_kernel_env s3(2)] by simp
  then obtain q r where s8: "sertos_scheduler_switch_context quiet_env ?s7 = Some (?s7\<lparr>port := q, s_reschedule_pending := r\<rparr>)"
    by (rule kernel_env.switch_context_effect [of quiet_env ref_bits ?s7, OF quiet_kernel_env _ quiet_pending])
  have hk: "call_hook quiet_env f x = Some x" for f x by (simp add: quiet_env_def ref_env_def)
  have "sertos_scheduler_tick quiet_env s = Some (?s7\<lparr>port := q, s_reschedule_pending := r\<rparr>)"
    using s8 slicing f3(6) by (simp add: sertos_scheduler_tick_def enter_critical_eq s3(1) s4 st hk Let_def)
  then show thesis by (rule that) (use tc fq(1) in \<open>simp_all add: upd_heap_def\<close>)
qed

text \<open>C40: in the reference environment, in every consistent state in which a task runs, time slicing is on, at least two other tasks
  are in its ready queue and no timer is active: if the running task delays itself for more than one tick and a tick arrives before
  the switch that the delay requested, the tick returns and leaves the task BLOCKED, with its delay counted down, and at the tail
  of its ready queue, and the kernel is no longer consistent.\<close>

theorem tick_revives_parked_task:
  assumes "kernel_inv ref_bits s L" and "s_is_running s" and "sertos_current_tcb s = c" and "c \<noteq> NULL"
    and "tcb_state (tcbs s c) = SERTOS_TASK_STATE_RUNNING" and "s_time_slicing_enabled s"
    and "s_timer_subsystem_initialized s \<Longrightarrow> L ActiveTimers = Some []"
    and "L (ReadyQ (unat (tcb_priority (tcbs s c)))) = Some ns" and "2 < length ns" and "1 < ticks"
    and "sertos_scheduler_delay quiet_env ticks s = Some (r, s1)"
  shows "\<exists>s2. sertos_scheduler_tick quiet_env s1 = Some s2 \<and> tcb_state (tcbs s2 c) = SERTOS_TASK_STATE_BLOCKED \<and>
    tcb_delay_ticks (tcbs s2 c) = ticks - 1 \<and>
    prv (list_heap s2) (Root (ReadyQ (unat (tcb_priority (tcbs s c))))) = Some (StateNode c) \<and> \<not> (\<exists>L'. kernel_inv ref_bits s2 L')"
proof -
  let ?p = "unat (tcb_priority (tcbs s c))"
  let ?L1 = "blocked_lists (tcbs s) c ?p None True L"
  have i: "sys_inv ref_bits s L" and k: "kinv ref_bits s L" using assms(1) by (simp_all add: kernel_inv_def sys_inv_def)
  have v: "valid_task (tcbs s) c" using i assms(3,4) by (simp add: sys_inv_def tasks_ok_def)
  have on: "on_list L (ReadyQ ?p) (StateNode c)" by (rule placed_ready [OF i v]) (simp add: assms(5))
  have p: "?p < SERTOS_CONFIG_MAX_PRIORITIES" using placed_valid [OF i v] by (simp add: placed_def)
  have t0: "ticks \<noteq> 0" using assms(10) by auto
  obtain s' where s': "sertos_scheduler_delay quiet_env ticks s =
      map_option (Pair SERTOS_STATUS_OK) (sertos_scheduler_switch_context quiet_env s')" "kinv ref_bits s' ?L1"
    "tcbs s' = (tcbs s)(c := (tcbs s c)\<lparr>tcb_state := SERTOS_TASK_STATE_BLOCKED, tcb_delay_ticks := ticks\<rparr>)"
    "sertos_current_tcb s' = c" "call_frame s s'"
    by (rule kernel_env.delay_refines [OF quiet_kernel_env k assms(2,3) on t0], rule that)
  have "sertos_scheduler_select_next_task quiet_env (s'\<lparr>port := q\<rparr>) \<noteq> None" for q
    using kernel_env.select_next_refines [OF quiet_kernel_env, of "s'\<lparr>port := q\<rparr>" ?L1] s'(2) by simp
  then obtain q r where "sertos_scheduler_switch_context quiet_env s' = Some (s'\<lparr>port := q, s_reschedule_pending := r\<rparr>)"
    by (rule kernel_env.switch_context_effect [of quiet_env ref_bits s', OF quiet_kernel_env _ quiet_pending])
  then have s1: "s1 = s'\<lparr>port := q, s_reschedule_pending := r\<rparr>" using assms(11) s'(1) by simp
  have fr: "s_time_slicing_enabled s' = s_time_slicing_enabled s" "s_timer_subsystem_initialized s' = s_timer_subsystem_initialized s"
    using call_frameD [OF s'(5)] call_frame_slicing [OF s'(5)] by simp_all
  obtain ds where ds: "L DelayList = Some ds" using kinv_delay_list [OF k] .
  have L1: "?L1 DelayList = Some (ds @ [StateNode c])" "?L1 (ReadyQ ?p) = Some (remove1 (StateNode c) ns)" "?L1 ActiveTimers = L ActiveTimers"
    using ds assms(8) by (simp_all add: blocked_lists_def)
  have m: "1 < length (remove1 (StateNode c) ns)" using assms(8,9) on by (simp add: on_list_def length_remove1)
  have tc: "tcbs s1 c = (tcbs s c)\<lparr>tcb_state := SERTOS_TASK_STATE_BLOCKED, tcb_delay_ticks := ticks\<rparr>" by (simp add: s1 s'(3))
  obtain s2 where s2: "sertos_scheduler_tick quiet_env s1 = Some s2" "tcbs s2 c = tick_tcb (tcbs s1 c)"
    "prv (list_heap s2) (Root (ReadyQ ?p)) = Some (StateNode c)"
  proof (rule tick_requeues_parked [OF _ _ assms(4) L1(1) _ _ L1(2) m, of s1])
    show "kinv ref_bits s1 ?L1" using s'(2) by (simp add: s1)
    show "s_timer_subsystem_initialized s1 \<Longrightarrow> ?L1 ActiveTimers = Some []" using assms(7) fr(2) L1(3) by (simp add: s1)
  qed (use s'(4) fr(1) assms(6,10) tc in \<open>simp_all add: s1\<close>)
  have "tcb_state (tcbs s2 c) = SERTOS_TASK_STATE_BLOCKED" "tcb_delay_ticks (tcbs s2 c) = ticks - 1"
    using not_le [of ticks 1] assms(10) by (simp_all add: s2(2) tc tick_tcb_def)
  then show ?thesis using s2(1,3) parked_not_in_queue [OF _ p s2(3)] by blast
qed

text \<open>Three tasks of priority 5; 0x100 runs.\<close>

definition trio_tcbs :: "addr \<Rightarrow> tcb" where
  "trio_tcbs a = (if a = 0x100 then demo_tcb 5 SERTOS_TASK_STATE_RUNNING
     else if a = 0x200 \<or> a = 0x300 then demo_tcb 5 SERTOS_TASK_STATE_READY
     else (demo_tcb 0 SERTOS_TASK_STATE_TERMINATED)\<lparr>tcb_magic := 0\<rparr>)"

definition trio_layout :: layout where
  "trio_layout = [(ReadyQ 5, StateNode 0x300), (ReadyQ 5, StateNode 0x200), (ReadyQ 5, StateNode 0x100),
     (TaskRegistry, RegistryNode 0x300), (TaskRegistry, RegistryNode 0x200), (TaskRegistry, RegistryNode 0x100)]"

lemma trio_inv: "kernel_inv ref_bits (demo_state trio_layout trio_tcbs 0x100) (lists_of trio_layout)"
proof (rule ready_demo_inv)
  show "layout_ok trio_tcbs trio_layout"
    by (simp add: layout_ok_def trio_layout_def op_ok_def trio_tcbs_def demo_tcb_def SERTOS_CONFIG_MAX_PRIORITIES_def)
  have v: "valid_task trio_tcbs a \<longleftrightarrow> a = 0x100 \<or> a = 0x200 \<or> a = 0x300" for a
    by (auto simp: valid_task_def trio_tcbs_def demo_tcb_def SERTOS_TASK_MAGIC_WORD_def)
  have "placed trio_tcbs 0x100 (lists_of trio_layout) a" if "valid_task trio_tcbs a" for a
    using that unfolding v by (auto simp: placed_def on_lists_of trio_layout_def trio_tcbs_def demo_tcb_def SERTOS_CONFIG_MAX_PRIORITIES_def)
  moreover have "valid_task trio_tcbs a" if "linked (lists_of trio_layout) a" for a
    using that unfolding v linked_def on_lists_of trio_layout_def by auto
  moreover have "valid_task trio_tcbs 0x100" by (simp add: v)
  ultimately show "tasks_ok trio_tcbs 0x100 (lists_of trio_layout)" by (simp add: tasks_ok_def)
qed (simp add: trio_layout_def)

theorem tick_revives_parked_task_witness:
  "\<exists>s1 s2. sertos_scheduler_delay quiet_env 5 (demo_state trio_layout trio_tcbs 0x100) = Some (SERTOS_STATUS_OK, s1) \<and>
     sertos_scheduler_tick quiet_env s1 = Some s2 \<and> tcb_state (tcbs s2 0x100) = SERTOS_TASK_STATE_BLOCKED \<and>
     prv (list_heap s2) (Root (ReadyQ 5)) = Some (StateNode 0x100) \<and> \<not> (\<exists>L'. kernel_inv ref_bits s2 L')"
proof -
  let ?s = "demo_state trio_layout trio_tcbs 0x100"
  have "case sertos_scheduler_delay quiet_env 5 ?s of None \<Rightarrow> False | Some (r, s1) \<Rightarrow> r = SERTOS_STATUS_OK" by code_simp
  then obtain s1 where s1: "sertos_scheduler_delay quiet_env 5 ?s = Some (SERTOS_STATUS_OK, s1)" by (auto split: option.splits)
  have f: "s_is_running ?s" "sertos_current_tcb ?s = 0x100" "tcb_state (tcbs ?s 0x100) = SERTOS_TASK_STATE_RUNNING"
    "s_time_slicing_enabled ?s" "unat (tcb_priority (tcbs ?s 0x100)) = 5"
    by (simp_all add: demo_state_def trio_tcbs_def demo_tcb_def)
  have L: "lists_of trio_layout ActiveTimers = Some []"
    "lists_of trio_layout (ReadyQ 5) = Some [StateNode 0x100, StateNode 0x200, StateNode 0x300]"
    by (simp_all add: lists_of_def trio_layout_def)
  show ?thesis
    using tick_revives_parked_task [OF trio_inv f(1,2) _ f(3,4) L(1), unfolded f(5), OF _ L(2) _ _ s1] s1 by auto
qed

end
