(* ===== verification/Spec2Isabelle.thy ===== *)
theory Spec2Isabelle
  imports Sertos_Mutex_Spec Sertos_Stream_Spec Sertos_Task_Spec Sertos_Timer_Spec
    Sertos_Time_Spec Sertos_Port_Spec Sertos_Host_Spec Sertos_System_Spec
begin

text \<open>
  SertOS is a preemptive priority kernel for micro-controllers in C: a scheduler with one ready queue per priority
  and a bitmap of the non-empty ones (\<open>src/src/sertos_scheduler.c\<close>), tasks (\<open>sertos_task.c\<close>), semaphores, mutexes
  with priority inheritance, message queues and stream buffers (\<open>sertos_sem.c\<close>, \<open>sertos_mutex.c\<close>,
  \<open>sertos_queue.c\<close>, \<open>sertos_stream_buffer.c\<close>), software timers (\<open>sertos_timer.c\<close>), run-time statistics
  (\<open>sertos_stats.c\<close>), and ports for eight Cortex-M cores, RISC-V, POSIX and Windows (\<open>src/port\<close>). This library
  models all of them and proves what each promises its callers.

  \<^bold>\<open>How the parts interact.\<close> Every operation runs between the enter and exit of the port's critical section. A
  task that has to wait leaves its ready queue for the wait list of an object and, with a finite timeout, for the
  delay list; the tick handler counts the delay list down; whoever releases an object wakes the first waiter, and
  \<open>sertos_scheduler_switch_context\<close> asks the port for a switch. The switch itself is the port's: on hardware it is
  the PendSV exception, on a host a hand-over between threads. Interrupt handlers use the operations with suffix
  \<open>from_isr\<close>, which never wait and report by a flag whether a switch is due.

  \<^bold>\<open>State and effects.\<close> The record \<open>kstate\<close> (Sertos_State) is the kernel's static state together with the stores of
  control blocks and objects, indexed by their 32-bit addresses (\<open>NULL = 0\<close>), the flag and tick cells that callers
  pass by pointer, the bytes of memory (stacks and buffers) and the state of the port. Doubly linked lists are
  pointer structures: \<open>lheap\<close> has the next, previous and count fields of every node and root, so that aliasing and
  dangling links are visible. An operation takes and returns the state; \<open>option\<close> is used where the code may fail to
  return (a loop, a callback, the port), and \<open>None\<close> is not returning. Counters, ticks and sizes are \<open>32 word\<close>,
  accumulated run times \<open>64 word\<close>, and wrap as in C. Error codes are values of \<open>SertosStatus\<close>; every early return
  of the code is a branch of the model.

  \<^bold>\<open>What is not in the repository.\<close> The list, bitmap, ring buffer, memory pool, atomics and CRC modules are git
  submodules. They, the callbacks and hooks of the application, and the port are the fields of the record \<open>env\<close>, an
  argument of every operation. Their documented behaviour is stated by locales: \<open>linked_list\<close> (Sertos_Lists),
  \<open>bitmap\<close>, \<open>atomic_cell\<close> and their union \<open>kernel_env\<close> (Sertos_Modules), \<open>ring_buffer\<close> (Sertos_Ring), \<open>stack_port\<close>
  (Sertos_Stack), \<open>critical_section\<close> and \<open>framed_stack\<close> (Sertos_Cortex). Sertos_Reference gives an executable
  implementation of each submodule and discharges the locales for it; every witness runs on that environment or on a
  port of the repository.

  \<^bold>\<open>The theories.\<close>
  \<^item> Sertos_Prelude: named collections, the predicate \<open>returns\<close>, lemmas on words, options and lists.
  \<^item> Sertos_Lists: the pointer lists, their representation predicate \<open>heap_ok\<close> and the list contract.
  \<^item> Sertos_State, Sertos_Modules: data types of \<open>src/inc\<close>, configuration, environment, contracts of the submodules.
  \<^item> Sertos_Ready, Sertos_Delay, Sertos_WaitLists: ready queues, selection, delay list, time slicing, wait lists, with
    the kernel invariant \<open>kinv bits s L\<close>: the pointer structure represents the lists \<open>L\<close>, the bitmap marks exactly the
    non-empty ready queues, the tasks on the ready queues, the delay list and the wait lists have the priority, delay and
    wait list recorded that the list asks for.
    Each operation is shown to implement a function on \<open>L\<close> (\<open>tick_lists\<close>, \<open>wake_lists\<close>, \<open>blocked_lists\<close>,
    \<open>abs_select\<close>, \<open>sliced_lists\<close>).
  \<^item> Sertos_Stack, Sertos_Stats, Sertos_Timer: stack painting and the high-water mark, statistics, timers.
  \<^item> Sertos_Sched: the rest of the scheduler: switch, tick, yield, lock, delay, block, start and stop.
  \<^item> Sertos_Ring, Sertos_Reference: the ring buffer contract and the reference environment with a sample kernel state.
  \<^item> Sertos_Sem, Sertos_Mutex, Sertos_Queue, Sertos_Stream, Sertos_Task, Sertos_Blocking: the objects, tasks and
    scheduler initialisation, each with its invariant and the lemmas about waking and waiting they share.
  \<^item> Sertos_Cortex, Sertos_Ports: the operations of \<open>port/arm/cortex-*/port_cpu.c\<close> and the eight ports as environments.
  \<^item> Sertos_Switch: \<open>SVC_Handler\<close> and \<open>PendSV_Handler\<close> of each core (\<open>port_context.s\<close>) as instruction lists and a
    processor that executes them; what is saved, where, and that it is restored.
  \<^item> Sertos_Riscv, Sertos_Trap: \<open>port/riscv/port_cpu.c\<close> and the trap handler of \<open>port_context.S\<close>. Sertos_Posix, Sertos_Windows: the host ports.
  \<^item> Sertos_System, Sertos_System_Calls, Sertos_System_Buffers, Sertos_Timer_Calls, Sertos_System_Run: the kernel as a state machine.
    \<open>kernel_call\<close> is one call of a task or an interrupt handler (start, switch, yield, delays, lock, unlock, task,
    semaphore, queue, stream buffer and timer operations) on a port that only requests switches, as the Cortex-M ports do; \<open>kernel_step\<close> adds
    the tick, and \<open>kernel_run E n\<close> is a sequence of steps with \<open>n\<close> ticks. A transfer that has to wait is split where it
    parks its caller: \<open>wait_phase\<close> is the part before, and Sertos_System_Buffers shows that each blocking call begins with it. \<open>sys_inv\<close>
    adds to \<open>kinv\<close> that every task is where its state says, that wait lists are in priority order, that the semaphores are
    consistent and that tasks wait only for queues and stream buffers that exist, \<open>kernel_inv\<close> also that the active timers are those on the timer list. One lemma per operation shows
    that it returns, keeps the invariant, changes task states along the code's transition table (\<open>follows\<close>) and leaves
    sleeping tasks alone (\<open>sleeps_on\<close>), which only the tick counts down (\<open>counts_down\<close>).
    The tick runs application code, the timer callbacks and the hook: \<open>good_handlers\<close> says what they must keep, and
    the locale \<open>timer_walk\<close> of Sertos_Timer carries any such invariant through the walk over the active timers.
  \<^item> The theories with suffix _Spec hold the properties: Sertos_Sched_Spec and Sertos_Sem_Spec (selection, tick,
    switching, locking, delays, waiting, semaphores), Sertos_Mutex_Spec, Sertos_Queue_Spec, Sertos_Stream_Spec,
    Sertos_Task_Spec (initialisation, creation, suspension), Sertos_Timer_Spec, Sertos_Time_Spec (conversion of
    durations, periodic delays, statistics), Sertos_Port_Spec (critical sections, first task, context switch on
    Cortex-M and RISC-V, RISC-V timer), Sertos_Host_Spec (threads of the host ports) and Sertos_System_Spec (every run
    of the kernel from its initialisation).

  \<^bold>\<open>What the theorems show.\<close> Selection returns the head of the highest ready queue; the tick, delays, waits and
  wake-ups implement their abstract functions and keep \<open>kinv\<close>, so they compose: a kernel initialised
  from blank memory stays consistent through every run; the calls a run can take return; while the current task has not parked itself, a step changes
  the states of tasks as the transition table allows; a switch runs a task of the highest priority; who follows the pointers of a list in memory finds exactly
  the nodes of existing objects in the state the list is for; and a delay, in a run, ends in exactly its last tick. Each object's operations are
  characterised on every branch, a contended mutex for every timeout and its hand-over also for a boosted owner (then without the whole invariant);
  nested scheduler locks defer a switch to the outermost unlock; initialisation establishes the invariant; new stacks lie in their buffers and the
  context switch restores a task exactly as it was saved, on RISC-V for \<open>ecall\<close> and every interrupt, the tick with its handlers
  included (\<open>calm_handlers\<close> says what these must leave alone), and also while the scheduler is locked. On POSIX one thread executes task code as long as the
  tick thread takes no step, nobody has stopped the scheduler and no task has deleted itself. Several theorems state what the code does where it does not
  do what it means to: a tick between a task's parking and its switch
  makes the parked task ready again, a timed wait cannot report success, an owner unlocked while boosted or a task that suspends
  itself stays in a ready queue, a stopped timer may still fire, the size of a queue wraps, a preempting tick on POSIX
  leaves two threads executing, and a late task on Windows never starts.

  \<^bold>\<open>Loops.\<close> Loops over lists of unknown length and retry loops are \<open>partial_function (option)\<close> and are shown to
  return: the list walks from every state with \<open>kinv\<close>, reading the RISC-V time while the clock grows,
  \<open>next_power_of_two\<close> exactly for arguments up to \<open>2 ^ 31\<close>. The waiting loops of queues and stream buffers are
  unfolded once per wake-up, because what happens in between is the port's. The loop after a reset request never
  returns. Counted loops are structural recursions; no definition uses fuel.

  \<^bold>\<open>Concurrency.\<close> An operation of the kernel is one step; the critical sections of the code are what justifies it,
  and Sertos_Port_Spec shows that they mask interrupts. What other tasks do while a caller waits is the parameter
  \<open>sertos_port_yield\<close>. Only the host ports are modelled as interleaved steps of threads (\<open>posix_step\<close>, \<open>win_step\<close>).

  \<^bold>\<open>Not modelled.\<close> The stack that C functions called from a handler use; the stubs that the POSIX file has for
  a build on Windows; the umbrella header and the weak-symbol macro. The host ports are modelled with 32-bit pointers. The
  runs of Sertos_System_Run leave out mutexes (inheritance raises an owner that waits without moving it in its wait list, so the
  lists lose their order), creation from the memory pool, initialising an object that is in use or the scheduler again, and calls that can break the
  invariant: suspending, resuming or deleting the current task or a BLOCKED one; a new priority for the RUNNING task or one that waits in a wait list; a tick, yield, delay or
  wait between the parking of the current task and the switch; a timer callback that changes timers; a task that continues its transfer on a queue that was
  deleted while it waited. Of the POSIX threads, the fate of a thread whose cancellation takes effect inside \<open>pthread_join\<close> on itself is only that it takes no more steps.
\<close>

end
